(* ===== verification/PyFloat.thy ===== *)
theory PyFloat
  imports Complex_Main "HOL-Library.Log_Nat"
begin

text \<open>
  Python's \<open>float\<close>: IEEE-754 binary64 with rounding to nearest, ties to even, as an executable model.
  A finite float is its exact rational value; every arithmetic operation computes the exact result
  and rounds it once (\<open>fl\<close>), with gradual underflow (quantum \<open>2^-1074\<close>) and overflow to the
  infinities. Comparison with \<open>NaN\<close> is false, as in Python. The sign of a zero is not represented:
  \<open>-0.0\<close> and \<open>0.0\<close> compare equal in Python, and no operation modelled here tells them apart except
  the printed sign of a zero.

  The lemmas show that rounding is monotone, odd and idempotent, that \<open>fle\<close> is a total preorder on
  the floats other than \<open>NaN\<close>, and that addition and subtraction are monotone for it.
\<close>

section \<open>Rounding to 53 bits\<close>

definition pow2 :: "int \<Rightarrow> rat" where
  "pow2 e = (if 0 \<le> e then of_int (2 ^ nat e) else 1 / of_int (2 ^ nat (- e)))"

text \<open>The exponent of the leading bit of a positive rational.\<close>

definition rat_ilog2 :: "rat \<Rightarrow> int" where
  "rat_ilog2 x =
     (let (n, d) = quotient_of x; k = bitlen n - bitlen d
      in if pow2 k \<le> x then k else k - 1)"

text \<open>Rounding to the nearest integer, ties to even.\<close>

definition rne :: "rat \<Rightarrow> int" where
  "rne y =
     (let f = \<lfloor>y\<rfloor>; r = y - of_int f
      in if r < 1 / 2 then f
         else if 1 / 2 < r then f + 1
         else if even f then f else f + 1)"

text \<open>The exponent of the last bit kept: 53 significant bits, not below the subnormal quantum.\<close>

definition fexp :: "rat \<Rightarrow> int" where
  "fexp x = max (rat_ilog2 \<bar>x\<bar> - 52) (- 1074)"

definition rnd :: "rat \<Rightarrow> rat" where
  "rnd x =
     (if x = 0 then 0
      else let u = pow2 (fexp x) in of_int (rne (x / u)) * u)"

lemma pow2_powi: "pow2 e = 2 powi e"
  by (simp add: pow2_def power_int_def inverse_eq_divide power_one_over)

lemma pow2_pos [simp]: "0 < pow2 e"
  by (simp add: pow2_powi)

lemma pow2_nonneg [simp]: "0 \<le> pow2 e"
  by (simp add: pow2_powi)

lemma pow2_nonzero [simp]: "pow2 e \<noteq> 0"
  by (simp add: pow2_powi)

lemma pow2_add: "pow2 (a + b) = pow2 a * pow2 b"
  by (simp add: pow2_powi power_int_add)

lemma pow2_diff: "pow2 (a - b) = pow2 a / pow2 b"
  by (simp add: pow2_powi power_int_diff)

lemma pow2_less: "a < b \<Longrightarrow> pow2 a < pow2 b"
  by (simp add: pow2_powi power_int_strict_increasing)

lemma pow2_le_iff [simp]: "pow2 a \<le> pow2 b \<longleftrightarrow> a \<le> b"
  by (metis pow2_less linorder_not_less order_le_less)

lemma pow2_less_iff [simp]: "pow2 a < pow2 b \<longleftrightarrow> a < b"
  by (metis pow2_le_iff linorder_not_less)

lemma pow2_int: "0 \<le> e \<Longrightarrow> pow2 e = of_int (2 ^ nat e)"
  by (simp add: pow2_def)

lemma bitlen_bracket:
  assumes "0 < n"
  shows "pow2 (bitlen n - 1) \<le> of_int n" and "of_int n < pow2 (bitlen n)"
proof -
  have pos: "1 \<le> bitlen n"
    using assms bitlen_nonneg [of n] bitlen_eq_zero_iff [of n] by linarith
  have "2 ^ nat (bitlen n - 1) \<le> n \<and> n < 2 ^ nat (bitlen n)"
    using bitlen_bounds [OF assms] .
  then show "pow2 (bitlen n - 1) \<le> of_int n" and "of_int n < pow2 (bitlen n)"
    using pos by (simp_all add: pow2_int del: of_int_power)
qed

lemma rat_ilog2_bracket:
  assumes "0 < x"
  shows "pow2 (rat_ilog2 x) \<le> x" and "x < pow2 (rat_ilog2 x + 1)"
proof -
  obtain n d where q: "quotient_of x = (n, d)"
    by (cases "quotient_of x") auto
  have x: "x = of_int n / of_int d" and d: "0 < d"
    using quotient_of_div [OF q] quotient_of_denom_pos [OF q] by auto
  then have n: "0 < n"
    using assms by (simp add: zero_less_divide_iff)
  let ?k = "bitlen n - bitlen d"
  have "pow2 (?k - 1) \<le> x"
  proof -
    have "pow2 (bitlen n - 1) / pow2 (bitlen d) \<le> of_int n / of_int d"
      using bitlen_bracket [OF n] bitlen_bracket [OF d] n d
      by (intro frac_le) auto
    then show ?thesis by (simp add: x pow2_diff mult.commute)
  qed
  moreover have "x < pow2 (?k + 1)"
  proof -
    have "of_int n / of_int d < pow2 (bitlen n) / pow2 (bitlen d - 1)"
      using bitlen_bracket [OF n] bitlen_bracket [OF d] n d
      by (intro frac_less) auto
    then show ?thesis by (simp add: x pow2_diff pow2_add)
  qed
  ultimately show "pow2 (rat_ilog2 x) \<le> x" and "x < pow2 (rat_ilog2 x + 1)"
    by (auto simp: rat_ilog2_def q Let_def)
qed

lemma rat_ilog2_mono: "0 < x \<Longrightarrow> x \<le> y \<Longrightarrow> rat_ilog2 x \<le> rat_ilog2 y"
proof -
  assume "0 < x" and "x \<le> y"
  then have "pow2 (rat_ilog2 x) < pow2 (rat_ilog2 y + 1)"
    using rat_ilog2_bracket [of x] rat_ilog2_bracket [of y] by linarith
  then show ?thesis by simp
qed

lemma rne_int [simp]: "rne (of_int k) = k"
  by (simp add: rne_def)

lemma rne_bracket: "\<lfloor>y\<rfloor> \<le> rne y" "rne y \<le> \<lfloor>y\<rfloor> + 1"
  by (auto simp: rne_def Let_def)

lemma rne_mono:
  assumes "y \<le> z"
  shows "rne y \<le> rne z"
proof (cases "\<lfloor>y\<rfloor> = \<lfloor>z\<rfloor>")
  case True
  then show ?thesis using assms by (auto simp: rne_def Let_def)
next
  case False
  then have "\<lfloor>y\<rfloor> + 1 \<le> \<lfloor>z\<rfloor>"
    using floor_mono [OF assms] by linarith
  then show ?thesis using rne_bracket [of y] rne_bracket [of z] by linarith
qed

lemma rne_neg: "rne (- y) = - rne y"
proof (cases "y = of_int \<lfloor>y\<rfloor>")
  case True
  then have "rne (- y) = rne (of_int (- \<lfloor>y\<rfloor>))" and "rne y = \<lfloor>y\<rfloor>"
    by (metis of_int_minus, metis rne_int)
  then show ?thesis by (simp only: rne_int)
next
  case False
  have "\<lfloor>- y\<rfloor> = - \<lfloor>y\<rfloor> - 1"
    using False by (intro floor_unique) linarith+
  then show ?thesis by (auto simp: rne_def Let_def)
qed

lemma rne_close: "\<bar>of_int (rne y) - y\<bar> \<le> 1 / 2"
proof -
  have "rne y = \<lfloor>y\<rfloor> \<and> y - of_int \<lfloor>y\<rfloor> \<le> 1 / 2 \<or>
        rne y = \<lfloor>y\<rfloor> + 1 \<and> 1 / 2 \<le> y - of_int \<lfloor>y\<rfloor>"
    by (auto simp: rne_def Let_def)
  then show ?thesis using floor_correct [of y] by (auto simp del: of_int_floor_le)
qed

lemma fexp_neg [simp]: "fexp (- x) = fexp x"
  by (simp add: fexp_def)

lemma fexp_mono: "0 < x \<Longrightarrow> x \<le> y \<Longrightarrow> fexp x \<le> fexp y"
  using rat_ilog2_mono [of x y] by (auto simp: fexp_def)

lemma rnd_0 [simp]: "rnd 0 = 0"
  by (simp add: rnd_def)

lemma rnd_eq: "rnd x = of_int (rne (x / pow2 (fexp x))) * pow2 (fexp x)"
  using rne_int [of 0] by (simp add: rnd_def Let_def)

lemma rnd_neg [simp]: "rnd (- x) = - rnd x"
  by (simp add: rnd_eq rne_neg flip: minus_divide_left)

lemma grid_quotient:
  assumes "e \<le> e'"
  shows "of_int m * pow2 e' / pow2 e = of_int (m * 2 ^ nat (e' - e))"
proof -
  have "pow2 e' / pow2 e = of_int (2 ^ nat (e' - e))"
    using assms pow2_int [of "e' - e"] by (simp add: pow2_diff)
  then show ?thesis by (simp flip: times_divide_eq_right)
qed

text \<open>Rounding never crosses a multiple of a power of two that is at least its own quantum.\<close>

lemma rnd_le_grid:
  assumes "x \<le> of_int m * pow2 e" and "fexp x \<le> e"
  shows "rnd x \<le> of_int m * pow2 e"
proof -
  have "x / pow2 (fexp x) \<le> of_int (m * 2 ^ nat (e - fexp x))"
    using assms by (simp only: grid_quotient [symmetric] divide_right_mono pow2_nonneg)
  then have "rne (x / pow2 (fexp x)) \<le> m * 2 ^ nat (e - fexp x)"
    using rne_mono rne_int by metis
  then have "(of_int (rne (x / pow2 (fexp x))) :: rat) \<le> of_int (m * 2 ^ nat (e - fexp x))"
    by (simp only: of_int_le_iff)
  then have "of_int (rne (x / pow2 (fexp x))) \<le> of_int m * pow2 e / pow2 (fexp x)"
    using assms by (simp only: grid_quotient)
  then show ?thesis by (simp add: rnd_eq pos_le_divide_eq)
qed

lemma grid_le_rnd:
  assumes "of_int m * pow2 e \<le> x" and "fexp x \<le> e"
  shows "of_int m * pow2 e \<le> rnd x"
  using rnd_le_grid [of "- x" "- m" e] assms by simp

lemma rnd_fix: "r = of_int m * pow2 e \<Longrightarrow> fexp r \<le> e \<Longrightarrow> rnd r = r"
  using rnd_le_grid [of r m e] grid_le_rnd [of m e r] by simp

lemma rnd_nonneg: "0 \<le> x \<Longrightarrow> 0 \<le> rnd x"
  using rne_mono [of 0 "x / pow2 (fexp x)"] rne_int [of 0] by (simp add: rnd_eq)

lemma rat_ilog2_pow2 [simp]: "rat_ilog2 (pow2 L) = L"
  using rat_ilog2_bracket [of "pow2 L"] by simp

lemma fexp_pow2: "fexp (pow2 L) = max (L - 52) (- 1074)"
  by (simp add: fexp_def)

lemma fexp_ge: "- 1074 \<le> fexp x"
  by (simp add: fexp_def)

lemma rnd_pow2: "- 1074 \<le> L \<Longrightarrow> rnd (pow2 L) = pow2 L"
  by (rule rnd_fix [of _ 1 L]) (simp_all add: fexp_pow2)

lemma rnd_mono_pos:
  assumes "0 < x" and "x \<le> y"
  shows "rnd x \<le> rnd y"
proof (cases "fexp x = fexp y")
  case True
  then show ?thesis
    using assms rne_mono [of "x / pow2 (fexp x)" "y / pow2 (fexp y)"]
    by (simp add: rnd_eq divide_right_mono)
next
  case False
  let ?L = "rat_ilog2 y"
  have lt: "fexp x < fexp y" using fexp_mono [OF assms] False by simp
  then have L: "fexp y = ?L - 52" "rat_ilog2 x < ?L"
    using assms by (auto simp: fexp_def)
  have "x \<le> pow2 ?L"
    using rat_ilog2_bracket (2) [of x] assms L pow2_le_iff [of "rat_ilog2 x + 1" ?L] by linarith
  then have "rnd x \<le> pow2 ?L"
    using rnd_le_grid [of x 1 ?L] L lt by simp
  also have "pow2 ?L \<le> rnd y"
    using grid_le_rnd [of 1 ?L y] rat_ilog2_bracket (1) [of y] assms L by simp
  finally show ?thesis .
qed

lemma rnd_mono:
  assumes "x \<le> y"
  shows "rnd x \<le> rnd y"
proof -
  consider "0 < x" | "y < 0" | "x \<le> 0" "0 \<le> y" by linarith
  then show ?thesis
  proof cases
    case 1
    then show ?thesis using assms by (rule rnd_mono_pos)
  next
    case 2
    then have "rnd (- y) \<le> rnd (- x)" using assms by (intro rnd_mono_pos) auto
    then show ?thesis by simp
  next
    case 3
    then have "0 \<le> rnd (- x)" and "0 \<le> rnd y" by (simp_all add: rnd_nonneg del: rnd_neg)
    then show ?thesis by simp
  qed
qed

text \<open>The results of rounding are exactly its fixed points.\<close>

lemma rnd_idem [simp]: "rnd (rnd x) = rnd x"
proof -
  have pos: "rnd (rnd x) = rnd x" if "0 < x" for x
  proof (cases "rnd x \<le> 0")
    case True
    then show ?thesis using rnd_nonneg [of x] that by simp
  next
    case False
    let ?L = "rat_ilog2 x"
    have r: "rnd x = of_int (rne (x / pow2 (fexp x))) * pow2 (fexp x)" by (rule rnd_eq)
    have "x \<le> pow2 (max (?L + 1) (fexp x))"
      using rat_ilog2_bracket (2) [of x] that pow2_le_iff [of "?L + 1" "max (?L + 1) (fexp x)"]
      by linarith
    then have top: "rnd x \<le> pow2 (max (?L + 1) (fexp x))"
      using rnd_le_grid [of x 1 "max (?L + 1) (fexp x)"] by simp
    show ?thesis
    proof (cases "rnd x = pow2 (max (?L + 1) (fexp x))")
      case True
      then show ?thesis
        using rnd_pow2 [of "max (?L + 1) (fexp x)"] fexp_ge [of x] by (simp add: max.coboundedI2)
    next
      case False
      then have "rat_ilog2 (rnd x) < max (?L + 1) (fexp x)"
        using top rat_ilog2_bracket (1) [of "rnd x"] \<open>\<not> rnd x \<le> 0\<close>
          pow2_less_iff [of "rat_ilog2 (rnd x)" "max (?L + 1) (fexp x)"] by linarith
      then have "fexp (rnd x) \<le> fexp x"
        using \<open>\<not> rnd x \<le> 0\<close> that by (auto simp: fexp_def)
      then show ?thesis using r rnd_fix by blast
    qed
  qed
  consider "0 < x" | "x = 0" | "0 < - x" by linarith
  then show ?thesis using pos [of x] pos [of "- x"] by cases auto
qed


section \<open>Floats and their operations\<close>

datatype pyfloat = Fin rat | PInf | NInf | NaN

text \<open>The float nearest to a rational: also the value of a decimal literal of the source.\<close>

definition fl :: "rat \<Rightarrow> pyfloat" where
  "fl x =
     (let r = rnd x
      in if 2 ^ 1024 \<le> r then PInf else if r \<le> - (2 ^ 1024) then NInf else Fin r)"

text \<open>For evaluation the overflow test compares exponents.\<close>

lemma ilog2_ge_iff: "0 < r \<Longrightarrow> k \<le> rat_ilog2 r \<longleftrightarrow> pow2 k \<le> r"
proof -
  assume r: "0 < r"
  have "pow2 k \<le> r" if "k \<le> rat_ilog2 r"
    using that rat_ilog2_bracket(1) [OF r] pow2_le_iff [of k "rat_ilog2 r"] by linarith
  moreover have "k < rat_ilog2 r + 1" if "pow2 k \<le> r"
    using that rat_ilog2_bracket(2) [OF r] pow2_less_iff [of k "rat_ilog2 r + 1"] by linarith
  ultimately show ?thesis by force
qed

lemma fl_code [code]:
  "fl x =
     (let r = rnd x
      in if r = 0 \<or> rat_ilog2 \<bar>r\<bar> < 1024 then Fin r else if 0 < r then PInf else NInf)"
proof -
  have big: "(2 :: rat) ^ 1024 = pow2 1024" by (simp add: pow2_def del: power_numeral_even)
  consider "rnd x = 0" | "0 < rnd x" | "rnd x < 0" by linarith
  then show ?thesis
  proof cases
    case 1
    then show ?thesis by (simp add: fl_def)
  next
    case 2
    then have "pow2 1024 \<le> rnd x \<longleftrightarrow> \<not> rat_ilog2 (rnd x) < 1024" "\<not> rnd x \<le> - pow2 1024"
      using ilog2_ge_iff [of "rnd x" 1024] pow2_pos [of 1024] by linarith+
    then show ?thesis using 2 unfolding fl_def big by (simp add: Let_def)
  next
    case 3
    then have "rnd x \<le> - pow2 1024 \<longleftrightarrow> \<not> rat_ilog2 (- rnd x) < 1024" "\<not> pow2 1024 \<le> rnd x"
      using ilog2_ge_iff [of "- rnd x" 1024] pow2_pos [of 1024] by linarith+
    then show ?thesis using 3 unfolding fl_def big by (simp add: Let_def)
  qed
qed

text \<open>The comparisons \<open><=\<close>, \<open><\<close> and \<open>==\<close>.\<close>

fun fle :: "pyfloat \<Rightarrow> pyfloat \<Rightarrow> bool" where
  "fle NaN y = False"
| "fle NInf y = (y \<noteq> NaN)"
| "fle PInf y = (y = PInf)"
| "fle (Fin x) NaN = False"
| "fle (Fin x) NInf = False"
| "fle (Fin x) PInf = True"
| "fle (Fin x) (Fin y) = (x \<le> y)"

definition flt :: "pyfloat \<Rightarrow> pyfloat \<Rightarrow> bool" where
  "flt x y \<longleftrightarrow> fle x y \<and> \<not> fle y x"

definition feq :: "pyfloat \<Rightarrow> pyfloat \<Rightarrow> bool" where
  "feq x y \<longleftrightarrow> fle x y \<and> fle y x"

fun fneg :: "pyfloat \<Rightarrow> pyfloat" where
  "fneg (Fin x) = Fin (- x)"
| "fneg PInf = NInf"
| "fneg NInf = PInf"
| "fneg NaN = NaN"

fun fabs :: "pyfloat \<Rightarrow> pyfloat" where
  "fabs (Fin x) = Fin \<bar>x\<bar>"
| "fabs NaN = NaN"
| "fabs _ = PInf"

fun fadd :: "pyfloat \<Rightarrow> pyfloat \<Rightarrow> pyfloat" where
  "fadd (Fin x) (Fin y) = fl (x + y)"
| "fadd NaN y = NaN"
| "fadd x NaN = NaN"
| "fadd PInf NInf = NaN"
| "fadd NInf PInf = NaN"
| "fadd PInf y = PInf"
| "fadd NInf y = NInf"
| "fadd x PInf = PInf"
| "fadd x NInf = NInf"

definition fsub :: "pyfloat \<Rightarrow> pyfloat \<Rightarrow> pyfloat" where
  "fsub x y = fadd x (fneg y)"

fun inf_times :: "pyfloat \<Rightarrow> rat \<Rightarrow> pyfloat" where
  "inf_times i x = (if x = 0 then NaN else if 0 < x then i else fneg i)"

fun fmul :: "pyfloat \<Rightarrow> pyfloat \<Rightarrow> pyfloat" where
  "fmul (Fin x) (Fin y) = fl (x * y)"
| "fmul NaN y = NaN"
| "fmul x NaN = NaN"
| "fmul (Fin x) i = inf_times i x"
| "fmul i (Fin y) = inf_times i y"
| "fmul PInf i = i"
| "fmul NInf i = fneg i"

text \<open>True division; \<open>None\<close> stands for \<open>ZeroDivisionError\<close>.\<close>

fun fdiv :: "pyfloat \<Rightarrow> pyfloat \<Rightarrow> pyfloat option" where
  "fdiv x (Fin y) =
     (if y = 0 then None
      else Some (case x of Fin r \<Rightarrow> fl (r / y) | NaN \<Rightarrow> NaN | _ \<Rightarrow> inf_times x y))"
| "fdiv x NaN = Some NaN"
| "fdiv (Fin x) i = Some (Fin 0)"
| "fdiv x i = Some NaN"

text \<open>The values a \<open>float\<close> variable can hold.\<close>

definition is_f64 :: "pyfloat \<Rightarrow> bool" where
  "is_f64 x \<longleftrightarrow> (case x of Fin r \<Rightarrow> fl r = Fin r | _ \<Rightarrow> True)"

section \<open>Order and arithmetic\<close>

lemma fle_refl_iff: "fle x x \<longleftrightarrow> x \<noteq> NaN"
  by (cases x) auto

lemma fle_trans: "fle x y \<Longrightarrow> fle y z \<Longrightarrow> fle x z"
  by (cases x; cases y; cases z) auto

lemma fle_total: "x \<noteq> NaN \<Longrightarrow> y \<noteq> NaN \<Longrightarrow> fle x y \<or> fle y x"
  by (cases x; cases y) auto

lemma fle_not_NaN: "fle x y \<Longrightarrow> x \<noteq> NaN \<and> y \<noteq> NaN"
  by (cases x; cases y) auto

lemma feq_iff: "feq x y \<longleftrightarrow> x = y \<and> x \<noteq> NaN"
  by (cases x; cases y) (auto simp: feq_def)

lemma fl_not_NaN [simp]: "fl x \<noteq> NaN"
  by (simp add: fl_def Let_def)

lemma fl_mono: "x \<le> y \<Longrightarrow> fle (fl x) (fl y)"
  using rnd_mono [of x y] by (auto simp: fl_def Let_def)

lemma fl_neg: "fl (- x) = fneg (fl x)"
  by (auto simp: fl_def Let_def)

lemma fl_0 [simp]: "fl 0 = Fin 0"
  by (simp add: fl_def)

lemma is_f64_fl [simp]: "is_f64 (fl x)"
  by (auto simp: is_f64_def fl_def Let_def)

lemma is_f64_simps [simp]: "is_f64 PInf" "is_f64 NInf" "is_f64 NaN"
  by (simp_all add: is_f64_def)

lemma is_f64_fadd [simp]: "is_f64 (fadd x y)"
  by (cases "(x, y)" rule: fadd.cases) auto

lemma fle_PInf [simp]: "fle x PInf \<longleftrightarrow> x \<noteq> NaN"
  by (cases x) auto

lemma fle_NInf [simp]: "fle x NInf \<longleftrightarrow> x = NInf"
  by (cases x) auto

lemma fadd_mono:
  assumes "fle x x'" and "fle y y'" and "fadd x y \<noteq> NaN" and "fadd x' y' \<noteq> NaN"
  shows "fle (fadd x y) (fadd x' y')"
  using assms by (cases x; cases y; cases x'; cases y') (auto intro: fl_mono simp: fl_not_NaN)

lemma fneg_fneg [simp]: "fneg (fneg x) = x"
  by (cases x) auto

lemma fneg_eq_Fin_iff: "fneg y = Fin x \<longleftrightarrow> y = Fin (- x)"
  by (cases y) auto

lemma fneg_NaN_iff [simp]: "fneg x = NaN \<longleftrightarrow> x = NaN"
  by (cases x) auto

lemma fle_fneg [simp]: "fle (fneg x) (fneg y) \<longleftrightarrow> fle y x"
  by (cases x; cases y) auto

lemma fadd_commute: "fadd x y = fadd y x"
  by (cases x; cases y) (auto simp: add.commute)

lemma fsub_mono:
  assumes "fle x x'" and "fle y' y" and "fsub x y \<noteq> NaN" and "fsub x' y' \<noteq> NaN"
  shows "fle (fsub x y) (fsub x' y')"
  using assms by (auto simp: fsub_def intro: fadd_mono)

lemma is_f64_Fin: "is_f64 (Fin x) \<longleftrightarrow> fl x = Fin x"
  by (simp add: is_f64_def)

lemma is_f64_fneg [simp]: "is_f64 (fneg x) \<longleftrightarrow> is_f64 x"
  by (cases x) (auto simp: is_f64_Fin fl_neg fneg_eq_Fin_iff)

text \<open>Adding zero to a float gives it back; subtracting a non-negative float never increases.\<close>

lemma fadd_0_right [simp]: "is_f64 x \<Longrightarrow> fadd x (Fin 0) = x"
  by (cases x) (auto simp: is_f64_Fin)

lemma fsub_0 [simp]: "is_f64 x \<Longrightarrow> fsub x (Fin 0) = x"
  by (simp add: fsub_def)

lemma fadd_Fin_NaN_iff [simp]: "fadd (Fin x) y = NaN \<longleftrightarrow> y = NaN"
  by (cases y) auto

lemma fsub_Fin_NaN_iff [simp]: "fsub (Fin x) y = NaN \<longleftrightarrow> y = NaN"
  by (simp add: fsub_def)

lemma fsub_le_self:
  assumes "is_f64 x" and "fle (Fin 0) c" and "fsub x c \<noteq> NaN"
  shows "fle (fsub x c) x"
proof -
  have "x \<noteq> NaN" using assms by (auto simp: fsub_def)
  then have "fle (fsub x c) (fsub x (Fin 0))"
    using assms by (intro fsub_mono) (auto simp: fle_refl_iff)
  then show ?thesis using assms by simp
qed

lemma fl_nonneg: "0 \<le> x \<Longrightarrow> fle (Fin 0) (fl x)"
  using fl_mono [of 0 x] by simp

lemma is_f64_inf_times: "is_f64 (inf_times i x)" if "i = PInf \<or> i = NInf"
  using that by auto

lemma is_f64_fmul [simp]: "is_f64 (fmul x y)"
  by (cases "(x, y)" rule: fmul.cases) (auto intro: is_f64_inf_times)

lemma fmul_nonneg: "fle (Fin 0) x \<Longrightarrow> fle (Fin 0) y \<Longrightarrow> fmul x y \<noteq> NaN \<Longrightarrow> fle (Fin 0) (fmul x y)"
  by (cases x; cases y) (auto intro: fl_nonneg split: if_splits)

lemma fmul_mono_right:
  assumes "fle (Fin 0) a" and "fle x y" and "fmul a x \<noteq> NaN" and "fmul a y \<noteq> NaN"
  shows "fle (fmul a x) (fmul a y)"
  using assms by (cases a; cases x; cases y) (auto intro: fl_mono mult_left_mono split: if_splits)

lemma fdiv_Some_f64: "is_f64 x \<Longrightarrow> fdiv x y = Some z \<Longrightarrow> is_f64 z"
  by (cases "(x, y)" rule: fdiv.cases)
     (auto split: pyfloat.splits if_splits simp: is_f64_Fin)

lemma fdiv_mono_left:
  assumes "0 < d" and "fle x y" and "fdiv x (Fin d) = Some a" and "fdiv y (Fin d) = Some b"
  shows "fle a b"
  using assms by (cases x; cases y) (auto intro!: fl_mono divide_right_mono)

text \<open>
  The order by which Python sorts floats: that of \<open><=\<close>, extended to \<open>nan\<close> by putting it last. Python's
  \<open>sorted\<close> agrees with it on lists without \<open>nan\<close>.
\<close>

instantiation pyfloat :: linorder
begin

definition less_eq_pyfloat :: "pyfloat \<Rightarrow> pyfloat \<Rightarrow> bool" where
  "less_eq_pyfloat x y \<longleftrightarrow> fle x y \<or> y = NaN"

definition less_pyfloat :: "pyfloat \<Rightarrow> pyfloat \<Rightarrow> bool" where
  "less_pyfloat x y \<longleftrightarrow> x \<le> y \<and> \<not> y \<le> (x :: pyfloat)"

instance
proof
  fix x y z :: pyfloat
  show "x < y \<longleftrightarrow> x \<le> y \<and> \<not> y \<le> x" by (rule less_pyfloat_def)
  show "x \<le> x" by (simp add: less_eq_pyfloat_def fle_refl_iff)
  show "x \<le> z" if "x \<le> y" "y \<le> z"
    using that by (auto simp: less_eq_pyfloat_def intro: fle_trans dest: fle_not_NaN)
  show "x = y" if "x \<le> y" "y \<le> x"
    using that by (cases x; cases y) (auto simp: less_eq_pyfloat_def)
  show "x \<le> y \<or> y \<le> x"
    using fle_total [of x y] by (auto simp: less_eq_pyfloat_def)
qed

end

end
