(* ===== verification/PyBase.thy ===== *)
theory PyBase
  imports PyFloat "HOL-Library.Char_ord" "HOL-Library.List_Lexorder" "HOL-Library.Product_Lexorder"
begin

text \<open>
  The part of Python that every component of the model uses: exceptions as values, strings,
  decimal printing, dates and time stamps.
\<close>

section \<open>Exceptions\<close>

text \<open>
  An exception is a value of \<open>py_error\<close>; a computation that may raise returns \<open>'a res\<close>, and
  \<open>res_bind\<close> is the sequencing of two statements: the second runs only if the first returned.
\<close>

datatype py_error =
    ValueError
  | KeyError
  | TypeError
  | IndexError
  | ZeroDivisionError
  | OverflowError
  | RuntimeError
  | OSError
  | AttributeError
  | InvalidCandidateError string
  | InsufficientWalkforwardHistoryError "string list"

type_synonym 'a res = "py_error + 'a"

definition res_bind :: "'a res \<Rightarrow> ('a \<Rightarrow> 'b res) \<Rightarrow> 'b res" where
  "res_bind m f = (case m of Inl e \<Rightarrow> Inl e | Inr a \<Rightarrow> f a)"

definition the_or_raise :: "py_error \<Rightarrow> 'a option \<Rightarrow> 'a res" where
  "the_or_raise e x = (case x of None \<Rightarrow> Inl e | Some a \<Rightarrow> Inr a)"

text \<open>A list comprehension whose body may raise: the first exception ends it.\<close>

fun res_map :: "('a \<Rightarrow> 'b res) \<Rightarrow> 'a list \<Rightarrow> 'b list res" where
  "res_map f [] = Inr []"
| "res_map f (x # xs) = res_bind (f x) (\<lambda>y. res_bind (res_map f xs) (\<lambda>ys. Inr (y # ys)))"

named_theorems res_simps \<open>rewriting of computations that may raise\<close>
named_theorems py_str \<open>facts on printed strings\<close>

lemma res_bind_Inl [simp, res_simps]: "res_bind (Inl e) f = Inl e"
  by (simp add: res_bind_def)

lemma res_bind_Inr [simp, res_simps]: "res_bind (Inr a) f = f a"
  by (simp add: res_bind_def)

lemma res_bind_eq_Inr_iff [res_simps]:
  "res_bind m f = Inr b \<longleftrightarrow> (\<exists>a. m = Inr a \<and> f a = Inr b)"
  by (cases m) auto

lemma the_or_raise_simps [simp, res_simps]:
  "the_or_raise e None = Inl e" "the_or_raise e (Some a) = Inr a"
  by (simp_all add: the_or_raise_def)

lemma the_or_raise_eq_Inr_iff [res_simps]: "the_or_raise e x = Inr a \<longleftrightarrow> x = Some a"
  by (cases x) auto

lemma res_map_total: "(\<And>x. x \<in> set xs \<Longrightarrow> f x = Inr (g x)) \<Longrightarrow> res_map f xs = Inr (map g xs)"
  by (induction xs) auto

lemma res_map_length: "res_map f xs = Inr ys \<Longrightarrow> length ys = length xs"
  by (induction xs arbitrary: ys) (auto simp: res_simps)

lemma res_map_nth: "res_map f xs = Inr ys \<Longrightarrow> i < length xs \<Longrightarrow> f (xs ! i) = Inr (ys ! i)"
  by (induction xs arbitrary: ys i) (auto simp: res_simps nth_Cons split: nat.split)

section \<open>Strings\<close>

definition startswith :: "string \<Rightarrow> string \<Rightarrow> bool" where
  "startswith s p \<longleftrightarrow> take (length p) s = p"

definition endswith :: "string \<Rightarrow> string \<Rightarrow> bool" where
  "endswith s p \<longleftrightarrow> length p \<le> length s \<and> drop (length s - length p) s = p"

text \<open>\<open>sep.join(xs)\<close>\<close>

fun str_join :: "string \<Rightarrow> string list \<Rightarrow> string" where
  "str_join sep [] = []"
| "str_join sep [x] = x"
| "str_join sep (x # y # ys) = x @ sep @ str_join sep (y # ys)"

text \<open>\<open>s.split(sep)\<close> for a separator of one character\<close>

fun str_split :: "char \<Rightarrow> string \<Rightarrow> string list" where
  "str_split c [] = [[]]"
| "str_split c (x # xs) =
     (if x = c then [] # str_split c xs
      else case str_split c xs of [] \<Rightarrow> [[x]] | w # ws \<Rightarrow> (x # w) # ws)"

text \<open>Splitting undoes joining when the separator occurs in none of the words.\<close>

lemma str_split_plain: "c \<notin> set x \<Longrightarrow> str_split c x = [x]"
  by (induction x) auto

lemma str_split_append:
  "c \<notin> set x \<Longrightarrow> str_split c (x @ c # ys) = x # str_split c ys"
  by (induction x) auto

lemma str_split_join [py_str]:
  assumes "ws \<noteq> []" and "\<forall>w \<in> set ws. c \<notin> set w"
  shows "str_split c (str_join [c] ws) = ws"
  using assms by (induction "[c]" ws rule: str_join.induct) (auto simp: str_split_plain str_split_append)

lemma set_str_join: "set (str_join sep ws) \<subseteq> set sep \<union> \<Union> (set ` set ws)"
  by (induction sep ws rule: str_join.induct) auto

lemma length_str_join:
  "ws \<noteq> [] \<Longrightarrow> length (str_join sep ws) = sum_list (map length ws) + (length ws - 1) * length sep"
  by (induction sep ws rule: str_join.induct) (auto simp: Suc_diff_Suc)

text \<open>The part before the first occurrence of a character.\<close>

lemma takeWhile_before: "c \<notin> set x \<Longrightarrow> takeWhile (\<lambda>d. d \<noteq> c) (x @ c # ys) = x"
  by (induction x) auto

definition is_space :: "char \<Rightarrow> bool" where
  "is_space c \<longleftrightarrow> (let n = of_char c :: int in n = 32 \<or> (9 \<le> n \<and> n \<le> 13) \<or> (28 \<le> n \<and> n \<le> 31))"

definition str_strip :: "string \<Rightarrow> string" where
  "str_strip s = rev (dropWhile is_space (rev (dropWhile is_space s)))"

definition lower_char :: "char \<Rightarrow> char" where
  "lower_char c = (let n = of_char c :: int in if 65 \<le> n \<and> n \<le> 90 then char_of (n + 32) else c)"

definition str_lower :: "string \<Rightarrow> string" where
  "str_lower s = map lower_char s"

text \<open>\<open>s.replace(old, new)\<close> for a non-empty \<open>old\<close>: leftmost, non-overlapping occurrences\<close>

function str_replace :: "string \<Rightarrow> string \<Rightarrow> string \<Rightarrow> string" where
  "str_replace old new [] = []"
| "str_replace old new (c # cs) =
     (if old \<noteq> [] \<and> startswith (c # cs) old
      then new @ str_replace old new (drop (length old) (c # cs))
      else c # str_replace old new cs)"
  by pat_completeness auto
termination
  by (relation "measure (\<lambda>(old, new, s). length s)") auto

subsection \<open>Decimal printing and reading\<close>

definition digit_char :: "int \<Rightarrow> char" where
  "digit_char d = ''0123456789'' ! nat d"

definition is_digit :: "char \<Rightarrow> bool" where
  "is_digit c \<longleftrightarrow> (let n = of_char c :: int in 48 \<le> n \<and> n \<le> 57)"

definition digit_val :: "char \<Rightarrow> int" where
  "digit_val c = of_char c - 48"

text \<open>\<open>str(n)\<close> of a non-negative integer, then of any integer\<close>

function str_dec :: "int \<Rightarrow> string" where
  "str_dec n = (if n < 10 then [digit_char n] else str_dec (n div 10) @ [digit_char (n mod 10)])"
  by pat_completeness auto
termination
  by (relation "measure nat") auto

declare str_dec.simps [simp del]

definition str_int :: "int \<Rightarrow> string" where
  "str_int i = (if i < 0 then CHR ''-'' # str_dec (- i) else str_dec i)"

text \<open>\<open>f"{n:0wd}"\<close> for a non-negative \<open>n\<close>\<close>

definition zpad :: "nat \<Rightarrow> int \<Rightarrow> string" where
  "zpad w n = (let s = str_dec n in replicate (w - length s) (CHR ''0'') @ s)"

fun dec_val :: "int \<Rightarrow> string \<Rightarrow> int" where
  "dec_val acc [] = acc"
| "dec_val acc (c # cs) = dec_val (10 * acc + digit_val c) cs"

text \<open>
  \<open>int(s)\<close>: surrounding white space, an optional sign, then digits in which single underscores may
  separate digits; anything else raises. \<open>prev\<close> says whether the previous character was a digit.
\<close>

fun int_body :: "bool \<Rightarrow> int \<Rightarrow> string \<Rightarrow> int option" where
  "int_body prev acc [] = (if prev then Some acc else None)"
| "int_body prev acc (c # cs) =
     (if is_digit c then int_body True (10 * acc + digit_val c) cs
      else if c = CHR ''_'' \<and> prev \<and> cs \<noteq> [] then int_body False acc cs
      else None)"

definition py_int :: "string \<Rightarrow> int res" where
  "py_int s =
     the_or_raise ValueError
       (case str_strip s of
          [] \<Rightarrow> None
        | c # cs \<Rightarrow>
            if c = CHR ''-'' then map_option uminus (int_body False 0 cs)
            else if c = CHR ''+'' then int_body False 0 cs
            else int_body False 0 (c # cs))"

lemma digit_cases: "0 \<le> d \<Longrightarrow> d < 10 \<Longrightarrow> d \<in> {0, 1, 2, 3, 4, 5, 6, 7, 8, 9 :: int}"
  by simp presburger

lemma is_digit_digit_char [simp, py_str]: "0 \<le> d \<Longrightarrow> d < 10 \<Longrightarrow> is_digit (digit_char d)"
  using digit_cases [of d] by (auto simp: is_digit_def digit_char_def)

lemma digit_val_digit_char [simp, py_str]: "0 \<le> d \<Longrightarrow> d < 10 \<Longrightarrow> digit_val (digit_char d) = d"
  using digit_cases [of d] by (auto simp: digit_val_def digit_char_def)

lemma str_dec_nonempty [simp]: "str_dec n \<noteq> []"
  by (subst str_dec.simps) simp

lemma str_dec_digits: "0 \<le> n \<Longrightarrow> \<forall>c \<in> set (str_dec n). is_digit c"
proof (induction n rule: str_dec.induct)
  case (1 n)
  then show ?case by (subst str_dec.simps) auto
qed

lemma dec_val_append: "dec_val a (xs @ ys) = dec_val (dec_val a xs) ys"
  by (induction a xs rule: dec_val.induct) auto

lemma dec_val_str_dec [simp, py_str]: "0 \<le> n \<Longrightarrow> dec_val 0 (str_dec n) = n"
proof (induction n rule: str_dec.induct)
  case (1 n)
  then show ?case by (subst str_dec.simps) (auto simp: dec_val_append)
qed

lemma dec_val_zeros: "dec_val 0 (replicate k (CHR ''0'') @ xs) = dec_val 0 xs"
  by (induction k) (auto simp: digit_val_def)

lemma dec_val_zpad [simp, py_str]: "0 \<le> n \<Longrightarrow> dec_val 0 (zpad w n) = n"
  by (simp add: zpad_def Let_def dec_val_zeros)

lemma zpad_inject: "0 \<le> m \<Longrightarrow> 0 \<le> n \<Longrightarrow> zpad w m = zpad w n \<Longrightarrow> m = n"
  by (metis dec_val_zpad)

lemma is_digit_zero [simp]: "is_digit (CHR ''0'')"
  by (simp add: is_digit_def)

lemma zpad_digits: "0 \<le> n \<Longrightarrow> \<forall>c \<in> set (zpad w n). is_digit c"
  using str_dec_digits [of n] by (auto simp: zpad_def Let_def)

lemma length_str_dec: "n < 10 ^ Suc k \<Longrightarrow> length (str_dec n) \<le> Suc k"
proof (induction n arbitrary: k rule: str_dec.induct)
  case (1 n)
  show ?case
  proof (cases "n < 10")
    case True
    then show ?thesis by (subst str_dec.simps) auto
  next
    case False
    then obtain j where k: "k = Suc j"
      using "1.prems" by (cases k) auto
    have "n div 10 < 10 ^ Suc j" using "1.prems" k by simp
    then show ?thesis
      using "1.IH" [of j] False k by (subst str_dec.simps) auto
  qed
qed

lemma length_zpad: "n < 10 ^ Suc w \<Longrightarrow> length (zpad (Suc w) n) = Suc w"
  using length_str_dec [of n w] by (simp add: zpad_def Let_def)

subsection \<open>Fixed-point printing of floats\<close>

text \<open>
  \<open>f"{x:.nf}"\<close>: the exact value of the float, rounded half to even at the \<open>n\<close>-th decimal place, never
  in scientific notation; \<open>nan\<close> and the infinities print as words. The sign is that of the value.
\<close>

definition fixed_rat :: "nat \<Rightarrow> rat \<Rightarrow> string" where
  "fixed_rat n x =
     (let m = rne (\<bar>x\<bar> * 10 ^ n)
      in (if x < 0 then ''-'' else []) @ str_dec (m div 10 ^ n) @ ''.'' @ zpad n (m mod 10 ^ n))"

fun fixed_str :: "nat \<Rightarrow> pyfloat \<Rightarrow> string" where
  "fixed_str n (Fin x) = fixed_rat n x"
| "fixed_str n PInf = ''inf''"
| "fixed_str n NInf = ''-inf''"
| "fixed_str n NaN = ''nan''"

text \<open>Reading a decimal back: the number written by a sign, digits, a point and digits.\<close>

definition decimal_abs :: "string \<Rightarrow> rat" where
  "decimal_abs s =
     (let w = takeWhile (\<lambda>c. c \<noteq> CHR ''.'') s; f = drop (Suc (length w)) s
      in of_int (dec_val 0 w) + of_int (dec_val 0 f) / 10 ^ length f)"

definition decimal_value :: "string \<Rightarrow> rat" where
  "decimal_value s =
     (case s of CHR ''-'' # t \<Rightarrow> - decimal_abs t | _ \<Rightarrow> decimal_abs s)"

text \<open>The shape of a fixed-point number: no exponent, no word.\<close>

definition is_fixed_point :: "string \<Rightarrow> bool" where
  "is_fixed_point s \<longleftrightarrow>
     (let t = (case s of CHR ''-'' # t \<Rightarrow> t | _ \<Rightarrow> s);
          w = takeWhile is_digit t; f = drop (Suc (length w)) t
      in w \<noteq> [] \<and> drop (length w) t = CHR ''.'' # f \<and> f \<noteq> [] \<and> list_all is_digit f)"

lemma rne_nonneg: "0 \<le> y \<Longrightarrow> 0 \<le> rne y"
  using rne_mono [of 0 y] rne_int [of 0] by simp

lemma digits_no_dot: "\<forall>c \<in> set w. is_digit c \<Longrightarrow> CHR ''.'' \<notin> set w"
  by (auto simp: is_digit_def)

lemma decimal_abs_parts:
  "\<forall>c \<in> set w. is_digit c \<Longrightarrow>
   decimal_abs (w @ CHR ''.'' # f) = of_int (dec_val 0 w) + of_int (dec_val 0 f) / 10 ^ length f"
  using takeWhile_before [of "CHR ''.''" w f] digits_no_dot [of w] by (simp add: decimal_abs_def)

lemma first_digit: "0 \<le> n \<Longrightarrow> \<exists>c cs. str_dec n = c # cs \<and> is_digit c"
  using str_dec_digits [of n] by (cases "str_dec n") auto

lemma digit_not_minus: "is_digit c \<Longrightarrow> c \<noteq> CHR ''-''"
  by (auto simp: is_digit_def)

lemma decimal_value_simps:
  "decimal_value (CHR ''-'' # t) = - decimal_abs t"
  "is_digit c \<Longrightarrow> decimal_value (c # t) = decimal_abs (c # t)"
  using digit_not_minus by (auto simp: decimal_value_def split: list.split char.split bool.split)

lemma is_fixed_point_parts:
  assumes "\<forall>c \<in> set w. is_digit c" and "w \<noteq> []" and "\<forall>c \<in> set f. is_digit c" and "f \<noteq> []"
  shows "is_fixed_point (w @ CHR ''.'' # f)" and "is_fixed_point (CHR ''-'' # w @ CHR ''.'' # f)"
proof -
  have nd: "\<not> is_digit (CHR ''.'')" by (simp add: is_digit_def)
  have tw: "takeWhile is_digit (w @ CHR ''.'' # f) = w"
    using assms nd by (simp add: takeWhile_append2)
  obtain c cs where w: "w = c # cs" "c \<noteq> CHR ''-''" using assms digit_not_minus by (cases w) auto
  then have "(case w @ CHR ''.'' # f of CHR ''-'' # t \<Rightarrow> t | _ \<Rightarrow> w @ CHR ''.'' # f) = w @ CHR ''.'' # f"
    by (auto split: char.split bool.split)
  then show "is_fixed_point (w @ CHR ''.'' # f)" and "is_fixed_point (CHR ''-'' # w @ CHR ''.'' # f)"
    using assms tw by (simp_all add: is_fixed_point_def Let_def list_all_iff)
qed

lemma fixed_rat_digits:
  fixes x :: rat and n :: nat
  defines "m \<equiv> rne (\<bar>x\<bar> * 10 ^ n)"
  shows "0 \<le> m div 10 ^ n" and "0 \<le> m mod 10 ^ n" and "m mod 10 ^ n < 10 ^ n"
  by (simp_all add: m_def rne_nonneg pos_imp_zdiv_nonneg_iff)

text \<open>The printed number is the value rounded to the nearest multiple of \<open>10^-n\<close>.\<close>

lemma decimal_value_fixed_rat:
  assumes "0 < n"
  shows "decimal_value (fixed_rat n x) =
    (if x < 0 then - 1 else 1) * of_int (rne (\<bar>x\<bar> * 10 ^ n)) / 10 ^ n"
proof -
  let ?m = "rne (\<bar>x\<bar> * 10 ^ n)"
  let ?w = "str_dec (?m div 10 ^ n)" and ?f = "zpad n (?m mod 10 ^ n)"
  note d = fixed_rat_digits [of x n]
  have len: "length ?f = n" using assms d(3) length_zpad [of "?m mod 10 ^ n" "n - 1"] by simp
  have "decimal_abs (?w @ CHR ''.'' # ?f) = of_int (?m div 10 ^ n) + of_int (?m mod 10 ^ n) / 10 ^ n"
    using d str_dec_digits len by (simp add: decimal_abs_parts)
  also have "\<dots> = of_int (?m div 10 ^ n * 10 ^ n + ?m mod 10 ^ n) / 10 ^ n"
    by (simp only: of_int_add of_int_mult of_int_power of_int_numeral add_divide_distrib) simp
  also have "\<dots> = of_int ?m / 10 ^ n" by (simp only: div_mult_mod_eq)
  finally have abs: "decimal_abs (?w @ CHR ''.'' # ?f) = of_int ?m / 10 ^ n" .
  obtain c cs where c: "?w = c # cs" "is_digit c" using first_digit d by blast
  show ?thesis
    using abs c by (auto simp: fixed_rat_def Let_def decimal_value_simps)
qed

lemma fixed_rat_shape:
  assumes "0 < n"
  shows "is_fixed_point (fixed_rat n x)"
proof -
  let ?m = "rne (\<bar>x\<bar> * 10 ^ n)"
  note d = fixed_rat_digits [of x n]
  have "zpad n (?m mod 10 ^ n) \<noteq> []"
    using assms d(3) length_zpad [of "?m mod 10 ^ n" "n - 1"] by auto
  note parts = is_fixed_point_parts [OF str_dec_digits [OF d(1)] str_dec_nonempty
      zpad_digits [OF d(2)] this]
  then show ?thesis by (cases "x < 0") (simp_all add: fixed_rat_def Let_def)
qed

text \<open>So it is off by at most half a unit of its last place.\<close>

lemma fixed_rat_close:
  assumes "0 < n"
  shows "\<bar>decimal_value (fixed_rat n x) - x\<bar> \<le> 1 / (2 * 10 ^ n)"
proof -
  let ?m = "rne (\<bar>x\<bar> * 10 ^ n)"
  have eq: "\<bar>decimal_value (fixed_rat n x) - x\<bar> = \<bar>of_int ?m / 10 ^ n - \<bar>x\<bar>\<bar>"
    using assms by (auto simp: decimal_value_fixed_rat)
  have "of_int ?m / 10 ^ n - \<bar>x\<bar> = (of_int ?m - \<bar>x\<bar> * 10 ^ n) / 10 ^ n"
    by (simp add: field_simps)
  then have "\<bar>of_int ?m / 10 ^ n - \<bar>x\<bar>\<bar> = \<bar>of_int ?m - \<bar>x\<bar> * 10 ^ n\<bar> / 10 ^ n"
    by (simp only: abs_divide) simp
  also have "\<dots> \<le> (1 / 2) / 10 ^ n"
    using rne_close by (intro divide_right_mono) auto
  finally show ?thesis using eq by simp
qed

section \<open>Dates\<close>

text \<open>
  A \<open>date\<close> is its triple of year, month and day, compared lexicographically as Python compares
  dates; the constructor raises outside the years 1 to 9999. A \<open>datetime\<close> (always UTC here) is the
  number of microseconds since 1970-01-01T00:00:00, so comparison and the addition of a
  \<open>timedelta\<close> are those of integers.
\<close>

type_synonym date = "int \<times> int \<times> int"
type_synonym datetime = int

text \<open>\<open>date(y, m, 1)\<close>\<close>

definition first_of_month :: "int \<Rightarrow> int \<Rightarrow> date res" where
  "first_of_month y m =
     (if 1 \<le> y \<and> y \<le> 9999 \<and> 1 \<le> m \<and> m \<le> 12 then Inr (y, m, 1) else Inl ValueError)"

text \<open>\<open>timedelta(seconds=n)\<close> and the month stamp \<open>f"{y:04d}-{m:02d}"\<close>\<close>

definition seconds :: "int \<Rightarrow> int" where
  "seconds n = n * 1000000"

definition fmt_ym :: "int \<Rightarrow> int \<Rightarrow> string" where
  "fmt_ym y m = zpad 4 y @ ''-'' @ zpad 2 m"

end
