(* ===== verification/PyJson.thy ===== *)
theory PyJson
  imports Sha256
begin

text \<open>
  The values the program serialises (\<open>dict\<close>, \<open>list\<close>, \<open>str\<close>, \<open>int\<close>, \<open>float\<close>, \<open>bool\<close>, \<open>None\<close>) and the
  parts of the \<open>json\<close> module it calls. A \<open>dict\<close> is the list of its items in insertion order.
\<close>

datatype json =
    JNull
  | JBool bool
  | JInt int
  | JFloat pyfloat
  | JStr string
  | JList "json list"
  | JDict "(string \<times> json) list"

section \<open>Dictionaries\<close>

text \<open>\<open>d[k]\<close>, \<open>d.get(k)\<close> and the assignment \<open>d[k] = v\<close>, which keeps the position of an existing key.\<close>

definition dict_get :: "('k \<times> 'v) list \<Rightarrow> 'k \<Rightarrow> 'v option" where
  "dict_get d k = map_of d k"

definition dict_item :: "('k \<times> 'v) list \<Rightarrow> 'k \<Rightarrow> 'v res" where
  "dict_item d k = the_or_raise KeyError (map_of d k)"

fun dict_set :: "('k \<times> 'v) list \<Rightarrow> 'k \<Rightarrow> 'v \<Rightarrow> ('k \<times> 'v) list" where
  "dict_set [] k v = [(k, v)]"
| "dict_set ((k', v') # d) k v = (if k' = k then (k, v) # d else (k', v') # dict_set d k v)"

definition dict_has :: "('k \<times> 'v) list \<Rightarrow> 'k \<Rightarrow> bool" where
  "dict_has d k \<longleftrightarrow> k \<in> set (map fst d)"

text \<open>\<open>d.update(e)\<close>\<close>

fun dict_update :: "('k \<times> 'v) list \<Rightarrow> ('k \<times> 'v) list \<Rightarrow> ('k \<times> 'v) list" where
  "dict_update d [] = d"
| "dict_update d ((k, v) # e) = dict_update (dict_set d k v) e"

lemma map_of_dict_set [simp]: "map_of (dict_set d k v) = (map_of d)(k \<mapsto> v)"
  by (induction d k v rule: dict_set.induct) auto

lemma dict_get_dict_set [simp]: "dict_get (dict_set d k v) k' = (if k' = k then Some v else dict_get d k')"
  by (simp add: dict_get_def)

lemma keys_dict_set [simp]: "fst ` set (dict_set d k v) = insert k (fst ` set d)"
  by (induction d k v rule: dict_set.induct) auto

lemma distinct_dict_set: "distinct (map fst d) \<Longrightarrow> distinct (map fst (dict_set d k v))"
  by (induction d k v rule: dict_set.induct) auto

lemma map_of_dict_update: "map_of (dict_update d e) k =
    (case map_of (rev e) k of None \<Rightarrow> map_of d k | Some v \<Rightarrow> Some v)"
  by (induction d e rule: dict_update.induct) (auto simp: map_add_def split: option.splits)

lemma dict_has_iff: "dict_has d k \<longleftrightarrow> dict_get d k \<noteq> None"
  by (force simp: dict_has_def dict_get_def map_of_eq_None_iff)

section \<open>String literals\<close>

text \<open>
  \<open>json.dumps(s, ensure_ascii=False)\<close>: the quotation mark, the backslash and the control characters
  are escaped, everything else is copied.
\<close>

definition json_escape :: "char \<Rightarrow> string" where
  "json_escape c =
     (let n = of_char c :: int
      in if n = 34 then [CHR 0x5C, CHR 0x22]
         else if n = 92 then [CHR 0x5C, CHR 0x5C]
         else if n = 10 then [CHR 0x5C, CHR ''n'']
         else if n = 13 then [CHR 0x5C, CHR ''r'']
         else if n = 9 then [CHR 0x5C, CHR ''t'']
         else if n = 12 then [CHR 0x5C, CHR ''f'']
         else if n = 8 then [CHR 0x5C, CHR ''b'']
         else if n < 32 then [CHR 0x5C, CHR ''u''] @ hex_digits 4 n
         else [c])"

definition json_quote :: "string \<Rightarrow> string" where
  "json_quote s = CHR 0x22 # concat (map json_escape s) @ [CHR 0x22]"

section \<open>Printing a float\<close>

text \<open>
  \<open>repr(x)\<close>: the shortest decimal that rounds back to the float, with at most 17 significant digits;
  positional notation for decimal exponents from -4 to 15, scientific notation otherwise.
\<close>

definition pow10 :: "int \<Rightarrow> rat" where
  "pow10 e = (if 0 \<le> e then of_int (10 ^ nat e) else 1 / of_int (10 ^ nat (- e)))"

definition rat_ilog10 :: "rat \<Rightarrow> int" where
  "rat_ilog10 x =
     (let (n, d) = quotient_of x;
          k = int (length (str_dec n)) - int (length (str_dec d))
      in if pow10 k \<le> x then k else k - 1)"

text \<open>The \<open>n\<close> leading decimal digits of a positive rational, rounded, with their exponent.\<close>

definition sig_digits :: "nat \<Rightarrow> rat \<Rightarrow> int \<times> int" where
  "sig_digits n x =
     (let e = rat_ilog10 x; m = rne (x / pow10 (e - int n + 1))
      in if m = 10 ^ n then (10 ^ (n - 1), e + 1) else (m, e))"

fun shortest_digits :: "nat \<Rightarrow> nat \<Rightarrow> rat \<Rightarrow> int \<times> int" where
  "shortest_digits 0 n x = sig_digits n x"
| "shortest_digits (Suc k) n x =
     (let (m, e) = sig_digits n x
      in if fl (of_int m * pow10 (e - int n + 1)) = Fin x then (m, e)
         else shortest_digits k (Suc n) x)"

definition repr_pos :: "rat \<Rightarrow> string" where
  "repr_pos x =
     (let (m, e) = shortest_digits 16 1 x; ds = str_dec m; k = length ds
      in if e < -4 \<or> 15 < e
         then take 1 ds @ (if k = 1 then [] else ''.'' @ drop 1 ds) @ ''e''
              @ (if e < 0 then ''-'' else ''+'') @ zpad 2 \<bar>e\<bar>
         else if e < 0 then ''0.'' @ replicate (nat (- e) - 1) (CHR ''0'') @ ds
         else if k \<le> nat e + 1 then ds @ replicate (nat e + 1 - k) (CHR ''0'') @ ''.0''
         else take (nat e + 1) ds @ ''.'' @ drop (nat e + 1) ds)"

fun float_repr :: "pyfloat \<Rightarrow> string" where
  "float_repr (Fin x) =
     (if x = 0 then ''0.0'' else if x < 0 then ''-'' @ repr_pos (- x) else repr_pos x)"
| "float_repr PInf = ''inf''"
| "float_repr NInf = ''-inf''"
| "float_repr NaN = ''nan''"

section \<open>Serialisation\<close>

text \<open>\<open>sorted(d.items())\<close> for a dictionary with string keys\<close>

definition sorted_items :: "(string \<times> 'v) list \<Rightarrow> (string \<times> 'v) list" where
  "sorted_items d = sort_key fst d"

definition spaces :: "nat \<Rightarrow> string" where
  "spaces n = replicate n (CHR '' '')"

definition nl :: string where
  "nl = [CHR 0x0A]"

text \<open>
  \<open>json.dumps(v, ensure_ascii=False, indent=2, sort_keys=sk)\<close>; the infinities and \<open>nan\<close> print as the
  words that \<open>json\<close> uses for them.
\<close>

fun json_float :: "pyfloat \<Rightarrow> string" where
  "json_float NaN = ''NaN''"
| "json_float PInf = ''Infinity''"
| "json_float NInf = ''-Infinity''"
| "json_float x = float_repr x"

definition json_block :: "nat \<Rightarrow> string \<Rightarrow> string \<Rightarrow> string list \<Rightarrow> string" where
  "json_block ind op cl items =
     (if items = [] then op @ cl
      else op @ nl @ str_join ('','' @ nl) (map (\<lambda>x. spaces (ind + 2) @ x) items)
           @ nl @ spaces ind @ cl)"

fun json_dumps_at :: "bool \<Rightarrow> nat \<Rightarrow> json \<Rightarrow> string" where
  "json_dumps_at sk ind JNull = ''null''"
| "json_dumps_at sk ind (JBool b) = (if b then ''true'' else ''false'')"
| "json_dumps_at sk ind (JInt i) = str_int i"
| "json_dumps_at sk ind (JFloat x) = json_float x"
| "json_dumps_at sk ind (JStr s) = json_quote s"
| "json_dumps_at sk ind (JList xs) =
     json_block ind ''['' '']'' (map (json_dumps_at sk (ind + 2)) xs)"
| "json_dumps_at sk ind (JDict d) =
     json_block ind ''{'' ''}''
       (map (\<lambda>(k, t). json_quote k @ '': '' @ t)
          ((if sk then sorted_items else id) (map (\<lambda>(k, v). (k, json_dumps_at sk (ind + 2) v)) d)))"

definition json_dumps :: "bool \<Rightarrow> json \<Rightarrow> string" where
  "json_dumps sk v = json_dumps_at sk 0 v"

section \<open>Conversion to text\<close>

text \<open>
  \<open>repr(v)\<close> of a JSON value. A string is quoted with apostrophes unless it contains apostrophes and no
  quotation mark; bytes from 128 on are parts of printable characters and are copied.
\<close>

definition repr_char :: "char \<Rightarrow> char \<Rightarrow> string" where
  "repr_char q c =
     (let n = of_char c :: int
      in if c = q then [CHR 0x5C, q]
         else if n = 92 then [CHR 0x5C, CHR 0x5C]
         else if n = 10 then [CHR 0x5C, CHR ''n'']
         else if n = 13 then [CHR 0x5C, CHR ''r'']
         else if n = 9 then [CHR 0x5C, CHR ''t'']
         else if n < 32 \<or> n = 127 then [CHR 0x5C, CHR ''x''] @ hex_digits 2 n
         else [c])"

definition str_repr :: "string \<Rightarrow> string" where
  "str_repr s =
     (let q = (if CHR 0x27 \<in> set s \<and> CHR 0x22 \<notin> set s then CHR 0x22 else CHR 0x27)
      in [q] @ concat (map (repr_char q) s) @ [q])"

fun py_repr :: "json \<Rightarrow> string" where
  "py_repr JNull = ''None''"
| "py_repr (JBool b) = (if b then ''True'' else ''False'')"
| "py_repr (JInt i) = str_int i"
| "py_repr (JFloat x) = float_repr x"
| "py_repr (JStr s) = str_repr s"
| "py_repr (JList xs) = ''['' @ str_join '', '' (map py_repr xs) @ '']''"
| "py_repr (JDict d) =
     ''{'' @ str_join '', '' (map (\<lambda>(k, t). str_repr k @ '': '' @ t) (map (\<lambda>(k, v). (k, py_repr v)) d)) @ ''}''"

text \<open>\<open>str(v)\<close>, which is also what a replacement field of an f-string inserts\<close>

fun py_str :: "json \<Rightarrow> string" where
  "py_str (JStr s) = s"
| "py_str v = py_repr v"

section \<open>Files\<close>

text \<open>
  The files a run writes: a map from paths to contents. Paths are normalised strings; creating the
  parent directory changes no file.
\<close>

type_synonym fs = "string \<rightharpoonup> string"

definition path_join :: "string \<Rightarrow> string \<Rightarrow> string" where
  "path_join d f = (if d = [] \<or> d = ''.'' then f else d @ ''/'' @ f)"

text \<open>\<open>if not s.endswith("\n"): s += "\n"\<close>\<close>

definition ensure_lf :: "string \<Rightarrow> string" where
  "ensure_lf s = (if endswith s nl then s else s @ nl)"

lemma path_join_inject [simp]: "path_join d f = path_join d g \<longleftrightarrow> f = g"
  by (simp add: path_join_def)

lemma ensure_lf_ends: "endswith (ensure_lf s) nl"
  by (simp add: ensure_lf_def endswith_def nl_def)

text \<open>Two dictionaries with the same items, in whatever order, have the same sorted items.\<close>

lemma sorted_items_cong:
  assumes "distinct (map fst d)" and "distinct (map fst d')" and "set d = set d'"
  shows "sorted_items d = sorted_items d'"
  unfolding sorted_items_def
proof (rule map_sorted_distinct_set_unique [where f = fst])
  show "inj_on fst (set (sort_key fst d) \<union> set (sort_key fst d'))"
    using assms by (simp add: distinct_map)
  show "distinct (map fst (sort_key fst d))" and "distinct (map fst (sort_key fst d'))"
    using assms by (simp_all add: distinct_map)
qed (use assms in simp_all)

end
