(* ===== verification/EntrySpec.thy ===== *)
theory EntrySpec
  imports PyJson
begin

text \<open>
  The search space: \<open>spec/entry_candidate_spec.py\<close> (the six-field candidate and its validation),
  \<open>spec/candidate_id.py\<close> (the deterministic id) and \<open>scheduler/default_subset.py\<close> (the 36
  candidates that are run by default). The identifiers of the bands are strings, as in the source,
  so that the branches for unknown identifiers are reachable.
\<close>

record entry_candidate_spec =
  entry_delay_seconds :: int
  feature_horizon_seconds :: int
  trigger_confirmation_id :: string
  entry_price_mode_id :: string
  pretouch_state_band_id :: string
  posttouch_quality_band_id :: string

definition VALID_D :: "int list" where
  "VALID_D = [0, 5, 15, 30, 60, 120]"

definition VALID_H :: "int list" where
  "VALID_H = [0, 5, 15, 30, 60]"

definition validate :: "entry_candidate_spec \<Rightarrow> unit res" where
  "validate s =
     (if entry_delay_seconds s \<notin> set VALID_D then Inl (InvalidCandidateError ''invalid_D'')
      else if feature_horizon_seconds s \<notin> set VALID_H then Inl (InvalidCandidateError ''invalid_H'')
      else if feature_horizon_seconds s > entry_delay_seconds s
           then Inl (InvalidCandidateError ''H_gt_D'')
      else Inr ())"

definition D_TOKEN_MAP :: "(int \<times> string) list" where
  "D_TOKEN_MAP = [(0, ''d0''), (5, ''d5''), (15, ''d15''), (30, ''d30''), (60, ''d60''), (120, ''d120'')]"

definition H_TOKEN_MAP :: "(int \<times> string) list" where
  "H_TOKEN_MAP = [(0, ''h0''), (5, ''h5''), (15, ''h15''), (30, ''h30''), (60, ''h60'')]"

definition TRIGGER_CONFIRMATION_TOKEN_MAP :: "(string \<times> string) list" where
  "TRIGGER_CONFIRMATION_TOKEN_MAP =
     [(''none'', ''tcnone''),
      (''persistence_n1'', ''tcpn1''),
      (''persistence_n3'', ''tcpn3''),
      (''persistence_n5'', ''tcpn5''),
      (''persistence_n10'', ''tcpn10''),
      (''retest_tb0'', ''tcrtb0''),
      (''retest_tb1'', ''tcrtb1''),
      (''retest_tb2'', ''tcrtb2''),
      (''minvol_bps50'', ''tcmv50''),
      (''minvol_bps100'', ''tcmv100''),
      (''minvol_bps200'', ''tcmv200'')]"

definition ENTRY_PRICE_MODE_TOKEN_MAP :: "(string \<times> string) list" where
  "ENTRY_PRICE_MODE_TOKEN_MAP =
     [(''market_on_touch'', ''epmot''),
      (''limit_at_level'', ''eplal''),
      (''limit_tb_k0'', ''eptbk0''),
      (''limit_tb_k1'', ''eptbk1''),
      (''limit_tb_k2'', ''eptbk2''),
      (''limit_tb_k4'', ''eptbk4''),
      (''pullback_p000'', ''eppb000''),
      (''pullback_p002'', ''eppb002''),
      (''pullback_p005'', ''eppb005''),
      (''pullback_p010'', ''eppb010'')]"

definition PRETOUCH_STATE_BAND_TOKEN_MAP :: "(string \<times> string) list" where
  "PRETOUCH_STATE_BAND_TOKEN_MAP =
     [(''none'', ''prnone''),
      (''fast_clean'', ''prfc''),
      (''fast_clean_strict'', ''prfcs'')]"

definition POSTTOUCH_QUALITY_BAND_TOKEN_MAP :: "(string \<times> string) list" where
  "POSTTOUCH_QUALITY_BAND_TOKEN_MAP =
     [(''none'', ''ponone''),
      (''cont1s_r003'', ''poc003''),
      (''cont1s_r005'', ''poc005''),
      (''cont1s_r008'', ''poc008''),
      (''tickimb_b055'', ''poti055''),
      (''tickimb_b060'', ''poti060''),
      (''tickimb_b065'', ''poti065''),
      (''spread_s1'', ''posp1''),
      (''spread_s2'', ''posp2''),
      (''spread_s4'', ''posp4'')]"

text \<open>
  \<open>_CANDIDATE_ID_REGEX\<close>, \<open>^[a-z0-9]+(?:_[a-z0-9]+)*-[0-9a-f]{12}$\<close>: words of lower-case letters and
  digits joined by underscores, a hyphen, twelve hexadecimal digits; the dollar sign also accepts a
  final line feed.
\<close>

definition is_lower_alnum :: "char \<Rightarrow> bool" where
  "is_lower_alnum c \<longleftrightarrow> (let n = of_char c :: int in (97 \<le> n \<and> n \<le> 122) \<or> (48 \<le> n \<and> n \<le> 57))"

definition candidate_id_regex :: "string \<Rightarrow> bool" where
  "candidate_id_regex s =
     (let pre = takeWhile (\<lambda>c. c \<noteq> CHR ''-'') s;
          suf = drop (Suc (length pre)) s;
          hex = take 12 suf
      in length pre < length s
         \<and> (\<forall>w \<in> set (str_split (CHR ''_'') pre). w \<noteq> [] \<and> (\<forall>c \<in> set w. is_lower_alnum c))
         \<and> length hex = 12 \<and> (\<forall>c \<in> set hex. is_hex c)
         \<and> (drop 12 suf = [] \<or> drop 12 suf = [CHR 0x0A]))"

definition canonical_json :: "entry_candidate_spec \<Rightarrow> string" where
  "canonical_json s =
     ''{'' @ json_quote ''entry_delay_seconds'' @ '':'' @ str_int (entry_delay_seconds s)
     @ '','' @ json_quote ''entry_price_mode_id'' @ '':'' @ json_quote (entry_price_mode_id s)
     @ '','' @ json_quote ''feature_horizon_seconds'' @ '':'' @ str_int (feature_horizon_seconds s)
     @ '','' @ json_quote ''posttouch_quality_band_id'' @ '':'' @ json_quote (posttouch_quality_band_id s)
     @ '','' @ json_quote ''pretouch_state_band_id'' @ '':'' @ json_quote (pretouch_state_band_id s)
     @ '','' @ json_quote ''trigger_confirmation_id'' @ '':'' @ json_quote (trigger_confirmation_id s)
     @ ''}''"

definition candidate_tokens :: "entry_candidate_spec \<Rightarrow> string list res" where
  "candidate_tokens s =
     res_bind (dict_item D_TOKEN_MAP (entry_delay_seconds s)) (\<lambda>d_token.
     res_bind (dict_item H_TOKEN_MAP (feature_horizon_seconds s)) (\<lambda>h_token.
     res_bind (dict_item TRIGGER_CONFIRMATION_TOKEN_MAP (trigger_confirmation_id s)) (\<lambda>tc_token.
     res_bind (dict_item ENTRY_PRICE_MODE_TOKEN_MAP (entry_price_mode_id s)) (\<lambda>ep_token.
     res_bind (dict_item PRETOUCH_STATE_BAND_TOKEN_MAP (pretouch_state_band_id s)) (\<lambda>pr_token.
     res_bind (dict_item POSTTOUCH_QUALITY_BAND_TOKEN_MAP (posttouch_quality_band_id s)) (\<lambda>po_token.
     Inr [d_token, h_token, tc_token, ep_token, pr_token, po_token]))))))"

definition generate_candidate_id :: "entry_candidate_spec \<Rightarrow> string res" where
  "generate_candidate_id s =
     res_bind (candidate_tokens s) (\<lambda>tokens.
       (let prefix = str_join ''_'' tokens;
            sha_hex = take 12 (sha256_hex (canonical_json s));
            candidate_id = prefix @ ''-'' @ sha_hex
        in if \<not> candidate_id_regex candidate_id then Inl ValueError
           else if \<not> (14 \<le> length candidate_id \<and> length candidate_id \<le> 64) then Inl ValueError
           else Inr candidate_id))"

definition BASELINE :: entry_candidate_spec where
  "BASELINE =
     \<lparr>entry_delay_seconds = 0, feature_horizon_seconds = 0, trigger_confirmation_id = ''none'',
      entry_price_mode_id = ''market_on_touch'', pretouch_state_band_id = ''none'',
      posttouch_quality_band_id = ''none''\<rparr>"

definition D_AXIS_VALUES :: "int list" where
  "D_AXIS_VALUES = [5, 15, 30, 60, 120]"

definition H_AXIS_VALUES :: "int list" where
  "H_AXIS_VALUES = [5, 15, 30]"

definition TC_AXIS_VALUES :: "string list" where
  "TC_AXIS_VALUES =
     [''persistence_n1'', ''persistence_n3'', ''persistence_n5'', ''persistence_n10'',
      ''retest_tb0'', ''retest_tb1'', ''retest_tb2'',
      ''minvol_bps50'', ''minvol_bps100'', ''minvol_bps200'']"

definition EPM_AXIS_VALUES :: "string list" where
  "EPM_AXIS_VALUES =
     [''limit_at_level'', ''limit_tb_k0'', ''limit_tb_k1'', ''limit_tb_k2'', ''limit_tb_k4'',
      ''pullback_p000'', ''pullback_p002'', ''pullback_p005'', ''pullback_p010'']"

definition PSB_AXIS_VALUES :: "string list" where
  "PSB_AXIS_VALUES = [''fast_clean'', ''fast_clean_strict'']"

definition PQB_AXIS_VALUES :: "string list" where
  "PQB_AXIS_VALUES =
     [''cont1s_r003'', ''cont1s_r005'', ''cont1s_r008'',
      ''tickimb_b055'', ''tickimb_b060'', ''tickimb_b065'',
      ''spread_s1'', ''spread_s2'', ''spread_s4'']"

text \<open>
  \<open>_build_default_subset\<close>: the loops fill a set, kept here as a list without duplicates, and the
  result is sorted by the six fields.
\<close>

definition spec_key :: "entry_candidate_spec \<Rightarrow> int \<times> int \<times> string \<times> string \<times> string \<times> string" where
  "spec_key c =
     (entry_delay_seconds c, feature_horizon_seconds c, trigger_confirmation_id c,
      entry_price_mode_id c, pretouch_state_band_id c, posttouch_quality_band_id c)"

definition build_default_subset :: "entry_candidate_spec list" where
  "build_default_subset =
     (let c0 = [BASELINE];
          c1 = fold (\<lambda>d c. List.insert (BASELINE\<lparr>entry_delay_seconds := d\<rparr>) c) D_AXIS_VALUES c0;
          c2 = fold (\<lambda>h c. let s = BASELINE\<lparr>feature_horizon_seconds := h\<rparr>
                            in if feature_horizon_seconds s \<le> entry_delay_seconds s
                               then List.insert s c else c) H_AXIS_VALUES c1;
          c3 = fold (\<lambda>v c. List.insert (BASELINE\<lparr>trigger_confirmation_id := v\<rparr>) c) TC_AXIS_VALUES c2;
          c4 = fold (\<lambda>v c. List.insert (BASELINE\<lparr>entry_price_mode_id := v\<rparr>) c) EPM_AXIS_VALUES c3;
          c5 = fold (\<lambda>v c. List.insert (BASELINE\<lparr>pretouch_state_band_id := v\<rparr>) c) PSB_AXIS_VALUES c4;
          c6 = fold (\<lambda>v c. List.insert (BASELINE\<lparr>posttouch_quality_band_id := v\<rparr>) c) PQB_AXIS_VALUES c5
      in sort_key spec_key c6)"

definition DEFAULT_SUBSET :: "entry_candidate_spec list" where
  "DEFAULT_SUBSET = build_default_subset"

section \<open>Candidate ids are well formed and injective\<close>

definition known_ids :: "entry_candidate_spec \<Rightarrow> bool" where
  "known_ids s \<longleftrightarrow>
     dict_has D_TOKEN_MAP (entry_delay_seconds s) \<and> dict_has H_TOKEN_MAP (feature_horizon_seconds s)
     \<and> dict_has TRIGGER_CONFIRMATION_TOKEN_MAP (trigger_confirmation_id s)
     \<and> dict_has ENTRY_PRICE_MODE_TOKEN_MAP (entry_price_mode_id s)
     \<and> dict_has PRETOUCH_STATE_BAND_TOKEN_MAP (pretouch_state_band_id s)
     \<and> dict_has POSTTOUCH_QUALITY_BAND_TOKEN_MAP (posttouch_quality_band_id s)"

text \<open>The tokens of the six tables: non-empty lower-case words, at most seven characters long.\<close>

definition token_ok :: "string \<Rightarrow> bool" where
  "token_ok w \<longleftrightarrow> w \<noteq> [] \<and> length w \<le> 7 \<and> (\<forall>c \<in> set w. is_lower_alnum c)"

definition tokens_ok :: "('k \<times> string) list \<Rightarrow> bool" where
  "tokens_ok m \<longleftrightarrow> distinct (map snd m) \<and> (\<forall>w \<in> set (map snd m). token_ok w)"

lemma token_maps_ok:
  "tokens_ok D_TOKEN_MAP" "tokens_ok H_TOKEN_MAP" "tokens_ok TRIGGER_CONFIRMATION_TOKEN_MAP"
  "tokens_ok ENTRY_PRICE_MODE_TOKEN_MAP" "tokens_ok PRETOUCH_STATE_BAND_TOKEN_MAP"
  "tokens_ok POSTTOUCH_QUALITY_BAND_TOKEN_MAP"
  by code_simp+

lemma dict_item_ok: "tokens_ok m \<Longrightarrow> dict_item m k = Inr w \<Longrightarrow> token_ok w"
  by (auto simp: dict_item_def tokens_ok_def the_or_raise_eq_Inr_iff dest!: map_of_SomeD)

lemma dict_item_inj:
  assumes "tokens_ok m" and "dict_item m k = Inr w" and "dict_item m k' = Inr w"
  shows "k = k'"
proof -
  have "(k, w) \<in> set m" and "(k', w) \<in> set m"
    using assms by (auto simp: dict_item_def the_or_raise_eq_Inr_iff dest!: map_of_SomeD)
  moreover have "inj_on snd (set m)"
    using assms by (simp add: tokens_ok_def distinct_map)
  ultimately show ?thesis by (metis inj_onD prod.inject snd_conv)
qed

lemma dict_item_total: "dict_has m k \<Longrightarrow> \<exists>w. dict_item m k = Inr w"
  by (auto simp: dict_has_iff dict_get_def dict_item_def)

lemma token_ok_chars: "token_ok w \<Longrightarrow> CHR ''-'' \<notin> set w \<and> CHR ''_'' \<notin> set w"
  by (auto simp: token_ok_def is_lower_alnum_def)

lemma candidate_tokens_total: "known_ids s \<Longrightarrow> \<exists>ts. candidate_tokens s = Inr ts"
  by (auto simp: known_ids_def candidate_tokens_def dest!: dict_item_total)

lemma candidate_tokens_ok:
  assumes "candidate_tokens s = Inr ts"
  shows "length ts = 6 \<and> (\<forall>w \<in> set ts. token_ok w)"
  using assms token_maps_ok [THEN dict_item_ok] by (auto simp: candidate_tokens_def res_bind_eq_Inr_iff)

lemma candidate_tokens_inj:
  assumes "candidate_tokens s = Inr ts" and "candidate_tokens t = Inr ts"
  shows "s = t"
  using assms token_maps_ok [THEN dict_item_inj]
  by (auto simp: candidate_tokens_def res_bind_eq_Inr_iff
      intro!: entry_candidate_spec.equality)

lemma prefix_of_tokens:
  assumes "length ts = 6" and "\<forall>w \<in> set ts. token_ok w"
  shows "takeWhile (\<lambda>c. c \<noteq> CHR ''-'') (str_join ''_'' ts @ ''-'' @ h) = str_join ''_'' ts"
    and "str_split (CHR ''_'') (str_join ''_'' ts) = ts"
proof -
  have "CHR ''-'' \<notin> set (str_join ''_'' ts)"
    using set_str_join [of "''_''" ts] assms token_ok_chars by fastforce
  then show "takeWhile (\<lambda>c. c \<noteq> CHR ''-'') (str_join ''_'' ts @ ''-'' @ h) = str_join ''_'' ts"
    using takeWhile_before by fastforce
  show "str_split (CHR ''_'') (str_join ''_'' ts) = ts"
    using assms token_ok_chars by (intro str_split_join) auto
qed

lemma token_ok_sum: "\<forall>w \<in> set ts. token_ok w \<Longrightarrow> sum_list (map length ts) \<le> 7 * length ts"
  by (induction ts) (auto simp: token_ok_def)

lemma candidate_id_of_tokens:
  assumes "length ts = 6" and "\<forall>w \<in> set ts. token_ok w"
  shows "candidate_id_regex (str_join ''_'' ts @ ''-'' @ take 12 (sha256_hex j))"
    and "14 \<le> length (str_join ''_'' ts @ ''-'' @ take 12 (sha256_hex j))"
    and "length (str_join ''_'' ts @ ''-'' @ take 12 (sha256_hex j)) \<le> 64"
proof -
  have hex: "\<forall>c \<in> set (take 12 (sha256_hex j)). is_hex c"
    using sha256_hex_hex by (blast dest: in_set_takeD)
  show "candidate_id_regex (str_join ''_'' ts @ ''-'' @ take 12 (sha256_hex j))"
    using assms hex prefix_of_tokens(1) [OF assms, of "take 12 (sha256_hex j)"]
      prefix_of_tokens(2) [OF assms]
    by (simp add: candidate_id_regex_def Let_def token_ok_def)
  have len: "length (str_join ''_'' ts) = sum_list (map length ts) + 5"
    using assms length_str_join [of ts "''_''"] by (cases ts) auto
  then show "14 \<le> length (str_join ''_'' ts @ ''-'' @ take 12 (sha256_hex j))" by simp
  show "length (str_join ''_'' ts @ ''-'' @ take 12 (sha256_hex j)) \<le> 64"
    using len assms token_ok_sum [of ts] by simp
qed

lemma generate_candidate_id_eq:
  "generate_candidate_id s =
     res_bind (candidate_tokens s)
       (\<lambda>ts. Inr (str_join ''_'' ts @ ''-'' @ take 12 (sha256_hex (canonical_json s))))"
proof (cases "candidate_tokens s")
  case (Inr ts)
  then show ?thesis
    using candidate_id_of_tokens candidate_tokens_ok [OF Inr]
    by (simp add: generate_candidate_id_def Let_def del: length_append)
qed (simp add: generate_candidate_id_def)

lemma known_ids_iff: "known_ids s \<longleftrightarrow> (\<exists>ts. candidate_tokens s = Inr ts)"
  using candidate_tokens_total
  by (fastforce simp: known_ids_def candidate_tokens_def res_bind_eq_Inr_iff dict_item_def
      the_or_raise_eq_Inr_iff dict_has_iff dict_get_def)

lemma generate_candidate_id_errors: "generate_candidate_id s = Inl e \<Longrightarrow> e = KeyError"
  by (auto simp: generate_candidate_id_eq candidate_tokens_def dict_item_def the_or_raise_def res_bind_def
      split: option.splits sum.splits)

text \<open>
  Every spec whose six fields are in the token tables gets an id, the id matches
  \<open>_CANDIDATE_ID_REGEX\<close> and its length is between 14 and 64: neither check of
  \<open>generate_candidate_id\<close> can raise \<open>ValueError\<close>. A spec with an unknown field raises \<open>KeyError\<close>.
\<close>

theorem generate_candidate_id_total:
  "if known_ids s
   then \<exists>i. generate_candidate_id s = Inr i \<and> candidate_id_regex i \<and> 14 \<le> length i \<and> length i \<le> 64
   else generate_candidate_id s = Inl KeyError"
proof (cases "known_ids s")
  case True
  then obtain ts where ts: "candidate_tokens s = Inr ts" using known_ids_iff by blast
  then show ?thesis
    using True candidate_id_of_tokens candidate_tokens_ok [OF ts] by (simp add: generate_candidate_id_eq)
next
  case False
  then obtain e where e: "candidate_tokens s = Inl e"
    using known_ids_iff by (cases "candidate_tokens s") auto
  then have "e = KeyError"
    by (auto simp: candidate_tokens_def dict_item_def the_or_raise_def res_bind_def
        split: option.splits sum.splits)
  then show ?thesis using False e by (simp add: generate_candidate_id_eq)
qed

lemma candidate_id_unique:
  assumes "known_ids s" and "known_ids t" and "generate_candidate_id s = generate_candidate_id t"
  shows "s = t"
proof -
  obtain ts ts' where ts: "candidate_tokens s = Inr ts" and ts': "candidate_tokens t = Inr ts'"
    using assms(1,2) known_ids_iff by auto
  note ok = candidate_tokens_ok [OF ts] candidate_tokens_ok [OF ts']
  have "str_join ''_'' ts = str_join ''_'' ts'"
    using assms(3) ts ts' by (simp add: generate_candidate_id_eq)
  then have "ts = ts'" using ok prefix_of_tokens(2) by metis
  then show "s = t" using candidate_tokens_inj ts ts' by blast
qed

text \<open>
  Two specs with the same id are equal. The proof uses only the readable prefix, so it does not
  depend on the absence of collisions of the hash.
\<close>

theorem generate_candidate_id_inj: "inj_on generate_candidate_id (Collect known_ids)"
  using candidate_id_unique by (auto intro: inj_onI)

section \<open>The default subset\<close>

definition fields_differing :: "entry_candidate_spec \<Rightarrow> entry_candidate_spec \<Rightarrow> nat" where
  "fields_differing s t =
     length (filter id
       [entry_delay_seconds s \<noteq> entry_delay_seconds t,
        feature_horizon_seconds s \<noteq> feature_horizon_seconds t,
        trigger_confirmation_id s \<noteq> trigger_confirmation_id t,
        entry_price_mode_id s \<noteq> entry_price_mode_id t,
        pretouch_state_band_id s \<noteq> pretouch_state_band_id t,
        posttouch_quality_band_id s \<noteq> posttouch_quality_band_id t])"

lemma set_fold_insert: "set (fold (\<lambda>v c. List.insert (f v) c) vs c) = f ` set vs \<union> set c"
  by (induction vs arbitrary: c) auto

lemma fold_skip: "(\<And>v. v \<in> set vs \<Longrightarrow> \<not> P v) \<Longrightarrow> fold (\<lambda>v c. if P v then g v c else c) vs c = c"
  by (induction vs arbitrary: c) auto

lemma set_DEFAULT_SUBSET:
  "set DEFAULT_SUBSET =
     insert BASELINE
       ((\<lambda>d. BASELINE\<lparr>entry_delay_seconds := d\<rparr>) ` set D_AXIS_VALUES
        \<union> (\<lambda>v. BASELINE\<lparr>trigger_confirmation_id := v\<rparr>) ` set TC_AXIS_VALUES
        \<union> (\<lambda>v. BASELINE\<lparr>entry_price_mode_id := v\<rparr>) ` set EPM_AXIS_VALUES
        \<union> (\<lambda>v. BASELINE\<lparr>pretouch_state_band_id := v\<rparr>) ` set PSB_AXIS_VALUES
        \<union> (\<lambda>v. BASELINE\<lparr>posttouch_quality_band_id := v\<rparr>) ` set PQB_AXIS_VALUES)"
proof -
  have "fold (\<lambda>h c. let s = BASELINE\<lparr>feature_horizon_seconds := h\<rparr>
           in if feature_horizon_seconds s \<le> entry_delay_seconds s then List.insert s c else c)
          H_AXIS_VALUES c = c" for c
    unfolding Let_def by (rule fold_skip) (auto simp: H_AXIS_VALUES_def BASELINE_def)
  then show ?thesis
    unfolding DEFAULT_SUBSET_def build_default_subset_def by (auto simp: Let_def set_fold_insert)
qed

text \<open>
  The default subset has 36 pairwise different candidates in increasing order of their fields;
  the baseline is one of them, every one passes \<open>validate\<close>, has an id, and differs from the baseline
  in at most one field (single-axis scan).
\<close>

theorem DEFAULT_SUBSET_correct:
  "length DEFAULT_SUBSET = 36 \<and> distinct DEFAULT_SUBSET \<and> sorted (map spec_key DEFAULT_SUBSET)
   \<and> BASELINE \<in> set DEFAULT_SUBSET
   \<and> list_all (\<lambda>s. validate s = Inr () \<and> known_ids s \<and> fields_differing s BASELINE \<le> 1) DEFAULT_SUBSET"
proof -
  have "length DEFAULT_SUBSET = 36" by code_simp
  moreover have "distinct DEFAULT_SUBSET" by code_simp
  moreover have "sorted (map spec_key DEFAULT_SUBSET)"
    by (simp add: DEFAULT_SUBSET_def build_default_subset_def Let_def del: fold.simps)
  moreover have "BASELINE \<in> set DEFAULT_SUBSET" by code_simp
  moreover have "list_all (\<lambda>s. validate s = Inr () \<and> known_ids s \<and> fields_differing s BASELINE \<le> 1)
      DEFAULT_SUBSET" by code_simp
  ultimately show ?thesis by blast
qed

end
