(* ===== verification/Snapshot.thy ===== *)
theory Snapshot
  imports EntrySpec
begin

text \<open>
  \<open>snapshot/\<close>: the frozen parameters of a run (\<open>runner_parameter_snapshot.py\<close>), their canonical JSON
  text, and the writers of the two failure records (\<open>runner_aborted_writer.py\<close>,
  \<open>runner_rejected_combinations_writer.py\<close>). The lemmas show that the text does not depend on the
  order in which dictionaries were filled, that numbers are printed in fixed point within half a
  unit of the eighth place, and that the two writers accept exactly the reasons of their
  enumerations and write to different files.
\<close>

section \<open>Parameters\<close>

record cost_model_params =
  slip_bps_per_side :: pyfloat
  entry_bps :: pyfloat
  exit_bps :: pyfloat

record symbol_filters_t =
  tick_size_by_symbol :: "(string \<times> pyfloat) list"
  step_size_by_symbol :: "(string \<times> pyfloat) list"

record atr14_source_t =
  atr14_path :: string
  atr14_sha256 :: string

record feature_sources =
  atr14_source :: atr14_source_t

record runner_parameter_snapshot =
  candidate :: entry_candidate_spec
  cost_model_baseline :: cost_model_params
  cost_model_stress :: cost_model_params
  seed :: int
  git_commit_sha :: string
  events_source_path :: string
  events_source_sha256 :: string
  runner_version :: string
  symbol_filters :: symbol_filters_t
  features :: feature_sources

text \<open>
  \<open>_RUNNER_VERSION_REGEX\<close>, \<open>^entry_redesign_runner_v[0-9]+\.[0-9]+\.[0-9]+$\<close>; the dollar sign also
  accepts a final line feed.
\<close>

definition runner_version_regex :: "string \<Rightarrow> bool" where
  "runner_version_regex s =
     (let p = ''entry_redesign_runner_v'';
          t = drop (length p) s;
          ws = str_split (CHR ''.'') (if t \<noteq> [] \<and> last t = CHR 0x0A then butlast t else t)
      in startswith s p \<and> length ws = 3 \<and> list_all (\<lambda>w. w \<noteq> [] \<and> list_all is_digit w) ws)"

text \<open>The constructor: \<open>__post_init__\<close> rejects a malformed version.\<close>

definition post_init :: "runner_parameter_snapshot \<Rightarrow> runner_parameter_snapshot res" where
  "post_init s = (if \<not> runner_version_regex (runner_version s) then Inl ValueError else Inr s)"

section \<open>Canonical JSON\<close>

text \<open>\<open>formatted.rstrip("0")\<close>\<close>

definition rstrip_zeros :: "string \<Rightarrow> string" where
  "rstrip_zeros s = rev (dropWhile (\<lambda>c. c = CHR ''0'') (rev s))"

text \<open>
  The text of a number with its trailing zeros removed, one digit kept after the point; the snapshot
  prints eight decimal places, the summary fifteen.
\<close>

definition trim_fraction :: "string \<Rightarrow> string" where
  "trim_fraction formatted =
     (if CHR ''.'' \<in> set formatted
      then let f = rstrip_zeros formatted in if endswith f ''.'' then f @ ''0'' else f
      else formatted)"

definition format_float :: "pyfloat \<Rightarrow> string" where
  "format_float x = trim_fraction (fixed_str 8 x)"

text \<open>The recursive encoder, for a given format of floats.\<close>

fun encode_json :: "(pyfloat \<Rightarrow> string) \<Rightarrow> bool \<Rightarrow> nat \<Rightarrow> json \<Rightarrow> string" where
  "encode_json fmt sk ind JNull = ''null''"
| "encode_json fmt sk ind (JBool b) = (if b then ''true'' else ''false'')"
| "encode_json fmt sk ind (JInt i) = str_int i"
| "encode_json fmt sk ind (JFloat x) = fmt x"
| "encode_json fmt sk ind (JStr s) = json_quote s"
| "encode_json fmt sk ind (JList xs) =
     (if xs = [] then ''[]''
      else ''['' @ nl
           @ str_join ('','' @ nl) (map (\<lambda>x. spaces (ind + 2) @ encode_json fmt sk (ind + 2) x) xs)
           @ nl @ spaces ind @ '']'')"
| "encode_json fmt sk ind (JDict d) =
     (if d = [] then ''{}''
      else let es = map (\<lambda>(k, v). (k, encode_json fmt sk (ind + 2) v)) d;
               keys = (if sk then sorted_items es else es)
           in ''{'' @ nl
              @ str_join ('','' @ nl)
                  (map (\<lambda>(key, val_str). spaces (ind + 2) @ json_quote key @ '': '' @ val_str) keys)
              @ nl @ spaces ind @ ''}'')"

definition encode_value :: "bool \<Rightarrow> nat \<Rightarrow> json \<Rightarrow> string" where
  "encode_value sk ind v = encode_json format_float sk ind v"

text \<open>\<open>dataclasses.asdict\<close>: nested records become dictionaries, in the order of the fields.\<close>

definition spec_asdict :: "entry_candidate_spec \<Rightarrow> json" where
  "spec_asdict c =
     JDict [(''entry_delay_seconds'', JInt (entry_delay_seconds c)),
            (''feature_horizon_seconds'', JInt (feature_horizon_seconds c)),
            (''trigger_confirmation_id'', JStr (trigger_confirmation_id c)),
            (''entry_price_mode_id'', JStr (entry_price_mode_id c)),
            (''pretouch_state_band_id'', JStr (pretouch_state_band_id c)),
            (''posttouch_quality_band_id'', JStr (posttouch_quality_band_id c))]"

definition params_asdict :: "cost_model_params \<Rightarrow> json" where
  "params_asdict p =
     JDict [(''slip_bps_per_side'', JFloat (slip_bps_per_side p)),
            (''entry_bps'', JFloat (entry_bps p)),
            (''exit_bps'', JFloat (exit_bps p))]"

definition float_dict :: "(string \<times> pyfloat) list \<Rightarrow> json" where
  "float_dict d = JDict (map (\<lambda>(k, x). (k, JFloat x)) d)"

definition asdict :: "runner_parameter_snapshot \<Rightarrow> json" where
  "asdict s =
     JDict [(''candidate'', spec_asdict (candidate s)),
            (''cost_model_baseline'', params_asdict (cost_model_baseline s)),
            (''cost_model_stress'', params_asdict (cost_model_stress s)),
            (''seed'', JInt (seed s)),
            (''git_commit_sha'', JStr (git_commit_sha s)),
            (''events_source_path'', JStr (events_source_path s)),
            (''events_source_sha256'', JStr (events_source_sha256 s)),
            (''runner_version'', JStr (runner_version s)),
            (''symbol_filters'',
              JDict [(''tick_size_by_symbol'', float_dict (tick_size_by_symbol (symbol_filters s))),
                     (''step_size_by_symbol'', float_dict (step_size_by_symbol (symbol_filters s)))]),
            (''features'',
              JDict [(''atr14_source'',
                JDict [(''path'', JStr (atr14_path (atr14_source (features s)))),
                       (''sha256'', JStr (atr14_sha256 (atr14_source (features s))))])])]"

definition snapshot_to_json :: "runner_parameter_snapshot \<Rightarrow> string" where
  "snapshot_to_json s = ensure_lf (encode_value True 0 (asdict s))"

section \<open>Failure records\<close>

definition VALID_ABORT_REASONS :: "string list" where
  "VALID_ABORT_REASONS =
     [''parameter_mismatch'', ''insufficient_walkforward_history'', ''invariant_violation'',
      ''io_error'']"

definition aborted_path :: "string \<Rightarrow> string \<Rightarrow> string" where
  "aborted_path output_dir candidate_id =
     path_join output_dir (''tmp_entry_redesign_'' @ candidate_id @ ''_runner_aborted.json'')"

definition mismatch_json :: "(string \<times> string) list \<Rightarrow> json res" where
  "mismatch_json f =
     res_bind (dict_item f ''field_name'') (\<lambda>n.
     res_bind (dict_item f ''expected'') (\<lambda>e.
     res_bind (dict_item f ''observed'') (\<lambda>ob.
     Inr (JDict [(''field_name'', JStr n), (''expected'', JStr e), (''observed'', JStr ob)]))))"

text \<open>\<open>RunnerAbortedWriter.write\<close>: the checks, the record in fixed key order, the file.\<close>

definition write_aborted ::
  "string \<Rightarrow> string \<Rightarrow> string \<Rightarrow> (string \<times> string) list list \<Rightarrow> string \<Rightarrow> fs \<Rightarrow> (string \<times> fs) res" where
  "write_aborted output_dir candidate_id abort_reason mismatched_fields aborted_at_utc_ms fs =
     (if abort_reason \<notin> set VALID_ABORT_REASONS then Inl ValueError
      else if \<not> list_all (\<lambda>f. list_all (dict_has f) [''field_name'', ''expected'', ''observed'']) mismatched_fields
           then Inl ValueError
      else res_bind (res_map mismatch_json mismatched_fields) (\<lambda>ms.
        let data = JDict [(''candidate_id'', JStr candidate_id),
                          (''abort_reason'', JStr abort_reason),
                          (''mismatched_fields'', JList ms),
                          (''aborted_at_utc_ms'', JStr aborted_at_utc_ms)];
            out_path = aborted_path output_dir candidate_id
        in Inr (out_path, fs(out_path \<mapsto> ensure_lf (json_dumps False data)))))"

definition VALID_REJECT_REASONS :: "string list" where
  "VALID_REJECT_REASONS = [''H_gt_D'', ''token_mapping_error'']"

definition rejected_path :: "string \<Rightarrow> string \<Rightarrow> string" where
  "rejected_path output_dir candidate_id =
     path_join output_dir
       (''tmp_entry_redesign_'' @ candidate_id @ ''_runner_rejected_combinations.json'')"

text \<open>\<open>RunnerRejectedCombinationsWriter.write\<close>\<close>

definition write_rejected ::
  "string \<Rightarrow> string \<Rightarrow> string \<Rightarrow> entry_candidate_spec \<Rightarrow> string \<Rightarrow> fs \<Rightarrow> (string \<times> fs) res" where
  "write_rejected output_dir candidate_id reject_reason spec rejected_at_utc_ms fs =
     (if reject_reason \<notin> set VALID_REJECT_REASONS then Inl ValueError
      else
        let spec_dict =
              JDict [(''entry_delay_seconds'', JInt (entry_delay_seconds spec)),
                     (''entry_price_mode_id'', JStr (entry_price_mode_id spec)),
                     (''feature_horizon_seconds'', JInt (feature_horizon_seconds spec)),
                     (''posttouch_quality_band_id'', JStr (posttouch_quality_band_id spec)),
                     (''pretouch_state_band_id'', JStr (pretouch_state_band_id spec)),
                     (''trigger_confirmation_id'', JStr (trigger_confirmation_id spec))];
            record_json =
              JDict [(''candidate_id'', JStr candidate_id),
                     (''reject_reason'', JStr reject_reason),
                     (''rejected_at_utc_ms'', JStr rejected_at_utc_ms),
                     (''spec'', spec_dict)];
            out_path = rejected_path output_dir candidate_id
        in Inr (out_path, fs(out_path \<mapsto> ensure_lf (json_dumps True record_json))))"

section \<open>The text of a snapshot\<close>

lemma encode_dict_cong:
  assumes "distinct (map fst d)" and "distinct (map fst d')" and "set d = set d'"
  shows "encode_json fmt True ind (JDict d) = encode_json fmt True ind (JDict d')"
proof -
  let ?f = "\<lambda>(k, v). (k, encode_json fmt True (ind + 2) v)"
  have "distinct (map fst (map ?f d))" and "distinct (map fst (map ?f d'))"
    using assms by (simp_all add: comp_def case_prod_unfold)
  then have "sorted_items (map ?f d) = sorted_items (map ?f d')"
    using assms by (intro sorted_items_cong) auto
  then show ?thesis using assms by (cases "d = []") auto
qed

lemma encode_float_dict_cong:
  assumes "distinct (map fst d)" and "distinct (map fst d')" and "set d = set d'"
  shows "encode_json fmt True ind (float_dict d) = encode_json fmt True ind (float_dict d')"
proof -
  let ?f = "\<lambda>(k, x). (k, JFloat x)"
  have "distinct (map fst (map ?f d))" and "distinct (map fst (map ?f d'))"
    using assms by (simp_all add: comp_def case_prod_unfold)
  then show ?thesis
    unfolding float_dict_def using assms by (intro encode_dict_cong) auto
qed

text \<open>
  The JSON text of a snapshot depends only on the items of its two symbol tables, not on the
  order in which they were filled: two snapshots that agree on everything else and whose tables
  have the same items have the same text.
\<close>

theorem snapshot_to_json_canonical:
  assumes "distinct (map fst ticks)" and "distinct (map fst ticks')" and "set ticks = set ticks'"
    and "distinct (map fst steps)" and "distinct (map fst steps')" and "set steps = set steps'"
  shows "snapshot_to_json (s\<lparr>symbol_filters :=
           \<lparr>tick_size_by_symbol = ticks, step_size_by_symbol = steps\<rparr>\<rparr>) =
         snapshot_to_json (s\<lparr>symbol_filters :=
           \<lparr>tick_size_by_symbol = ticks', step_size_by_symbol = steps'\<rparr>\<rparr>)"
proof -
  note dict_eqs = encode_float_dict_cong [OF assms(1-3)] encode_float_dict_cong [OF assms(4-6)]
  show ?thesis
    unfolding snapshot_to_json_def asdict_def encode_value_def
    by (simp add: dict_eqs)
qed

text \<open>A snapshot with the values of the default run, for the witnesses.\<close>

definition sample_snapshot :: runner_parameter_snapshot where
  "sample_snapshot =
     \<lparr>candidate = BASELINE,
      cost_model_baseline = \<lparr>slip_bps_per_side = Fin 2, entry_bps = Fin 2, exit_bps = Fin 4\<rparr>,
      cost_model_stress = \<lparr>slip_bps_per_side = Fin 2, entry_bps = Fin 4, exit_bps = Fin 4\<rparr>,
      seed = 42, git_commit_sha = ''abc'', events_source_path = ''events.csv'',
      events_source_sha256 = ''def'', runner_version = ''entry_redesign_runner_v1.0.0'',
      symbol_filters =
        \<lparr>tick_size_by_symbol = [(''BTCUSDT'', fl (1 / 10)), (''ETHUSDT'', fl (1 / 100))],
         step_size_by_symbol = [(''BTCUSDT'', fl (1 / 1000)), (''ETHUSDT'', fl (1 / 1000))]\<rparr>,
      features = \<lparr>atr14_source = \<lparr>atr14_path = ''atr.csv'', atr14_sha256 = ''0''\<rparr>\<rparr>\<rparr>"

theorem snapshot_to_json_canonical_witness:
  "snapshot_to_json (sample_snapshot\<lparr>symbol_filters :=
      \<lparr>tick_size_by_symbol = [(''A'', Fin 1), (''B'', Fin 2)], step_size_by_symbol = [(''B'', Fin 3)]\<rparr>\<rparr>) =
   snapshot_to_json (sample_snapshot\<lparr>symbol_filters :=
      \<lparr>tick_size_by_symbol = [(''B'', Fin 2), (''A'', Fin 1)], step_size_by_symbol = [(''B'', Fin 3)]\<rparr>\<rparr>)"
  by (rule snapshot_to_json_canonical) auto

text \<open>Removing trailing zeros of the fraction does not change the number.\<close>

lemma dec_val_snoc_zeros: "dec_val a (f @ replicate k (CHR ''0'')) = dec_val a f * 10 ^ k"
  by (induction k arbitrary: f) (simp_all add: dec_val_append digit_val_def flip: replicate_append_same append_assoc)

lemma rstrip_zeros_split: "\<exists>k. s = rstrip_zeros s @ replicate k (CHR ''0'')"
proof -
  let ?p = "\<lambda>c. c = CHR ''0''" and ?k = "length (takeWhile (\<lambda>c. c = CHR ''0'') (rev s))"
  have "takeWhile ?p (rev s) = replicate ?k (CHR ''0'')"
    by (intro replicate_eqI) (auto dest: set_takeWhileD)
  then have "rev s = replicate ?k (CHR ''0'') @ dropWhile ?p (rev s)"
    by (metis takeWhile_dropWhile_id)
  then have "rev (rev s) = rev (replicate ?k (CHR ''0'') @ dropWhile ?p (rev s))" by (rule arg_cong)
  then have "s = rstrip_zeros s @ replicate ?k (CHR ''0'')"
    by (simp only: rev_append rev_replicate rev_rev_ident rstrip_zeros_def)
  then show ?thesis by blast
qed

lemma rstrip_zeros_point: "rstrip_zeros (p @ CHR ''.'' # f) = p @ CHR ''.'' # rstrip_zeros f"
  by (simp add: rstrip_zeros_def dropWhile_append)

lemma endswith_snoc [simp]: "endswith (s @ [c]) [d] \<longleftrightarrow> c = d"
  by (simp add: endswith_def)

lemma trim_fraction_parts:
  fixes x :: rat and n :: nat
  defines "m \<equiv> rne (\<bar>x\<bar> * 10 ^ n)"
  defines "f \<equiv> rstrip_zeros (zpad n (m mod 10 ^ n))"
  shows "trim_fraction (fixed_str n (Fin x)) =
    (if x < 0 then ''-'' else []) @ str_dec (m div 10 ^ n) @ CHR ''.'' # (if f = [] then ''0'' else f)"
proof -
  let ?p = "(if x < 0 then ''-'' else []) @ str_dec (m div 10 ^ n)"
  have fx: "fixed_str n (Fin x) = ?p @ CHR ''.'' # zpad n (m mod 10 ^ n)"
    by (simp add: fixed_rat_def Let_def m_def)
  have strip: "rstrip_zeros (fixed_str n (Fin x)) = ?p @ CHR ''.'' # f"
    unfolding fx f_def by (rule rstrip_zeros_point)
  have "\<forall>c \<in> set f. is_digit c"
    using zpad_digits [of "m mod 10 ^ n" n] rstrip_zeros_split [of "zpad n (m mod 10 ^ n)"]
    by (auto simp: f_def) (metis UnCI set_append)
  then have tail: "endswith (?p @ CHR ''.'' # f) ''.'' \<longleftrightarrow> f = []"
    using digits_no_dot [of f] endswith_snoc [of "?p @ CHR ''.'' # butlast f" "last f" "CHR ''.''"]
      endswith_snoc [of ?p "CHR ''.''" "CHR ''.''"]
    by (cases f rule: rev_cases) auto
  have "CHR ''.'' \<in> set (fixed_str n (Fin x))" unfolding fx by simp
  then show ?thesis
    unfolding trim_fraction_def Let_def strip tail by simp
qed

lemma trim_fraction_close:
  assumes "0 < n"
  shows "is_fixed_point (trim_fraction (fixed_str n (Fin x)))"
    and "decimal_value (trim_fraction (fixed_str n (Fin x))) = decimal_value (fixed_rat n x)"
proof -
  define m where "m = rne (\<bar>x\<bar> * 10 ^ n)"
  define w z f where "w = str_dec (m div 10 ^ n)" and "z = zpad n (m mod 10 ^ n)"
    and "f = rstrip_zeros z"
  let ?f = "if f = [] then ''0'' else f"
  note d = fixed_rat_digits [of x n, folded m_def]
  have w: "\<forall>c \<in> set w. is_digit c" "w \<noteq> []" and z: "\<forall>c \<in> set z. is_digit c"
    using str_dec_digits [OF d(1)] zpad_digits [OF d(2)] by (simp_all add: w_def z_def)
  obtain k where k: "z = f @ replicate k (CHR ''0'')" using rstrip_zeros_split f_def by blast
  have f: "\<forall>c \<in> set ?f. is_digit c" "?f \<noteq> []" using z k by auto
  have "of_int (dec_val 0 ?f) / 10 ^ length ?f = (of_int (dec_val 0 z) / 10 ^ length z :: rat)"
    by (auto simp: k dec_val_snoc_zeros power_add digit_val_def dec_val_zeros [of _ "[]", simplified])
  then have same: "decimal_abs (w @ CHR ''.'' # ?f) = decimal_abs (w @ CHR ''.'' # z)"
    using w by (simp add: decimal_abs_parts)
  have ff: "trim_fraction (fixed_str n (Fin x)) = (if x < 0 then ''-'' else []) @ w @ CHR ''.'' # ?f"
    using trim_fraction_parts [of n x] by (simp add: m_def w_def z_def f_def)
  have fr: "fixed_rat n x = (if x < 0 then ''-'' else []) @ w @ CHR ''.'' # z"
    by (simp add: fixed_rat_def Let_def m_def w_def z_def)
  obtain c cs where c: "w = c # cs" "is_digit c" using w by (cases w) auto
  show "decimal_value (trim_fraction (fixed_str n (Fin x))) = decimal_value (fixed_rat n x)"
    unfolding ff fr using same c by (simp add: decimal_value_simps)
  show "is_fixed_point (trim_fraction (fixed_str n (Fin x)))"
    unfolding ff using is_fixed_point_parts [OF w f] by simp
qed

text \<open>
  A finite float is printed in fixed-point notation (digits, a point, digits; no exponent), and the
  printed number differs from the float by at most half a unit of the eighth decimal place.
\<close>

theorem format_float_fixed_point:
  "is_fixed_point (format_float (Fin x)) \<and>
   \<bar>decimal_value (format_float (Fin x)) - x\<bar> \<le> 1 / (2 * 10 ^ 8)"
  unfolding format_float_def
  using trim_fraction_close [of 8 x] fixed_rat_close [of 8 x] by simp

section \<open>The failure records\<close>

lemma mismatch_json_total:
  "list_all (dict_has f) [''field_name'', ''expected'', ''observed''] \<Longrightarrow> \<exists>j. mismatch_json f = Inr j"
  by (auto simp: mismatch_json_def dest!: dict_item_total)

lemma res_map_ex: "(\<And>x. x \<in> set xs \<Longrightarrow> \<exists>y. f x = Inr y) \<Longrightarrow> \<exists>ys. res_map f xs = Inr ys"
proof (induction xs)
  case (Cons x xs)
  then obtain y ys where "f x = Inr y" "res_map f xs = Inr ys" by force
  then show ?case by simp
qed simp

text \<open>
  \<open>RunnerAbortedWriter.write\<close> accepts exactly the four abort reasons with complete mismatch
  entries: then it writes one file, whose name contains the candidate id, ending in a line feed, and
  changes no other file; otherwise it raises \<open>ValueError\<close>.
\<close>

theorem write_aborted_spec:
  "if r \<in> set VALID_ABORT_REASONS
      \<and> list_all (\<lambda>f. list_all (dict_has f) [''field_name'', ''expected'', ''observed'']) ms
   then \<exists>text. write_aborted dir cid r ms ts fs
               = Inr (aborted_path dir cid, fs(aborted_path dir cid \<mapsto> text)) \<and> endswith text nl
   else write_aborted dir cid r ms ts fs = Inl ValueError"
proof (cases "list_all (\<lambda>f. list_all (dict_has f) [''field_name'', ''expected'', ''observed'']) ms")
  case True
  then obtain js where "res_map mismatch_json ms = Inr js"
    using res_map_ex [of ms mismatch_json] mismatch_json_total by (auto simp: list_all_iff)
  then show ?thesis using True ensure_lf_ends by (auto simp: write_aborted_def Let_def)
qed (simp add: write_aborted_def)

text \<open>
  The abort record and the rejection record of any two candidates are different files, and each
  kind of record has one file per candidate id.
\<close>

theorem failure_records_disjoint:
  "aborted_path dir c \<noteq> rejected_path dir c' \<and> inj (aborted_path dir) \<and> inj (rejected_path dir)"
proof -
  have "aborted_path dir c \<noteq> rejected_path dir c'"
  proof
    assume "aborted_path dir c = rejected_path dir c'"
    then have "rev (c @ ''_runner_aborted.json'') = rev (c' @ ''_runner_rejected_combinations.json'')"
      by (simp add: aborted_path_def rejected_path_def)
    then show False by simp
  qed
  then show ?thesis by (simp add: inj_on_def aborted_path_def rejected_path_def)
qed

end
