(* ===== verification/Scan.thy ===== *)
theory Scan
  imports Snapshot
begin

text \<open>
  Shared machinery of the entry layer. The locale \<open>first_match\<close> is the contract of the loops of the
  form \<open>for bar in bars: if hit(bar): return out(bar)\<close>: the detector's two loops, the pull-back scan
  and the search for the trigger bar interpret it. The second part is Python's arithmetic on lists
  of floats: \<open>sum\<close>, \<open>min\<close>, \<open>sorted\<close>.
\<close>

section \<open>Loops that return at the first hit\<close>

locale first_match =
  fixes loop :: "'a list \<Rightarrow> 'b option"
    and hit :: "'a \<Rightarrow> bool"
    and out :: "'a \<Rightarrow> 'b"
  assumes loop_Nil: "loop [] = None"
    and loop_hit: "hit x \<Longrightarrow> loop (x # xs) = Some (out x)"
    and loop_skip: "\<not> hit x \<Longrightarrow> loop (x # xs) = loop xs"
begin

lemma loop_find: "loop xs = map_option out (find hit xs)"
  by (induction xs) (auto simp: loop_Nil loop_hit loop_skip)

lemma none_iff: "loop xs = None \<longleftrightarrow> (\<forall>x \<in> set xs. \<not> hit x)"
  by (auto simp: loop_find find_None_iff)

lemma some_iff:
  "loop xs = Some r \<longleftrightarrow>
   (\<exists>i < length xs. hit (xs ! i) \<and> (\<forall>j < i. \<not> hit (xs ! j)) \<and> r = out (xs ! i))"
  by (auto simp: loop_find find_Some_iff)

lemma earliest:
  assumes "loop xs = Some r"
  obtains i where "i < length xs" and "hit (xs ! i)" and "\<forall>j < i. \<not> hit (xs ! j)" and "r = out (xs ! i)"
  using assms some_iff by blast

lemma append_miss: "\<forall>x \<in> set xs. \<not> hit x \<Longrightarrow> loop (xs @ ys) = loop ys"
  by (induction xs) (auto simp: loop_skip)

lemma append_hit: "loop xs = Some r \<Longrightarrow> loop (xs @ ys) = Some r"
proof (induction xs)
  case (Cons x xs)
  then show ?case by (cases "hit x") (auto simp: loop_hit loop_skip)
qed (simp add: loop_Nil)

end

section \<open>Lists of floats\<close>

text \<open>
  \<open>sum(xs)\<close>: left to right from zero, rounding after each addition (CPython up to 3.11; later versions
  add a compensation term).
\<close>

definition py_sum :: "pyfloat list \<Rightarrow> pyfloat" where
  "py_sum xs = foldl fadd (Fin 0) xs"

text \<open>\<open>min(xs)\<close> of a non-empty list\<close>

fun py_min :: "pyfloat \<Rightarrow> pyfloat list \<Rightarrow> pyfloat" where
  "py_min m [] = m"
| "py_min m (x # xs) = py_min (if flt x m then x else m) xs"

text \<open>\<open>sorted(xs)\<close> of floats\<close>

definition fsorted :: "pyfloat list \<Rightarrow> pyfloat list" where
  "fsorted xs = sort xs"

text \<open>\<open>float(n)\<close> of an integer raises when the integer is too large.\<close>

definition float_of_int :: "int \<Rightarrow> pyfloat res" where
  "float_of_int n =
     (case fl (of_int n) of Fin x \<Rightarrow> Inr (Fin x) | _ \<Rightarrow> Inl OverflowError)"

lemma py_sum_f64: "is_f64 (py_sum xs)"
proof -
  have "is_f64 a \<Longrightarrow> is_f64 (foldl fadd a xs)" for a
    by (induction xs arbitrary: a) auto
  then show ?thesis by (simp add: py_sum_def is_f64_Fin)
qed

text \<open>Summing a part of a list of non-negative floats gives at most the sum of the whole list.\<close>

lemma foldl_fadd_filter_mono:
  assumes "fle (Fin 0) a" and "fle a b" and "\<forall>x \<in> set xs. fle (Fin 0) (f x)" and "is_f64 b"
  shows "fle (Fin 0) (foldl fadd a (map f (filter P xs)))
    \<and> fle (foldl fadd a (map f (filter P xs))) (foldl fadd b (map f xs))"
  using assms
proof (induction xs arbitrary: a b)
  case Nil
  then show ?case by simp
next
  case (Cons x xs)
  let ?v = "f x"
  have x: "fle (Fin 0) ?v" and b: "fle (Fin 0) b" using Cons.prems fle_trans by auto
  have nn: "fadd c ?v \<noteq> NaN" if "fle (Fin 0) c" for c
    using that x by (cases c; cases ?v) auto
  have z: "fadd (Fin 0) (Fin 0) = Fin 0" by simp
  have up: "fle b (fadd b ?v)"
    using fadd_mono [of b b "Fin 0" ?v] Cons.prems b x nn by (auto simp: fle_refl_iff dest: fle_not_NaN)
  show ?case
  proof (cases "P x")
    case True
    have "fle (Fin 0) (fadd a ?v)"
      using fadd_mono [of "Fin 0" a "Fin 0" ?v] Cons.prems x nn z by auto
    moreover have "fle (fadd a ?v) (fadd b ?v)"
      using fadd_mono [of a b ?v ?v] Cons.prems b x nn by (auto simp: fle_refl_iff dest: fle_not_NaN)
    ultimately show ?thesis using True Cons.IH [of "fadd a ?v" "fadd b ?v"] Cons.prems by auto
  next
    case False
    have "fle a (fadd b ?v)" using Cons.prems up fle_trans by blast
    then show ?thesis using False Cons.IH [of a "fadd b ?v"] Cons.prems by auto
  qed
qed

lemma py_sum_filter_mono:
  assumes "\<forall>x \<in> set xs. fle (Fin 0) (f x)"
  shows "fle (Fin 0) (py_sum (map f (filter P xs)))
    \<and> fle (py_sum (map f (filter P xs))) (py_sum (map f xs))"
  unfolding py_sum_def using assms by (intro foldl_fadd_filter_mono) (auto simp: is_f64_Fin)

lemma fl_1 [simp]: "fl 1 = Fin 1"
  by code_simp

text \<open>A share of a finite positive total lies between zero and one.\<close>

lemma share_bounds:
  assumes "fle (Fin 0) s" and "fle s t" and "t \<noteq> PInf" and "\<not> feq t (Fin 0)" and "fdiv s t = Some q"
  shows "fle (Fin 0) q \<and> fle q (Fin 1)"
proof -
  obtain a b where ab: "s = Fin a" "t = Fin b" "0 \<le> a" "a \<le> b" "b \<noteq> 0"
    using assms by (cases s; cases t) (auto simp: feq_iff)
  then have "q = fl (a / b)" using assms by simp
  moreover have "0 \<le> a / b" and "a / b \<le> 1" using ab by (auto simp: field_simps)
  ultimately show ?thesis using fl_nonneg fl_mono [of "a / b" 1] by simp
qed

end
