(* ===== verification/Detector.thy ===== *)
theory Detector
  imports Scan
begin

text \<open>
  \<open>detector/entry_trigger_detector.py\<close>: the market data of an event and the detection of the
  intrabar breakout. The loops of \<open>detect\<close> are interpretations of \<open>first_match\<close>.
\<close>

record one_second_bar =
  bar_open_ts :: datetime
  bar_close_ts :: datetime
  bar_high :: pyfloat
  bar_low :: pyfloat

record trigger_decision =
  td_trigger_ts :: datetime
  td_side :: string
  td_level :: pyfloat

text \<open>
  An event row: the fields of the detector's \<open>Event\<close> protocol, of the pre-touch gate's
  \<open>PretouchEvent\<close> protocol, and the ATR that the pipeline reads.
\<close>

record event =
  ev_symbol :: string
  ev_side :: string
  ev_signal_bar_start_ts :: datetime
  ev_signal_bar_end_ts :: datetime
  prev_high_2 :: pyfloat
  prev_low_2 :: pyfloat
  pretouch_distance_bucket_atr :: pyfloat
  pretouch_speed300_bucket_atr :: pyfloat
  pretouch_pullback_bucket_atr :: pyfloat
  atr14_prev_closed_1h :: pyfloat

section \<open>Detection\<close>

text \<open>The two loops of \<open>detect\<close>\<close>

fun detect_long :: "pyfloat \<Rightarrow> one_second_bar list \<Rightarrow> trigger_decision option" where
  "detect_long level [] = None"
| "detect_long level (bar # bars) =
     (if fle level (bar_high bar)
      then Some \<lparr>td_trigger_ts = bar_close_ts bar, td_side = ''long'', td_level = level\<rparr>
      else detect_long level bars)"

fun detect_short :: "pyfloat \<Rightarrow> one_second_bar list \<Rightarrow> trigger_decision option" where
  "detect_short level [] = None"
| "detect_short level (bar # bars) =
     (if fle (bar_low bar) level
      then Some \<lparr>td_trigger_ts = bar_close_ts bar, td_side = ''short'', td_level = level\<rparr>
      else detect_short level bars)"

definition detect :: "event \<Rightarrow> one_second_bar list \<Rightarrow> trigger_decision option" where
  "detect event bars =
     (if ev_side event = ''long'' then detect_long (prev_high_2 event) bars
      else if ev_side event = ''short'' then detect_short (prev_low_2 event) bars
      else None)"

section \<open>Correctness\<close>

text \<open>When a bar touches the level of the event, in the event's direction.\<close>

definition touches :: "event \<Rightarrow> one_second_bar \<Rightarrow> bool" where
  "touches event bar \<longleftrightarrow>
     (ev_side event = ''long'' \<and> fle (prev_high_2 event) (bar_high bar))
     \<or> (ev_side event = ''short'' \<and> fle (bar_low bar) (prev_low_2 event))"

definition event_level :: "event \<Rightarrow> pyfloat" where
  "event_level event = (if ev_side event = ''long'' then prev_high_2 event else prev_low_2 event)"

interpretation long_scan: first_match "detect_long level" "\<lambda>bar. fle level (bar_high bar)"
  "\<lambda>bar. \<lparr>td_trigger_ts = bar_close_ts bar, td_side = ''long'', td_level = level\<rparr>" for level
  by unfold_locales auto

interpretation short_scan: first_match "detect_short level" "\<lambda>bar. fle (bar_low bar) level"
  "\<lambda>bar. \<lparr>td_trigger_ts = bar_close_ts bar, td_side = ''short'', td_level = level\<rparr>" for level
  by unfold_locales auto

interpretation detector: first_match "detect event" "touches event"
  "\<lambda>bar. \<lparr>td_trigger_ts = bar_close_ts bar, td_side = ev_side event, td_level = event_level event\<rparr>"
  for event
  by unfold_locales (auto simp: detect_def touches_def event_level_def)

text \<open>
  C6. \<open>detect\<close> reports a trigger exactly when some bar touches the level; the trigger then carries the
  closing time of the first such bar, the side of the event and its level. It never reports a
  trigger that no bar supports.
\<close>

theorem detect_earliest:
  "detect event bars = Some t \<longleftrightarrow>
     (\<exists>pre bar post. bars = pre @ bar # post \<and> touches event bar \<and> \<not> list_ex (touches event) pre
        \<and> t = \<lparr>td_trigger_ts = bar_close_ts bar, td_side = ev_side event, td_level = event_level event\<rparr>)"
proof
  assume "detect event bars = Some t"
  then obtain i where i: "i < length bars" "touches event (bars ! i)" "\<forall>j < i. \<not> touches event (bars ! j)"
    and t: "t = \<lparr>td_trigger_ts = bar_close_ts (bars ! i), td_side = ev_side event, td_level = event_level event\<rparr>"
    by (rule detector.earliest)
  have "bars = take i bars @ bars ! i # drop (Suc i) bars" using i id_take_nth_drop by blast
  moreover have "\<not> list_ex (touches event) (take i bars)"
    using i by (auto simp: list_ex_iff in_set_conv_nth)
  ultimately show "\<exists>pre bar post. bars = pre @ bar # post \<and> touches event bar \<and> \<not> list_ex (touches event) pre
        \<and> t = \<lparr>td_trigger_ts = bar_close_ts bar, td_side = ev_side event, td_level = event_level event\<rparr>"
    using i t by blast
next
  assume "\<exists>pre bar post. bars = pre @ bar # post \<and> touches event bar \<and> \<not> list_ex (touches event) pre
        \<and> t = \<lparr>td_trigger_ts = bar_close_ts bar, td_side = ev_side event, td_level = event_level event\<rparr>"
  then show "detect event bars = Some t"
    using detector.append_miss detector.loop_hit by (fastforce simp: list_ex_iff)
qed

text \<open>
  Detection does not look ahead: once a prefix of the second bars has triggered, bars that arrive
  later cannot change the decision, and bars that touch nothing can be put in front without effect.
\<close>

theorem detect_prefix_stable:
  assumes "detect event bars = Some t" and "\<not> list_ex (touches event) quiet"
  shows "detect event (quiet @ bars @ later) = Some t"
  using assms detector.append_hit detector.append_miss by (auto simp: list_ex_iff)

definition sample_bar :: "int \<Rightarrow> rat \<Rightarrow> rat \<Rightarrow> one_second_bar" where
  "sample_bar k hi lo =
     \<lparr>bar_open_ts = seconds (k - 1), bar_close_ts = seconds k, bar_high = Fin hi, bar_low = Fin lo\<rparr>"

definition sample_event :: event where
  "sample_event =
     \<lparr>ev_symbol = ''ETHUSDT'', ev_side = ''long'', ev_signal_bar_start_ts = 0,
      ev_signal_bar_end_ts = seconds 3600, prev_high_2 = Fin 100, prev_low_2 = Fin 90,
      pretouch_distance_bucket_atr = Fin (1 / 8), pretouch_speed300_bucket_atr = Fin (1 / 2),
      pretouch_pullback_bucket_atr = Fin (1 / 64), atr14_prev_closed_1h = Fin 4\<rparr>"

theorem detect_prefix_stable_witness:
  "detect sample_event ([sample_bar 1 99 98] @ [sample_bar 2 100 99] @ [sample_bar 3 105 101])
   = Some \<lparr>td_trigger_ts = 2000000, td_side = ''long'', td_level = Fin 100\<rparr>"
  by (rule detect_prefix_stable)
     (simp_all add: detect_def touches_def sample_event_def sample_bar_def seconds_def)

end
