(* ===== verification/Confirmation.thy ===== *)
theory Confirmation
  imports Detector
begin

text \<open>
  \<open>confirmation/trigger_confirmation_evaluator.py\<close>: the second check of a trigger in the window
  \<open>[trigger_ts, trigger_ts + D]\<close>, by persistence, by a retest of the level or by volume, and the tick
  imbalance. The windows are the lists of their elements.
\<close>

record confirmation_outcome =
  confirmed :: bool
  skip_reason :: "string option"

record taker_trade =
  tt_ts :: datetime
  tt_quote_volume :: pyfloat
  is_buyer_maker :: bool

record hourly_bar =
  hb_close_ts :: datetime
  hb_quote_volume :: pyfloat

abbreviation confirm :: confirmation_outcome where
  "confirm \<equiv> \<lparr>confirmed = True, skip_reason = None\<rparr>"

abbreviation skip :: "string \<Rightarrow> confirmation_outcome" where
  "skip r \<equiv> \<lparr>confirmed = False, skip_reason = Some r\<rparr>"

section \<open>Parameters in the identifiers\<close>

definition parse_persistence_n :: "string \<Rightarrow> int res" where
  "parse_persistence_n cid = py_int (str_replace ''persistence_n'' [] cid)"

definition parse_retest_tick_buffer :: "string \<Rightarrow> int res" where
  "parse_retest_tick_buffer cid = py_int (str_replace ''retest_tb'' [] cid)"

definition parse_minvol_bps :: "string \<Rightarrow> int res" where
  "parse_minvol_bps cid = py_int (str_replace ''minvol_bps'' [] cid)"

definition median :: "pyfloat list \<Rightarrow> pyfloat res" where
  "median vs =
     (let sorted_values = fsorted vs; n = length sorted_values; mid = n div 2
      in if n = 0 then Inr (Fin 0)
         else if n mod 2 = 0
         then the_or_raise ZeroDivisionError
                (fdiv (fadd (sorted_values ! (mid - 1)) (sorted_values ! mid)) (Fin 2))
         else Inr (sorted_values ! mid))"

section \<open>The checks\<close>

definition evaluate_none :: confirmation_outcome where
  "evaluate_none = confirm"

text \<open>\<open>(side == "long" and bar.high >= level) or (side == "short" and bar.low <= level)\<close>\<close>

definition condition_met :: "trigger_decision \<Rightarrow> one_second_bar \<Rightarrow> bool" where
  "condition_met t bar \<longleftrightarrow>
     (td_side t = ''long'' \<and> fle (td_level t) (bar_high bar))
     \<or> (td_side t = ''short'' \<and> fle (bar_low bar) (td_level t))"

fun persistence_loop :: "trigger_decision \<Rightarrow> int \<Rightarrow> int \<Rightarrow> one_second_bar list \<Rightarrow> bool" where
  "persistence_loop t n count [] = False"
| "persistence_loop t n count (bar # bars) =
     (if condition_met t bar
      then if count + 1 \<ge> n then True else persistence_loop t n (count + 1) bars
      else persistence_loop t n 0 bars)"

definition bars_in_window :: "datetime \<Rightarrow> int \<Rightarrow> one_second_bar list \<Rightarrow> one_second_bar list" where
  "bars_in_window ts d bars =
     filter (\<lambda>bar. ts \<le> bar_close_ts bar \<and> bar_close_ts bar \<le> ts + seconds d) bars"

definition evaluate_persistence ::
  "runner_parameter_snapshot \<Rightarrow> trigger_decision \<Rightarrow> one_second_bar list \<Rightarrow> confirmation_outcome res" where
  "evaluate_persistence s t bars =
     res_bind (parse_persistence_n (trigger_confirmation_id (candidate s))) (\<lambda>n_seconds.
       let window = bars_in_window (td_trigger_ts t) (entry_delay_seconds (candidate s)) bars
       in if window = [] then Inr (skip ''persistence_timeout'')
          else if persistence_loop t n_seconds 0 window then Inr confirm
          else Inr (skip ''persistence_timeout''))"

definition bars_after_trigger :: "datetime \<Rightarrow> int \<Rightarrow> one_second_bar list \<Rightarrow> one_second_bar list" where
  "bars_after_trigger ts d bars =
     filter (\<lambda>bar. ts < bar_close_ts bar \<and> bar_close_ts bar \<le> ts + seconds d) bars"

definition retest_tick_size :: "runner_parameter_snapshot \<Rightarrow> pyfloat" where
  "retest_tick_size s =
     (case map snd (tick_size_by_symbol (symbol_filters s)) of
        [] \<Rightarrow> fl (1 / 100)
      | x # xs \<Rightarrow> py_min x xs)"

definition evaluate_retest ::
  "runner_parameter_snapshot \<Rightarrow> trigger_decision \<Rightarrow> one_second_bar list \<Rightarrow> confirmation_outcome res" where
  "evaluate_retest s t bars =
     res_bind (parse_retest_tick_buffer (trigger_confirmation_id (candidate s))) (\<lambda>tick_buffer.
     res_bind (float_of_int tick_buffer) (\<lambda>k.
       let buffer = fmul k (retest_tick_size s);
           window = bars_after_trigger (td_trigger_ts t) (entry_delay_seconds (candidate s)) bars;
           level_lower = fsub (td_level t) buffer;
           level_upper = fadd (td_level t) buffer
       in if window = [] then Inr (skip ''retest_timeout'')
          else if td_side t = ''long''
               \<and> list_ex (\<lambda>bar. fle level_lower (bar_low bar) \<and> fle (bar_low bar) level_upper) window
          then Inr confirm
          else if td_side t = ''short''
               \<and> list_ex (\<lambda>bar. fle level_lower (bar_high bar) \<and> fle (bar_high bar) level_upper) window
          then Inr confirm
          else Inr (skip ''retest_timeout'')))"

definition evaluate_min_volume ::
  "runner_parameter_snapshot \<Rightarrow> trigger_decision \<Rightarrow> taker_trade list \<Rightarrow> hourly_bar list option
   \<Rightarrow> confirmation_outcome res" where
  "evaluate_min_volume s t trades hourly_history =
     res_bind (parse_minvol_bps (trigger_confirmation_id (candidate s))) (\<lambda>min_notional_bps.
       case hourly_history of
         None \<Rightarrow> Inr (skip ''insufficient_history_skip'')
       | Some bars \<Rightarrow>
           if length bars < 20 then Inr (skip ''insufficient_history_skip'')
           else
             res_bind (median (map hb_quote_volume (drop (length bars - 20) bars))) (\<lambda>median_notional.
             res_bind (float_of_int min_notional_bps) (\<lambda>bps.
             res_bind (the_or_raise ZeroDivisionError (fdiv (fmul bps median_notional) (Fin 10000))) (\<lambda>threshold.
               let bar_end = td_trigger_ts t; bar_start = bar_end - seconds 1;
                   trigger_bar_notional =
                     py_sum (map tt_quote_volume
                       (filter (\<lambda>x. bar_start \<le> tt_ts x \<and> tt_ts x \<le> bar_end) trades))
               in if fle threshold trigger_bar_notional then Inr confirm
                  else Inr (skip ''insufficient_history_skip'')))))"

definition evaluate_confirmation ::
  "runner_parameter_snapshot \<Rightarrow> trigger_decision \<Rightarrow> one_second_bar list \<Rightarrow> taker_trade list
   \<Rightarrow> hourly_bar list option \<Rightarrow> confirmation_outcome res" where
  "evaluate_confirmation s t bars trades hourly_history =
     (let cid = trigger_confirmation_id (candidate s)
      in if cid = ''none'' then Inr evaluate_none
         else if startswith cid ''persistence_n'' then evaluate_persistence s t bars
         else if startswith cid ''retest_tb'' then evaluate_retest s t bars
         else if startswith cid ''minvol_bps'' then evaluate_min_volume s t trades hourly_history
         else Inl ValueError)"

text \<open>\<open>compute_tick_imbalance\<close>; the quotient is computed only for a total other than zero.\<close>

definition compute_tick_imbalance ::
  "runner_parameter_snapshot \<Rightarrow> trigger_decision \<Rightarrow> taker_trade list \<Rightarrow> pyfloat option" where
  "compute_tick_imbalance s t trades =
     (let ts = td_trigger_ts t;
          window_end = ts + seconds (feature_horizon_seconds (candidate s));
          trades_in_window = filter (\<lambda>x. ts \<le> tt_ts x \<and> tt_ts x \<le> window_end) trades;
          total_quote_volume = py_sum (map tt_quote_volume trades_in_window)
      in if trades_in_window = [] then None
         else if feq total_quote_volume (Fin 0) then None
         else if td_side t = ''long''
         then fdiv (py_sum (map tt_quote_volume (filter (\<lambda>x. \<not> is_buyer_maker x) trades_in_window)))
                   total_quote_volume
         else fdiv (py_sum (map tt_quote_volume (filter is_buyer_maker trades_in_window)))
                   total_quote_volume)"

section \<open>Persistence\<close>

text \<open>A run of \<open>n\<close> consecutive bars that keep touching the level.\<close>

definition has_run :: "('a \<Rightarrow> bool) \<Rightarrow> nat \<Rightarrow> 'a list \<Rightarrow> bool" where
  "has_run P n xs \<longleftrightarrow> (\<exists>pre run post. xs = pre @ run @ post \<and> length run = n \<and> list_all P run)"

lemma has_run_0 [simp]: "has_run P 0 xs"
  unfolding has_run_def by (rule exI [of _ "[]"]) auto

lemma has_run_Nil: "has_run P (Suc n) [] = False"
  by (auto simp: has_run_def)

lemma has_run_Cons:
  "has_run P n (x # xs) \<longleftrightarrow> (n \<le> Suc (length xs) \<and> list_all P (take n (x # xs))) \<or> has_run P n xs"
proof
  assume "has_run P n (x # xs)"
  then obtain pre run post where r: "x # xs = pre @ run @ post" "length run = n" "list_all P run"
    by (auto simp: has_run_def)
  show "(n \<le> Suc (length xs) \<and> list_all P (take n (x # xs))) \<or> has_run P n xs"
  proof (cases pre)
    case Nil
    then have eq: "x # xs = run @ post" using r by simp
    then have "length (x # xs) = n + length post" and "take n (x # xs) = run"
      using r by (simp_all only: length_append take_append) auto
    then show ?thesis using r(3) by simp
  next
    case (Cons y ys)
    then show ?thesis using r by (auto simp: has_run_def)
  qed
next
  assume "(n \<le> Suc (length xs) \<and> list_all P (take n (x # xs))) \<or> has_run P n xs"
  then show "has_run P n (x # xs)"
  proof
    assume a: "n \<le> Suc (length xs) \<and> list_all P (take n (x # xs))"
    have "x # xs = [] @ take n (x # xs) @ drop n (x # xs)" by simp
    moreover have "length (take n (x # xs)) = n" using a by simp
    ultimately show ?thesis using a unfolding has_run_def by blast
  next
    assume "has_run P n xs"
    then obtain pre run post where "xs = pre @ run @ post" "length run = n" "list_all P run"
      by (auto simp: has_run_def)
    then have "x # xs = (x # pre) @ run @ post" by simp
    then show ?thesis using \<open>length run = n\<close> \<open>list_all P run\<close> unfolding has_run_def by blast
  qed
qed

lemma has_run_skip: "\<not> P x \<Longrightarrow> 0 < n \<Longrightarrow> has_run P n (x # xs) \<longleftrightarrow> has_run P n xs"
  by (cases n) (auto simp: has_run_Cons)

text \<open>The counter of the loop: what it still needs at the front, or a full run later.\<close>

lemma persistence_loop_iff:
  assumes "0 \<le> c" and "c < n"
  shows "persistence_loop t n c bars \<longleftrightarrow>
    (nat (n - c) \<le> length bars \<and> list_all (condition_met t) (take (nat (n - c)) bars))
    \<or> has_run (condition_met t) (nat n) bars"
  using assms
proof (induction t n c bars rule: persistence_loop.induct)
  case (1 t n c)
  then show ?case by (cases "nat n") (auto simp: has_run_Nil)
next
  case (2 t n c bar bars)
  obtain m where m: "nat (n - c) = Suc m" using "2.prems" by (cases "nat (n - c)") auto
  show ?case
  proof (cases "condition_met t bar")
    case False
    then have IH: "persistence_loop t n 0 bars \<longleftrightarrow>
        (nat n \<le> length bars \<and> list_all (condition_met t) (take (nat n) bars))
        \<or> has_run (condition_met t) (nat n) bars"
      using "2.IH"(2) "2.prems" by simp
    have "nat n \<le> length bars \<and> list_all (condition_met t) (take (nat n) bars)
        \<Longrightarrow> has_run (condition_met t) (nat n) bars"
      using has_run_Cons [of "condition_met t" "nat n"] "2.prems" by (cases bars) auto
    then show ?thesis using False IH m "2.prems" by (auto simp: has_run_skip)
  next
    case True
    show ?thesis
    proof (cases "n \<le> c + 1")
      case True
      then have "m = 0" using m by linarith
      then show ?thesis using True \<open>condition_met t bar\<close> m by simp
    next
      case False
      have "nat (n - (c + 1)) = m" using m by linarith
      then have IH: "persistence_loop t n (c + 1) bars \<longleftrightarrow>
          (m \<le> length bars \<and> list_all (condition_met t) (take m bars))
          \<or> has_run (condition_met t) (nat n) bars"
        using "2.IH"(1) [OF \<open>condition_met t bar\<close>] "2.prems" False by auto
      have long: "nat n \<le> Suc (length bars) \<and> list_all (condition_met t) (take (nat n) (bar # bars))
          \<Longrightarrow> m \<le> length bars \<and> list_all (condition_met t) (take m bars)"
      proof -
        assume a: "nat n \<le> Suc (length bars) \<and> list_all (condition_met t) (take (nat n) (bar # bars))"
        have le: "Suc m \<le> nat n" using m "2.prems" by linarith
        then have "take (Suc m) (bar # bars) = take (Suc m) (take (nat n) (bar # bars))"
          by (simp add: min_def)
        then have "list_all (condition_met t) (take (Suc m) (bar # bars))"
          using a by (metis in_set_takeD list_all_iff)
        then show ?thesis using a le by simp
      qed
      show ?thesis using True False IH m long by (auto simp: has_run_Cons)
    qed
  qed
qed

text \<open>
  With \<open>N\<close> at least one, the persistence check confirms exactly when the window
  \<open>[trigger_ts, trigger_ts + D]\<close> contains \<open>N\<close> consecutive bars that all keep touching the level; otherwise
  it reports \<open>persistence_timeout\<close>.
\<close>

theorem evaluate_persistence_iff:
  assumes "parse_persistence_n (trigger_confirmation_id (candidate s)) = Inr n" and "1 \<le> n"
  shows "evaluate_persistence s t bars =
    Inr (if has_run (condition_met t) (nat n)
              (bars_in_window (td_trigger_ts t) (entry_delay_seconds (candidate s)) bars)
         then confirm else skip ''persistence_timeout'')"
proof -
  let ?w = "bars_in_window (td_trigger_ts t) (entry_delay_seconds (candidate s)) bars"
  have "persistence_loop t n 0 ?w \<longleftrightarrow> has_run (condition_met t) (nat n) ?w"
    using persistence_loop_iff [of 0 n t ?w] assms has_run_Cons [of "condition_met t" "nat n"]
    by (cases ?w) (auto simp: Suc_le_eq)
  moreover have "\<not> has_run (condition_met t) (nat n) []"
    using assms by (cases "nat n") (auto simp: has_run_Nil)
  ultimately show ?thesis
    using assms by (auto simp: evaluate_persistence_def Let_def)
qed

definition sample_trigger :: trigger_decision where
  "sample_trigger = \<lparr>td_trigger_ts = seconds 2, td_side = ''long'', td_level = Fin 100\<rparr>"

theorem evaluate_persistence_iff_witness:
  "evaluate_persistence
     (sample_snapshot\<lparr>candidate := BASELINE\<lparr>entry_delay_seconds := 5, trigger_confirmation_id := ''persistence_n3''\<rparr>\<rparr>)
     sample_trigger [] = Inr (skip ''persistence_timeout'')"
proof -
  have p: "parse_persistence_n (trigger_confirmation_id (candidate (sample_snapshot\<lparr>candidate :=
      BASELINE\<lparr>entry_delay_seconds := 5, trigger_confirmation_id := ''persistence_n3''\<rparr>\<rparr>))) = Inr 3"
    by code_simp
  show ?thesis
    using evaluate_persistence_iff [OF p, of sample_trigger "[]"]
    by (simp add: bars_in_window_def has_run_Nil numeral_3_eq_3)
qed

section \<open>Retest\<close>

lemma evaluate_retest_empty_window:
  assumes "parse_retest_tick_buffer (trigger_confirmation_id (candidate s)) = Inr k"
    and "float_of_int k = Inr x" and "entry_delay_seconds (candidate s) = 0"
  shows "evaluate_retest s t bars = Inr (skip ''retest_timeout'')"
proof -
  have "bars_after_trigger ts 0 bars = []" for ts
    by (auto simp: bars_after_trigger_def seconds_def filter_empty_conv)
  then show ?thesis using assms by (simp add: evaluate_retest_def Let_def)
qed

text \<open>
  The three retest candidates of the default subset have an entry delay of zero, so the window
  \<open>(trigger_ts, trigger_ts + 0]\<close> in which a retest counts is empty: whatever the market data, these
  candidates time out and never trade.
\<close>

theorem default_retest_never_confirms:
  "{c \<in> set DEFAULT_SUBSET. startswith (trigger_confirmation_id c) ''retest_tb''}
     = (\<lambda>i. BASELINE\<lparr>trigger_confirmation_id := i\<rparr>) ` {''retest_tb0'', ''retest_tb1'', ''retest_tb2''} \<and>
   list_all (\<lambda>i. evaluate_confirmation (s\<lparr>candidate := BASELINE\<lparr>trigger_confirmation_id := i\<rparr>\<rparr>) t bars trades hist
       = Inr (skip ''retest_timeout'')) [''retest_tb0'', ''retest_tb1'', ''retest_tb2'']"
proof -
  have retest: "evaluate_confirmation (s\<lparr>candidate := BASELINE\<lparr>trigger_confirmation_id := i\<rparr>\<rparr>) t bars trades hist
      = Inr (skip ''retest_timeout'')"
    if "parse_retest_tick_buffer i = Inr k" "float_of_int k = Inr x" "i \<noteq> ''none''"
      "\<not> startswith i ''persistence_n''" "startswith i ''retest_tb''" for i k x
    using that evaluate_retest_empty_window [of "s\<lparr>candidate := BASELINE\<lparr>trigger_confirmation_id := i\<rparr>\<rparr>" k x]
    by (simp add: evaluate_confirmation_def Let_def BASELINE_def)
  have "parse_retest_tick_buffer ''retest_tb0'' = Inr 0" "parse_retest_tick_buffer ''retest_tb1'' = Inr 1"
    "parse_retest_tick_buffer ''retest_tb2'' = Inr 2" "float_of_int 0 = Inr (Fin 0)"
    "float_of_int 1 = Inr (Fin 1)" "float_of_int 2 = Inr (Fin 2)"
    by code_simp+
  then have "list_all (\<lambda>i. evaluate_confirmation (s\<lparr>candidate := BASELINE\<lparr>trigger_confirmation_id := i\<rparr>\<rparr>) t bars trades hist
       = Inr (skip ''retest_timeout'')) [''retest_tb0'', ''retest_tb1'', ''retest_tb2'']"
    by (simp add: retest startswith_def)
  moreover have "{c \<in> set DEFAULT_SUBSET. startswith (trigger_confirmation_id c) ''retest_tb''}
     = (\<lambda>i. BASELINE\<lparr>trigger_confirmation_id := i\<rparr>) ` {''retest_tb0'', ''retest_tb1'', ''retest_tb2''}"
  proof -
    have none: "trigger_confirmation_id BASELINE = ''none''" "\<not> startswith ''none'' ''retest_tb''"
      by (simp_all add: BASELINE_def startswith_def)
    have "filter (\<lambda>v. startswith v ''retest_tb'') TC_AXIS_VALUES = [''retest_tb0'', ''retest_tb1'', ''retest_tb2'']"
      by (simp add: TC_AXIS_VALUES_def startswith_def)
    then have "set (filter (\<lambda>v. startswith v ''retest_tb'') TC_AXIS_VALUES)
        = set [''retest_tb0'', ''retest_tb1'', ''retest_tb2'']" by (rule arg_cong)
    then have sel: "{''retest_tb0'', ''retest_tb1'', ''retest_tb2''}
        = {v \<in> set TC_AXIS_VALUES. startswith v ''retest_tb''}" by (simp only: set_filter list.set)
    show ?thesis
      unfolding set_DEFAULT_SUBSET sel using none by auto
  qed
  ultimately show ?thesis by blast
qed

section \<open>Tick imbalance\<close>

text \<open>
  When the quote volumes are not negative and their sum does not overflow, the tick imbalance is a
  share: a float between 0 and 1, in spite of the roundings of the two sums and of the quotient.
\<close>

theorem tick_imbalance_bounds:
  assumes "compute_tick_imbalance s t trades = Some q"
    and "\<forall>x \<in> set trades. fle (Fin 0) (tt_quote_volume x)"
    and "py_sum (map tt_quote_volume (filter (\<lambda>x. td_trigger_ts t \<le> tt_ts x
           \<and> tt_ts x \<le> td_trigger_ts t + seconds (feature_horizon_seconds (candidate s))) trades)) \<noteq> PInf"
  shows "fle (Fin 0) q \<and> fle q (Fin 1)"
proof -
  define w where "w = filter (\<lambda>x. td_trigger_ts t \<le> tt_ts x
      \<and> tt_ts x \<le> td_trigger_ts t + seconds (feature_horizon_seconds (candidate s))) trades"
  let ?vol = "map tt_quote_volume"
  have part: "fle (Fin 0) (py_sum (?vol (filter P w))) \<and> fle (py_sum (?vol (filter P w))) (py_sum (?vol w))" for P
    using py_sum_filter_mono [of w tt_quote_volume P] assms(2) by (auto simp: w_def)
  obtain P where "fdiv (py_sum (?vol (filter P w))) (py_sum (?vol w)) = Some q"
    and "\<not> feq (py_sum (?vol w)) (Fin 0)"
    using assms(1) by (auto simp: compute_tick_imbalance_def Let_def w_def split: if_splits)
  then show ?thesis using part [of P] assms(3) [folded w_def] share_bounds by metis
qed

theorem tick_imbalance_bounds_witness:
  "fle (Fin 0) (Fin (1 / 4)) \<and> fle (Fin (1 / 4)) (Fin 1)"
proof (rule tick_imbalance_bounds)
  show "compute_tick_imbalance sample_snapshot sample_trigger
      [\<lparr>tt_ts = seconds 2, tt_quote_volume = Fin 1, is_buyer_maker = False\<rparr>,
       \<lparr>tt_ts = seconds 2, tt_quote_volume = Fin 3, is_buyer_maker = True\<rparr>] = Some (Fin (1 / 4))"
    by code_simp
  show "py_sum (map tt_quote_volume (filter (\<lambda>x. td_trigger_ts sample_trigger \<le> tt_ts x
           \<and> tt_ts x \<le> td_trigger_ts sample_trigger + seconds (feature_horizon_seconds (candidate sample_snapshot)))
      [\<lparr>tt_ts = seconds 2, tt_quote_volume = Fin 1, is_buyer_maker = False\<rparr>,
       \<lparr>tt_ts = seconds 2, tt_quote_volume = Fin 3, is_buyer_maker = True\<rparr>])) \<noteq> PInf"
    by code_simp
qed simp

end
