(* ===== verification/Price.thy ===== *)
theory Price
  imports Confirmation
begin

text \<open>
  \<open>price/entry_price_resolver.py\<close>: where and when an entry is filled. The resolver is an object whose
  context (ATR and symbol) the pipeline sets before each event.
\<close>

record price_resolution =
  filled :: bool
  pr_entry_price :: "pyfloat option"
  pr_entry_ts :: "datetime option"
  unfilled_reason :: "string option"

record price_resolver =
  pr_snapshot :: runner_parameter_snapshot
  current_atr14 :: pyfloat
  current_symbol :: string

definition PULLBACK_P_MAP :: "(string \<times> pyfloat) list" where
  "PULLBACK_P_MAP =
     [(''pullback_p000'', fl 0), (''pullback_p002'', fl (2 / 100)),
      (''pullback_p005'', fl (5 / 100)), (''pullback_p010'', fl (1 / 10))]"

definition TICK_BUFFER_K_MAP :: "(string \<times> int) list" where
  "TICK_BUFFER_K_MAP =
     [(''limit_tb_k0'', 0), (''limit_tb_k1'', 1), (''limit_tb_k2'', 2), (''limit_tb_k4'', 4)]"

section \<open>The resolver\<close>

definition new_resolver :: "runner_parameter_snapshot \<Rightarrow> price_resolver" where
  "new_resolver s = \<lparr>pr_snapshot = s, current_atr14 = Fin 0, current_symbol = []\<rparr>"

definition set_context :: "pyfloat \<Rightarrow> string \<Rightarrow> price_resolver \<Rightarrow> price_resolver" where
  "set_context atr14 symbol r = r\<lparr>current_atr14 := atr14, current_symbol := symbol\<rparr>"

abbreviation fill :: "pyfloat \<Rightarrow> datetime \<Rightarrow> price_resolution" where
  "fill p ts \<equiv> \<lparr>filled = True, pr_entry_price = Some p, pr_entry_ts = Some ts, unfilled_reason = None\<rparr>"

definition unfilled :: price_resolution where
  "unfilled =
     \<lparr>filled = False, pr_entry_price = None, pr_entry_ts = None,
      unfilled_reason = Some ''pullback_limit_not_touched_in_window''\<rparr>"

definition resolve_market_on_touch :: "trigger_decision \<Rightarrow> price_resolution" where
  "resolve_market_on_touch t = fill (td_level t) (td_trigger_ts t)"

definition resolve_limit_at_level :: "trigger_decision \<Rightarrow> price_resolution" where
  "resolve_limit_at_level t = fill (td_level t) (td_trigger_ts t)"

text \<open>\<open>_get_tick_size\<close>\<close>

definition get_tick_size :: "price_resolver \<Rightarrow> pyfloat res" where
  "get_tick_size r =
     (let ticks = tick_size_by_symbol (symbol_filters (pr_snapshot r))
      in if ticks = [] then Inl ValueError
         else if current_symbol r \<noteq> [] \<and> dict_has ticks (current_symbol r)
         then dict_item ticks (current_symbol r)
         else if length ticks = 1 then Inr (snd (hd ticks))
         else dict_item ticks (hd (sort (map fst ticks))))"

definition resolve_tick_buffer :: "price_resolver \<Rightarrow> trigger_decision \<Rightarrow> price_resolution res" where
  "resolve_tick_buffer r t =
     res_bind (dict_item TICK_BUFFER_K_MAP (entry_price_mode_id (candidate (pr_snapshot r)))) (\<lambda>k.
     res_bind (get_tick_size r) (\<lambda>tick_size.
       let entry_price =
             (if td_side t = ''long'' then fadd (td_level t) (fmul (Fin (of_int k)) tick_size)
              else fsub (td_level t) (fmul (Fin (of_int k)) tick_size))
       in Inr (fill entry_price (td_trigger_ts t))))"

text \<open>The target price and the scan of \<open>_resolve_post_touch_pullback_limit\<close>\<close>

definition pullback_target :: "pyfloat \<Rightarrow> pyfloat \<Rightarrow> trigger_decision \<Rightarrow> pyfloat" where
  "pullback_target p atr14 t =
     (if td_side t = ''long'' then fsub (td_level t) (fmul p atr14)
      else fadd (td_level t) (fmul p atr14))"

fun pullback_loop ::
  "string \<Rightarrow> pyfloat \<Rightarrow> datetime \<Rightarrow> datetime \<Rightarrow> one_second_bar list \<Rightarrow> price_resolution" where
  "pullback_loop side target w_start w_end [] = unfilled"
| "pullback_loop side target w_start w_end (bar # bars) =
     (if bar_close_ts bar < w_start then pullback_loop side target w_start w_end bars
      else if w_end < bar_close_ts bar then unfilled
      else if side = ''long''
      then if fle (bar_low bar) target then fill target (bar_close_ts bar)
           else pullback_loop side target w_start w_end bars
      else if fle target (bar_high bar) then fill target (bar_close_ts bar)
           else pullback_loop side target w_start w_end bars)"

definition resolve_pullback_limit ::
  "price_resolver \<Rightarrow> trigger_decision \<Rightarrow> one_second_bar list \<Rightarrow> price_resolution res" where
  "resolve_pullback_limit r t bars =
     res_bind (dict_item PULLBACK_P_MAP (entry_price_mode_id (candidate (pr_snapshot r)))) (\<lambda>p.
       let window_start = td_trigger_ts t;
           window_end = window_start + seconds (entry_delay_seconds (candidate (pr_snapshot r)))
       in Inr (pullback_loop (td_side t) (pullback_target p (current_atr14 r) t)
                 window_start window_end bars))"

definition resolve :: "price_resolver \<Rightarrow> trigger_decision \<Rightarrow> one_second_bar list \<Rightarrow> price_resolution res" where
  "resolve r t bars =
     (let mode = entry_price_mode_id (candidate (pr_snapshot r))
      in if mode = ''market_on_touch'' then Inr (resolve_market_on_touch t)
         else if mode = ''limit_at_level'' then Inr (resolve_limit_at_level t)
         else if dict_has TICK_BUFFER_K_MAP mode then resolve_tick_buffer r t
         else if dict_has PULLBACK_P_MAP mode then resolve_pullback_limit r t bars
         else Inl ValueError)"

section \<open>Entries stay in the delay window\<close>

definition in_window :: "datetime \<Rightarrow> datetime \<Rightarrow> one_second_bar \<Rightarrow> bool" where
  "in_window a b bar \<longleftrightarrow> a \<le> bar_close_ts bar \<and> bar_close_ts bar \<le> b"

definition reaches :: "string \<Rightarrow> pyfloat \<Rightarrow> one_second_bar \<Rightarrow> bool" where
  "reaches side target bar \<longleftrightarrow>
     (if side = ''long'' then fle (bar_low bar) target else fle target (bar_high bar))"

lemma pullback_loop_cases:
  "pullback_loop side target a b bars = unfilled \<or>
   (\<exists>bar \<in> set bars. in_window a b bar \<and> reaches side target bar
      \<and> pullback_loop side target a b bars = fill target (bar_close_ts bar))"
  by (induction bars) (auto simp: in_window_def reaches_def)

lemma resolve_cases:
  assumes "resolve r t bars = Inr p"
  obtains (at_trigger) e where "p = fill e (td_trigger_ts t)"
    | (pulled_back) q where "dict_item PULLBACK_P_MAP (entry_price_mode_id (candidate (pr_snapshot r))) = Inr q"
        and "p = pullback_loop (td_side t) (pullback_target q (current_atr14 r) t) (td_trigger_ts t)
                (td_trigger_ts t + seconds (entry_delay_seconds (candidate (pr_snapshot r)))) bars"
  using assms
  by (auto simp: resolve_def Let_def resolve_market_on_touch_def resolve_limit_at_level_def
      resolve_tick_buffer_def resolve_pullback_limit_def res_bind_eq_Inr_iff split: if_splits)

lemma resolve_window:
  assumes "resolve r t bars = Inr p" and "0 \<le> entry_delay_seconds (candidate (pr_snapshot r))"
  shows "p = unfilled \<or>
    (\<exists>price ts. p = fill price ts \<and> td_trigger_ts t \<le> ts
       \<and> ts \<le> td_trigger_ts t + seconds (entry_delay_seconds (candidate (pr_snapshot r))))"
  using assms(1)
proof (cases rule: resolve_cases)
  case (at_trigger e)
  then show ?thesis using assms(2) by (simp add: seconds_def)
next
  case (pulled_back q)
  then show ?thesis
    using pullback_loop_cases [of "td_side t" "pullback_target q (current_atr14 r) t" "td_trigger_ts t"]
    unfolding in_window_def by blast
qed

definition sample_resolver :: price_resolver where
  "sample_resolver =
     set_context (Fin 4) ''ETHUSDT''
       (new_resolver (sample_snapshot\<lparr>candidate :=
          BASELINE\<lparr>entry_delay_seconds := 5, entry_price_mode_id := ''pullback_p000''\<rparr>\<rparr>))"

lemma sample_resolver_simps:
  "entry_delay_seconds (candidate (pr_snapshot sample_resolver)) = 5"
  "entry_price_mode_id (candidate (pr_snapshot sample_resolver)) = ''pullback_p000''"
  "resolve sample_resolver sample_trigger [sample_bar 2 101 101, sample_bar 4 101 99] = Inr (fill (Fin 100) (seconds 4))"
  by code_simp+

section \<open>The pull-back fill\<close>

text \<open>
  On bars in chronological order the loop with its \<open>continue\<close> and \<open>break\<close> finds the first bar of the
  window that reaches the target.
\<close>

lemma pullback_loop_sorted:
  assumes "sorted (map bar_close_ts bars)"
  shows "pullback_loop side target a b bars =
    (case find (\<lambda>bar. in_window a b bar \<and> reaches side target bar) bars of
       None \<Rightarrow> unfilled | Some bar \<Rightarrow> fill target (bar_close_ts bar))"
  using assms
proof (induction bars)
  case (Cons bar bars)
  have "find (\<lambda>bar. in_window a b bar \<and> reaches side target bar) bars = None" if "b < bar_close_ts bar"
    using that Cons.prems by (fastforce simp: find_None_iff in_window_def)
  then show ?case using Cons by (auto simp: in_window_def reaches_def)
qed simp

lemma find_split:
  "find P xs = Some x \<Longrightarrow> \<exists>pre post. xs = pre @ x # post \<and> P x \<and> (\<forall>y \<in> set pre. \<not> P y)"
proof (induction xs)
  case (Cons y xs)
  show ?case
  proof (cases "P y")
    case True
    then show ?thesis using Cons.prems by (intro exI [of _ "[]"] exI [of _ xs]) auto
  next
    case False
    then obtain pre post where "xs = pre @ x # post" "P x" "\<forall>z \<in> set pre. \<not> P z"
      using Cons by auto
    then show ?thesis using False by (intro exI [of _ "y # pre"] exI [of _ post]) auto
  qed
qed simp

definition pullback_outcome ::
  "string \<Rightarrow> pyfloat \<Rightarrow> datetime \<Rightarrow> datetime \<Rightarrow> one_second_bar list \<Rightarrow> price_resolution \<Rightarrow> bool" where
  "pullback_outcome side target a b bars p \<longleftrightarrow>
     p = unfilled \<and> (\<forall>bar \<in> set bars. in_window a b bar \<longrightarrow> \<not> reaches side target bar) \<or>
     (\<exists>before bar after. bars = before @ bar # after \<and> in_window a b bar \<and> reaches side target bar
        \<and> (\<forall>earlier \<in> set before. in_window a b earlier \<longrightarrow> \<not> reaches side target earlier)
        \<and> p = fill target (bar_close_ts bar))"

lemma pullback_loop_outcome:
  assumes "sorted (map bar_close_ts bars)"
  shows "pullback_outcome side target a b bars (pullback_loop side target a b bars)"
proof (cases "find (\<lambda>bar. in_window a b bar \<and> reaches side target bar) bars")
  case None
  then have "\<forall>bar \<in> set bars. in_window a b bar \<longrightarrow> \<not> reaches side target bar" by (auto simp: find_None_iff)
  then show ?thesis unfolding pullback_outcome_def pullback_loop_sorted [OF assms] None by simp
next
  case (Some bar)
  then obtain before after where "bars = before @ bar # after" "in_window a b bar" "reaches side target bar"
    "\<forall>earlier \<in> set before. \<not> (in_window a b earlier \<and> reaches side target earlier)"
    using find_split [OF Some] by blast
  then show ?thesis unfolding pullback_outcome_def pullback_loop_sorted [OF assms] Some option.case by blast
qed

text \<open>
  C7. Where and when an entry is filled, on bars in chronological order. In a pull-back mode the target
  is the level moved against the breakout by \<open>p * ATR\<close>: the event is filled at the target and at the
  close of the first bar of \<open>[trigger_ts, trigger_ts + D]\<close> that reaches it, and when no bar of the window
  reaches it the event is left without position, with the reason \<open>pullback_limit_not_touched_in_window\<close>;
  there is no fallback to a market fill, to a later bar or to a longer delay. In every other mode the
  event is filled at the trigger time whatever the bars are: at the level, or with a tick buffer at
  \<open>k\<close> ticks beyond it, in the direction of the breakout.
\<close>

theorem resolve_in_window:
  assumes "sorted (map bar_close_ts bars)" and "resolve r t bars = Inr p"
  shows "let spec = candidate (pr_snapshot r); start = td_trigger_ts t; level = td_level t in
    case map_of PULLBACK_P_MAP (entry_price_mode_id spec) of
      Some q \<Rightarrow>
        pullback_outcome (td_side t)
          (if td_side t = ''long'' then fsub level (fmul q (current_atr14 r)) else fadd level (fmul q (current_atr14 r)))
          start (start + seconds (entry_delay_seconds spec)) bars p
    | None \<Rightarrow>
       (case map_of TICK_BUFFER_K_MAP (entry_price_mode_id spec) of
          None \<Rightarrow> p = fill level start
        | Some k \<Rightarrow> \<exists>tick. get_tick_size r = Inr tick
            \<and> p = fill (if td_side t = ''long'' then fadd level (fmul (Fin (of_int k)) tick)
                        else fsub level (fmul (Fin (of_int k)) tick)) start)"
proof -
  let ?mode = "entry_price_mode_id (candidate (pr_snapshot r))"
  have names: "map_of PULLBACK_P_MAP ''market_on_touch'' = None" "map_of PULLBACK_P_MAP ''limit_at_level'' = None"
    "map_of TICK_BUFFER_K_MAP ''market_on_touch'' = None" "map_of TICK_BUFFER_K_MAP ''limit_at_level'' = None"
    by (simp_all add: PULLBACK_P_MAP_def TICK_BUFFER_K_MAP_def)
  have disjoint: "map_of PULLBACK_P_MAP m = None" if "map_of TICK_BUFFER_K_MAP m = Some k" for m k
    using that by (auto simp: TICK_BUFFER_K_MAP_def PULLBACK_P_MAP_def split: if_splits)
  consider "?mode \<in> {''market_on_touch'', ''limit_at_level''}" "p = fill (td_level t) (td_trigger_ts t)"
    | k where "map_of TICK_BUFFER_K_MAP ?mode = Some k" "resolve_tick_buffer r t = Inr p"
    | q where "map_of TICK_BUFFER_K_MAP ?mode = None" "map_of PULLBACK_P_MAP ?mode = Some q"
        "resolve_pullback_limit r t bars = Inr p"
    using assms(2)
    by (auto simp: resolve_def Let_def resolve_market_on_touch_def resolve_limit_at_level_def dict_has_iff dict_get_def
        split: if_splits)
  then show ?thesis
  proof cases
    case 1
    then show ?thesis using names by auto
  next
    case 2
    then show ?thesis using disjoint [OF 2(1)]
      by (auto simp: resolve_tick_buffer_def res_bind_eq_Inr_iff dict_item_def the_or_raise_eq_Inr_iff dict_get_def Let_def)
  next
    case 3
    then have "p = pullback_loop (td_side t) (pullback_target q (current_atr14 r) t) (td_trigger_ts t)
        (td_trigger_ts t + seconds (entry_delay_seconds (candidate (pr_snapshot r)))) bars"
      by (auto simp: resolve_pullback_limit_def res_bind_eq_Inr_iff dict_item_def the_or_raise_eq_Inr_iff Let_def)
    then show ?thesis
      using 3(2) pullback_loop_outcome [OF assms(1)] by (simp add: pullback_target_def)
  qed
qed

theorem resolve_in_window_witness:
  "pullback_outcome ''long'' (Fin 100) (seconds 2) (seconds 7) [sample_bar 2 101 101, sample_bar 4 101 99]
     (fill (Fin 100) (seconds 4))"
proof -
  have bars: "sorted (map bar_close_ts [sample_bar 2 101 101, sample_bar 4 101 99])" by code_simp
  have p: "map_of PULLBACK_P_MAP (entry_price_mode_id (candidate (pr_snapshot sample_resolver))) = Some (fl 0)"
    by (simp add: sample_resolver_simps PULLBACK_P_MAP_def)
  have t: "td_side sample_trigger = ''long''" "td_trigger_ts sample_trigger = seconds 2"
    "fsub (td_level sample_trigger) (fmul (fl 0) (current_atr14 sample_resolver)) = Fin 100" by code_simp+
  show ?thesis
    using resolve_in_window [OF bars sample_resolver_simps(3)] unfolding Let_def p option.case t if_True
    by (simp add: sample_resolver_simps seconds_def)
qed

section \<open>The tick buffer\<close>

lemma fadd_ge_self:
  assumes "is_f64 x" and "x \<noteq> NaN" and "x \<noteq> NInf" and "fle (Fin 0) c"
  shows "fle x (fadd x c)"
proof -
  have "fadd x c \<noteq> NaN" using assms by (cases x; cases c) auto
  then have "fle (fadd x (Fin 0)) (fadd x c)"
    using assms by (intro fadd_mono) (auto simp: fle_refl_iff)
  then show ?thesis using assms by simp
qed

text \<open>
  With a non-negative tick size, the tick-buffer modes never improve on the level: a long entry is
  filled at or above it and a short entry at or below it, at the trigger time.
\<close>

theorem tick_buffer_direction:
  assumes "resolve_tick_buffer r t = Inr p" and "get_tick_size r = Inr (Fin tick)" and "0 \<le> tick"
    and "td_level t = Fin lv" and "is_f64 (Fin lv)"
  shows "\<exists>e. p = fill e (td_trigger_ts t) \<and>
    (if td_side t = ''long'' then fle (td_level t) e else fle e (td_level t))"
proof -
  obtain k where k: "dict_item TICK_BUFFER_K_MAP (entry_price_mode_id (candidate (pr_snapshot r))) = Inr k"
    and p: "p = fill (if td_side t = ''long'' then fadd (td_level t) (fmul (Fin (of_int k)) (Fin tick))
        else fsub (td_level t) (fmul (Fin (of_int k)) (Fin tick))) (td_trigger_ts t)"
    using assms(1,2) by (auto simp: resolve_tick_buffer_def res_bind_eq_Inr_iff Let_def)
  have "0 \<le> k"
    using k by (auto simp: dict_item_def the_or_raise_eq_Inr_iff TICK_BUFFER_K_MAP_def split: if_splits)
  then have nn: "fle (Fin 0) (fmul (Fin (of_int k)) (Fin tick))" using assms(3) by (simp add: fl_nonneg)
  have "fle (td_level t) (fadd (td_level t) (fmul (Fin (of_int k)) (Fin tick)))"
    using assms nn by (intro fadd_ge_self) auto
  moreover have "fle (fsub (td_level t) (fmul (Fin (of_int k)) (Fin tick))) (td_level t)"
    using assms nn by (intro fsub_le_self) auto
  ultimately show ?thesis using p by auto
qed

theorem tick_buffer_direction_witness:
  "\<exists>e. fill (Fin 102) (seconds 2) = fill e (td_trigger_ts sample_trigger) \<and> fle (Fin 100) e"
proof -
  let ?r = "\<lparr>pr_snapshot = sample_snapshot\<lparr>candidate := BASELINE\<lparr>entry_price_mode_id := ''limit_tb_k4''\<rparr>,
      symbol_filters := \<lparr>tick_size_by_symbol = [(''X'', Fin (1 / 2))], step_size_by_symbol = []\<rparr>\<rparr>,
      current_atr14 = Fin 4, current_symbol = ''X''\<rparr>"
  have r: "resolve_tick_buffer ?r sample_trigger = Inr (fill (Fin 102) (seconds 2))"
    and t: "get_tick_size ?r = Inr (Fin (1 / 2))" and f: "is_f64 (Fin 100)" by code_simp+
  show ?thesis
    using tick_buffer_direction [OF r t _ _ f] by (simp add: sample_trigger_def)
qed

end
