(* ===== verification/Gates.thy ===== *)
theory Gates
  imports Price
begin

text \<open>
  The filters of the pipeline: \<open>pretouch/pretouch_state_gate.py\<close>, \<open>posttouch/posttouch_quality_gate.py\<close>,
  \<open>gate/gate_composition_layer.py\<close> and \<open>gate/candidate_001_snapshot_loader.py\<close>. The contract they
  share is the locale \<open>nested_gate\<close>: the band \<open>none\<close> lets everything pass, and a stricter band lets
  nothing pass that a weaker one stops.
\<close>

section \<open>Nested bands\<close>

locale nested_gate =
  fixes allow :: "string \<Rightarrow> 'x \<Rightarrow> bool"
    and open_band :: string
    and stricter :: "(string \<times> string) list"
  assumes open_allows: "allow open_band x"
    and nested: "(s, w) \<in> set stricter \<Longrightarrow> allow s x \<Longrightarrow> allow w x"
begin

lemma nested_trancl: "(s, w) \<in> (set stricter)\<^sup>* \<Longrightarrow> allow s x \<Longrightarrow> allow w x"
  by (induction rule: rtrancl_induct) (auto intro: nested)

lemma passed_subset: "(s, w) \<in> (set stricter)\<^sup>* \<Longrightarrow> set (filter (allow s) xs) \<subseteq> set (filter (allow w) xs)"
  using nested_trancl by auto

lemma passed_fewer:
  assumes "(s, w) \<in> (set stricter)\<^sup>*"
  shows "length (filter (allow s) xs) \<le> length (filter (allow w) xs)"
proof -
  have "filter (allow s) xs = filter (allow s) (filter (allow w) xs)"
    using nested_trancl [OF assms] by (auto intro!: filter_cong)
  then show ?thesis by (metis length_filter_le)
qed

lemma open_passes_all: "filter (allow open_band) xs = xs"
  by (simp add: open_allows)

end

section \<open>Pre-touch state\<close>

definition check_fast_clean :: "pyfloat \<Rightarrow> pyfloat \<Rightarrow> pyfloat \<Rightarrow> bool" where
  "check_fast_clean distance speed300 pullback =
     (if \<not> (fle (fl (10 / 100)) distance \<and> fle distance (fl (15 / 100))) then False
      else if flt speed300 (fl (20 / 100)) then False
      else if \<not> (fle (fl 0) pullback \<and> fle pullback (fl (2 / 100))) then False
      else True)"

definition check_fast_clean_strict :: "pyfloat \<Rightarrow> pyfloat \<Rightarrow> pyfloat \<Rightarrow> bool" where
  "check_fast_clean_strict distance speed300 pullback =
     (if \<not> (fle (fl (10 / 100)) distance \<and> fle distance (fl (12 / 100))) then False
      else if flt speed300 (fl (30 / 100)) then False
      else if \<not> (fle (fl 0) pullback \<and> fle pullback (fl (2 / 100))) then False
      else True)"

text \<open>The ATR argument of \<open>allow\<close> is not read: the fields of the event are already normalised.\<close>

definition pretouch_allow :: "string \<Rightarrow> event \<Rightarrow> pyfloat \<Rightarrow> bool" where
  "pretouch_allow band_id event atr14 =
     (let distance = pretouch_distance_bucket_atr event;
          speed300 = pretouch_speed300_bucket_atr event;
          pullback = pretouch_pullback_bucket_atr event
      in if band_id = ''none'' then True
         else if band_id = ''fast_clean'' then check_fast_clean distance speed300 pullback
         else if band_id = ''fast_clean_strict'' then check_fast_clean_strict distance speed300 pullback
         else False)"

lemma flt_mono_right: "flt x a \<Longrightarrow> fle a b \<Longrightarrow> flt x b"
  unfolding flt_def using fle_trans by blast

lemma strict_is_stricter: "check_fast_clean_strict d s p \<Longrightarrow> check_fast_clean d s p"
  unfolding check_fast_clean_strict_def check_fast_clean_def
  using fle_trans [OF _ fl_mono [of "12 / 100" "15 / 100"], of d]
    flt_mono_right [OF _ fl_mono [of "20 / 100" "30 / 100"], of s]
  by (auto split: if_splits)

interpretation pretouch: nested_gate "\<lambda>band ev. pretouch_allow band ev atr14" "''none''"
  "[(''fast_clean_strict'', ''fast_clean''), (''fast_clean'', ''none'')]" for atr14
  by unfold_locales (auto simp: pretouch_allow_def Let_def strict_is_stricter)

text \<open>
  The pre-touch bands are nested: every event that passes \<open>fast_clean_strict\<close> passes
  \<open>fast_clean\<close>, and \<open>none\<close> passes all, so on any list of events the stricter band keeps no more
  events. This holds for every float in the event's fields, \<open>nan\<close> included.
\<close>

theorem pretouch_nested:
  "set (filter (\<lambda>ev. pretouch_allow ''fast_clean_strict'' ev atr14) evs)
     \<subseteq> set (filter (\<lambda>ev. pretouch_allow ''fast_clean'' ev atr14) evs)
   \<and> length (filter (\<lambda>ev. pretouch_allow ''fast_clean_strict'' ev atr14) evs)
     \<le> length (filter (\<lambda>ev. pretouch_allow ''fast_clean'' ev atr14) evs)
   \<and> filter (\<lambda>ev. pretouch_allow ''none'' ev atr14) evs = evs"
  using pretouch.passed_subset [of "''fast_clean_strict''" "''fast_clean''" atr14 evs]
    pretouch.passed_fewer [of "''fast_clean_strict''" "''fast_clean''" atr14 evs]
    pretouch.open_passes_all [of atr14 evs] by auto

section \<open>Post-touch quality\<close>

record one_second_bar_ext =
  bx_open_ts :: datetime
  bx_close_ts :: datetime
  bx_open :: pyfloat
  bx_high :: pyfloat
  bx_low :: pyfloat
  bx_close :: pyfloat
  best_ask :: pyfloat
  best_bid :: pyfloat

record sided_trade =
  st_ts :: datetime
  st_side :: string
  st_quote_volume :: pyfloat

definition CONT1S_THRESHOLDS :: "(string \<times> pyfloat) list" where
  "CONT1S_THRESHOLDS =
     [(''cont1s_r003'', fl (3 / 100)), (''cont1s_r005'', fl (5 / 100)), (''cont1s_r008'', fl (8 / 100))]"

definition TICKIMB_THRESHOLDS :: "(string \<times> pyfloat) list" where
  "TICKIMB_THRESHOLDS =
     [(''tickimb_b055'', fl (55 / 100)), (''tickimb_b060'', fl (60 / 100)), (''tickimb_b065'', fl (65 / 100))]"

definition SPREAD_THRESHOLDS :: "(string \<times> int) list" where
  "SPREAD_THRESHOLDS = [(''spread_s1'', 1), (''spread_s2'', 2), (''spread_s4'', 4)]"

record posttouch_gate =
  pg_band_id :: string
  pg_tick_size :: pyfloat
  pg_check_type :: string
  pg_threshold :: pyfloat

text \<open>\<open>PosttouchQualityGate.__init__\<close>\<close>

definition new_posttouch_gate :: "string \<Rightarrow> pyfloat \<Rightarrow> posttouch_gate res" where
  "new_posttouch_gate band_id tick_size =
     (let mk = (\<lambda>c th. \<lparr>pg_band_id = band_id, pg_tick_size = tick_size, pg_check_type = c, pg_threshold = th\<rparr>)
      in if band_id = ''none'' then Inr (mk ''none'' (Fin 0))
         else if dict_has CONT1S_THRESHOLDS band_id
         then res_bind (dict_item CONT1S_THRESHOLDS band_id) (\<lambda>th. Inr (mk ''continuation_1s'' th))
         else if dict_has TICKIMB_THRESHOLDS band_id
         then res_bind (dict_item TICKIMB_THRESHOLDS band_id) (\<lambda>th. Inr (mk ''tick_imbalance'' th))
         else if dict_has SPREAD_THRESHOLDS band_id
         then res_bind (dict_item SPREAD_THRESHOLDS band_id) (\<lambda>n.
              res_bind (float_of_int n) (\<lambda>th. Inr (mk ''spread_ticks'' th)))
         else Inl ValueError)"

definition check_continuation_1s ::
  "pyfloat \<Rightarrow> trigger_decision \<Rightarrow> one_second_bar_ext list \<Rightarrow> pyfloat \<Rightarrow> bool" where
  "check_continuation_1s thr t bars atr14 =
     (if bars = [] then False
      else let cumulative_return = foldl (\<lambda>c bar. fadd c (fsub (bx_close bar) (bx_open bar))) (Fin 0) bars;
               threshold = fmul thr atr14
           in if td_side t = ''long'' then fle threshold cumulative_return
              else fle cumulative_return (fneg threshold))"

text \<open>The accumulation loop of \<open>_check_tick_imbalance\<close>: total and one-sided volume.\<close>

fun volume_loop :: "string \<Rightarrow> pyfloat \<Rightarrow> pyfloat \<Rightarrow> sided_trade list \<Rightarrow> pyfloat \<times> pyfloat" where
  "volume_loop taker_side tot side [] = (tot, side)"
| "volume_loop taker_side tot side (x # xs) =
     volume_loop taker_side (fadd tot (st_quote_volume x))
       (if st_side x = taker_side then fadd side (st_quote_volume x) else side) xs"

definition check_tick_imbalance :: "pyfloat \<Rightarrow> trigger_decision \<Rightarrow> sided_trade list \<Rightarrow> bool res" where
  "check_tick_imbalance thr t trades =
     (if trades = [] then Inr False
      else let taker_side = (if td_side t = ''long'' then ''buy'' else ''sell'');
               (total_quote_volume, side_quote_volume) = volume_loop taker_side (Fin 0) (Fin 0) trades
           in if fle total_quote_volume (Fin 0) then Inr False
              else res_bind (the_or_raise ZeroDivisionError (fdiv side_quote_volume total_quote_volume))
                     (\<lambda>imbalance. Inr (fle thr imbalance)))"

fun find_trigger_bar :: "datetime \<Rightarrow> one_second_bar_ext list \<Rightarrow> one_second_bar_ext option" where
  "find_trigger_bar ts [] = None"
| "find_trigger_bar ts (bar # bars) = (if bx_close_ts bar = ts then Some bar else find_trigger_bar ts bars)"

definition check_spread_ticks ::
  "pyfloat \<Rightarrow> pyfloat \<Rightarrow> trigger_decision \<Rightarrow> one_second_bar_ext list \<Rightarrow> bool res" where
  "check_spread_ticks thr tick_size t bars =
     (case find_trigger_bar (td_trigger_ts t) bars of
        None \<Rightarrow> Inr False
      | Some bar \<Rightarrow>
          if fle tick_size (Fin 0) then Inr False
          else res_bind (the_or_raise ZeroDivisionError (fdiv (fsub (best_ask bar) (best_bid bar)) tick_size))
                 (\<lambda>spread_ticks. Inr (fle spread_ticks thr)))"

definition posttouch_allow ::
  "posttouch_gate \<Rightarrow> trigger_decision \<Rightarrow> one_second_bar_ext list \<Rightarrow> sided_trade list \<Rightarrow> pyfloat \<Rightarrow> bool res" where
  "posttouch_allow g t bars trades atr14 =
     (if pg_check_type g = ''none'' then Inr True
      else if pg_check_type g = ''continuation_1s''
      then Inr (check_continuation_1s (pg_threshold g) t bars atr14)
      else if pg_check_type g = ''tick_imbalance'' then check_tick_imbalance (pg_threshold g) t trades
      else if pg_check_type g = ''spread_ticks''
      then check_spread_ticks (pg_threshold g) (pg_tick_size g) t bars
      else Inr False)"

interpretation trigger_bar: first_match "find_trigger_bar ts" "\<lambda>bar. bx_close_ts bar = ts" "\<lambda>bar. bar" for ts
  by unfold_locales auto

lemma fdiv_some: "\<not> fle y (Fin 0) \<Longrightarrow> \<exists>q. fdiv x y = Some q"
  by (cases "(x, y)" rule: fdiv.cases) auto

lemma posttouch_decides: "\<exists>b. posttouch_allow g t bars trades atr14 = Inr b"
proof -
  have div: "\<exists>b. res_bind (the_or_raise ZeroDivisionError (fdiv x y)) (\<lambda>q. Inr (P q)) = Inr b"
    if "\<not> fle y (Fin 0)" for x y and P :: "pyfloat \<Rightarrow> bool"
    using fdiv_some [OF that, of x] by auto
  have "\<exists>b. check_tick_imbalance thr t trades = Inr b" for thr
    using div by (cases "volume_loop (if td_side t = ''long'' then ''buy'' else ''sell'') (Fin 0) (Fin 0) trades")
      (simp add: check_tick_imbalance_def ex_bool_eq)
  moreover have "\<exists>b. check_spread_ticks thr tick t bars = Inr b" for thr tick
    using div by (simp add: check_spread_ticks_def ex_bool_eq split: option.split)
  ultimately show ?thesis by (simp add: posttouch_allow_def ex_bool_eq)
qed

text \<open>
  A gate that was constructed decides every input: neither division of the post-touch checks can
  fail, because the code tests the divisor first, also for infinite and \<open>nan\<close> values.
\<close>

theorem posttouch_allow_total: "\<exists>b. posttouch_allow g t bars trades atr14 = Inr b"
  by (rule posttouch_decides)

text \<open>The decision of a band on the data of an event: constructor, then check.\<close>

type_synonym posttouch_input =
  "pyfloat \<times> trigger_decision \<times> one_second_bar_ext list \<times> sided_trade list \<times> pyfloat"

definition band_allows :: "string \<Rightarrow> posttouch_input \<Rightarrow> bool" where
  "band_allows band x =
     (case x of (tick, t, bars, trades, atr14) \<Rightarrow>
        res_bind (new_posttouch_gate band tick) (\<lambda>g. posttouch_allow g t bars trades atr14) = Inr True)"

lemmas band_tables = CONT1S_THRESHOLDS_def TICKIMB_THRESHOLDS_def SPREAD_THRESHOLDS_def

lemma float_of_small: "float_of_int 1 = Inr (Fin 1)" "float_of_int 2 = Inr (Fin 2)" "float_of_int 4 = Inr (Fin 4)"
  by code_simp+

lemma new_gate_bands:
  "new_posttouch_gate ''tickimb_b055'' k = Inr \<lparr>pg_band_id = ''tickimb_b055'', pg_tick_size = k,
     pg_check_type = ''tick_imbalance'', pg_threshold = fl (55 / 100)\<rparr>"
  "new_posttouch_gate ''tickimb_b060'' k = Inr \<lparr>pg_band_id = ''tickimb_b060'', pg_tick_size = k,
     pg_check_type = ''tick_imbalance'', pg_threshold = fl (60 / 100)\<rparr>"
  "new_posttouch_gate ''tickimb_b065'' k = Inr \<lparr>pg_band_id = ''tickimb_b065'', pg_tick_size = k,
     pg_check_type = ''tick_imbalance'', pg_threshold = fl (65 / 100)\<rparr>"
  "new_posttouch_gate ''spread_s1'' k = Inr \<lparr>pg_band_id = ''spread_s1'', pg_tick_size = k,
     pg_check_type = ''spread_ticks'', pg_threshold = Fin 1\<rparr>"
  "new_posttouch_gate ''spread_s2'' k = Inr \<lparr>pg_band_id = ''spread_s2'', pg_tick_size = k,
     pg_check_type = ''spread_ticks'', pg_threshold = Fin 2\<rparr>"
  "new_posttouch_gate ''spread_s4'' k = Inr \<lparr>pg_band_id = ''spread_s4'', pg_tick_size = k,
     pg_check_type = ''spread_ticks'', pg_threshold = Fin 4\<rparr>"
  "new_posttouch_gate ''none'' k = Inr \<lparr>pg_band_id = ''none'', pg_tick_size = k,
     pg_check_type = ''none'', pg_threshold = Fin 0\<rparr>"
  by (simp_all add: new_posttouch_gate_def band_tables dict_has_def dict_item_def float_of_small)

lemma imbalance_mono: "check_tick_imbalance a t trades = Inr True \<Longrightarrow> fle b a \<Longrightarrow> check_tick_imbalance b t trades = Inr True"
  by (auto simp: check_tick_imbalance_def Let_def res_bind_eq_Inr_iff split: if_splits prod.splits intro: fle_trans)

lemma spread_mono: "check_spread_ticks a k t bars = Inr True \<Longrightarrow> fle a b \<Longrightarrow> check_spread_ticks b k t bars = Inr True"
  by (auto simp: check_spread_ticks_def res_bind_eq_Inr_iff split: if_splits option.splits intro: fle_trans)

interpretation posttouch: nested_gate band_allows "''none''"
  "[(''tickimb_b065'', ''tickimb_b060''), (''tickimb_b060'', ''tickimb_b055''), (''tickimb_b055'', ''none''),
    (''spread_s1'', ''spread_s2''), (''spread_s2'', ''spread_s4''), (''spread_s4'', ''none'')]"
proof
  fix x :: posttouch_input
  show "band_allows ''none'' x"
    by (cases x) (simp add: band_allows_def new_gate_bands posttouch_allow_def)
next
  fix s w and x :: posttouch_input
  have le: "fle (fl (3 / 5)) (fl (13 / 20))" "fle (fl (11 / 20)) (fl (3 / 5))"
    "fle (Fin 1) (Fin 2)" "fle (Fin 2) (Fin 4)"
    by (simp_all add: fl_mono)
  assume "(s, w) \<in> set [(''tickimb_b065'', ''tickimb_b060''), (''tickimb_b060'', ''tickimb_b055''), (''tickimb_b055'', ''none''),
    (''spread_s1'', ''spread_s2''), (''spread_s2'', ''spread_s4''), (''spread_s4'', ''none'')]"
    and "band_allows s x"
  then show "band_allows w x"
    by (cases x) (auto simp: band_allows_def new_gate_bands posttouch_allow_def
        intro: imbalance_mono [OF _ le(1)] imbalance_mono [OF _ le(2)] spread_mono [OF _ le(3)] spread_mono [OF _ le(4)])
qed

text \<open>
  Raising the required tick imbalance (55, 60, 65 per cent) or lowering the allowed spread (4, 2, 1
  ticks) never admits an event that the looser band rejects.
\<close>

theorem posttouch_nested:
  "set (filter (band_allows ''tickimb_b065'') xs) \<subseteq> set (filter (band_allows ''tickimb_b060'') xs)
   \<and> set (filter (band_allows ''tickimb_b060'') xs) \<subseteq> set (filter (band_allows ''tickimb_b055'') xs)
   \<and> set (filter (band_allows ''spread_s1'') xs) \<subseteq> set (filter (band_allows ''spread_s2'') xs)
   \<and> set (filter (band_allows ''spread_s2'') xs) \<subseteq> set (filter (band_allows ''spread_s4'') xs)
   \<and> filter (band_allows ''none'') xs = xs"
  by (intro conjI posttouch.passed_subset r_into_rtrancl posttouch.open_passes_all) simp_all

section \<open>Candidate 001 gate\<close>

record gate001_thresholds =
  validation_return_over_dd_threshold :: pyfloat
  validation_topk_sizing_markov_score_mean_threshold :: pyfloat
  validation_topk_sized_return_pct_threshold :: pyfloat

definition GATE_001_THRESHOLDS :: gate001_thresholds where
  "GATE_001_THRESHOLDS =
     \<lparr>validation_return_over_dd_threshold = Fin 10,
      validation_topk_sizing_markov_score_mean_threshold = fl (9 / 10),
      validation_topk_sized_return_pct_threshold = fl (5 / 10)\<rparr>"

record gate_decision =
  passed :: bool
  gd_gate_mode :: string

record validation_metrics_t =
  validation_return_over_dd :: pyfloat
  validation_topk_sizing_markov_score_mean :: pyfloat
  validation_topk_sized_return_pct :: pyfloat

definition evaluate_gate001 :: "gate001_thresholds \<Rightarrow> validation_metrics_t \<Rightarrow> bool" where
  "evaluate_gate001 th m =
     (let cond1 = fle (validation_return_over_dd m) (validation_return_over_dd_threshold th);
          cond2 = fle (validation_topk_sizing_markov_score_mean m)
                      (validation_topk_sizing_markov_score_mean_threshold th);
          cond3 = fle (validation_topk_sized_return_pct_threshold th) (validation_topk_sized_return_pct m)
      in cond1 \<and> cond2 \<and> cond3)"

text \<open>\<open>GateCompositionLayer.evaluate\<close>; the trade itself is not read.\<close>

definition evaluate_gate ::
  "gate001_thresholds \<Rightarrow> validation_metrics_t \<Rightarrow> string \<Rightarrow> gate_decision res" where
  "evaluate_gate th m gate_mode =
     (if gate_mode = ''nogate'' then Inr \<lparr>passed = True, gd_gate_mode = ''nogate''\<rparr>
      else if gate_mode = ''gate001''
      then Inr \<lparr>passed = evaluate_gate001 th m, gd_gate_mode = ''gate001''\<rparr>
      else Inl ValueError)"

section \<open>The gate snapshot\<close>

definition DEFAULT_SNAPSHOT_PATH :: string where
  "DEFAULT_SNAPSHOT_PATH = ''research/20260511_probabilistic_v6_calendar_holdout_validation.md''"

record snapshot_loader =
  sl_path :: string
  sl_sha256 :: "string option"
  sl_loaded :: bool

definition new_loader :: "string \<Rightarrow> snapshot_loader" where
  "new_loader path = \<lparr>sl_path = path, sl_sha256 = None, sl_loaded = False\<rparr>"

definition loader_sha256 :: "snapshot_loader \<Rightarrow> string res" where
  "loader_sha256 l = the_or_raise RuntimeError (sl_sha256 l)"

text \<open>\<open>load\<close> reads the file, remembers its digest and returns the constant thresholds.\<close>

definition load_snapshot :: "fs \<Rightarrow> snapshot_loader \<Rightarrow> (gate001_thresholds \<times> snapshot_loader) res" where
  "load_snapshot fs l =
     (case fs (sl_path l) of
        None \<Rightarrow> Inl OSError
      | Some content \<Rightarrow>
          Inr (GATE_001_THRESHOLDS, l\<lparr>sl_sha256 := Some (sha256_hex content), sl_loaded := True\<rparr>))"

definition get_snapshot_ref :: "snapshot_loader \<Rightarrow> (string \<times> string) list res" where
  "get_snapshot_ref l =
     (if \<not> sl_loaded l then Inl RuntimeError
      else Inr [(''path'', sl_path l), (''sha256'', the (sl_sha256 l))])"

definition verify_sha256 :: "snapshot_loader \<Rightarrow> string \<Rightarrow> bool res" where
  "verify_sha256 l expected =
     (case sl_sha256 l of
        None \<Rightarrow> Inl RuntimeError
      | Some h \<Rightarrow> Inr (h = str_strip (str_lower expected)))"

text \<open>The states of a loader: before \<open>load\<close> it has no digest, afterwards it has one.\<close>

definition loader_inv :: "snapshot_loader \<Rightarrow> bool" where
  "loader_inv l \<longleftrightarrow> sl_loaded l = (sl_sha256 l \<noteq> None)"

lemma loader_inv_load: "load_snapshot fs l = Inr (th, l') \<Longrightarrow> loader_inv l'"
  by (auto simp: load_snapshot_def loader_inv_def split: option.splits)

text \<open>
  Before \<open>load\<close> the digest, the reference and the verification raise \<open>RuntimeError\<close>. Loading a
  missing file raises; loading an existing file yields the fixed thresholds, a reference with the
  SHA-256 of the file's content, and a verification that accepts exactly the expected digests that
  equal it after lower-casing and stripping.
\<close>

theorem snapshot_loader_protocol:
  "loader_sha256 (new_loader p) = Inl RuntimeError
   \<and> get_snapshot_ref (new_loader p) = Inl RuntimeError
   \<and> verify_sha256 (new_loader p) e = Inl RuntimeError
   \<and> (case fs p of
         None \<Rightarrow> load_snapshot fs (new_loader p) = Inl OSError
       | Some content \<Rightarrow>
           (\<exists>l. load_snapshot fs (new_loader p) = Inr (GATE_001_THRESHOLDS, l)
              \<and> get_snapshot_ref l = Inr [(''path'', p), (''sha256'', sha256_hex content)]
              \<and> verify_sha256 l e = Inr (sha256_hex content = str_strip (str_lower e))))"
  by (auto simp: loader_sha256_def new_loader_def get_snapshot_ref_def verify_sha256_def load_snapshot_def
      split: option.split)

end
