(* ===== verification/CostModel.thy ===== *)
theory CostModel
  imports Gates
begin

text \<open>
  \<open>cost/cost_model_applier.py\<close>: slippage and fees. The cost ladder is proved in two steps: a locale
  for any arithmetic with a monotone subtraction, and its interpretation on binary64.
\<close>

definition BASELINE_COST_PARAMS :: cost_model_params where
  "BASELINE_COST_PARAMS = \<lparr>slip_bps_per_side = Fin 2, entry_bps = Fin 2, exit_bps = Fin 4\<rparr>"

definition STRESS_COST_PARAMS :: cost_model_params where
  "STRESS_COST_PARAMS = \<lparr>slip_bps_per_side = Fin 2, entry_bps = Fin 4, exit_bps = Fin 4\<rparr>"

record raw_trade =
  rt_raw_pnl :: pyfloat
  rt_notional :: pyfloat
  rt_entry_price :: pyfloat
  rt_exit_price :: pyfloat
  rt_symbol :: string
  rt_side :: string

record priced_trade =
  pt_raw_pnl :: pyfloat
  pt_notional :: pyfloat
  pt_entry_price :: pyfloat
  pt_exit_price :: pyfloat
  pt_symbol :: string
  pt_side :: string
  pt_slip_pnl :: pyfloat
  pt_realistic_pnl :: pyfloat
  pt_realistic_taker_both_pnl :: pyfloat

text \<open>\<open>x / 10000.0\<close>: the divisor is a non-zero literal\<close>

definition per_10000 :: "pyfloat \<Rightarrow> pyfloat" where
  "per_10000 x = the (fdiv x (Fin 10000))"

definition apply_cost :: "raw_trade \<Rightarrow> cost_model_params \<Rightarrow> priced_trade" where
  "apply_cost trade params =
     (let notional = rt_notional trade;
          slip_cost = per_10000 (fmul (fmul (slip_bps_per_side params) (Fin 2)) notional);
          slip_pnl = fsub (rt_raw_pnl trade) slip_cost;
          fee_cost = per_10000 (fmul (fadd (entry_bps params) (exit_bps params)) notional);
          realistic_pnl = fsub slip_pnl fee_cost;
          taker_both_cost = per_10000 (fmul (fadd (Fin 4) (Fin 4)) notional);
          realistic_taker_both_pnl = fsub slip_pnl taker_both_cost
      in \<lparr>pt_raw_pnl = rt_raw_pnl trade, pt_notional = rt_notional trade,
          pt_entry_price = rt_entry_price trade, pt_exit_price = rt_exit_price trade,
          pt_symbol = rt_symbol trade, pt_side = rt_side trade,
          pt_slip_pnl = slip_pnl, pt_realistic_pnl = realistic_pnl,
          pt_realistic_taker_both_pnl = realistic_taker_both_pnl\<rparr>)"

section \<open>The ladder, for any monotone subtraction\<close>

locale cost_ladder =
  fixes le :: "'a \<Rightarrow> 'a \<Rightarrow> bool"
    and sub :: "'a \<Rightarrow> 'a \<Rightarrow> 'a"
    and pnl :: "'a \<Rightarrow> bool"
    and cost :: "'a \<Rightarrow> bool"
  assumes sub_pnl: "pnl x \<Longrightarrow> cost c \<Longrightarrow> pnl (sub x c)"
    and sub_le: "pnl x \<Longrightarrow> cost c \<Longrightarrow> le (sub x c) x"
    and sub_antimono: "pnl x \<Longrightarrow> cost c \<Longrightarrow> cost d \<Longrightarrow> le c d \<Longrightarrow> le (sub x d) (sub x c)"
begin

lemma ladder:
  assumes "pnl raw" and "cost slip" and "cost fee" and "cost fee'" and "le fee fee'"
  shows "le (sub (sub raw slip) fee') (sub (sub raw slip) fee)
    \<and> le (sub (sub raw slip) fee) (sub raw slip) \<and> le (sub raw slip) raw"
  using assms by (simp add: sub_pnl sub_le sub_antimono)

end

text \<open>
  On binary64, for every profit other than \<open>nan\<close> and plus infinity and every cost that is not
  negative; a cost that overflowed to infinity is allowed.
\<close>

interpretation binary64: cost_ladder fle fsub "\<lambda>x. is_f64 x \<and> x \<noteq> NaN \<and> x \<noteq> PInf" "fle (Fin 0)"
proof
  fix x c
  assume x: "is_f64 x \<and> x \<noteq> NaN \<and> x \<noteq> PInf" and c: "fle (Fin 0) c"
  have nn: "fsub x c \<noteq> NaN" using x c by (cases x; cases c) (auto simp: fsub_def)
  then show le: "fle (fsub x c) x" using fsub_le_self x c by blast
  have "fsub x c \<noteq> PInf" using le x by (cases x) auto
  then show "is_f64 (fsub x c) \<and> fsub x c \<noteq> NaN \<and> fsub x c \<noteq> PInf"
    using nn by (simp add: fsub_def)
next
  fix x c d
  assume x: "is_f64 x \<and> x \<noteq> NaN \<and> x \<noteq> PInf" and cd: "fle (Fin 0) c" "fle (Fin 0) d" "fle c d"
  then have "fsub x c \<noteq> NaN" and "fsub x d \<noteq> NaN" by (cases x; cases c; cases d; simp add: fsub_def)+
  then show "fle (fsub x d) (fsub x c)" using x cd fsub_mono [of x x c d] by (simp add: fle_refl_iff)
qed

section \<open>The costs of a trade\<close>

lemma fmul_commute: "fmul x y = fmul y x"
  by (cases x; cases y) (auto simp: mult.commute)

lemma per_10000_mono: "fle x y \<Longrightarrow> fle (per_10000 x) (per_10000 y)"
  using fdiv_mono_left [of 10000 x y] by (simp add: per_10000_def)

lemma per_10000_nonneg: "fle (Fin 0) x \<Longrightarrow> fle (Fin 0) (per_10000 x)"
  using per_10000_mono [of "Fin 0" x] by (simp add: per_10000_def)

lemma bps_cost_nonneg: "0 < k \<Longrightarrow> fle (Fin 0) n \<Longrightarrow> fle (Fin 0) (per_10000 (fmul (Fin k) n))"
  by (rule per_10000_nonneg, cases n) (auto intro: fl_nonneg)

lemma bps_cost_mono:
  assumes "0 < k" and "k \<le> l" and "fle (Fin 0) n"
  shows "fle (per_10000 (fmul (Fin k) n)) (per_10000 (fmul (Fin l) n))"
proof -
  have "fle (fmul (Fin k) n) (fmul (Fin l) n)"
    using assms by (cases n) (auto intro: fl_mono mult_right_mono)
  then show ?thesis by (rule per_10000_mono)
qed

lemma small_arith: "fl 4 = Fin 4" "fl 6 = Fin 6" "fl 8 = Fin 8"
  by code_simp+

lemma cost_ladder_holds:
  assumes "is_f64 (rt_raw_pnl trade)" and "rt_raw_pnl trade \<noteq> NaN" and "rt_raw_pnl trade \<noteq> PInf"
    and "fle (Fin 0) (rt_notional trade)"
    and "params = BASELINE_COST_PARAMS \<or> params = STRESS_COST_PARAMS"
  shows "fle (pt_realistic_taker_both_pnl (apply_cost trade params)) (pt_realistic_pnl (apply_cost trade params))
       \<and> fle (pt_realistic_pnl (apply_cost trade params)) (pt_slip_pnl (apply_cost trade params))
       \<and> fle (pt_slip_pnl (apply_cost trade params)) (pt_raw_pnl (apply_cost trade params))"
proof -
  let ?c = "\<lambda>k. per_10000 (fmul (Fin k) (rt_notional trade))"
  obtain k where k: "k = 6 \<or> k = 8" and params: "slip_bps_per_side params = Fin 2"
      "fadd (entry_bps params) (exit_bps params) = Fin k"
    using assms(5) by (auto simp: BASELINE_COST_PARAMS_def STRESS_COST_PARAMS_def small_arith)
  have "fle (Fin 0) (?c 4)" "fle (Fin 0) (?c k)" "fle (Fin 0) (?c 8)" "fle (?c k) (?c 8)"
    using k assms(4) by (auto intro: bps_cost_nonneg bps_cost_mono)
  then show ?thesis
    using binary64.ladder [of "rt_raw_pnl trade" "?c 4" "?c k" "?c 8"] assms params
    by (simp add: apply_cost_def Let_def small_arith)
qed

text \<open>
  C4. Invariant P4 of the cost model, exactly and in binary64: for the baseline and the stress parameters,
  every non-negative notional and every raw profit that is a float other than \<open>nan\<close> and plus infinity,
  the taker-both profit is at most the realistic profit, which is at most the profit after slippage,
  which is at most the raw profit. The tolerance of \<open>1e-9\<close> that the code allows is not needed.
\<close>

theorem apply_cost_ladder:
  assumes "is_f64 (rt_raw_pnl trade)" and "rt_raw_pnl trade \<noteq> NaN" and "rt_raw_pnl trade \<noteq> PInf"
    and "fle (Fin 0) (rt_notional trade)"
    and "params = BASELINE_COST_PARAMS \<or> params = STRESS_COST_PARAMS"
  shows "fle (pt_realistic_taker_both_pnl (apply_cost trade params)) (pt_realistic_pnl (apply_cost trade params))
       \<and> fle (pt_realistic_pnl (apply_cost trade params)) (pt_slip_pnl (apply_cost trade params))
       \<and> fle (pt_slip_pnl (apply_cost trade params)) (pt_raw_pnl (apply_cost trade params))"
  using cost_ladder_holds [OF assms] .

definition sample_raw_trade :: raw_trade where
  "sample_raw_trade =
     \<lparr>rt_raw_pnl = Fin 5, rt_notional = Fin 1000, rt_entry_price = Fin 100, rt_exit_price = Fin 101,
      rt_symbol = ''ETHUSDT'', rt_side = ''long''\<rparr>"

theorem apply_cost_ladder_witness:
  "fle (pt_realistic_taker_both_pnl (apply_cost sample_raw_trade BASELINE_COST_PARAMS))
       (pt_realistic_pnl (apply_cost sample_raw_trade BASELINE_COST_PARAMS))
   \<and> fle (pt_realistic_pnl (apply_cost sample_raw_trade BASELINE_COST_PARAMS))
         (pt_slip_pnl (apply_cost sample_raw_trade BASELINE_COST_PARAMS))
   \<and> fle (pt_slip_pnl (apply_cost sample_raw_trade BASELINE_COST_PARAMS))
         (pt_raw_pnl (apply_cost sample_raw_trade BASELINE_COST_PARAMS))"
proof (rule apply_cost_ladder)
  show "is_f64 (rt_raw_pnl sample_raw_trade)" by code_simp
qed (simp_all add: sample_raw_trade_def)

text \<open>
  Under the stress parameters the realistic profit is the taker-both profit, and for the same trade it
  is at most the realistic profit of the baseline parameters.
\<close>

theorem apply_cost_stress:
  assumes "is_f64 (rt_raw_pnl trade)" and "rt_raw_pnl trade \<noteq> NaN" and "rt_raw_pnl trade \<noteq> PInf"
    and "fle (Fin 0) (rt_notional trade)"
  shows "pt_realistic_pnl (apply_cost trade STRESS_COST_PARAMS)
           = pt_realistic_taker_both_pnl (apply_cost trade STRESS_COST_PARAMS)
       \<and> fle (pt_realistic_pnl (apply_cost trade STRESS_COST_PARAMS))
             (pt_realistic_pnl (apply_cost trade BASELINE_COST_PARAMS))"
proof -
  let ?c = "\<lambda>k. per_10000 (fmul (Fin k) (rt_notional trade))"
  have "fle (Fin 0) (?c 4)" "fle (Fin 0) (?c 6)" "fle (Fin 0) (?c 8)" "fle (?c 6) (?c 8)"
    using assms(4) by (auto intro: bps_cost_nonneg bps_cost_mono)
  then show ?thesis
    using binary64.ladder [of "rt_raw_pnl trade" "?c 4" "?c 6" "?c 8"] assms
    by (simp add: apply_cost_def Let_def small_arith STRESS_COST_PARAMS_def BASELINE_COST_PARAMS_def)
qed

theorem apply_cost_stress_witness:
  "pt_realistic_pnl (apply_cost sample_raw_trade STRESS_COST_PARAMS)
     = pt_realistic_taker_both_pnl (apply_cost sample_raw_trade STRESS_COST_PARAMS)
   \<and> fle (pt_realistic_pnl (apply_cost sample_raw_trade STRESS_COST_PARAMS))
         (pt_realistic_pnl (apply_cost sample_raw_trade BASELINE_COST_PARAMS))"
proof (rule apply_cost_stress)
  show "is_f64 (rt_raw_pnl sample_raw_trade)" by code_simp
qed (simp_all add: sample_raw_trade_def)

end
