(* ===== verification/WalkForward.thy ===== *)
theory WalkForward
  imports CostModel
begin

text \<open>
  \<open>walkforward/walkforward_driver.py\<close>: the rolling train / validation / execute windows and the check
  that the event file covers them; \<open>oos/oos_archive_availability.py\<close>: the out-of-sample months and the
  report of missing archives. Text files are ASCII; a file that cannot be read is absent from the
  file system of the model.
\<close>

record walkforward_split =
  train_start :: date
  train_end :: date
  validation_start :: date
  validation_end :: date
  execute_start :: date
  execute_end :: date

section \<open>Months\<close>

text \<open>The number of a month, and \<open>_add_months\<close>\<close>

fun month_index :: "date \<Rightarrow> int" where
  "month_index (y, m, d) = y * 12 + (m - 1)"

definition add_months :: "date \<Rightarrow> int \<Rightarrow> date res" where
  "add_months d months =
     (let total_months = month_index d + months
      in first_of_month (total_months div 12) (total_months mod 12 + 1))"

lemma add_months_index: "add_months d k = Inr d' \<Longrightarrow> month_index d' = month_index d + k"
  by (auto simp: add_months_def first_of_month_def Let_def split: if_splits)

lemma add_months_bound: "add_months d k = Inr d' \<Longrightarrow> month_index d' < 120000"
  by (auto simp: add_months_def first_of_month_def Let_def split: if_splits)

lemma add_months_step:
  "add_months d 1 = Inr d' \<Longrightarrow> month_index d < 120000 \<and> month_index d < month_index d'"
  using add_months_index [of d 1 d'] add_months_bound [of d 1 d'] by linarith

lemma res_bind_cong [fundef_cong]:
  "m = m' \<Longrightarrow> (\<And>a. m' = Inr a \<Longrightarrow> f a = f' a) \<Longrightarrow> res_bind m f = res_bind m' f'"
  by (cases m') auto

text \<open>The loop of \<open>_enumerate_months\<close>; it ends because the year is bounded.\<close>

function enumerate_loop :: "date \<Rightarrow> date \<Rightarrow> string list res" where
  "enumerate_loop current end_normalized =
     (if current < end_normalized
      then res_bind (add_months current 1) (\<lambda>next_month.
           res_bind (enumerate_loop next_month end_normalized) (\<lambda>ms.
             Inr (fmt_ym (fst current) (fst (snd current)) # ms)))
      else Inr [])"
  by pat_completeness auto
termination
  by (relation "measure (\<lambda>(c, e). nat (120000 - month_index c))")
     (simp_all add: add_months_step)

declare enumerate_loop.simps [simp del]

definition enumerate_months :: "date \<Rightarrow> date \<Rightarrow> string list res" where
  "enumerate_months s e =
     res_bind (first_of_month (fst s) (fst (snd s))) (\<lambda>current.
     res_bind (first_of_month (fst e) (fst (snd e))) (\<lambda>end_normalized.
       enumerate_loop current end_normalized))"

section \<open>The event file\<close>

text \<open>
  The lines of a text file opened with universal newlines, without their terminators. The empty
  piece after a final terminator is not a line for Python; every caller skips empty lines.
\<close>

fun text_lines :: "string \<Rightarrow> string list" where
  "text_lines [] = [[]]"
| "text_lines (c # cs) =
     (if c = CHR 0x0A then [] # text_lines cs
      else if c = CHR 0x0D
      then (case cs of
              d # ds \<Rightarrow> if d = CHR 0x0A then [] # text_lines ds else [] # text_lines cs
            | [] \<Rightarrow> [] # text_lines cs)
      else case text_lines cs of [] \<Rightarrow> [[c]] | w # ws \<Rightarrow> (c # w) # ws)"

fun index_of :: "'a \<Rightarrow> 'a list \<Rightarrow> nat option" where
  "index_of x [] = None"
| "index_of x (y # ys) = (if x = y then Some 0 else map_option Suc (index_of x ys))"

definition ts_column :: "string list \<Rightarrow> nat option" where
  "ts_column headers =
     (case index_of ''signal_bar_start_ts'' headers of
        Some i \<Rightarrow> Some i
      | None \<Rightarrow> (case index_of ''entry_ts'' headers of
                  Some i \<Rightarrow> Some i
                | None \<Rightarrow> index_of ''trigger_ts'' headers))"

definition is_year_month :: "string \<Rightarrow> bool" where
  "is_year_month ym \<longleftrightarrow>
     length ym = 7 \<and> ym ! 4 = CHR ''-'' \<and> list_all is_digit (take 4 ym) \<and> list_all is_digit (take 2 (drop 5 ym))"

text \<open>The body of the scan: the month of one data line, if it has one.\<close>

definition line_month :: "nat \<Rightarrow> string \<Rightarrow> string option" where
  "line_month i raw =
     (let line = str_strip raw; fields = str_split (CHR '','') line
      in if line = [] then None
         else if length fields \<le> i then None
         else let ts_value = str_strip (fields ! i)
              in if 7 \<le> length ts_value \<and> is_year_month (take 7 ts_value) then Some (take 7 ts_value)
                 else None)"

definition get_covered_months_from_csv :: "fs \<Rightarrow> string \<Rightarrow> string set" where
  "get_covered_months_from_csv fs source_path =
     (case fs source_path of
        None \<Rightarrow> {}
      | Some content \<Rightarrow>
          (case text_lines content of
             [] \<Rightarrow> {}
           | h # lines \<Rightarrow>
               let header_line = str_strip h
               in if header_line = [] then {}
                  else (case ts_column (str_split (CHR '','') header_line) of
                          None \<Rightarrow> {}
                        | Some i \<Rightarrow> set (List.map_filter (line_month i) lines))))"

section \<open>The driver\<close>

definition TRAIN_MONTHS :: int where "TRAIN_MONTHS = 2"
definition VALIDATION_MONTHS :: int where "VALIDATION_MONTHS = 1"
definition EXECUTE_MONTHS :: int where "EXECUTE_MONTHS = 1"
definition EXECUTE_START_YEAR :: int where "EXECUTE_START_YEAR = 2025"
definition EXECUTE_START_MONTH :: int where "EXECUTE_START_MONTH = 6"
definition EXECUTE_END_YEAR :: int where "EXECUTE_END_YEAR = 2026"
definition EXECUTE_END_MONTH :: int where "EXECUTE_END_MONTH = 4"
definition TOTAL_EXECUTE_MONTHS :: int where "TOTAL_EXECUTE_MONTHS = 11"

lemmas calendar_consts = TRAIN_MONTHS_def VALIDATION_MONTHS_def EXECUTE_MONTHS_def
  EXECUTE_START_YEAR_def EXECUTE_START_MONTH_def EXECUTE_END_YEAR_def EXECUTE_END_MONTH_def
  TOTAL_EXECUTE_MONTHS_def

definition split_at_month :: "date \<Rightarrow> walkforward_split res" where
  "split_at_month execute_date =
     res_bind (add_months execute_date EXECUTE_MONTHS) (\<lambda>x_end.
     res_bind (add_months execute_date (- VALIDATION_MONTHS)) (\<lambda>v_start.
     res_bind (add_months execute_date (- (TRAIN_MONTHS + VALIDATION_MONTHS))) (\<lambda>t_start.
       Inr \<lparr>train_start = t_start, train_end = v_start, validation_start = v_start,
            validation_end = execute_date, execute_start = execute_date, execute_end = x_end\<rparr>)))"

function split_loop :: "date \<Rightarrow> date \<Rightarrow> walkforward_split list res" where
  "split_loop execute_date end_date =
     (if execute_date < end_date
      then res_bind (split_at_month execute_date) (\<lambda>s.
           res_bind (add_months execute_date 1) (\<lambda>next_month.
           res_bind (split_loop next_month end_date) (\<lambda>ss. Inr (s # ss))))
      else Inr [])"
  by pat_completeness auto
termination
  by (relation "measure (\<lambda>(c, e). nat (120000 - month_index c))")
     (simp_all add: add_months_step)

declare split_loop.simps [simp del]

definition iter_splits :: "walkforward_split list res" where
  "iter_splits =
     res_bind (first_of_month EXECUTE_START_YEAR EXECUTE_START_MONTH) (\<lambda>execute_date.
     res_bind (first_of_month EXECUTE_END_YEAR EXECUTE_END_MONTH) (\<lambda>last_month.
     res_bind (add_months last_month 1) (\<lambda>end_date.
       split_loop execute_date end_date)))"

definition get_walkforward_config :: "(string \<times> json) list" where
  "get_walkforward_config =
     [(''train_months'', JInt TRAIN_MONTHS),
      (''validation_months'', JInt VALIDATION_MONTHS),
      (''execute_months'', JInt EXECUTE_MONTHS),
      (''execute_start_year_month'', JStr (fmt_ym EXECUTE_START_YEAR EXECUTE_START_MONTH)),
      (''execute_end_year_month'', JStr (fmt_ym EXECUTE_END_YEAR EXECUTE_END_MONTH)),
      (''total_execute_months'', JInt TOTAL_EXECUTE_MONTHS)]"

definition check_data_availability :: "fs \<Rightarrow> walkforward_split \<Rightarrow> string \<Rightarrow> unit res" where
  "check_data_availability fs s path =
     res_bind (enumerate_months (train_start s) (validation_end s)) (\<lambda>required_months.
       case fs path of
         None \<Rightarrow> Inl (InsufficientWalkforwardHistoryError required_months)
       | Some content \<Rightarrow>
           if content = [] then Inl (InsufficientWalkforwardHistoryError required_months)
           else
             let covered_months = get_covered_months_from_csv fs path;
                 missing = filter (\<lambda>m. m \<notin> covered_months) required_months
             in if missing \<noteq> [] then Inl (InsufficientWalkforwardHistoryError missing) else Inr ())"

section \<open>Calendar arithmetic\<close>

definition valid_month :: "date \<Rightarrow> bool" where
  "valid_month d \<longleftrightarrow> (case d of (y, m, dd) \<Rightarrow> 1 \<le> y \<and> y \<le> 9999 \<and> 1 \<le> m \<and> m \<le> 12)"

definition month_of_index :: "int \<Rightarrow> date" where
  "month_of_index i = (i div 12, i mod 12 + 1, 1)"

lemma month_index_of_index [simp]: "month_index (month_of_index i) = i"
  by (simp add: month_of_index_def)

lemma index_div_mod:
  "1 \<le> m \<Longrightarrow> m \<le> 12 \<Longrightarrow> (y * 12 + (m - 1)) div 12 = y \<and> (y * 12 + (m - 1)) mod 12 = m - (1 :: int)"
  by (simp add: div_pos_pos_trivial mod_pos_pos_trivial)

lemma add_months_eq:
  "add_months d k =
    (if 12 \<le> month_index d + k \<and> month_index d + k < 120000
     then Inr (month_of_index (month_index d + k)) else Inl ValueError)"
proof -
  let ?i = "month_index d + k"
  have "1 \<le> ?i div 12 \<longleftrightarrow> 12 \<le> ?i" and "?i div 12 \<le> 9999 \<longleftrightarrow> ?i < 120000"
    and "?i mod 12 + 1 \<le> 12" and "1 \<le> ?i mod 12 + 1" by linarith+
  then show ?thesis by (simp add: add_months_def first_of_month_def Let_def month_of_index_def)
qed

text \<open>
  \<open>_add_months\<close> is addition on month numbers: it returns the first of the month that is \<open>k\<close> months
  away when that month lies in the years 1 to 9999 and raises \<open>ValueError\<close> otherwise, and adding \<open>k\<close>
  and then \<open>j\<close> is adding \<open>k + j\<close>.
\<close>

theorem add_months_arith:
  "add_months d k =
     (if 12 \<le> month_index d + k \<and> month_index d + k < 120000
      then Inr (month_of_index (month_index d + k)) else Inl ValueError)
   \<and> (case add_months d k of Inl e \<Rightarrow> True | Inr d' \<Rightarrow> add_months d' j = add_months d (k + j))"
  by (auto simp: add_months_eq algebra_simps)

lemma lex_less_index:
  "valid_month c \<Longrightarrow> valid_month e \<Longrightarrow> snd (snd c) = 1 \<Longrightarrow> snd (snd e) = 1 \<Longrightarrow>
   c < e \<longleftrightarrow> month_index c < month_index e"
  by (cases c; cases e) (auto simp: valid_month_def less_prod_def')

lemma valid_month_index: "valid_month d \<Longrightarrow> 12 \<le> month_index d \<and> month_index d < 120000"
  by (cases d) (auto simp: valid_month_def)

lemma month_of_index_valid: "12 \<le> i \<Longrightarrow> i < 120000 \<Longrightarrow> valid_month (month_of_index i)"
  by (auto simp: valid_month_def month_of_index_def)

lemma valid_month_of_index: "valid_month d \<Longrightarrow> snd (snd d) = 1 \<Longrightarrow> d = month_of_index (month_index d)"
  by (cases d) (auto simp: valid_month_def month_of_index_def)

lemma enumerate_loop_index:
  assumes "12 \<le> i" and "i \<le> e" and "e < 120000"
  shows "enumerate_loop (month_of_index i) (month_of_index e)
    = Inr (map (\<lambda>i. fmt_ym (i div 12) (i mod 12 + 1)) [i..e - 1])"
  using assms
proof (induction "nat (e - i)" arbitrary: i)
  case 0
  then show ?case by (subst enumerate_loop.simps) simp
next
  case (Suc n)
  then have lt: "i < e" by linarith
  then have "month_of_index i < month_of_index e"
    using Suc lex_less_index [of "month_of_index i" "month_of_index e"]
    by (simp add: month_of_index_valid) (simp add: month_of_index_def)
  moreover have "enumerate_loop (month_of_index (i + 1)) (month_of_index e)
      = Inr (map (\<lambda>i. fmt_ym (i div 12) (i mod 12 + 1)) [i + 1..e - 1])"
    using Suc lt by (intro Suc.hyps(1)) linarith+
  ultimately show ?case
    using Suc lt
    by (subst enumerate_loop.simps) (simp add: add_months_eq upto_rec1 [of i], simp add: month_of_index_def)
qed

lemma enumerate_months_eq:
  assumes "valid_month a" and "valid_month b" and "month_index a \<le> month_index b"
  shows "enumerate_months a b
    = Inr (map (\<lambda>i. fmt_ym (i div 12) (i mod 12 + 1)) [month_index a..month_index b - 1])"
proof -
  have norm: "first_of_month (fst d) (fst (snd d)) = Inr (month_of_index (month_index d))" if "valid_month d" for d
    using that by (cases d) (auto simp: valid_month_def first_of_month_def month_of_index_def)
  show ?thesis
    using assms valid_month_index [of a] valid_month_index [of b]
    by (simp add: enumerate_months_def norm enumerate_loop_index)
qed

lemma fmt_ym_inject:
  assumes "fmt_ym y m = fmt_ym y' m'" and "1 \<le> y" "y \<le> 9999" "1 \<le> y'" "y' \<le> 9999" "1 \<le> m" "1 \<le> m'"
  shows "y = y' \<and> m = m'"
proof -
  have "length (zpad 4 y) = 4" "length (zpad 4 y') = 4"
    using assms length_zpad [of y 3] length_zpad [of y' 3] by simp_all
  then have "zpad 4 y = zpad 4 y' \<and> zpad 2 m = zpad 2 m'" using assms(1) by (simp add: fmt_ym_def)
  then show ?thesis using assms zpad_inject by auto
qed

text \<open>
  C40. For two months of the calendar in order, \<open>_enumerate_months\<close> terminates without an error and
  returns every month of the half-open interval exactly once, in order: as many strings as there are
  months between the two, pairwise different, the \<open>i\<close>-th naming the month \<open>i\<close> after the first.
\<close>

theorem enumerate_months_complete:
  assumes "valid_month a" and "valid_month b" and "month_index a \<le> month_index b"
  shows "\<exists>ms. enumerate_months a b = Inr ms \<and> int (length ms) = month_index b - month_index a \<and> distinct ms
     \<and> ms = map (\<lambda>i. fmt_ym (i div 12) (i mod 12 + 1)) [month_index a..month_index b - 1]"
proof -
  have "inj_on (\<lambda>i. fmt_ym (i div 12) (i mod 12 + 1)) (set [month_index a..month_index b - 1])"
  proof (rule inj_onI)
    fix i j
    assume ij: "i \<in> set [month_index a..month_index b - 1]" "j \<in> set [month_index a..month_index b - 1]"
      and eq: "fmt_ym (i div 12) (i mod 12 + 1) = fmt_ym (j div 12) (j mod 12 + 1)"
    have b: "12 \<le> i" "i < 120000" "12 \<le> j" "j < 120000"
      using ij valid_month_index [OF assms(1)] valid_month_index [OF assms(2)] by auto
    have "i div 12 = j div 12 \<and> i mod 12 + 1 = j mod 12 + 1"
      by (rule fmt_ym_inject [OF eq]) (use b in linarith)+
    then have "i div 12 * 12 + i mod 12 = j div 12 * 12 + j mod 12" by simp
    then show "i = j" by (simp only: div_mult_mod_eq)
  qed
  then show ?thesis using assms by (simp add: enumerate_months_eq distinct_map)
qed

theorem enumerate_months_complete_witness:
  "\<exists>ms. enumerate_months (2025, 11, 1) (2026, 2, 1) = Inr ms \<and> int (length ms) = 3 \<and> distinct ms"
  using enumerate_months_complete [of "(2025, 11, 1)" "(2026, 2, 1)"] by (auto simp: valid_month_def)

section \<open>The splits\<close>

text \<open>What a split has to satisfy: adjacent, non-empty windows of two, one and one months.\<close>

definition split_ok :: "walkforward_split \<Rightarrow> bool" where
  "split_ok s \<longleftrightarrow>
     train_start s < train_end s \<and> train_end s = validation_start s
     \<and> validation_start s < validation_end s \<and> validation_end s = execute_start s
     \<and> execute_start s < execute_end s
     \<and> month_index (train_end s) = month_index (train_start s) + TRAIN_MONTHS
     \<and> month_index (validation_end s) = month_index (validation_start s) + VALIDATION_MONTHS
     \<and> month_index (execute_end s) = month_index (execute_start s) + EXECUTE_MONTHS"

definition split_of_index :: "int \<Rightarrow> walkforward_split" where
  "split_of_index i =
     \<lparr>train_start = month_of_index (i - 3), train_end = month_of_index (i - 1),
      validation_start = month_of_index (i - 1), validation_end = month_of_index i,
      execute_start = month_of_index i, execute_end = month_of_index (i + 1)\<rparr>"

lemma split_loop_index:
  assumes "15 \<le> i" "i \<le> e" "e < 120000"
  shows "split_loop (month_of_index i) (month_of_index e) = Inr (map split_of_index [i..e - 1])"
  using assms
proof (induction "nat (e - i)" arbitrary: i)
  case 0
  then show ?case by (subst split_loop.simps) simp
next
  case (Suc n)
  then have lt: "i < e" by linarith
  then have "month_of_index i < month_of_index e"
    using Suc lex_less_index [of "month_of_index i" "month_of_index e"]
    by (simp add: month_of_index_valid) (simp add: month_of_index_def)
  moreover have "split_loop (month_of_index (i + 1)) (month_of_index e) = Inr (map split_of_index [i + 1..e - 1])"
    using Suc lt by (intro Suc.hyps(1)) linarith+
  ultimately show ?case
    using Suc lt
    by (subst split_loop.simps)
       (simp add: split_at_month_def calendar_consts add_months_eq upto_rec1 [of i] split_of_index_def)
qed

lemma iter_splits_eq: "iter_splits = Inr (map split_of_index [24305..24315])"
proof -
  have "iter_splits = split_loop (month_of_index 24305) (month_of_index 24316)"
    by (simp add: iter_splits_def calendar_consts first_of_month_def add_months_eq) (simp add: month_of_index_def)
  then show ?thesis using split_loop_index [of 24305 24316] by simp
qed

lemma month_of_index_less: "12 \<le> i \<Longrightarrow> i < j \<Longrightarrow> j < 120000 \<Longrightarrow> month_of_index i < month_of_index j"
  using lex_less_index [of "month_of_index i" "month_of_index j"]
  by (simp add: month_of_index_valid) (simp add: month_of_index_def)

lemma split_of_index_ok: "15 \<le> i \<Longrightarrow> i < 119999 \<Longrightarrow> split_ok (split_of_index i)"
  by (simp add: split_ok_def split_of_index_def calendar_consts month_of_index_less)

lemma map_Suc_upto: "map (\<lambda>i. i + 1) [i..e - 1] = [i + 1..e]" for i e :: int
  by (intro nth_equalityI) (simp_all add: nth_upto)

lemma split_loop_early:
  assumes "valid_month a" and "a < b" and "month_index a < 15"
  shows "split_loop a b = Inl ValueError"
proof -
  have "split_at_month a = Inl ValueError"
    using assms(3) valid_month_index [OF assms(1)]
    by (simp add: split_at_month_def add_months_eq calendar_consts)
  then show ?thesis using assms(2) by (subst split_loop.simps) simp
qed

text \<open>
  C34. The loop of \<open>iter_splits\<close>, for every first and last month of the calendar (its constants
  are one instance). It terminates and yields one split for each month from the first one up to, not
  including, the end, in order: the \<open>i\<close>-th split executes in the month \<open>i\<close> after the first, and in each
  split training, validation and execution are non-empty adjacent windows of two months, one month and
  one month, so nothing of the execution month is seen before. Each execution window ends where the
  next one starts, the first starts at the first month and the last ends at the end: they tile the
  period without gap or overlap. The only error is \<open>ValueError\<close>, exactly when the first training window
  would begin before the year 1.
\<close>

theorem split_loop_correct:
  assumes a: "valid_month a" "snd (snd a) = 1" and b: "valid_month b" "snd (snd b) = 1"
  shows "iter_splits = split_loop (2025, 6, 1) (2026, 5, 1)
    \<and> (case split_loop a b of
          Inl e \<Rightarrow> e = ValueError \<and> a < b \<and> month_index a < 15
        | Inr ss \<Rightarrow> \<not> (a < b \<and> month_index a < 15)
            \<and> map execute_start ss = map month_of_index [month_index a..month_index b - 1]
            \<and> list_all split_ok ss
            \<and> (ss = [] \<or> map execute_end ss = tl (map execute_start ss) @ [b]))"
proof -
  let ?i = "month_index a" and ?e = "month_index b"
  have ab: "a = month_of_index ?i" "b = month_of_index ?e" using a b valid_month_of_index by simp_all
  have lt: "a < b \<longleftrightarrow> ?i < ?e" using a b by (simp add: lex_less_index)
  have e: "?e < 120000" using valid_month_index [OF b(1)] by simp
  have iter: "iter_splits = split_loop (2025, 6, 1) (2026, 5, 1)"
    by (simp add: iter_splits_def calendar_consts first_of_month_def add_months_eq) (simp add: month_of_index_def)
  consider "\<not> a < b" | "a < b" "?i < 15" | "a < b" "15 \<le> ?i" by linarith
  then show ?thesis
  proof cases
    case 1
    then have "split_loop a b = Inr []" by (subst split_loop.simps) simp
    then show ?thesis using 1 iter lt by simp
  next
    case 2
    then show ?thesis using iter split_loop_early [OF a(1)] by simp
  next
    case 3
    let ?ss = "map split_of_index [?i..?e - 1]"
    have ss: "split_loop a b = Inr ?ss"
      using split_loop_index [of ?i ?e] 3 lt e by (simp flip: ab)
    have "list_all split_ok ?ss" using 3 e by (auto simp: list_all_iff intro!: split_of_index_ok)
    moreover have "map execute_start ?ss = map month_of_index [?i..?e - 1]"
      by (simp add: split_of_index_def o_def)
    moreover have "map execute_end ?ss = tl (map execute_start ?ss) @ [b]"
    proof -
      have "map execute_end ?ss = map month_of_index (map (\<lambda>i. i + 1) [?i..?e - 1])"
        by (simp add: split_of_index_def o_def)
      also have "map (\<lambda>i. i + 1) [?i..?e - 1] = tl [?i..?e - 1] @ [?e]"
        unfolding map_Suc_upto using 3 lt upto_rec1 [of ?i "?e - 1"] upto_rec2 [of "?i + 1" ?e] by simp
      finally show ?thesis by (simp add: split_of_index_def o_def map_tl flip: ab(2))
    qed
    ultimately show ?thesis using iter ss 3 by simp
  qed
qed

theorem split_loop_correct_witness:
  "\<exists>ss. split_loop (2024, 12, 1) (2025, 2, 1) = Inr ss \<and> list_all split_ok ss
     \<and> map execute_start ss = [(2024, 12, 1), (2025, 1, 1)] \<and> map execute_end ss = [(2025, 1, 1), (2025, 2, 1)]"
proof -
  have l: "[24299..24300 :: int] = [24299, 24300]" by (simp add: upto_rec1)
  have "\<not> isl (split_loop (2024, 12, 1) (2025, 2, 1))" by code_simp
  then obtain ss where ss: "split_loop (2024, 12, 1) (2025, 2, 1) = Inr ss"
    by (cases "split_loop (2024, 12, 1) (2025, 2, 1)") auto
  show ?thesis
    using split_loop_correct [of "(2024, 12, 1)" "(2025, 2, 1)"] unfolding ss
    by (intro exI [of _ ss]) (auto simp: valid_month_def l month_of_index_def)
qed

section \<open>Data availability\<close>

lemma split_required_months:
  assumes "15 \<le> i" and "i < 119999"
  shows "enumerate_months (train_start (split_of_index i)) (validation_end (split_of_index i))
    = Inr (map (\<lambda>i. fmt_ym (i div 12) (i mod 12 + 1)) [i - 3, i - 2, i - 1])"
proof -
  have "[i - 3..i - 1] = [i - 3, i - 2, i - 1]" by (simp add: upto_rec1)
  then show ?thesis
    using assms enumerate_months_eq [of "month_of_index (i - 3)" "month_of_index i"]
    by (simp add: split_of_index_def month_of_index_valid)
qed

text \<open>
  For a split of the calendar, \<open>check_data_availability\<close> succeeds exactly when the event file exists, is
  not empty and has rows in each of the three months before the execution month; otherwise it raises
  \<open>InsufficientWalkforwardHistoryError\<close> carrying exactly the months without rows (all three when the
  file is missing or empty). The window is never shrunk.
\<close>

theorem check_data_availability_iff:
  assumes "15 \<le> i" and "i < 119999"
  shows "check_data_availability fs (split_of_index i) path =
    (let required = map (\<lambda>i. fmt_ym (i div 12) (i mod 12 + 1)) [i - 3, i - 2, i - 1];
         covered = (if fs path = None \<or> fs path = Some [] then {} else get_covered_months_from_csv fs path);
         missing = filter (\<lambda>m. m \<notin> covered) required
     in if missing = [] then Inr () else Inl (InsufficientWalkforwardHistoryError missing))"
  using assms
  by (auto simp: check_data_availability_def split_required_months Let_def split: option.split)

definition sample_events_csv :: string where
  "sample_events_csv =
     ''id,signal_bar_start_ts'' @ nl @ ''1,2025-03-01T00:00:00Z'' @ nl @ ''2,2025-04-07'' @ nl
     @ ''3,2025-06-01'' @ nl"

theorem check_data_availability_iff_witness:
  "check_data_availability [''e.csv'' \<mapsto> sample_events_csv] (split_of_index 24305) ''e.csv''
   = Inl (InsufficientWalkforwardHistoryError [''2025-05''])"
proof -
  have cov: "get_covered_months_from_csv [''e.csv'' \<mapsto> sample_events_csv] ''e.csv''
      = {''2025-03'', ''2025-04'', ''2025-06''}" and ne: "sample_events_csv \<noteq> []"
    by code_simp+
  have req: "map (\<lambda>i. fmt_ym (i div 12) (i mod 12 + 1)) [24305 - 3, 24305 - 2, 24305 - 1]
      = [''2025-03'', ''2025-04'', ''2025-05'']" by code_simp
  show ?thesis
    using check_data_availability_iff [of 24305 "[''e.csv'' \<mapsto> sample_events_csv]" "''e.csv''"]
    unfolding cov req Let_def by (simp add: ne)
qed

section \<open>Out-of-sample months\<close>

definition OOS_WINDOW_START_YEAR :: int where "OOS_WINDOW_START_YEAR = 2024"
definition OOS_WINDOW_START_MONTH :: int where "OOS_WINDOW_START_MONTH = 1"
definition OOS_WINDOW_END_YEAR :: int where "OOS_WINDOW_END_YEAR = 2025"
definition OOS_WINDOW_END_MONTH :: int where "OOS_WINDOW_END_MONTH = 5"

definition OOS_SYMBOLS :: "string list" where
  "OOS_SYMBOLS = [''BTCUSDT'', ''ETHUSDT'']"

text \<open>The loop of \<open>_generate_oos_year_months\<close>: the month counter wraps at twelve.\<close>

function oos_loop :: "int \<Rightarrow> int \<Rightarrow> string list" where
  "oos_loop year month =
     (if (year, month) \<le> (OOS_WINDOW_END_YEAR, OOS_WINDOW_END_MONTH)
      then fmt_ym year month #
           (if month + 1 > 12 then oos_loop (year + 1) 1 else oos_loop year (month + 1))
      else [])"
  by pat_completeness auto
termination
  by (relation "measures [\<lambda>(y, m). nat (2026 - y), \<lambda>(y, m). nat (13 - m)]")
     (auto simp: OOS_WINDOW_END_YEAR_def OOS_WINDOW_END_MONTH_def)

declare oos_loop.simps [simp del]

definition OOS_YEAR_MONTHS :: "string list" where
  "OOS_YEAR_MONTHS = oos_loop OOS_WINDOW_START_YEAR OOS_WINDOW_START_MONTH"

text \<open>
  The out-of-sample window is 17 different months in increasing order, all before June 2025, so it
  shares no month with the eleven execution months: the module's two assertions hold.
\<close>

theorem OOS_YEAR_MONTHS_correct:
  "length OOS_YEAR_MONTHS = 17 \<and> distinct OOS_YEAR_MONTHS \<and> sorted OOS_YEAR_MONTHS
   \<and> list_all (\<lambda>ym. ym < ''2025-06'') OOS_YEAR_MONTHS"
  by code_simp

text \<open>What \<open>pathlib\<close> sees at a path.\<close>

datatype path_state = Missing | IsFile | IsDir "string list"

definition archive_available :: "(string \<Rightarrow> path_state) \<Rightarrow> string \<Rightarrow> bool" where
  "archive_available dirs p = (case dirs p of IsDir entries \<Rightarrow> entries \<noteq> [] | _ \<Rightarrow> False)"

definition missing_symbol_months :: "(string \<Rightarrow> path_state) \<Rightarrow> string \<Rightarrow> (string \<times> string) list" where
  "missing_symbol_months dirs archive_root =
     filter (\<lambda>(symbol, ym). \<not> archive_available dirs (path_join (path_join archive_root symbol) ym))
       (List.product OOS_SYMBOLS OOS_YEAR_MONTHS)"

definition oos_path :: "string \<Rightarrow> string \<Rightarrow> string" where
  "oos_path dir candidate_id =
     path_join dir (''tmp_entry_redesign_'' @ candidate_id @ ''_oos_archive_availability.json'')"

definition check_and_write_oos ::
  "string \<Rightarrow> (string \<Rightarrow> path_state) \<Rightarrow> string \<Rightarrow> string \<Rightarrow> string \<Rightarrow> string option \<Rightarrow> fs
   \<Rightarrow> string option \<times> fs" where
  "check_and_write_oos self_dir dirs candidate_id archive_root query_timestamp_utc output_dir fs =
     (let dir = (case output_dir of Some d \<Rightarrow> d | None \<Rightarrow> self_dir);
          missing = missing_symbol_months dirs archive_root
      in case missing of
           [] \<Rightarrow> (None, fs)
         | (first_sym, first_ym) # rest \<Rightarrow>
             let query_command =
                   ''ls -la '' @ archive_root @ ''/{BTCUSDT,ETHUSDT}/{2024-01..2025-05}/'';
                 evidence_snippet =
                   str_int (int (length missing)) @ ''/''
                   @ str_int (int (length OOS_SYMBOLS * length OOS_YEAR_MONTHS))
                   @ '' symbol-month archives missing. First missing: '' @ first_sym @ ''/'' @ first_ym
                   @ ''. Archive root: '' @ archive_root;
                 data = JDict
                   [(''query_command'', JStr query_command),
                    (''query_timestamp_utc'', JStr query_timestamp_utc),
                    (''archive_root'', JStr archive_root),
                    (''missing_symbol_months'',
                      JList (map (\<lambda>(s, m). JDict [(''symbol'', JStr s), (''year_month'', JStr m)]) missing)),
                    (''evidence_snippet'', JStr evidence_snippet)];
                 out_path = oos_path dir candidate_id
             in (Some out_path, fs(out_path \<mapsto> ensure_lf (json_dumps False data))))"

text \<open>
  The availability report is written exactly when some of the 34 symbol months has no archive
  directory with an entry; when all are present no file is created or changed.
\<close>

theorem check_and_write_oos_iff:
  "if list_all (\<lambda>(s, ym). archive_available dirs (path_join (path_join base_dir s) ym)) (List.product OOS_SYMBOLS OOS_YEAR_MONTHS)
   then check_and_write_oos self dirs cid base_dir ts out fs = (None, fs)
   else \<exists>text. check_and_write_oos self dirs cid base_dir ts out fs
          = (Some (oos_path (case out of Some d \<Rightarrow> d | None \<Rightarrow> self) cid),
             fs(oos_path (case out of Some d \<Rightarrow> d | None \<Rightarrow> self) cid \<mapsto> text))
        \<and> endswith text nl"
proof -
  have "missing_symbol_months dirs base_dir = [] \<longleftrightarrow>
      list_all (\<lambda>(s, ym). archive_available dirs (path_join (path_join base_dir s) ym)) (List.product OOS_SYMBOLS OOS_YEAR_MONTHS)"
    unfolding missing_symbol_months_def filter_empty_conv list_all_iff by auto
  then show ?thesis
    using ensure_lf_ends
    by (cases "missing_symbol_months dirs base_dir") (auto simp: check_and_write_oos_def Let_def split: prod.split)
qed

end
