(* ===== verification/JsonLoads.thy ===== *)
theory JsonLoads
  imports PyJson
begin

text \<open>
  \<open>json.loads\<close>, which the code applies to summaries it has written: lexical analysis of the text and a
  parser with an explicit stack, both total. The theorems show that the parser inverts \<open>json.dumps\<close>;
  for floats this rests on the fact that the shortest representation, at most 17 digits long, rounds
  back to the same binary64 number. Text is a sequence of UTF-8 bytes. An input that Python rejects
  with \<open>JSONDecodeError\<close>, a subclass of \<open>ValueError\<close>, gives \<open>ValueError\<close>; the recursion limit of the
  interpreter is not modelled.
\<close>

section \<open>Decimal digits of a rational\<close>

lemma pow10_powi: "pow10 e = 10 powi e"
  by (simp add: pow10_def power_int_def inverse_eq_divide power_one_over)

lemma pow10_pos [simp]: "0 < pow10 e"
  by (simp add: pow10_powi)

lemma pow10_add: "pow10 (a + b) = pow10 a * pow10 b"
  by (simp add: pow10_powi power_int_add)

lemma pow10_diff: "pow10 (a - b) = pow10 a / pow10 b"
  by (simp add: pow10_powi power_int_diff)

lemma pow10_less: "a < b \<Longrightarrow> pow10 a < pow10 b"
  by (simp add: pow10_powi power_int_strict_increasing)

lemma pow10_le_iff [simp]: "pow10 a \<le> pow10 b \<longleftrightarrow> a \<le> b"
  by (metis pow10_less linorder_not_less order_le_less)

lemma pow10_nat: "pow10 (int n) = 10 ^ n"
  by (simp add: pow10_def)

lemma str_dec_bracket:
  assumes "0 < n"
  shows "10 ^ (length (str_dec n) - 1) \<le> n \<and> n < 10 ^ length (str_dec n)"
  using assms
proof (induction n rule: str_dec.induct)
  case (1 n)
  show ?case
  proof (cases "n < 10")
    case True
    then show ?thesis using 1 by (subst (1 2) str_dec.simps) simp
  next
    case False
    let ?l = "length (str_dec (n div 10))"
    have ih: "10 ^ (?l - 1) \<le> n div 10" "n div 10 < 10 ^ ?l" using 1 False by auto
    have l: "length (str_dec n) = Suc ?l" using False by (subst str_dec.simps) simp
    have "0 < ?l" by simp
    then have "(10 :: int) ^ ?l = 10 * 10 ^ (?l - 1)" by (cases ?l) auto
    then show ?thesis using ih unfolding l by simp linarith
  qed
qed

lemma rat_ilog10_bracket:
  assumes "0 < x"
  shows "pow10 (rat_ilog10 x) \<le> x" and "x < pow10 (rat_ilog10 x + 1)"
proof -
  obtain n d where q: "quotient_of x = (n, d)" by (cases "quotient_of x") auto
  have x: "x = of_int n / of_int d" and d: "0 < d"
    using quotient_of_div [OF q] quotient_of_denom_pos [OF q] by auto
  then have n: "0 < n" using assms by (simp add: zero_less_divide_iff)
  define ln ld where "ln = length (str_dec n)" and "ld = length (str_dec d)"
  have l: "0 < ln" "0 < ld" by (simp_all add: ln_def ld_def)
  have bracket: "pow10 (int l - 1) \<le> of_int m" "of_int m < pow10 (int l)" if "10 ^ (l - 1) \<le> m \<and> m < 10 ^ l" "0 < l" for l m
  proof -
    have "pow10 (int l - 1) = of_int (10 ^ (l - 1))" "pow10 (int l) = of_int (10 ^ l)"
      using that(2) pow10_nat [of "l - 1"] pow10_nat [of l] by (simp_all add: of_nat_diff)
    then show "pow10 (int l - 1) \<le> of_int m" "of_int m < pow10 (int l)"
      using that(1) by (simp_all only: of_int_le_iff of_int_less_iff)
  qed
  note bn = bracket [OF str_dec_bracket [OF n], folded ln_def, OF l(1)]
  note bd = bracket [OF str_dec_bracket [OF d], folded ld_def, OF l(2)]
  let ?k = "int ln - int ld"
  have "pow10 (int ln - 1) / pow10 (int ld) \<le> of_int n / of_int d"
    using bn bd n d by (intro frac_le) auto
  then have "pow10 (?k - 1) \<le> x" by (simp add: x algebra_simps flip: pow10_diff)
  moreover have "of_int n / of_int d < pow10 (int ln) / pow10 (int ld - 1)"
    using bn bd n d by (intro frac_less) auto
  then have "x < pow10 (?k + 1)" by (simp add: x algebra_simps flip: pow10_diff)
  ultimately show "pow10 (rat_ilog10 x) \<le> x" and "x < pow10 (rat_ilog10 x + 1)"
    by (auto simp: rat_ilog10_def q Let_def ln_def ld_def)
qed

lemma rne_unique: "\<bar>y - of_int k\<bar> < 1 / 2 \<Longrightarrow> rne y = k"
proof -
  assume "\<bar>y - of_int k\<bar> < 1 / 2"
  then have "\<bar>of_int (rne y) - of_int k :: rat\<bar> < 1" using rne_close [of y] by linarith
  then show ?thesis by linarith
qed

text \<open>A rational within a relative distance of half of \<open>10^-16\<close> of a float rounds to this float.\<close>

lemma rnd_near:
  assumes x: "0 < x" "rnd x = x" and near: "\<bar>y - x\<bar> \<le> x / 20000000000000000"
  shows "rnd y = x"
proof -
  have y: "0 < y" using x near by linarith
  define L where "L = rat_ilog2 x"
  have xL: "pow2 L \<le> x" "x < 2 * pow2 L"
    using rat_ilog2_bracket [OF x(1)] by (simp_all add: L_def pow2_add) (simp add: pow2_def)
  have yL: "y < 2 * pow2 (rat_ilog2 y)"
    using rat_ilog2_bracket(2) [OF y] by (simp add: pow2_add) (simp add: pow2_def)
  have eps: "pow2 (l - 52) = pow2 l / 4503599627370496" for l by (simp add: pow2_diff) (simp add: pow2_def)
  obtain k where k: "x = of_int k * pow2 (fexp x)" using x(2) by (metis rnd_eq)
  have ulp: "pow2 (rat_ilog2 z) / 4503599627370496 \<le> pow2 (fexp z)" if "0 < z" for z
    unfolding eps [symmetric] using that by (simp add: fexp_def)
  note ux = ulp [OF x(1), folded L_def]
  have "fexp y \<le> fexp x"
  proof (rule ccontr)
    assume "\<not> fexp y \<le> fexp x"
    then have "L < rat_ilog2 y" using x(1) y by (auto simp: fexp_def L_def)
    then have up: "pow2 (L + 1) \<le> y"
      using rat_ilog2_bracket(1) [OF y] pow2_le_iff [of "L + 1" "rat_ilog2 y"] by linarith
    have "0 < k" using k x(1) by (metis of_int_0_less_iff pow2_pos zero_less_mult_pos2)
    then have "pow2 (fexp x) \<le> x" using k mult_right_mono [of 1 "of_int k" "pow2 (fexp x)"] by simp
    then have "fexp x \<le> L" using ilog2_ge_iff [OF x(1)] by (simp add: L_def)
    then have g: "pow2 (L + 1) = of_int (2 ^ nat (L + 1 - fexp x)) * pow2 (fexp x)"
      using grid_quotient [of "fexp x" "L + 1" 1] by (simp add: field_simps)
    have "of_int k * pow2 (fexp x) < of_int (2 ^ nat (L + 1 - fexp x)) * pow2 (fexp x)"
      using rat_ilog2_bracket(2) [OF x(1), folded L_def] unfolding g k [symmetric] .
    then have "k < 2 ^ nat (L + 1 - fexp x)" by (simp only: mult_less_cancel_right_pos pow2_pos of_int_less_iff)
    then have "of_int (k + 1) * pow2 (fexp x) \<le> pow2 (L + 1)"
      unfolding g by (intro mult_right_mono) (simp_all only: of_int_le_iff pow2_nonneg)
    then have "x + pow2 (fexp x) \<le> y" using up k by (simp add: algebra_simps)
    then show False using near xL ux x(1) by linarith
  qed
  then obtain m where m: "x = of_int m * pow2 (fexp y)"
    using k grid_quotient [of "fexp y" "fexp x" k] by (metis nonzero_divide_eq_eq pow2_nonzero)
  have "\<bar>y - x\<bar> < pow2 (fexp y) / 2" using near yL y ulp [OF y] by linarith
  then have "\<bar>y / pow2 (fexp y) - of_int m\<bar> < 1 / 2"
    using m pow2_pos [of "fexp y"] by (simp add: abs_less_iff field_simps)
  then show ?thesis using rne_unique m by (simp add: rnd_eq [of y])
qed

lemma sig_digits_spec:
  assumes x: "0 < x" and sd: "sig_digits n x = (m, e)" and n: "0 < n"
  shows "10 ^ (n - 1) \<le> m" "m < 10 ^ n" "\<bar>of_int m * pow10 (e - int n + 1) - x\<bar> \<le> pow10 (rat_ilog10 x - int n + 1) / 2"
proof -
  define E u where "E = rat_ilog10 x" and "u = pow10 (E - int n + 1)"
  have u: "0 < u" by (simp add: u_def)
  have "pow10 (int n - 1) = 10 ^ (n - 1)" using pow10_nat [of "n - 1"] n by (simp add: of_nat_diff)
  then have "pow10 E = 10 ^ (n - 1) * u" "pow10 (E + 1) = 10 ^ n * u"
    using pow10_add [of "int n - 1" "E - int n + 1"] pow10_add [of "int n" "E - int n + 1"]
    by (simp_all add: u_def pow10_nat add.commute)
  then have "of_int (10 ^ (n - 1)) \<le> x / u" "x / u \<le> of_int (10 ^ n)"
    using rat_ilog10_bracket [OF x] u by (simp_all add: E_def field_simps)
  then have r: "10 ^ (n - 1) \<le> rne (x / u)" "rne (x / u) \<le> 10 ^ n"
    using rne_mono by (metis rne_int)+
  have close: "\<bar>of_int (rne (x / u)) * u - x\<bar> \<le> u / 2"
  proof -
    have "of_int (rne (x / u)) * u - x = (of_int (rne (x / u)) - x / u) * u" using u by (simp add: field_simps)
    then have "\<bar>of_int (rne (x / u)) * u - x\<bar> = \<bar>of_int (rne (x / u)) - x / u\<bar> * u"
      using u by (simp add: abs_mult)
    also have "\<dots> \<le> 1 / 2 * u" by (intro mult_right_mono) (use rne_close u in auto)
    finally show ?thesis by simp
  qed
  have p: "(10 :: int) ^ n = 10 * 10 ^ (n - 1)" using n by (cases n) auto
  have "m = (if rne (x / u) = 10 ^ n then 10 ^ (n - 1) else rne (x / u))"
    "e = (if rne (x / u) = 10 ^ n then E + 1 else E)"
    using sd by (auto simp: sig_digits_def Let_def u_def E_def split: if_splits)
  then show "10 ^ (n - 1) \<le> m" "m < 10 ^ n" "\<bar>of_int m * pow10 (e - int n + 1) - x\<bar> \<le> pow10 (rat_ilog10 x - int n + 1) / 2"
    using r close p pow10_add [of "E - int n + 1" 1]
    by (auto simp: u_def E_def pow10_def [of 1] algebra_simps split: if_splits)
qed

lemma fl_cong: "rnd x = rnd y \<Longrightarrow> fl x = fl y"
  by (simp only: fl_def)

lemma sig_digits_17:
  assumes "0 < x" and "fl x = Fin x" and "sig_digits 17 x = (m, e)"
  shows "fl (of_int m * pow10 (e - 16)) = Fin x"
proof -
  have "pow10 (rat_ilog10 x - 16) \<le> x / 10000000000000000"
    using rat_ilog10_bracket(1) [OF assms(1)] unfolding pow10_diff by (simp add: pow10_def [of 16] divide_right_mono)
  moreover have "\<bar>of_int m * pow10 (e - 16) - x\<bar> \<le> pow10 (rat_ilog10 x - 16) / 2"
  proof -
    have k: "k - int 17 + 1 = k - 16" for k by simp
    show ?thesis using sig_digits_spec(3) [OF assms(1,3) zero_less_numeral] unfolding k .
  qed
  ultimately have near: "\<bar>of_int m * pow10 (e - 16) - x\<bar> \<le> x / 20000000000000000" by linarith
  have r: "rnd x = x" using assms(2) by (simp add: fl_def Let_def split: if_splits)
  have "rnd (of_int m * pow10 (e - 16)) = x" by (rule rnd_near [OF assms(1) r near])
  then have "fl (of_int m * pow10 (e - 16)) = fl x" by (intro fl_cong) (simp only: r)
  then show ?thesis using assms(2) by (rule trans)
qed

lemma shortest_digits_spec:
  assumes "0 < x" and "fl x = Fin x" and "shortest_digits k n x = (m, e)" and "k + n = 17" and "0 < n"
  shows "\<exists>l > 0. 10 ^ (l - 1) \<le> m \<and> m < 10 ^ l \<and> fl (of_int m * pow10 (e - int l + 1)) = Fin x"
  using assms(3-)
proof (induction k arbitrary: n)
  case 0
  then have "sig_digits 17 x = (m, e)" by simp
  from sig_digits_spec(1,2) [OF assms(1) this] sig_digits_17 [OF assms(1,2) this]
  show ?case by (intro exI [of _ 17]) simp
next
  case (Suc k)
  obtain m' e' where sd: "sig_digits n x = (m', e')" by (cases "sig_digits n x") auto
  show ?case
  proof (cases "fl (of_int m' * pow10 (e' - int n + 1)) = Fin x")
    case True
    then have "m' = m" "e' = e" using Suc.prems(1) sd by simp_all
    then show ?thesis using sig_digits_spec(1,2) [OF assms(1) sd] Suc.prems True by blast
  next
    case False
    then show ?thesis using Suc sd by simp
  qed
qed

section \<open>Numbers\<close>

text \<open>
  A number is an integer part without superfluous zeros, an optional fraction and an optional exponent;
  with a fraction or an exponent it is a float, correctly rounded. Each function returns what it has
  read and the remaining text.
\<close>

definition int_part :: "string \<Rightarrow> (string \<times> string) option" where
  "int_part s =
     (case s of
        [] \<Rightarrow> None
      | c # r \<Rightarrow>
          if c = CHR ''0'' then Some (''0'', r)
          else if is_digit c then Some (takeWhile is_digit s, dropWhile is_digit s)
          else None)"

definition frac_part :: "string \<Rightarrow> string \<times> string" where
  "frac_part s =
     (case s of
        [] \<Rightarrow> ([], s)
      | c # r \<Rightarrow>
          if c = CHR ''.'' \<and> takeWhile is_digit r \<noteq> [] then (takeWhile is_digit r, dropWhile is_digit r)
          else ([], s))"

definition exp_sign :: "string \<Rightarrow> int \<times> string" where
  "exp_sign s =
     (case s of
        [] \<Rightarrow> (1, s)
      | c # r \<Rightarrow> if c = CHR ''-'' then (- 1, r) else if c = CHR ''+'' then (1, r) else (1, s))"

definition exp_part :: "string \<Rightarrow> int option \<times> string" where
  "exp_part s =
     (case s of
        [] \<Rightarrow> (None, s)
      | c # r \<Rightarrow>
          if c = CHR ''e'' \<or> c = CHR ''E''
          then let (sg, q) = exp_sign r; ds = takeWhile is_digit q
               in if ds \<noteq> [] then (Some (sg * dec_val 0 ds), dropWhile is_digit q) else (None, s)
          else (None, s))"

definition lex_unsigned :: "int \<Rightarrow> string \<Rightarrow> (json \<times> string) option" where
  "lex_unsigned sg s =
     (case int_part s of
        None \<Rightarrow> None
      | Some (i, r1) \<Rightarrow>
          let (f, r2) = frac_part r1; (x, r3) = exp_part r2
          in if f = [] \<and> x = None then Some (JInt (sg * dec_val 0 i), r1)
             else Some (JFloat (fl (of_int (sg * dec_val 0 (i @ f))
                          * pow10 ((case x of None \<Rightarrow> 0 | Some k \<Rightarrow> k) - int (length f)))), r3))"

definition lex_number :: "string \<Rightarrow> (json \<times> string) option" where
  "lex_number s =
     (case s of
        [] \<Rightarrow> None
      | c # r \<Rightarrow> if c = CHR ''-'' then lex_unsigned (- 1) r else lex_unsigned 1 s)"

text \<open>The text after a number starts with a character that cannot continue it.\<close>

definition ends_number :: "string \<Rightarrow> bool" where
  "ends_number r \<longleftrightarrow>
     (case r of [] \<Rightarrow> True | c # _ \<Rightarrow> \<not> is_digit c \<and> c \<noteq> CHR ''.'' \<and> c \<noteq> CHR ''e'' \<and> c \<noteq> CHR ''E'')"

definition int_digits :: "string \<Rightarrow> bool" where
  "int_digits i \<longleftrightarrow> i = ''0'' \<or> (i \<noteq> [] \<and> list_all is_digit i \<and> hd i \<noteq> CHR ''0'')"

lemma takeWhile_digits:
  assumes "list_all is_digit ds" and "r = [] \<or> \<not> is_digit (hd r)"
  shows "takeWhile is_digit (ds @ r) = ds" and "dropWhile is_digit (ds @ r) = r"
  using assms by (induction ds) (cases r; auto)+

lemma int_part_append:
  assumes "int_digits i" and "r = [] \<or> \<not> is_digit (hd r)"
  shows "int_part (i @ r) = Some (i, r)"
proof (cases "i = ''0''")
  case False
  then have i: "list_all is_digit i" "i \<noteq> []" "hd i \<noteq> CHR ''0''" using assms(1) by (auto simp: int_digits_def)
  then obtain c cs where c: "i = c # cs" "is_digit c" "c \<noteq> CHR ''0''" by (cases i) auto
  then have "int_part (i @ r) = Some (takeWhile is_digit (i @ r), dropWhile is_digit (i @ r))"
    by (simp add: int_part_def)
  then show ?thesis using takeWhile_digits [OF i(1) assms(2)] by simp
qed (simp add: int_part_def)

lemma lex_unsigned_int:
  assumes "int_digits i" and "ends_number r"
  shows "lex_unsigned sg (i @ r) = Some (JInt (sg * dec_val 0 i), r)"
  using int_part_append [OF assms(1), of r] assms(2)
  by (cases r) (auto simp: lex_unsigned_def frac_part_def exp_part_def ends_number_def)

lemma lex_unsigned_float:
  assumes i: "int_digits i" and f: "list_all is_digit f" and r: "ends_number r"
    and x: "ex = [] \<and> k = 0 \<and> f \<noteq> [] \<or> (\<exists>c ds. ex = CHR ''e'' # c # ds \<and> c \<in> {CHR ''+'', CHR ''-''}
        \<and> list_all is_digit ds \<and> ds \<noteq> [] \<and> k = (if c = CHR ''-'' then - dec_val 0 ds else dec_val 0 ds))"
  shows "lex_unsigned sg (i @ (if f = [] then [] else CHR ''.'' # f) @ ex @ r)
    = Some (JFloat (fl (of_int (sg * dec_val 0 (i @ f)) * pow10 (k - int (length f)))), r)"
proof -
  let ?t = "(if f = [] then [] else CHR ''.'' # f) @ ex @ r"
  have ed: "ex @ r = [] \<or> \<not> is_digit (hd (ex @ r))"
    using x r by (cases r) (auto simp: ends_number_def is_digit_def)
  have "?t = [] \<or> \<not> is_digit (hd ?t)" using ed by (auto simp: is_digit_def)
  then have 1: "int_part (i @ ?t) = Some (i, ?t)" by (rule int_part_append [OF i])
  have 2: "frac_part ?t = (f, ex @ r)"
  proof (cases "f = []")
    case True
    then show ?thesis using x by (auto simp: frac_part_def)
  next
    case False
    then show ?thesis using takeWhile_digits [OF f ed] by (simp add: frac_part_def)
  qed
  have 3: "exp_part (ex @ r) = (if ex = [] then None else Some k, r)"
    using x
  proof
    assume "ex = [] \<and> k = 0 \<and> f \<noteq> []"
    then show ?thesis using r by (cases r) (auto simp: exp_part_def ends_number_def)
  next
    assume "\<exists>c ds. ex = CHR ''e'' # c # ds \<and> c \<in> {CHR ''+'', CHR ''-''}
        \<and> list_all is_digit ds \<and> ds \<noteq> [] \<and> k = (if c = CHR ''-'' then - dec_val 0 ds else dec_val 0 ds)"
    then obtain c ds where ex: "ex = CHR ''e'' # c # ds" "c \<in> {CHR ''+'', CHR ''-''}" "list_all is_digit ds" "ds \<noteq> []"
      "k = (if c = CHR ''-'' then - dec_val 0 ds else dec_val 0 ds)" by blast
    have "r = [] \<or> \<not> is_digit (hd r)" using r by (cases r) (auto simp: ends_number_def)
    then show ?thesis using ex takeWhile_digits [OF ex(3)] by (auto simp: exp_part_def exp_sign_def Let_def)
  qed
  show ?thesis using x by (auto simp: lex_unsigned_def 1 2 3)
qed

lemma dec_val_snoc0: "dec_val a (replicate k (CHR ''0'')) = a * 10 ^ k"
  by (induction k arbitrary: a) (simp_all add: digit_val_def)

lemma str_dec_hd: "0 < n \<Longrightarrow> hd (str_dec n) \<noteq> CHR ''0''"
proof (induction n rule: str_dec.induct)
  case (1 n)
  have nonzero: "digit_char n \<noteq> CHR ''0''" if "n < 10" "0 < n" using that digit_cases [of n] by (auto simp: digit_char_def)
  show ?case using 1 nonzero by (subst str_dec.simps) (auto simp: hd_append)
qed

lemma int_digits_str_dec: "0 \<le> n \<Longrightarrow> int_digits (str_dec n)"
  using str_dec_hd [of n] str_dec_digits [of n]
  by (cases "n = 0") (auto simp: int_digits_def list_all_iff str_dec.simps [of 0] digit_char_def)

lemma length_str_dec_eq:
  assumes "10 ^ (l - 1) \<le> m" and "m < 10 ^ l" and "0 < l"
  shows "length (str_dec m) = l"
proof -
  let ?k = "length (str_dec m)"
  have "0 < m" using assms(1) by (meson less_le_trans zero_less_numeral zero_less_power)
  then have b: "10 ^ (?k - 1) \<le> m" "m < 10 ^ ?k" using str_dec_bracket by auto
  then have "(10 :: int) ^ (?k - 1) < 10 ^ l" "(10 :: int) ^ (l - 1) < 10 ^ ?k" using assms by linarith+
  then have "?k - 1 < l" "l - 1 < ?k" by (simp_all add: power_less_imp_less_exp)
  then show ?thesis by linarith
qed

lemma int_digits_take: "0 < n \<Longrightarrow> 0 < m \<Longrightarrow> int_digits (take n (str_dec m))"
  using str_dec_hd [of m] str_dec_digits [of m]
  by (auto simp: int_digits_def list_all_iff dest: in_set_takeD)

lemma list_all_drop_str_dec: "0 < m \<Longrightarrow> list_all is_digit (drop n (str_dec m))"
  using str_dec_digits [of m] by (auto simp: list_all_iff dest: in_set_dropD)

text \<open>The text of a positive float is read back as this float.\<close>

lemma lex_repr_pos:
  assumes x: "0 < x" "fl x = Fin x" and r: "ends_number r" and sg: "sg = 1 \<or> sg = - 1"
  shows "lex_unsigned sg (repr_pos x @ r) = Some (JFloat (Fin (of_int sg * x)), r)"
proof -
  obtain m e where me: "shortest_digits 16 1 x = (m, e)" by (cases "shortest_digits 16 1 x") auto
  obtain l where l: "0 < l" "10 ^ (l - 1) \<le> m" "m < 10 ^ l" and v: "fl (of_int m * pow10 (e - int l + 1)) = Fin x"
    using shortest_digits_spec [OF x me] by auto
  define ds where "ds = str_dec m"
  have m: "0 < m" using l(2) by (meson less_le_trans zero_less_numeral zero_less_power)
  have len: "length ds = l" and dv: "dec_val 0 ds = m" and dd: "list_all is_digit ds"
    using length_str_dec_eq [OF l(2,3,1)] m list_all_drop_str_dec [of m 0] by (simp_all add: ds_def)
  have val: "fl (of_int (sg * m) * pow10 (e - int l + 1)) = Fin (of_int sg * x)"
    using sg v fl_neg [of "of_int m * pow10 (e - int l + 1)"] by auto
  have repr: "repr_pos x =
      (if e < -4 \<or> 15 < e
       then take 1 ds @ (if l = 1 then [] else ''.'' @ drop 1 ds) @ ''e'' @ (if e < 0 then ''-'' else ''+'') @ zpad 2 \<bar>e\<bar>
       else if e < 0 then ''0.'' @ replicate (nat (- e) - 1) (CHR ''0'') @ ds
       else if l \<le> nat e + 1 then ds @ replicate (nat e + 1 - l) (CHR ''0'') @ ''.0''
       else take (nat e + 1) ds @ ''.'' @ drop (nat e + 1) ds)"
    unfolding repr_pos_def me Let_def prod.case ds_def [symmetric] len ..
  consider "e < -4 \<or> 15 < e" | "\<not> (e < -4 \<or> 15 < e)" "e < 0" | "0 \<le> e" "e \<le> 15" "l \<le> nat e + 1" | "0 \<le> e" "e \<le> 15" "nat e + 1 < l"
    by linarith
  then show ?thesis
  proof cases
    case 1
    have t: "take 1 ds @ drop 1 ds = ds" by (rule append_take_drop_id)
    have z: "list_all is_digit (zpad 2 \<bar>e\<bar>)" "zpad 2 \<bar>e\<bar> \<noteq> []" "dec_val 0 (zpad 2 \<bar>e\<bar>) = \<bar>e\<bar>"
      using zpad_digits [of "\<bar>e\<bar>" 2] by (auto simp: list_all_iff zpad_def Let_def dec_val_zeros)
    have nil: "l = 1 \<longleftrightarrow> drop 1 ds = []" unfolding drop_eq_Nil len using l(1) by linarith
    have txt1: "repr_pos x @ r = take 1 ds @ (if drop 1 ds = [] then [] else CHR ''.'' # drop 1 ds)
        @ (CHR ''e'' # (if e < 0 then CHR ''-'' else CHR ''+'') # zpad 2 \<bar>e\<bar>) @ r"
      unfolding repr if_P [OF 1] nil by (cases "e < 0"; cases "drop 1 ds = []") simp_all
    have lex1: "lex_unsigned sg (take 1 ds @ (if drop 1 ds = [] then [] else CHR ''.'' # drop 1 ds)
        @ (CHR ''e'' # (if e < 0 then CHR ''-'' else CHR ''+'') # zpad 2 \<bar>e\<bar>) @ r)
      = Some (JFloat (fl (of_int (sg * dec_val 0 (take 1 ds @ drop 1 ds)) * pow10 (e - int (length (drop 1 ds))))), r)"
      using z int_digits_take [of 1 m] m list_all_drop_str_dec [of m 1]
      by (intro lex_unsigned_float r disjI2) (auto simp: ds_def)
    have ex1: "e - int (length (drop 1 ds)) = e - int l + 1" using l(1) len by simp
    show ?thesis unfolding txt1 lex1 t dv ex1 val ..
  next
    case 2
    let ?f = "replicate (nat (- e) - 1) (CHR ''0'') @ ds"
    have ne: "?f \<noteq> []" using l(1) len by auto
    have lex1: "lex_unsigned sg (''0'' @ (if ?f = [] then [] else CHR ''.'' # ?f) @ [] @ r)
      = Some (JFloat (fl (of_int (sg * dec_val 0 (''0'' @ ?f)) * pow10 (0 - int (length ?f)))), r)"
      using dd ne by (intro lex_unsigned_float r disjI1) (auto simp: int_digits_def list_all_iff)
    have txt1: "repr_pos x @ r = ''0'' @ (if ?f = [] then [] else CHR ''.'' # ?f) @ [] @ r"
      unfolding repr if_not_P [OF 2(1)] if_P [OF 2(2)] if_not_P [OF ne] by simp
    have ex1: "0 - int (length ?f) = e - int l + 1" using 2 len by simp
    have dv1: "dec_val 0 (''0'' @ ?f) = m" using dv dec_val_zeros [of "Suc (nat (- e) - 1)" ds] by simp
    show ?thesis unfolding txt1 lex1 dv1 ex1 val ..
  next
    case 3
    let ?i = "ds @ replicate (nat e + 1 - l) (CHR ''0'')"
    have "int_digits ?i"
      using int_digits_str_dec [of m] m dd str_dec_hd [of m] by (auto simp: int_digits_def list_all_iff ds_def hd_append)
    then have lex1: "lex_unsigned sg (?i @ (if ''0'' = [] then [] else CHR ''.'' # ''0'') @ [] @ r)
      = Some (JFloat (fl (of_int (sg * dec_val 0 (?i @ ''0'')) * pow10 (0 - int (length ''0'')))), r)"
      by (intro lex_unsigned_float r disjI1) auto
    have txt1: "repr_pos x @ r = ?i @ (if ''0'' = [] then [] else CHR ''.'' # ''0'') @ [] @ r"
      unfolding repr using 3 by simp
    have "dec_val 0 (?i @ ''0'') = m * 10 ^ (nat e + 1 - l) * 10"
      using dv by (simp add: dec_val_append dec_val_snoc0 digit_val_def)
    moreover have "pow10 (e - int l + 1) = 10 ^ (nat e + 1 - l)"
      using 3 pow10_nat [of "nat e + 1 - l"] by (simp add: of_nat_diff algebra_simps)
    ultimately have v1: "of_int (sg * dec_val 0 (?i @ ''0'')) * pow10 (0 - int (length ''0''))
        = of_int (sg * m) * pow10 (e - int l + 1)"
      by (simp add: pow10_def [of "-1"])
    show ?thesis unfolding txt1 lex1 v1 val ..
  next
    case 4
    let ?i = "take (nat e + 1) ds" let ?f = "drop (nat e + 1) ds"
    have t: "?i @ ?f = ds" by (rule append_take_drop_id)
    have ne: "?f \<noteq> []" using 4 len by simp
    then have lex1: "lex_unsigned sg (?i @ (if ?f = [] then [] else CHR ''.'' # ?f) @ [] @ r)
      = Some (JFloat (fl (of_int (sg * dec_val 0 (?i @ ?f)) * pow10 (0 - int (length ?f)))), r)"
      using m int_digits_take [of "nat e + 1" m] list_all_drop_str_dec [of m "nat e + 1"]
      by (intro lex_unsigned_float r disjI1) (auto simp: ds_def)
    have c: "\<not> (e < -4 \<or> 15 < e)" "\<not> e < 0" "\<not> l \<le> nat e + 1" using 4 by linarith+
    have txt1: "repr_pos x @ r = ?i @ (if ?f = [] then [] else CHR ''.'' # ?f) @ [] @ r"
      unfolding repr if_not_P [OF c(1)] if_not_P [OF c(2)] if_not_P [OF c(3)] if_not_P [OF ne] by simp
    have ex1: "0 - int (length ?f) = e - int l + 1" using 4 len by simp
    show ?thesis unfolding txt1 lex1 t dv ex1 val ..
  qed
qed

lemma lex_number_unsigned: "lex_unsigned 1 s = Some v \<Longrightarrow> lex_number s = Some v"
proof (cases s)
  case (Cons c r)
  assume "lex_unsigned 1 s = Some v"
  moreover have "int_part (CHR ''-'' # r) = None" by (simp add: int_part_def is_digit_def)
  ultimately have "c \<noteq> CHR ''-''" using Cons by (auto simp: lex_unsigned_def)
  then show ?thesis using Cons \<open>lex_unsigned 1 s = Some v\<close> by (simp add: lex_number_def)
qed (simp add: lex_unsigned_def int_part_def)

lemma lex_float_repr:
  assumes "fl x = Fin x" and "ends_number r"
  shows "lex_number (float_repr (Fin x) @ r) = Some (JFloat (Fin x), r)"
proof -
  consider "x = 0" | "0 < x" | "x < 0" by linarith
  then show ?thesis
  proof cases
    case 1
    have "lex_unsigned 1 (''0'' @ (if ''0'' = [] then [] else CHR ''.'' # ''0'') @ [] @ r)
      = Some (JFloat (fl (of_int (1 * dec_val 0 (''0'' @ ''0'')) * pow10 (0 - int (length ''0'')))), r)"
      by (intro lex_unsigned_float assms(2) disjI1) (auto simp: int_digits_def)
    then show ?thesis using 1 lex_number_unsigned by (simp add: digit_val_def)
  next
    case 2
    then show ?thesis using lex_repr_pos [of x r 1] assms lex_number_unsigned by simp
  next
    case 3
    then have "fl (- x) = Fin (- x)" using assms(1) by (simp add: fl_neg)
    then show ?thesis using lex_repr_pos [of "- x" r "- 1"] assms(2) 3 by (simp add: lex_number_def)
  qed
qed

lemma lex_str_int:
  assumes "ends_number r"
  shows "lex_number (str_int i @ r) = Some (JInt i, r)"
proof (cases "i < 0")
  case True
  then show ?thesis
    using lex_unsigned_int [OF int_digits_str_dec assms, of "- i" "- 1"] by (simp add: str_int_def lex_number_def)
next
  case False
  then have "lex_unsigned 1 (str_dec i @ r) = Some (JInt i, r)"
    using lex_unsigned_int [OF int_digits_str_dec assms, of i 1] by simp
  then show ?thesis using False lex_number_unsigned by (simp add: str_int_def)
qed

section \<open>Strings\<close>

text \<open>The bytes of a code point; a surrogate that is not part of a pair is kept in three bytes.\<close>

definition utf8_encode :: "int \<Rightarrow> string" where
  "utf8_encode n =
     (if n < 128 then [char_of n]
      else if n < 2048 then [char_of (192 + n div 64), char_of (128 + n mod 64)]
      else if n < 65536 then [char_of (224 + n div 4096), char_of (128 + n div 64 mod 64), char_of (128 + n mod 64)]
      else [char_of (240 + n div 262144), char_of (128 + n div 4096 mod 64),
            char_of (128 + n div 64 mod 64), char_of (128 + n mod 64)])"

definition hex_val :: "char \<Rightarrow> int option" where
  "hex_val c =
     (let n = of_char c :: int
      in if 48 \<le> n \<and> n \<le> 57 then Some (n - 48)
         else if 97 \<le> n \<and> n \<le> 102 then Some (n - 87)
         else if 65 \<le> n \<and> n \<le> 70 then Some (n - 55)
         else None)"

definition hex4 :: "string \<Rightarrow> int option" where
  "hex4 s =
     (case map hex_val s of
        [Some a, Some b, Some c, Some d] \<Rightarrow> Some (((a * 16 + b) * 16 + c) * 16 + d)
      | _ \<Rightarrow> None)"

definition unescape :: "char \<Rightarrow> char option" where
  "unescape c =
     (if c = CHR 0x22 \<or> c = CHR 0x5C \<or> c = CHR ''/'' then Some c
      else if c = CHR ''b'' then Some (CHR 0x08)
      else if c = CHR ''f'' then Some (CHR 0x0C)
      else if c = CHR ''n'' then Some (CHR 0x0A)
      else if c = CHR ''r'' then Some (CHR 0x0D)
      else if c = CHR ''t'' then Some (CHR 0x09)
      else None)"

text \<open>The character that an escape \<open>\u\<close> with the text after it stands for, and what remains.\<close>

definition unicode_escape :: "string \<Rightarrow> (string \<times> string) option" where
  "unicode_escape s =
     (case hex4 (take 4 s) of
        None \<Rightarrow> None
      | Some u \<Rightarrow>
          let r = drop 4 s
          in if 55296 \<le> u \<and> u \<le> 56319 \<and> take 2 r = [CHR 0x5C, CHR ''u'']
             then (case hex4 (take 4 (drop 2 r)) of
                     Some v \<Rightarrow>
                       if 56320 \<le> v \<and> v \<le> 57343
                       then Some (utf8_encode (65536 + (u - 55296) * 1024 + (v - 56320)), drop 6 r)
                       else Some (utf8_encode u, r)
                   | None \<Rightarrow> Some (utf8_encode u, r))
             else Some (utf8_encode u, r))"

lemma unicode_escape_length: "unicode_escape s = Some (t, r) \<Longrightarrow> length r \<le> length s"
  by (auto simp: unicode_escape_def Let_def split: option.splits if_splits)

text \<open>A string literal after its opening quotation mark: its value and the text after the closing one.\<close>

function scan_string :: "string \<Rightarrow> (string \<times> string) option" where
  "scan_string [] = None"
| "scan_string (c # s) =
     (if c = CHR 0x22 then Some ([], s)
      else if c = CHR 0x5C
      then (case s of
              [] \<Rightarrow> None
            | d # s' \<Rightarrow>
                if d = CHR ''u''
                then (case unicode_escape s' of
                        None \<Rightarrow> None
                      | Some (t, r) \<Rightarrow> map_option (map_prod ((@) t) id) (scan_string r))
                else (case unescape d of
                        None \<Rightarrow> None
                      | Some e \<Rightarrow> map_option (map_prod ((#) e) id) (scan_string s')))
      else if (of_char c :: int) < 32 then None
      else map_option (map_prod ((#) c) id) (scan_string s))"
  by pat_completeness auto
termination
  by (relation "measure length") (auto dest: unicode_escape_length)

lemma scan_string_length: "scan_string s = Some (t, r) \<Longrightarrow> length r < length s"
proof (induction s arbitrary: t r rule: scan_string.induct)
  case (2 c s)
  then show ?case
    by (auto split: if_splits list.splits option.splits dest!: unicode_escape_length) fastforce+
qed simp

lemma control_escape: "0 \<le> n \<Longrightarrow> n < 32 \<Longrightarrow> unicode_escape (hex_digits 4 n @ t) = Some ([char_of n], t)"
proof -
  have all: "list_all (\<lambda>n. hex4 (hex_digits 4 n) = Some n) [0..31]" by code_simp
  assume "0 \<le> n" "n < 32"
  then have "hex4 (hex_digits 4 n) = Some n" using all by (simp add: list_all_iff)
  moreover have "length (hex_digits 4 n) = 4" by (simp add: numeral_eq_Suc)
  ultimately show ?thesis using \<open>n < 32\<close> by (simp add: unicode_escape_def utf8_encode_def)
qed

lemma scan_string_escape: "scan_string (json_escape c @ t) = map_option (map_prod ((#) c) id) (scan_string t)"
proof -
  let ?n = "of_char c :: int"
  have esc: "?n = 34 \<or> ?n = 92 \<or> ?n = 10 \<or> ?n = 13 \<or> ?n = 9 \<or> ?n = 12 \<or> ?n = 8 \<or> \<not> ?n < 32
      \<or> json_escape c = [CHR 0x5C, CHR ''u''] @ hex_digits 4 ?n \<and> ?n < 32"
    by (auto simp: json_escape_def Let_def)
  have pos: "0 \<le> ?n" by (metis of_char_mod_256 pos_mod_sign zero_less_numeral)
  consider (special) "?n \<in> {34, 92, 10, 13, 9, 12, 8}"
    | (control) "json_escape c = [CHR 0x5C, CHR ''u''] @ hex_digits 4 ?n" "?n < 32"
    | (plain) "32 \<le> ?n" "?n \<noteq> 34" "?n \<noteq> 92"
    using esc by fastforce
  then show ?thesis
  proof cases
    case special
    have "map char_of [34, 92, 10, 13, 9, 12, 8 :: int] = [CHR 0x22, CHR 0x5C, CHR 0x0A, CHR 0x0D, CHR 0x09, CHR 0x0C, CHR 0x08]" by code_simp
    moreover have "c \<in> set (map char_of [34, 92, 10, 13, 9, 12, 8 :: int])" using imageI [OF special, of char_of] by simp
    ultimately have "c \<in> {CHR 0x22, CHR 0x5C, CHR 0x0A, CHR 0x0D, CHR 0x09, CHR 0x0C, CHR 0x08}" by (simp only: list.set)
    then show ?thesis by (auto simp: json_escape_def unescape_def)
  next
    case control
    then show ?thesis using control_escape [OF pos control(2), of t] by (auto simp: map_option_case split: option.split)
  next
    case plain
    then have "json_escape c = [c]" "c \<noteq> CHR 0x22" "c \<noteq> CHR 0x5C" by (auto simp: json_escape_def Let_def)
    then show ?thesis using plain by simp
  qed
qed

lemma scan_json_quote: "scan_string (concat (map json_escape s) @ CHR 0x22 # r) = Some (s, r)"
  by (induction s) (simp_all add: scan_string_escape)

section \<open>Lexical analysis\<close>

datatype token = TChar char | TVal json

definition is_ws :: "char \<Rightarrow> bool" where
  "is_ws c \<longleftrightarrow> c = CHR '' '' \<or> c = CHR 0x09 \<or> c = CHR 0x0A \<or> c = CHR 0x0D"

definition is_punct :: "char \<Rightarrow> bool" where
  "is_punct c \<longleftrightarrow> c \<in> set ''{}[],:''"

definition json_words :: "(string \<times> json) list" where
  "json_words =
     [(''null'', JNull), (''true'', JBool True), (''false'', JBool False),
      (''NaN'', JFloat NaN), (''Infinity'', JFloat PInf), (''-Infinity'', JFloat NInf)]"

definition lex_word :: "string \<Rightarrow> (json \<times> string) option" where
  "lex_word s =
     (case find (\<lambda>(w, v). startswith s w) json_words of
        None \<Rightarrow> None
      | Some (w, v) \<Rightarrow> Some (v, drop (length w) s))"

text \<open>The first token of a text that does not start with white space.\<close>

definition lex_token :: "string \<Rightarrow> (token \<times> string) option" where
  "lex_token s =
     (case s of
        [] \<Rightarrow> None
      | c # r \<Rightarrow>
          if is_punct c then Some (TChar c, r)
          else if c = CHR 0x22 then map_option (map_prod (\<lambda>t. TVal (JStr t)) id) (scan_string r)
          else map_option (map_prod TVal id)
                 (case lex_word s of Some v \<Rightarrow> Some v | None \<Rightarrow> lex_number s))"

lemma int_part_length: "int_part s = Some (i, r) \<Longrightarrow> length r < length s"
  using length_dropWhile_le [of is_digit] by (auto simp: int_part_def less_Suc_eq_le split: list.splits if_splits)

lemma frac_part_length: "frac_part s = (f, r) \<Longrightarrow> length r \<le> length s"
  using length_dropWhile_le [of is_digit] by (auto simp: frac_part_def le_Suc_eq split: list.splits if_splits)

lemma exp_part_length: "exp_part s = (x, r) \<Longrightarrow> length r \<le> length s"
  using length_dropWhile_le [of is_digit]
  by (auto simp: exp_part_def exp_sign_def Let_def le_Suc_eq split: list.splits if_splits prod.splits)

lemma lex_unsigned_length: "lex_unsigned sg s = Some (v, r) \<Longrightarrow> length r < length s"
  by (auto simp: lex_unsigned_def Let_def split: option.splits prod.splits if_splits
      dest!: int_part_length frac_part_length exp_part_length)

lemma lex_number_length: "lex_number s = Some (v, r) \<Longrightarrow> length r < length s"
  by (auto simp: lex_number_def split: list.splits if_splits dest!: lex_unsigned_length)

lemma lex_word_length:
  assumes "lex_word s = Some (v, r)"
  shows "length r < length s"
proof -
  obtain w where w: "(w, v) \<in> set json_words" "startswith s w" "r = drop (length w) s"
    using assms by (auto simp: lex_word_def find_Some_iff split: option.splits) (metis nth_mem)
  then have "w \<noteq> []" by (auto simp: json_words_def)
  moreover have "length w \<le> length s" using w(2) by (auto simp: startswith_def dest: arg_cong [of _ _ length])
  ultimately show ?thesis using w(3) by (cases w) auto
qed

lemma lex_token_length: "lex_token s = Some (t, r) \<Longrightarrow> length r < length s"
  by (auto simp: lex_token_def split: list.splits if_splits option.splits
      dest!: scan_string_length lex_number_length lex_word_length)

function lex :: "string \<Rightarrow> token list option" where
  "lex s =
     (case s of
        [] \<Rightarrow> Some []
      | c # s' \<Rightarrow>
          if is_ws c then lex s'
          else (case lex_token s of None \<Rightarrow> None | Some (t, r) \<Rightarrow> map_option ((#) t) (lex r)))"
  by pat_completeness auto
termination
  by (relation "measure length") (auto dest: lex_token_length)

declare lex.simps [simp del]

section \<open>The parser\<close>

text \<open>
  The parser reads one token at a time. Its mode says what it expects: a value (or the end of a list
  that is still empty), a key (or the end of an empty dictionary), the colon after a key, or what may
  follow a finished value. The stack holds the lists and dictionaries that are still open.
\<close>

datatype frame = FList "json list" | FDict "(string \<times> json) list" string

datatype pmode = PValue bool | PKey bool "(string \<times> json) list" | PColon "(string \<times> json) list" string | PDone json

fun parse_token :: "pmode \<Rightarrow> frame list \<Rightarrow> token \<Rightarrow> (pmode \<times> frame list) option" where
  "parse_token (PValue first) st (TVal v) = Some (PDone v, st)"
| "parse_token (PValue first) st (TChar c) =
     (if c = CHR ''['' then Some (PValue True, FList [] # st)
      else if c = CHR ''{'' then Some (PKey True [], st)
      else if c = CHR '']'' \<and> first
      then (case st of FList [] # st' \<Rightarrow> Some (PDone (JList []), st') | _ \<Rightarrow> None)
      else None)"
| "parse_token (PKey first d) st (TVal v) = (case v of JStr k \<Rightarrow> Some (PColon d k, st) | _ \<Rightarrow> None)"
| "parse_token (PKey first d) st (TChar c) = (if c = CHR ''}'' \<and> first then Some (PDone (JDict d), st) else None)"
| "parse_token (PColon d k) st (TChar c) = (if c = CHR '':'' then Some (PValue False, FDict d k # st) else None)"
| "parse_token (PColon d k) st (TVal v) = None"
| "parse_token (PDone v) st (TVal w) = None"
| "parse_token (PDone v) [] (TChar c) = None"
| "parse_token (PDone v) (FList vs # st) (TChar c) =
     (if c = CHR '','' then Some (PValue False, FList (vs @ [v]) # st)
      else if c = CHR '']'' then Some (PDone (JList (vs @ [v])), st)
      else None)"
| "parse_token (PDone v) (FDict d k # st) (TChar c) =
     (if c = CHR '','' then Some (PKey False (dict_set d k v), st)
      else if c = CHR ''}'' then Some (PDone (JDict (dict_set d k v)), st)
      else None)"

fun parse :: "pmode \<Rightarrow> frame list \<Rightarrow> token list \<Rightarrow> json option" where
  "parse m st [] = (case (m, st) of (PDone v, []) \<Rightarrow> Some v | _ \<Rightarrow> None)"
| "parse m st (t # ts) =
     (case parse_token m st t of None \<Rightarrow> None | Some (m', st') \<Rightarrow> parse m' st' ts)"

definition json_loads :: "string \<Rightarrow> json res" where
  "json_loads s =
     (case lex s of
        None \<Rightarrow> Inl ValueError
      | Some ts \<Rightarrow> the_or_raise ValueError (parse (PValue False) [] ts))"

section \<open>Reading back what was written\<close>

fun join_tokens :: "token list list \<Rightarrow> token list" where
  "join_tokens [] = []"
| "join_tokens [x] = x"
| "join_tokens (x # y # ys) = x @ TChar (CHR '','') # join_tokens (y # ys)"

fun tokens :: "json \<Rightarrow> token list" where
  "tokens (JList xs) = TChar (CHR ''['') # join_tokens (map tokens xs) @ [TChar (CHR '']'')]"
| "tokens (JDict d) =
     TChar (CHR ''{'') # join_tokens (map (\<lambda>(k, ts). TVal (JStr k) # TChar (CHR '':'') # ts)
                                     (map (\<lambda>(k, v). (k, tokens v)) d)) @ [TChar (CHR ''}'')]"
| "tokens v = [TVal v]"

lemma tokens_dict [simp]:
  "tokens (JDict d) =
     TChar (CHR ''{'') # join_tokens (map (\<lambda>(k, v). TVal (JStr k) # TChar (CHR '':'') # tokens v) d) @ [TChar (CHR ''}'')]"
  by (simp add: comp_def case_prod_unfold)

declare tokens.simps(2) [simp del]

fun distinct_keys :: "json \<Rightarrow> bool" where
  "distinct_keys (JList xs) = list_all distinct_keys xs"
| "distinct_keys (JDict d) = (distinct (map fst d) \<and> list_all (\<lambda>(k, b). b) (map (\<lambda>(k, v). (k, distinct_keys v)) d))"
| "distinct_keys v = True"

definition parses :: "json \<Rightarrow> bool" where
  "parses v \<longleftrightarrow> (\<forall>m st ts. parse (PValue m) st (tokens v @ ts) = parse (PDone v) st ts)"

lemma parses_step: "parses v \<Longrightarrow> parse (PValue m) st (tokens v @ ts) = parse (PDone v) st ts"
  by (simp add: parses_def)

lemma parse_list_items:
  "vs \<noteq> [] \<Longrightarrow> \<forall>v \<in> set vs. parses v \<Longrightarrow>
   parse (PValue b) (FList acc # st) (join_tokens (map tokens vs) @ TChar (CHR '']'') # ts)
   = parse (PDone (JList (acc @ vs))) st ts"
proof (induction vs arbitrary: acc b rule: induct_list012)
  case (3 v w vs)
  then show ?case using "3.IH"(2) [of False "acc @ [v]"] by (simp add: parses_step)
qed (simp_all add: parses_step)

lemma dict_set_new: "k \<notin> fst ` set d \<Longrightarrow> dict_set d k v = d @ [(k, v)]"
  by (induction d k v rule: dict_set.induct) auto

lemma parse_dict_items:
  "d \<noteq> [] \<Longrightarrow> \<forall>p \<in> set d. parses (snd p) \<Longrightarrow> distinct (map fst (acc @ d)) \<Longrightarrow>
   parse (PKey b acc) st (join_tokens (map (\<lambda>(k, v). TVal (JStr k) # TChar (CHR '':'') # tokens v) d) @ TChar (CHR ''}'') # ts)
   = parse (PDone (JDict (acc @ d))) st ts"
proof (induction d arbitrary: acc b rule: induct_list012)
  case (2 p)
  then show ?case by (cases p) (simp add: dict_set_new parses_step)
next
  case (3 p q d)
  obtain k v where p: "p = (k, v)" by (cases p)
  have "dict_set acc k v = acc @ [(k, v)]" using "3.prems"(3) by (auto simp: p intro: dict_set_new)
  then show ?case using "3.IH"(2) [of "acc @ [p]" False] "3.prems" by (simp add: p parses_step)
qed simp

lemma parse_tokens: "distinct_keys v \<Longrightarrow> parses v"
proof (induction v rule: distinct_keys.induct)
  case (1 xs)
  then have "\<forall>v \<in> set xs. parses v" by (auto simp: list_all_iff)
  then show ?case
    using parse_list_items [of xs True "[]"] by (cases "xs = []") (simp_all add: parses_def)
next
  case (2 d)
  then have p: "\<forall>p \<in> set d. parses (snd p)" "distinct (map fst d)" by (auto simp: list_all_iff)
  then show ?case
    using parse_dict_items [of d "[]" True] p by (cases "d = []") (simp_all add: parses_def)
qed (simp_all add: parses_def)

text \<open>
  A text is read as a value if its tokens are those of the value, whatever delimiter follows.
\<close>

definition ends_value :: "string \<Rightarrow> bool" where
  "ends_value r \<longleftrightarrow> (case r of [] \<Rightarrow> True | c # _ \<Rightarrow> is_ws c \<or> c \<in> set '',]}'')"

definition reads :: "string \<Rightarrow> json \<Rightarrow> bool" where
  "reads s v \<longleftrightarrow> (\<forall>r. ends_value r \<longrightarrow> lex (s @ r) = map_option ((@) (tokens v)) (lex r))"

lemma json_loads_reads:
  assumes "reads s v" and "distinct_keys v" and "list_all is_ws w"
  shows "json_loads (s @ w) = Inr v"
proof -
  have "lex w = Some []" using assms(3) by (induction w) (simp_all add: lex.simps)
  moreover have "ends_value w" using assms(3) by (cases w) (auto simp: ends_value_def)
  ultimately have "lex (s @ w) = Some (tokens v)" using assms(1) by (simp add: reads_def)
  moreover have "parse (PValue False) [] (tokens v) = Some v"
    using parses_step [OF parse_tokens [OF assms(2)], of False "[]" "[]"] by simp
  ultimately show ?thesis by (simp add: json_loads_def the_or_raise_def)
qed

lemma append_one [simp]: "(@) [x] = (#) x"
  by (rule ext) simp

lemma lex_Nil [simp]: "lex [] = Some []"
  by (simp add: lex.simps)

lemma lex_ws [simp]: "is_ws c \<Longrightarrow> lex (c # s) = lex s"
  by (simp add: lex.simps [of "c # s"])

lemma lex_spaces: "list_all is_ws w \<Longrightarrow> lex (w @ s) = lex s"
  by (induction w) simp_all

lemma lex_step: "lex_token (c # s) = Some (t, r) \<Longrightarrow> \<not> is_ws c \<Longrightarrow> lex (c # s) = map_option ((#) t) (lex r)"
  by (simp add: lex.simps [of "c # s"])

lemma lex_punct: "is_punct c \<Longrightarrow> lex (c # s) = map_option ((#) (TChar c)) (lex s)"
  by (rule lex_step) (auto simp: lex_token_def is_punct_def is_ws_def)

lemma lex_quote: "lex (json_quote s @ r) = map_option ((#) (TVal (JStr s))) (lex r)"
  unfolding json_quote_def append_Cons append_assoc
  by (rule lex_step) (simp_all add: lex_token_def is_punct_def is_ws_def scan_json_quote)

lemma reads_quote: "reads (json_quote s) (JStr s)"
  by (simp add: reads_def lex_quote)

lemma lex_number_first:
  assumes "lex_number s = Some x"
  obtains c r where "s = c # r" "is_digit c" | d r where "s = CHR ''-'' # d # r" "is_digit d"
proof -
  have "\<exists>c r. t = c # r \<and> is_digit c" if "lex_unsigned sg t = Some x" for sg t
    using that by (cases t) (auto simp: lex_unsigned_def int_part_def is_digit_zero split: if_splits)
  then show thesis
    using assms that by (fastforce simp: lex_number_def split: list.splits if_splits)
qed

lemma lex_number_token:
  assumes "lex_number s = Some (v, r)"
  shows "lex s = map_option ((#) (TVal v)) (lex r)"
proof -
  have kinds: "\<not> is_ws c" "\<not> is_punct c" "c \<noteq> CHR 0x22" "c \<notin> set ''ntfNI''" if "is_digit c \<or> c = CHR ''-''" for c
    using that by (auto simp: is_ws_def is_punct_def is_digit_def)
  obtain c t where s: "s = c # t" "is_digit c \<or> c = CHR ''-'' \<and> (\<exists>d q. t = d # q \<and> is_digit d)"
    using assms by (rule lex_number_first) auto
  then have c: "is_digit c \<or> c = CHR ''-''" by blast
  have "\<not> startswith s w" if "(w, v') \<in> set json_words" for w v'
  proof
    assume "startswith s w"
    then obtain q where "s = w @ q" by (auto simp: startswith_def) (metis append_take_drop_id)
    moreover have "hd w \<in> set ''ntfNI'' \<or> take 2 w = ''-I''" "2 \<le> length w" using that by (auto simp: json_words_def)
    ultimately show False using kinds(4) [OF c] s by (cases w; cases "tl w") (auto simp: is_digit_def)
  qed
  then have "find (\<lambda>(w, v). startswith s w) json_words = None" by (auto simp: find_None_iff)
  then have "lex_word s = None" by (simp add: lex_word_def)
  then have "lex_token s = Some (TVal v, r)"
    using assms kinds(2,3) [OF c] by (simp add: lex_token_def s)
  then show ?thesis using kinds(1) [OF c] lex_step by (simp add: s)
qed

lemma ends_value_number: "ends_value r \<Longrightarrow> ends_number r"
  by (cases r) (auto simp: ends_value_def ends_number_def is_ws_def is_digit_def)

lemma reads_int: "reads (str_int i) (JInt i)"
  using lex_number_token [OF lex_str_int] ends_value_number by (auto simp: reads_def)

lemma reads_word:
  assumes "(w, v) \<in> set json_words"
  shows "reads w v"
proof -
  have "lex_token (w @ r) = Some (TVal v, r)" "\<exists>c t. w @ r = c # t \<and> \<not> is_ws c" for r
    using assms by (auto simp: json_words_def lex_token_def lex_word_def startswith_def is_punct_def is_ws_def)
  then have "lex (w @ r) = map_option ((#) (TVal v)) (lex r)" for r by (metis lex_step)
  moreover have "tokens v = [TVal v]" using assms by (auto simp: json_words_def)
  ultimately show ?thesis by (simp add: reads_def)
qed

lemma reads_float:
  assumes "is_f64 x"
  shows "reads (json_float x) (JFloat x)"
proof (cases x)
  case (Fin q)
  then show ?thesis
    using lex_number_token [OF lex_float_repr, of q] ends_value_number assms by (auto simp: reads_def is_f64_Fin)
qed (simp_all add: reads_word json_words_def)

text \<open>Lists and dictionaries, with white space after the brackets and commas.\<close>

lemma append_fun: "(@) (a @ b) = (\<lambda>x. a @ b @ x)" "(@) (y # b) = (\<lambda>x. y # b @ x)"
  by auto

lemma lex_items:
  assumes "list_all2 (\<lambda>t ts. \<forall>r. ends_value r \<longrightarrow> lex (t @ r) = map_option ((@) ts) (lex r)) texts toks"
    and "list_all is_ws w" and "ends_value r"
  shows "lex (str_join ('','' @ w) texts @ r) = map_option ((@) (join_tokens toks)) (lex r)"
  using assms(1,3)
proof (induction texts arbitrary: toks rule: induct_list012)
  case 1
  then show ?case by (cases "lex r") auto
next
  case (2 t)
  then show ?case by (cases toks) auto
next
  case (3 t u texts)
  obtain ts us toks' where toks: "toks = ts # us # toks'"
    using "3.prems"(1) by (auto simp: list_all2_Cons1)
  have "lex (t @ CHR '','' # w @ str_join ('','' @ w) (u # texts) @ r)
      = map_option ((@) ts) (lex (CHR '','' # w @ str_join ('','' @ w) (u # texts) @ r))"
    using "3.prems"(1) by (auto simp: toks ends_value_def)
  also have "\<dots> = map_option ((@) (ts @ [TChar (CHR '','')])) (lex (str_join ('','' @ w) (u # texts) @ r))"
    by (simp add: lex_punct is_punct_def lex_spaces [OF assms(2)] option.map_comp comp_def append_fun)
  also have "lex (str_join ('','' @ w) (u # texts) @ r) = map_option ((@) (join_tokens (us # toks'))) (lex r)"
    using "3.prems" by (intro "3.IH"(2)) (auto simp: toks)
  finally show ?case by (simp add: toks option.map_comp comp_def append_fun)
qed

lemma reads_block:
  assumes "list_all2 (\<lambda>t ts. \<forall>r. ends_value r \<longrightarrow> lex (t @ r) = map_option ((@) ts) (lex r)) texts toks"
    and "list_all is_ws (w @ w1 @ w2)" and "op \<in> set ''[{''" and "cl \<in> set ''}]''"
    and "tokens v = TChar op # join_tokens toks @ [TChar cl]"
  shows "reads ([op] @ w1 @ str_join ('','' @ w) texts @ w2 @ [cl]) v"
  unfolding reads_def
proof (intro allI impI)
  fix r assume "ends_value r"
  have p: "is_punct op" "is_punct cl" using assms(3,4) by (auto simp: is_punct_def)
  have "ends_value (w2 @ [cl] @ r)"
    using assms(2,4) by (cases w2) (auto simp: ends_value_def)
  then have "lex (str_join ('','' @ w) texts @ w2 @ [cl] @ r) = map_option ((@) (join_tokens toks)) (lex (w2 @ [cl] @ r))"
    using assms(1,2) by (intro lex_items) auto
  then show "lex (([op] @ w1 @ str_join ('','' @ w) texts @ w2 @ [cl]) @ r) = map_option ((@) (tokens v)) (lex r)"
    using assms(2) p by (simp add: assms(5) lex_punct lex_spaces option.map_comp comp_def append_fun)
qed

lemma reads_list:
  assumes "\<forall>x \<in> set xs. reads (f x) (g x)" and "list_all is_ws (w @ w1 @ w2)"
  shows "reads ([CHR ''['' ] @ w1 @ str_join ('','' @ w) (map f xs) @ w2 @ [CHR '']'']) (JList (map g xs))"
  using assms
  by (intro reads_block [where toks = "map (\<lambda>x. tokens (g x)) xs"])
     (auto simp: list_all2_map1 list_all2_map2 reads_def comp_def intro!: list.rel_refl_strong)

lemma reads_dict:
  assumes "\<forall>(k, x) \<in> set d. reads (f x) (g x)" and "list_all is_ws (w @ w1 @ w2)"
  shows "reads ([CHR ''{''] @ w1 @ str_join ('','' @ w) (map (\<lambda>(k, x). json_quote k @ '': '' @ f x) d) @ w2 @ [CHR ''}''])
    (JDict (map (\<lambda>(k, x). (k, g x)) d))"
proof -
  have item: "lex ((json_quote k @ '': '' @ f x) @ r) = map_option ((@) (TVal (JStr k) # TChar (CHR '':'') # tokens (g x))) (lex r)"
    if "(k, x) \<in> set d" "ends_value r" for k x r
  proof -
    have "reads (f x) (g x)" using assms(1) that(1) by fastforce
    then have "lex (f x @ r) = map_option ((@) (tokens (g x))) (lex r)" using that(2) by (simp add: reads_def)
    then show ?thesis
      by (simp add: lex_quote lex_punct is_punct_def is_ws_def option.map_comp comp_def append_fun)
  qed
  show ?thesis
    using assms(2) item
    by (intro reads_block [where toks = "map (\<lambda>(k, x). TVal (JStr k) # TChar (CHR '':'') # tokens (g x)) d"])
       (auto simp: list_all2_map1 list_all2_map2 comp_def case_prod_unfold intro!: list.rel_refl_strong)
qed

text \<open>
  The value that comes back: its dictionaries are in the order of the text, and its floats are those
  that the printed decimals denote.
\<close>

fun canon :: "bool \<Rightarrow> (pyfloat \<Rightarrow> pyfloat) \<Rightarrow> json \<Rightarrow> json" where
  "canon sk g (JFloat x) = JFloat (g x)"
| "canon sk g (JList xs) = JList (map (canon sk g) xs)"
| "canon sk g (JDict d) = JDict ((if sk then sorted_items else id) (map (\<lambda>(k, v). (k, canon sk g v)) d))"
| "canon sk g v = v"

fun all_floats :: "(pyfloat \<Rightarrow> bool) \<Rightarrow> json \<Rightarrow> bool" where
  "all_floats P (JFloat x) = P x"
| "all_floats P (JList xs) = list_all (all_floats P) xs"
| "all_floats P (JDict d) = list_all (\<lambda>(k, b). b) (map (\<lambda>(k, v). (k, all_floats P v)) d)"
| "all_floats P v = True"

lemma sorted_items_map: "sorted_items (map (\<lambda>(k, v). (k, f v)) d) = map (\<lambda>(k, v). (k, f v)) (sorted_items d)"
proof -
  have ins: "insort_key fst (k, f v) (map (\<lambda>(k, v). (k, f v)) e) = map (\<lambda>(k, v). (k, f v)) (insort_key fst (k, v) e)" for k v e
    by (induction e) auto
  show ?thesis unfolding sorted_items_def by (induction d) (auto simp: ins)
qed

lemma set_sorted_items [simp]: "set (sorted_items d) = set d" "distinct (map fst (sorted_items d)) = distinct (map fst d)"
  by (simp_all add: sorted_items_def distinct_map)

lemma dict_get_sorted_items:
  assumes "distinct (map fst d)"
  shows "dict_get (sorted_items (map (\<lambda>(k, v). (k, f v)) d)) k = map_option f (dict_get d k)"
proof -
  let ?e = "map (\<lambda>(k, v). (k, f v)) d"
  have "distinct (map fst ?e)" using assms by (simp add: comp_def case_prod_unfold)
  then have "map_of (sorted_items ?e) = map_of ?e" by (subst map_of_inject_set) simp_all
  then show ?thesis by (simp add: dict_get_def map_of_map)
qed

lemma distinct_keys_canon: "distinct_keys v \<Longrightarrow> distinct_keys (canon sk g v)"
proof (induction v rule: distinct_keys.induct)
  case (2 d)
  have k: "map fst (map (\<lambda>(k, v). (k, canon sk g v)) d) = map fst d" by auto
  then show ?case using 2 by (auto simp: list_all_iff simp del: map_map)
qed (auto simp: list_all_iff)

text \<open>\<open>json.dumps(v, ensure_ascii=False, sort_keys=sk)\<close> on one line\<close>

fun json_dumps_line :: "bool \<Rightarrow> json \<Rightarrow> string" where
  "json_dumps_line sk JNull = ''null''"
| "json_dumps_line sk (JBool b) = (if b then ''true'' else ''false'')"
| "json_dumps_line sk (JInt i) = str_int i"
| "json_dumps_line sk (JFloat x) = json_float x"
| "json_dumps_line sk (JStr s) = json_quote s"
| "json_dumps_line sk (JList xs) = ''['' @ str_join '', '' (map (json_dumps_line sk) xs) @ '']''"
| "json_dumps_line sk (JDict d) =
     ''{'' @ str_join '', '' (map (\<lambda>(k, t). json_quote k @ '': '' @ t)
               ((if sk then sorted_items else id) (map (\<lambda>(k, v). (k, json_dumps_line sk v)) d))) @ ''}''"

lemma reads_dumps_line: "all_floats is_f64 v \<Longrightarrow> reads (json_dumps_line sk v) (canon sk (\<lambda>x. x) v)"
proof (induction v rule: json_dumps_line.induct [of _ sk])
  case (6 sk xs)
  then show ?case using reads_list [of xs "json_dumps_line sk" "canon sk (\<lambda>x. x)" "'' ''" "[]" "[]"]
    by (auto simp: list_all_iff is_ws_def)
next
  case (7 sk d)
  let ?o = "if sk then sorted_items else id"
  have o: "?o (map (\<lambda>(k, v). (k, f v)) d) = map (\<lambda>(k, v). (k, f v)) (?o d)" for f :: "json \<Rightarrow> 'x"
    by (simp add: sorted_items_map)
  have "\<forall>(k, v) \<in> set (?o d). reads (json_dumps_line sk v) (canon sk (\<lambda>x. x) v)" using 7 by (auto simp: list_all_iff)
  then show ?case
    using reads_dict [of "?o d" "json_dumps_line sk" "canon sk (\<lambda>x. x)" "'' ''" "[]" "[]"]
    unfolding json_dumps_line.simps canon.simps o by (simp add: comp_def case_prod_unfold is_ws_def)
qed (simp_all add: reads_word json_words_def reads_int reads_float reads_quote)

end
