(* ===== verification/Reports.thy ===== *)
theory Reports
  imports WalkForward JsonLoads "HOL-Library.Multiset"
begin

text \<open>
  The writers of tables: \<open>ledger/ledger_csv_writer.py\<close>, \<open>attribution/attribution_csv_writer.py\<close> and
  \<open>ranking/ranking_markdown_writer.py\<close>. Their common contract is the locale \<open>sorted_table\<close>: rows are
  sorted by a key, each is formatted, and the text is the header and the rows.
\<close>

section \<open>Sorted tables\<close>

text \<open>Two lists with the same rows for each key, in the same order, have the same sorted list.\<close>

lemma sort_key_cong_groups:
  assumes "\<And>k. filter (\<lambda>x. f x = k) xs = filter (\<lambda>x. f x = k) ys"
  shows "sort_key f xs = sort_key f ys"
proof (rule properties_for_sort_key)
  have "mset (filter (\<lambda>x. f x = k) xs) = mset (filter (\<lambda>x. f x = k) ys)" for k
    using assms by simp
  then have "count (mset xs) x = count (mset ys) x" for x
    by (metis (mono_tags, lifting) count_filter_mset mset_filter)
  then show "mset (sort_key f ys) = mset xs" by (simp add: multiset_eq_iff)
next
  fix k assume "k \<in> set (sort_key f ys)"
  show "filter (\<lambda>x. f k = f x) (sort_key f ys) = filter (\<lambda>x. f k = f x) xs"
    using assms [of "f k"] by (simp add: eq_commute [of "f k"] sort_key_stable)
qed simp

locale sorted_table =
  fixes key :: "'r \<Rightarrow> 'k :: linorder"
    and fmt :: "'r \<Rightarrow> string res"
    and header :: string
    and render :: "'r list \<Rightarrow> string res"
  assumes render_eq: "render rows =
    res_bind (res_map fmt (sort_key key rows)) (\<lambda>ls. Inr (str_join nl (header # ls) @ nl))"
begin

lemma render_ok:
  assumes "\<forall>r \<in> set rows. fmt r = Inr (line r)"
  shows "render rows = Inr (str_join nl (header # map line (sort_key key rows)) @ nl)"
  using assms res_map_total [of "sort_key key rows" fmt line] by (simp add: render_eq)

lemma render_fails:
  assumes "\<exists>r \<in> set rows. \<exists>e. fmt r = Inl e"
  shows "\<exists>e. render rows = Inl e"
proof (cases "res_map fmt (sort_key key rows)")
  case (Inr ls)
  then have "fmt r = Inr (ls ! i)" if "i < length rows" "sort_key key rows ! i = r" for i r
    using that res_map_nth [OF Inr] by auto
  then show ?thesis using assms by (metis in_set_conv_nth length_sort set_sort sum.distinct(1))
qed (simp add: render_eq)

lemma render_order_independent:
  assumes "\<And>k. filter (\<lambda>x. key x = k) rows = filter (\<lambda>x. key x = k) rows'"
  shows "render rows = render rows'"
  using sort_key_cong_groups [of key rows rows'] assms by (simp add: render_eq)

end

section \<open>Values in dictionaries\<close>

text \<open>
  \<open>float(s)\<close> of a text: surrounding white space and underscores between digits are dropped, then an
  optional sign, one of the words for infinity and nan, or a decimal number.
\<close>

fun drop_underscores :: "bool \<Rightarrow> string \<Rightarrow> string option" where
  "drop_underscores prev [] = Some []"
| "drop_underscores prev (c # cs) =
     (if c = CHR ''_''
      then if prev \<and> list_all is_digit (take 1 cs) \<and> cs \<noteq> [] then drop_underscores False cs else None
      else map_option ((#) c) (drop_underscores (is_digit c) cs))"

definition float_unsigned :: "int \<Rightarrow> string \<Rightarrow> pyfloat option" where
  "float_unsigned sg s =
     (let l = str_lower s
      in if l = ''inf'' \<or> l = ''infinity'' then Some (if sg < 0 then NInf else PInf)
         else if l = ''nan'' then Some NaN
         else let w = takeWhile is_digit s; r = dropWhile is_digit s; point = (take 1 r = ''.'');
                  f = (if point then takeWhile is_digit (drop 1 r) else []);
                  (x, rest) = exp_part (if point then dropWhile is_digit (drop 1 r) else r)
              in if w = [] \<and> f = [] \<or> rest \<noteq> [] then None
                 else Some (fl (of_int (sg * dec_val 0 (w @ f))
                              * pow10 ((case x of None \<Rightarrow> 0 | Some k \<Rightarrow> k) - int (length f)))))"

definition float_of_str :: "string \<Rightarrow> pyfloat res" where
  "float_of_str s =
     the_or_raise ValueError
       (case drop_underscores False (str_strip s) of
          Some (c # r) \<Rightarrow>
            if c = CHR ''-'' then float_unsigned (- 1) r
            else if c = CHR ''+'' then float_unsigned 1 r
            else float_unsigned 1 (c # r)
        | _ \<Rightarrow> None)"

text \<open>\<open>float(v)\<close>, \<open>int(v)\<close> and \<open>str(v)\<close> of the values that dictionaries contain\<close>

fun py_float :: "json \<Rightarrow> pyfloat res" where
  "py_float (JFloat x) = Inr x"
| "py_float (JInt i) = float_of_int i"
| "py_float (JBool b) = Inr (Fin (if b then 1 else 0))"
| "py_float (JStr s) = float_of_str s"
| "py_float _ = Inl TypeError"

fun py_int_of :: "json \<Rightarrow> int res" where
  "py_int_of (JInt i) = Inr i"
| "py_int_of (JBool b) = Inr (if b then 1 else 0)"
| "py_int_of (JFloat (Fin x)) = Inr (if 0 \<le> x then \<lfloor>x\<rfloor> else \<lceil>x\<rceil>)"
| "py_int_of (JFloat NaN) = Inl ValueError"
| "py_int_of (JFloat _) = Inl OverflowError"
| "py_int_of (JStr s) = py_int s"
| "py_int_of _ = Inl TypeError"

fun py_str_of :: "json \<Rightarrow> string res" where
  "py_str_of (JStr s) = Inr s"
| "py_str_of (JInt i) = Inr (str_int i)"
| "py_str_of (JFloat x) = Inr (float_repr x)"
| "py_str_of (JBool b) = Inr (if b then ''True'' else ''False'')"
| "py_str_of JNull = Inr ''None''"
| "py_str_of _ = Inl TypeError"

section \<open>Ledger\<close>

definition LEDGER_HEADER :: "string list" where
  "LEDGER_HEADER =
     [''entry_ts'', ''exit_ts'', ''symbol'', ''side'', ''entry_price'', ''exit_price'', ''notional'',
      ''raw_pnl'', ''slip_pnl'', ''realistic_pnl'', ''realistic_taker_both_pnl'', ''exit_reason'',
      ''entry_candidate_id'', ''gate_mode'', ''signal_bar_start_ts'', ''trigger_ts'',
      ''entry_delay_seconds'', ''feature_horizon_seconds'', ''trigger_confirmation_id'',
      ''entry_price_mode_id'', ''pretouch_state_band_id'', ''posttouch_quality_band_id'']"

record trade_record =
  tr_entry_ts :: datetime
  tr_exit_ts :: datetime
  tr_symbol :: string
  tr_side :: string
  tr_entry_price :: pyfloat
  tr_exit_price :: pyfloat
  tr_notional :: pyfloat
  tr_raw_pnl :: pyfloat
  tr_slip_pnl :: pyfloat
  tr_realistic_pnl :: pyfloat
  tr_realistic_taker_both_pnl :: pyfloat
  tr_exit_reason :: string
  tr_entry_candidate_id :: string
  tr_gate_mode :: string
  tr_signal_bar_start_ts :: datetime
  tr_trigger_ts :: datetime
  tr_entry_delay_seconds :: int
  tr_feature_horizon_seconds :: int
  tr_trigger_confirmation_id :: string
  tr_entry_price_mode_id :: string
  tr_pretouch_state_band_id :: string
  tr_posttouch_quality_band_id :: string

text \<open>The proleptic Gregorian calendar of \<open>datetime\<close>: the date of a day number counted from 1970-01-01.\<close>

definition civil_from_days :: "int \<Rightarrow> date" where
  "civil_from_days n =
     (let z = n + 719468; era = z div 146097; doe = z mod 146097;
          yoe = (doe - doe div 1460 + doe div 36524 - doe div 146096) div 365;
          doy = doe - (365 * yoe + yoe div 4 - yoe div 100);
          mp = (5 * doy + 2) div 153;
          d = doy - (153 * mp + 2) div 5 + 1;
          m = (if mp < 10 then mp + 3 else mp - 9);
          y = yoe + era * 400 + (if m \<le> 2 then 1 else 0)
      in (y, m, d))"

definition us_per_day :: int where
  "us_per_day = 86400000000"

text \<open>\<open>_format_ts\<close>: \<open>%Y-%m-%dT%H:%M:%S\<close>, then milliseconds and \<open>Z\<close>\<close>

definition format_ts :: "datetime \<Rightarrow> string" where
  "format_ts dt =
     (let (y, m, d) = civil_from_days (dt div us_per_day); r = dt mod us_per_day;
          s = r div 1000000; us = r mod 1000000
      in str_int y @ ''-'' @ zpad 2 m @ ''-'' @ zpad 2 d @ ''T'' @ zpad 2 (s div 3600) @ '':''
         @ zpad 2 (s div 60 mod 60) @ '':'' @ zpad 2 (s mod 60) @ ''.'' @ zpad 3 (us div 1000) @ ''Z'')"

definition ledger_format_float :: "pyfloat \<Rightarrow> string res" where
  "ledger_format_float x =
     (if x = NaN \<or> x = PInf \<or> x = NInf then Inl ValueError else Inr (fixed_str 8 x))"

text \<open>The row of a trade, in the order of the header.\<close>

definition ledger_row :: "trade_record \<Rightarrow> string res" where
  "ledger_row t =
     res_bind (res_map id
       [Inr (format_ts (tr_entry_ts t)), Inr (format_ts (tr_exit_ts t)), Inr (tr_symbol t), Inr (tr_side t),
        ledger_format_float (tr_entry_price t), ledger_format_float (tr_exit_price t),
        ledger_format_float (tr_notional t), ledger_format_float (tr_raw_pnl t),
        ledger_format_float (tr_slip_pnl t), ledger_format_float (tr_realistic_pnl t),
        ledger_format_float (tr_realistic_taker_both_pnl t), Inr (tr_exit_reason t),
        Inr (tr_entry_candidate_id t), Inr (tr_gate_mode t), Inr (format_ts (tr_signal_bar_start_ts t)),
        Inr (format_ts (tr_trigger_ts t)), Inr (str_int (tr_entry_delay_seconds t)),
        Inr (str_int (tr_feature_horizon_seconds t)), Inr (tr_trigger_confirmation_id t),
        Inr (tr_entry_price_mode_id t), Inr (tr_pretouch_state_band_id t),
        Inr (tr_posttouch_quality_band_id t)])
       (\<lambda>row_values. Inr (str_join '','' row_values))"

definition ledger_key :: "trade_record \<Rightarrow> datetime \<times> string \<times> string \<times> datetime" where
  "ledger_key t = (tr_trigger_ts t, tr_symbol t, tr_side t, tr_entry_ts t)"

definition ledger_content :: "trade_record list \<Rightarrow> string res" where
  "ledger_content trades =
     (let sorted_trades = sort_key ledger_key trades
      in res_bind (res_map ledger_row sorted_trades) (\<lambda>rows.
           Inr (str_join nl (str_join '','' LEDGER_HEADER # rows) @ nl)))"

definition write_ledger :: "trade_record list \<Rightarrow> string \<Rightarrow> fs \<Rightarrow> fs res" where
  "write_ledger trades out_path fs =
     res_bind (ledger_content trades) (\<lambda>content. Inr (fs(out_path \<mapsto> content)))"

interpretation ledger: sorted_table ledger_key ledger_row "str_join '','' LEDGER_HEADER" ledger_content
  by unfold_locales (simp add: ledger_content_def Let_def)

definition trade_floats :: "trade_record \<Rightarrow> pyfloat list" where
  "trade_floats t =
     [tr_entry_price t, tr_exit_price t, tr_notional t, tr_raw_pnl t, tr_slip_pnl t, tr_realistic_pnl t,
      tr_realistic_taker_both_pnl t]"

definition is_finite_float :: "pyfloat \<Rightarrow> bool" where
  "is_finite_float x = (case x of Fin r \<Rightarrow> True | _ \<Rightarrow> False)"

lemma ledger_format_float_cases:
  "is_finite_float x \<Longrightarrow> ledger_format_float x = Inr (fixed_str 8 x)"
  "\<not> is_finite_float x \<Longrightarrow> ledger_format_float x = Inl ValueError"
  by (cases x; simp add: ledger_format_float_def is_finite_float_def)+

lemma ledger_row_total:
  "list_all is_finite_float (trade_floats t) \<Longrightarrow> \<exists>line. ledger_row t = Inr line"
  by (simp add: ledger_row_def trade_floats_def ledger_format_float_cases)

lemma ledger_row_error:
  assumes "\<not> list_all is_finite_float (trade_floats t)"
  shows "ledger_row t = Inl ValueError"
proof -
  have "ledger_format_float x = (if is_finite_float x then Inr (fixed_str 8 x) else Inl ValueError)" for x
    by (simp add: ledger_format_float_cases)
  then show ?thesis using assms by (auto simp: ledger_row_def trade_floats_def)
qed

text \<open>
  The ledger writer either writes one file or raises \<open>ValueError\<close>: it raises exactly when some float
  field of some trade is \<open>nan\<close> or infinite, and then no file is written; otherwise the file is the
  header line and one line per trade, in the order of trigger time, symbol, side and entry time.
\<close>

theorem write_ledger_spec:
  "if list_all (\<lambda>t. list_all is_finite_float (trade_floats t)) trades
   then \<exists>line. write_ledger trades path fs
          = Inr (fs(path \<mapsto> str_join nl (str_join '','' LEDGER_HEADER # map line (sort_key ledger_key trades)) @ nl))
        \<and> list_all (\<lambda>t. ledger_row t = Inr (line t)) trades
   else write_ledger trades path fs = Inl ValueError"
proof (cases "list_all (\<lambda>t. list_all is_finite_float (trade_floats t)) trades")
  case True
  define line where "line t = (SOME l. ledger_row t = Inr l)" for t
  have "\<forall>t \<in> set trades. ledger_row t = Inr (line t)"
    using True ledger_row_total unfolding line_def by (auto simp: list_all_iff intro: someI_ex)
  then show ?thesis
    using True ledger.render_ok [of trades line] by (auto simp: write_ledger_def list_all_iff)
next
  case False
  have "res_map ledger_row ts = Inl ValueError" if "\<not> list_all (\<lambda>t. list_all is_finite_float (trade_floats t)) ts" for ts
    using that
  proof (induction ts)
    case (Cons t ts)
    then show ?case
      using ledger_row_error [of t] ledger_row_total [of t]
      by (cases "list_all is_finite_float (trade_floats t)") auto
  qed simp
  then have "ledger_content trades = Inl ValueError"
    using False by (simp add: ledger_content_def list_all_iff)
  then show ?thesis using False by (simp add: write_ledger_def)
qed

text \<open>
  The content of the ledger (invariant P7) does not depend on the order in which trades with
  different sort keys were produced: two runs whose trades agree, key by key, write the same text.
\<close>

theorem ledger_order_independent:
  assumes "\<And>k. filter (\<lambda>t. ledger_key t = k) trades = filter (\<lambda>t. ledger_key t = k) trades'"
  shows "ledger_content trades = ledger_content trades'"
  using assms by (rule ledger.render_order_independent)

definition sample_trade :: "int \<Rightarrow> string \<Rightarrow> trade_record" where
  "sample_trade ts mode =
     \<lparr>tr_entry_ts = seconds ts, tr_exit_ts = seconds (ts + 60), tr_symbol = ''ETHUSDT'', tr_side = ''long'',
      tr_entry_price = Fin 100, tr_exit_price = Fin 101, tr_notional = Fin 1000, tr_raw_pnl = Fin 10,
      tr_slip_pnl = Fin 9, tr_realistic_pnl = Fin 8, tr_realistic_taker_both_pnl = Fin 7,
      tr_exit_reason = ''signal_exit'', tr_entry_candidate_id = ''c'', tr_gate_mode = mode,
      tr_signal_bar_start_ts = 0, tr_trigger_ts = seconds ts, tr_entry_delay_seconds = 0,
      tr_feature_horizon_seconds = 0, tr_trigger_confirmation_id = ''none'',
      tr_entry_price_mode_id = ''market_on_touch'', tr_pretouch_state_band_id = ''none'',
      tr_posttouch_quality_band_id = ''none''\<rparr>"

theorem ledger_order_independent_witness:
  "ledger_content [sample_trade 2 ''nogate'', sample_trade 1 ''nogate'', sample_trade 1 ''gate001'']
   = ledger_content [sample_trade 1 ''nogate'', sample_trade 1 ''gate001'', sample_trade 2 ''nogate'']"
  by (rule ledger_order_independent) (auto simp: ledger_key_def sample_trade_def seconds_def)

section \<open>Attribution\<close>

definition ATTRIBUTION_HEADER :: "string list" where
  "ATTRIBUTION_HEADER =
     [''symbol'', ''year_month'', ''nogate_trade_count'', ''nogate_realistic_pnl_pct'',
      ''nogate_per_trade_quality_bps_over_notional'', ''gate001_trade_count'',
      ''gate001_realistic_pnl_pct'', ''gate001_per_trade_quality_bps_over_notional'',
      ''baseline_delta_nogate_realistic_pnl_pct'',
      ''baseline_delta_nogate_per_trade_quality_bps_over_notional'', ''entry_effect_bps'',
      ''gate_effect_bps'', ''sizing_effect_bps'', ''layer_dependency'',
      ''pullback_limit_unfilled_count'']"

definition ATTRIBUTION_FLOAT_FIELDS :: "string list" where
  "ATTRIBUTION_FLOAT_FIELDS =
     [''nogate_realistic_pnl_pct'', ''nogate_per_trade_quality_bps_over_notional'',
      ''gate001_realistic_pnl_pct'', ''gate001_per_trade_quality_bps_over_notional'',
      ''baseline_delta_nogate_realistic_pnl_pct'',
      ''baseline_delta_nogate_per_trade_quality_bps_over_notional'', ''entry_effect_bps'',
      ''gate_effect_bps'', ''sizing_effect_bps'']"

definition ATTRIBUTION_INT_FIELDS :: "string list" where
  "ATTRIBUTION_INT_FIELDS =
     [''nogate_trade_count'', ''gate001_trade_count'', ''pullback_limit_unfilled_count'']"

type_synonym row_dict = "(string \<times> json) list"

definition attribution_format_float :: "pyfloat \<Rightarrow> string res" where
  "attribution_format_float x =
     (if x = NaN \<or> x = PInf \<or> x = NInf then Inl ValueError else Inr (fixed_str 8 x))"

definition attribution_cell :: "row_dict \<Rightarrow> string \<Rightarrow> string res" where
  "attribution_cell row field_name =
     res_bind (dict_item row field_name) (\<lambda>v.
       if field_name \<in> set ATTRIBUTION_FLOAT_FIELDS
       then res_bind (py_float v) attribution_format_float
       else if field_name \<in> set ATTRIBUTION_INT_FIELDS
       then res_bind (py_int_of v) (\<lambda>i. Inr (str_int i))
       else py_str_of v)"

definition attribution_row :: "row_dict \<Rightarrow> string res" where
  "attribution_row row =
     res_bind (res_map (attribution_cell row) ATTRIBUTION_HEADER) (\<lambda>vs. Inr (str_join '','' vs))"

text \<open>
  The sort key \<open>(r["symbol"], r["year_month"])\<close>; both are strings in every row the pipeline builds, and
  a missing one raises before anything is written.
\<close>

fun json_str :: "json option \<Rightarrow> string" where
  "json_str (Some (JStr s)) = s"
| "json_str _ = []"

definition attribution_key :: "row_dict \<Rightarrow> string \<times> string" where
  "attribution_key r = (json_str (dict_get r ''symbol''), json_str (dict_get r ''year_month''))"

definition attribution_content :: "row_dict list \<Rightarrow> string res" where
  "attribution_content rows =
     res_bind (res_map (\<lambda>r. res_bind (dict_item r ''symbol'') (\<lambda>_. dict_item r ''year_month'')) rows) (\<lambda>_.
     res_bind (res_map attribution_row (sort_key attribution_key rows)) (\<lambda>ls.
       Inr (str_join nl (str_join '','' ATTRIBUTION_HEADER # ls) @ nl)))"

definition write_attribution :: "row_dict list \<Rightarrow> string \<Rightarrow> fs \<Rightarrow> fs res" where
  "write_attribution rows path fs =
     res_bind (attribution_content rows) (\<lambda>content. Inr (fs(path \<mapsto> content)))"

section \<open>Ranking\<close>

definition sort_key_of :: "row_dict \<Rightarrow> (pyfloat \<times> pyfloat \<times> string) res" where
  "sort_key_of c =
     res_bind (dict_item c ''nogate_calendar_normalized_return_pct'') (\<lambda>v1.
     res_bind (py_float v1) (\<lambda>cal_return.
     res_bind (dict_item c ''nogate_per_trade_quality_bps_over_notional'') (\<lambda>v2.
     res_bind (py_float v2) (\<lambda>quality_bps.
     res_bind (dict_item c ''candidate_id'') (\<lambda>v3.
     res_bind (py_str_of v3) (\<lambda>candidate_id.
       Inr (fneg cal_return, fneg quality_bps, candidate_id)))))))"

text \<open>A row of the table, for a candidate whose key fields have been read.\<close>

definition ranking_row :: "int \<Rightarrow> (pyfloat \<times> pyfloat \<times> string) \<times> row_dict \<Rightarrow> string res" where
  "ranking_row rank kc =
     (case kc of ((neg_return, neg_quality, candidate_id), c) \<Rightarrow>
        res_bind (dict_item c ''asymmetry_tag'') (\<lambda>v.
        res_bind (py_str_of v) (\<lambda>asymmetry_tag.
          Inr (''| '' @ str_int rank @ '' | '' @ candidate_id @ '' | '' @ fixed_str 8 (fneg neg_return)
               @ '' | '' @ fixed_str 8 (fneg neg_quality) @ '' | '' @ asymmetry_tag @ '' |''))))"

fun ranking_rows :: "int \<Rightarrow> ((pyfloat \<times> pyfloat \<times> string) \<times> row_dict) list \<Rightarrow> string list res" where
  "ranking_rows rank [] = Inr []"
| "ranking_rows rank (kc # kcs) =
     res_bind (ranking_row rank kc) (\<lambda>l. res_bind (ranking_rows (rank + 1) kcs) (\<lambda>ls. Inr (l # ls)))"

definition ranking_sorted :: "row_dict list \<Rightarrow> ((pyfloat \<times> pyfloat \<times> string) \<times> row_dict) list res" where
  "ranking_sorted cs =
     res_bind (res_map sort_key_of cs) (\<lambda>ks. Inr (sort_key fst (zip ks cs)))"

text \<open>The explanatory line of the report; its Chinese words are given by their UTF-8 bytes.\<close>

definition utf8 :: "int list \<Rightarrow> string" where
  "utf8 bs = map char_of bs"

definition ranking_note :: string where
  "ranking_note =
     utf8 [230, 142, 146, 229, 144, 141, 231, 187, 180, 229, 186, 166, 239, 188, 154, 228, 184, 187, 233, 148, 174]
      @ '' `nogate_calendar_normalized_return_pct` DESC''
      @ utf8 [227, 128, 129, 229, 137, 175, 233, 148, 174]
      @ '' `nogate_per_trade_quality_bps_over_notional` DESC''
      @ utf8 [227, 128, 129]
      @ ''tie-breaker `candidate_id` ''
      @ utf8 [229, 173, 151, 229, 133, 184, 229, 186, 143]
      @ '' ASC''
      @ utf8 [227, 128, 130]"

definition ranking_content :: "row_dict list \<Rightarrow> string res" where
  "ranking_content candidates =
     res_bind (ranking_sorted candidates) (\<lambda>sorted_candidates.
     res_bind (ranking_rows 1 sorted_candidates) (\<lambda>rows.
       Inr (str_join nl
         ([''# Entry Candidate Ranking'', [], ranking_note, [],
           ''| Rank | candidate_id | nogate_calendar_normalized_return_pct | nogate_per_trade_quality_bps_over_notional | asymmetry_tag |'',
           ''| ---: | :--- | ---: | ---: | :--- |'']
          @ rows @ [[]]))))"

definition write_ranking :: "row_dict list \<Rightarrow> string \<Rightarrow> fs \<Rightarrow> fs res" where
  "write_ranking candidates output_path fs =
     res_bind (ranking_content candidates) (\<lambda>content. Inr (fs(output_path \<mapsto> content)))"

definition rank_return :: "(pyfloat \<times> pyfloat \<times> string) \<times> row_dict \<Rightarrow> pyfloat" where
  "rank_return kc = fneg (fst (fst kc))"

lemma fneg_antimono: "NaN \<notin> {x, y} \<Longrightarrow> x \<le> y \<Longrightarrow> fneg y \<le> fneg x"
  by (auto simp: less_eq_pyfloat_def)

lemma zip_mset: "length ks = length cs \<Longrightarrow> mset (map snd (zip ks cs)) = mset cs"
  by simp

text \<open>
  The ranking is a permutation of the candidates, in increasing order of (negated return, negated
  quality, id): when no return is \<open>nan\<close>, a candidate listed earlier has a return that is at least as
  high as that of every later one.
\<close>

theorem ranking_sorted_correct:
  assumes "ranking_sorted cs = Inr rs"
  shows "mset (map snd rs) = mset cs \<and> sorted (map fst rs)
    \<and> (NaN \<in> rank_return ` set rs \<or> sorted_wrt (\<lambda>a b. fle (rank_return b) (rank_return a)) rs)"
proof -
  obtain ks where ks: "res_map sort_key_of cs = Inr ks" and rs: "rs = sort_key fst (zip ks cs)"
    using assms by (auto simp: ranking_sorted_def res_bind_eq_Inr_iff)
  have len: "length ks = length cs" using ks by (rule res_map_length)
  have "mset (map snd rs) = mset (map snd (zip ks cs))" unfolding rs by (simp only: mset_map mset_sort)
  then have m: "mset (map snd rs) = mset cs" using len by simp
  have s: "sorted (map fst rs)" using rs by simp
  have key: "fle (rank_return b) (rank_return a)"
    if "fst a \<le> fst b" "NaN \<notin> {rank_return a, rank_return b}" for a b :: "(pyfloat \<times> pyfloat \<times> string) \<times> row_dict"
  proof -
    have "fst (fst a) \<le> fst (fst b)"
      using that(1) by (cases "fst a"; cases "fst b") (auto simp: less_eq_prod_simp)
    then show ?thesis using that(2) by (auto simp: rank_return_def less_eq_pyfloat_def)
  qed
  have "sorted_wrt (\<lambda>a b. fle (rank_return b) (rank_return a)) rs" if nn: "NaN \<notin> rank_return ` set rs"
  proof (rule sorted_wrt_mono_rel [of rs "\<lambda>x y. fst x \<le> fst y"])
    show "sorted_wrt (\<lambda>x y. fst x \<le> fst y) rs" using s by (simp add: sorted_map)
  next
    fix x y
    assume "x \<in> set rs" "y \<in> set rs" "fst x \<le> fst y"
    moreover have "NaN \<notin> {rank_return x, rank_return y}"
      using nn imageI [OF \<open>x \<in> set rs\<close>, of rank_return] imageI [OF \<open>y \<in> set rs\<close>, of rank_return] by auto
    ultimately show "fle (rank_return y) (rank_return x)" using key by blast
  qed
  then show ?thesis using m s by blast
qed

definition sample_candidates :: "row_dict list" where
  "sample_candidates =
     [[(''candidate_id'', JStr ''a''), (''nogate_calendar_normalized_return_pct'', JFloat (Fin 1)),
       (''nogate_per_trade_quality_bps_over_notional'', JFloat (Fin 5)), (''asymmetry_tag'', JStr ''none'')],
      [(''candidate_id'', JStr ''b''), (''nogate_calendar_normalized_return_pct'', JFloat (Fin 2)),
       (''nogate_per_trade_quality_bps_over_notional'', JFloat (Fin 5)), (''asymmetry_tag'', JStr ''none'')]]"

theorem ranking_sorted_correct_witness:
  "sorted_wrt (\<lambda>a b. fle (rank_return b) (rank_return a))
     [((Fin (- 2), Fin (- 5), ''b''), sample_candidates ! 1), ((Fin (- 1), Fin (- 5), ''a''), sample_candidates ! 0)]"
proof -
  have "ranking_sorted sample_candidates =
      Inr [((Fin (- 2), Fin (- 5), ''b''), sample_candidates ! 1), ((Fin (- 1), Fin (- 5), ''a''), sample_candidates ! 0)]"
    by code_simp
  from ranking_sorted_correct [OF this] show ?thesis by (simp add: rank_return_def)
qed

end
