(* ===== verification/Metrics.thy ===== *)
theory Metrics
  imports Reports
begin

text \<open>
  \<open>metrics/metrics_aggregator.py\<close>, \<open>scheduler/baseline_recompute.py\<close> and \<open>scheduler/decision_flags.py\<close>:
  the figures of a ledger and the flags derived from them. A data frame is the list of its rows and
  selection by a mask is \<open>filter\<close>. The reductions of \<open>numpy\<close> and \<open>pandas\<close> are parameters, collected in
  the record \<open>numpy_ops\<close>; the locale \<open>numpy_pandas\<close> states what the code relies on.
\<close>

section \<open>numpy and pandas\<close>

record numpy_ops =
  np_sum :: "pyfloat list \<Rightarrow> pyfloat"
  np_mean :: "pyfloat list \<Rightarrow> pyfloat"
  np_div :: "pyfloat \<Rightarrow> pyfloat \<Rightarrow> pyfloat"
  np_cumsum :: "pyfloat list \<Rightarrow> pyfloat list"
  np_maximum_accumulate :: "pyfloat list \<Rightarrow> pyfloat list"
  np_max :: "pyfloat list \<Rightarrow> pyfloat"
  pd_mean :: "pyfloat list \<Rightarrow> pyfloat"
  pd_sort_values :: "trade_record list \<Rightarrow> trade_record list"
  pd_group_keys :: "string list \<Rightarrow> string list"

locale numpy_pandas =
  fixes ops :: numpy_ops
  assumes cumsum_length: "length (np_cumsum ops xs) = length xs"
    and accumulate_length: "length (np_maximum_accumulate ops xs) = length xs"
    and accumulate_ge: "NaN \<notin> set xs \<Longrightarrow> i < length xs \<Longrightarrow> fle (xs ! i) (np_maximum_accumulate ops xs ! i)"
    and max_in: "xs \<noteq> [] \<Longrightarrow> np_max ops xs \<in> set xs"
    and sort_perm: "mset (pd_sort_values ops rows) = mset rows"
    and sort_natural: "(\<And>r. tr_entry_ts (f r) = tr_entry_ts r) \<Longrightarrow>
      pd_sort_values ops (map f rows) = map f (pd_sort_values ops rows)"
    and div_plain: "fdiv x y = Some q \<Longrightarrow> np_div ops x y = q"
    and keys_distinct: "distinct (pd_group_keys ops ks)"
    and keys_set: "set (pd_group_keys ops ks) = set ks"
begin

lemma sort_length: "length (pd_sort_values ops rows) = length rows"
  using sort_perm by (metis size_mset)

lemma keys_card: "length (pd_group_keys ops ks) = card (set ks)"
  using keys_distinct keys_set distinct_card by metis

end

section \<open>MetricsAggregator\<close>

text \<open>The month of a time stamp, \<open>strftime("%Y-%m")\<close> or \<open>to_period("M")\<close>\<close>

definition year_month_of :: "datetime \<Rightarrow> string" where
  "year_month_of ts =
     (let (y, m, d) = civil_from_days (ts div us_per_day) in fmt_ym y m)"

definition silo_key :: "trade_record \<Rightarrow> string" where
  "silo_key t = tr_symbol t @ ''_'' @ year_month_of (tr_signal_bar_start_ts t)"

definition returns :: "numpy_ops \<Rightarrow> (trade_record \<Rightarrow> pyfloat) \<Rightarrow> trade_record list \<Rightarrow> pyfloat list" where
  "returns ops pnl df = map (\<lambda>t. np_div ops (pnl t) (tr_notional t)) df"

definition positive :: "pyfloat \<Rightarrow> bool" where
  "positive x \<longleftrightarrow> flt (Fin 0) x"

definition negative :: "pyfloat \<Rightarrow> bool" where
  "negative x \<longleftrightarrow> flt x (Fin 0)"

text \<open>\<open>win_count / trade_count\<close>: the correctly rounded quotient of two integers\<close>

definition ratio :: "nat \<Rightarrow> nat \<Rightarrow> pyfloat" where
  "ratio a b = fl (of_nat a / of_nat b)"

definition payoff_metric :: "numpy_ops \<Rightarrow> pyfloat list \<Rightarrow> json res" where
  "payoff_metric ops r_i =
     (let r_positive = filter positive r_i; r_negative = filter negative r_i
      in if r_positive = [] \<or> r_negative = [] then Inr JNull
         else res_bind (the_or_raise ZeroDivisionError
                (fdiv (np_mean ops r_positive) (fabs (np_mean ops r_negative)))) (\<lambda>q. Inr (JFloat q)))"

definition drawdowns :: "numpy_ops \<Rightarrow> trade_record list \<Rightarrow> pyfloat list" where
  "drawdowns ops df =
     (let r_i_sorted = returns ops tr_realistic_pnl (pd_sort_values ops df);
          cumulative = map (\<lambda>c. fmul c (Fin 100)) (np_cumsum ops r_i_sorted);
          running_max = np_maximum_accumulate ops cumulative
      in map2 fsub running_max cumulative)"

definition max_drawdown_metric :: "numpy_ops \<Rightarrow> trade_record list \<Rightarrow> pyfloat" where
  "max_drawdown_metric ops df =
     (let dd = drawdowns ops df in if dd \<noteq> [] then np_max ops dd else Fin 0)"

definition profit_factor_metric :: "numpy_ops \<Rightarrow> pyfloat list \<Rightarrow> json res" where
  "profit_factor_metric ops realistic_pnl =
     (let sum_positive = np_sum ops (filter positive realistic_pnl);
          sum_negative = np_sum ops (filter negative realistic_pnl)
      in if feq sum_positive (Fin 0) then Inr JNull
         else if feq sum_negative (Fin 0) then Inr (JStr ''+inf'')
         else res_bind (the_or_raise ZeroDivisionError (fdiv sum_positive (fabs sum_negative)))
                (\<lambda>q. Inr (JFloat q)))"

definition silo_metrics :: "numpy_ops \<Rightarrow> trade_record list \<Rightarrow> (string \<times> pyfloat) list" where
  "silo_metrics ops df =
     map (\<lambda>k. (k, fmul (np_sum ops (returns ops tr_realistic_pnl (filter (\<lambda>t. silo_key t = k) df))) (Fin 100)))
       (pd_group_keys ops (map silo_key df))"

type_synonym metrics_dict = "(string \<times> json) list"

definition compute_metrics :: "numpy_ops \<Rightarrow> trade_record list \<Rightarrow> int \<Rightarrow> metrics_dict res" where
  "compute_metrics ops df total_silos =
     (if df = []
      then Inr [(''trade_count'', JInt 0), (''win_rate'', JNull), (''payoff_ratio'', JNull),
                (''realistic_pnl_pct'', JFloat (Fin 0)), (''realistic_taker_both_pct'', JFloat (Fin 0)),
                (''raw_pnl_pct'', JFloat (Fin 0)), (''per_trade_quality_bps_over_notional'', JNull),
                (''max_drawdown_pct'', JFloat (Fin 0)), (''profit_factor'', JNull),
                (''active_silo_sum_pct'', JFloat (Fin 0)),
                (''calendar_normalized_return_pct'', JFloat (Fin 0)),
                (''active_months'', JInt 0), (''empty_months'', JInt total_silos)]
      else
        let realistic_pnl = map tr_realistic_pnl df;
            r_i = returns ops tr_realistic_pnl df;
            win_count = length (filter positive realistic_pnl);
            silos = silo_metrics ops df;
            active_months = int (length silos);
            active_silo_sum_pct = py_sum (map snd silos)
        in res_bind (payoff_metric ops r_i) (\<lambda>payoff_ratio.
           res_bind (profit_factor_metric ops realistic_pnl) (\<lambda>profit_factor.
           Inr [(''trade_count'', JInt (int (length df))),
                (''win_rate'', JFloat (ratio win_count (length df))),
                (''payoff_ratio'', payoff_ratio),
                (''realistic_pnl_pct'', JFloat (fmul (np_sum ops r_i) (Fin 100))),
                (''realistic_taker_both_pct'',
                  JFloat (fmul (np_sum ops (returns ops tr_realistic_taker_both_pnl df)) (Fin 100))),
                (''raw_pnl_pct'', JFloat (fmul (np_sum ops (returns ops tr_raw_pnl df)) (Fin 100))),
                (''per_trade_quality_bps_over_notional'', JFloat (fmul (np_mean ops r_i) (Fin 10000))),
                (''max_drawdown_pct'', JFloat (max_drawdown_metric ops df)),
                (''profit_factor'', profit_factor),
                (''active_silo_sum_pct'', JFloat active_silo_sum_pct),
                (''calendar_normalized_return_pct'', JFloat active_silo_sum_pct),
                (''active_months'', JInt active_months),
                (''empty_months'', JInt (total_silos - active_months))])))"

text \<open>\<open>aggregate\<close>: both gate modes, each with its prefix\<close>

definition prefix_keys :: "string \<Rightarrow> metrics_dict \<Rightarrow> metrics_dict" where
  "prefix_keys p d = map (\<lambda>(k, v). (p @ k, v)) d"

definition aggregate :: "numpy_ops \<Rightarrow> trade_record list \<Rightarrow> int \<Rightarrow> metrics_dict res" where
  "aggregate ops ledger total_silos =
     res_bind (compute_metrics ops (filter (\<lambda>t. tr_gate_mode t = ''nogate'') ledger) total_silos) (\<lambda>m1.
     res_bind (compute_metrics ops (filter (\<lambda>t. tr_gate_mode t = ''gate001'') ledger) total_silos) (\<lambda>m2.
       Inr (dict_update (dict_update [] (prefix_keys ''nogate_'' m1)) (prefix_keys ''gate001_'' m2))))"

section \<open>BaselineRecompute\<close>

definition baseline_symbols :: "string list" where
  "baseline_symbols = [''BTCUSDT'', ''ETHUSDT'']"

definition compute_win_rate :: "trade_record list \<Rightarrow> json" where
  "compute_win_rate trades =
     (if trades = [] then JNull
      else JFloat (ratio (length (filter (\<lambda>t. flt (Fin 0) (tr_realistic_pnl t)) trades)) (length trades)))"

text \<open>The loop collects the signs of the returns; a trade with notional zero is skipped.\<close>

fun signed_returns :: "trade_record list \<Rightarrow> (pyfloat list \<times> pyfloat list) res" where
  "signed_returns [] = Inr ([], [])"
| "signed_returns (t # ts) =
     (if feq (tr_notional t) (Fin 0) then signed_returns ts
      else res_bind (the_or_raise ZeroDivisionError (fdiv (tr_realistic_pnl t) (tr_notional t))) (\<lambda>r_i.
           res_bind (signed_returns ts) (\<lambda>(ps, ns).
             Inr (if positive r_i then (r_i # ps, ns)
                  else if negative r_i then (ps, r_i # ns) else (ps, ns)))))"

definition mean_of :: "pyfloat list \<Rightarrow> pyfloat res" where
  "mean_of xs =
     res_bind (float_of_int (int (length xs))) (\<lambda>n. the_or_raise ZeroDivisionError (fdiv (py_sum xs) n))"

definition compute_payoff_ratio :: "trade_record list \<Rightarrow> json res" where
  "compute_payoff_ratio trades =
     res_bind (signed_returns trades) (\<lambda>(positive_rs, negative_rs).
       if positive_rs = [] \<or> negative_rs = [] then Inr JNull
       else
         res_bind (mean_of positive_rs) (\<lambda>mean_positive.
         res_bind (mean_of negative_rs) (\<lambda>mean_negative.
           let abs_mean_negative = fabs mean_negative
           in if feq abs_mean_negative (Fin 0) then Inr JNull
              else res_bind (the_or_raise ZeroDivisionError (fdiv mean_positive abs_mean_negative))
                     (\<lambda>q. Inr (JFloat q)))))"

definition symbol_reference :: "trade_record list \<Rightarrow> string \<Rightarrow> json res" where
  "symbol_reference nogate_trades symbol =
     (let symbol_trades = filter (\<lambda>t. tr_symbol t = symbol) nogate_trades
      in res_bind (compute_payoff_ratio symbol_trades) (\<lambda>payoff.
           Inr (JDict [(''nogate_win_rate'', compute_win_rate symbol_trades),
                       (''nogate_payoff_ratio'', payoff)])))"

definition compute_baseline_reference :: "trade_record list \<Rightarrow> metrics_dict res" where
  "compute_baseline_reference baseline_trades =
     (let nogate_trades = filter (\<lambda>t. tr_gate_mode t = ''nogate'') baseline_trades
      in res_bind (compute_payoff_ratio nogate_trades) (\<lambda>all_payoff_ratio.
         res_bind (res_map (symbol_reference nogate_trades) baseline_symbols) (\<lambda>refs.
           Inr ([(''nogate_win_rate'', compute_win_rate nogate_trades),
                 (''nogate_payoff_ratio'', all_payoff_ratio)] @ zip baseline_symbols refs))))"

section \<open>Decision flags\<close>

text \<open>
  A missing key and \<open>None\<close> both read as \<open>None\<close>; numbers compare exactly, whether \<open>int\<close> or \<open>float\<close>.
\<close>

definition get_or_none :: "metrics_dict \<Rightarrow> string \<Rightarrow> json" where
  "get_or_none d k = (case dict_get d k of None \<Rightarrow> JNull | Some v \<Rightarrow> v)"

fun py_num :: "json \<Rightarrow> pyfloat res" where
  "py_num (JFloat x) = Inr x"
| "py_num (JInt i) = Inr (Fin (of_int i))"
| "py_num (JBool b) = Inr (Fin (if b then 1 else 0))"
| "py_num _ = Inl TypeError"

definition compute_event_expectation_positive :: "metrics_dict \<Rightarrow> metrics_dict \<Rightarrow> bool res" where
  "compute_event_expectation_positive summary baseline_ref =
     (let cal_return = get_or_none summary ''nogate_calendar_normalized_return_pct'';
          quality_bps = get_or_none summary ''nogate_per_trade_quality_bps_over_notional'';
          candidate_win_rate = get_or_none summary ''nogate_win_rate'';
          baseline_win_rate = get_or_none baseline_ref ''nogate_win_rate'';
          candidate_payoff = get_or_none summary ''nogate_payoff_ratio'';
          baseline_payoff = get_or_none baseline_ref ''nogate_payoff_ratio''
      in if cal_return = JNull then Inr False else
         res_bind (py_num cal_return) (\<lambda>cal.
         if flt cal (Fin 0) then Inr False else
         if quality_bps = JNull then Inr False else
         res_bind (py_num quality_bps) (\<lambda>quality.
         if flt quality (Fin 10) then Inr False else
         if candidate_win_rate = JNull \<or> baseline_win_rate = JNull then Inr False else
         res_bind (py_num candidate_win_rate) (\<lambda>cw.
         res_bind (py_num baseline_win_rate) (\<lambda>bw.
         if \<not> flt bw cw then Inr False else
         if candidate_payoff = JNull \<or> baseline_payoff = JNull then Inr False else
         res_bind (py_num candidate_payoff) (\<lambda>cp.
         res_bind (py_num baseline_payoff) (\<lambda>bp.
         if \<not> fle (fmul bp (fl (95 / 100))) cp then Inr False else Inr True)))))))"

definition count_or_zero :: "metrics_dict \<Rightarrow> string \<Rightarrow> pyfloat res" where
  "count_or_zero d k = (case dict_get d k of None \<Rightarrow> Inr (Fin 0) | Some v \<Rightarrow> py_num v)"

definition compute_small_sample_flag :: "metrics_dict \<Rightarrow> bool res" where
  "compute_small_sample_flag summary =
     res_bind (count_or_zero summary ''nogate_trade_count'') (\<lambda>n.
     if flt n (Fin 60) then Inr True else
     res_bind (count_or_zero summary ''btc_nogate_trade_count'') (\<lambda>b.
     if flt b (Fin 20) then Inr True else
     res_bind (count_or_zero summary ''eth_nogate_trade_count'') (\<lambda>e.
     if flt e (Fin 20) then Inr True else Inr False)))"

fun truthy :: "json \<Rightarrow> bool" where
  "truthy JNull = False"
| "truthy (JBool b) = b"
| "truthy (JInt i) = (i \<noteq> 0)"
| "truthy (JFloat x) = (x \<noteq> Fin 0)"
| "truthy (JStr s) = (s \<noteq> [])"
| "truthy (JList xs) = (xs \<noteq> [])"
| "truthy (JDict d) = (d \<noteq> [])"

definition flag_of :: "metrics_dict \<Rightarrow> string \<Rightarrow> bool" where
  "flag_of d k = (case dict_get d k of None \<Rightarrow> False | Some v \<Rightarrow> truthy v)"

definition compute_asymmetry_tag :: "metrics_dict \<Rightarrow> string" where
  "compute_asymmetry_tag summary =
     (let eth_positive = flag_of summary ''event_expectation_positive_eth_only'';
          btc_positive = flag_of summary ''event_expectation_positive_btc_only''
      in if eth_positive \<and> \<not> btc_positive then ''eth_only_positive''
         else if btc_positive \<and> \<not> eth_positive then ''btc_only_positive''
         else if btc_positive \<and> eth_positive then ''all_symbols_positive''
         else ''none'')"

section \<open>A reference instance of the parameters\<close>

definition ref_div :: "pyfloat \<Rightarrow> pyfloat \<Rightarrow> pyfloat" where
  "ref_div x y =
     (case fdiv x y of
        Some q \<Rightarrow> q
      | None \<Rightarrow> (if x = NaN \<or> feq x (Fin 0) then NaN else if positive x then PInf else NInf))"

fun ref_cumsum :: "pyfloat \<Rightarrow> pyfloat list \<Rightarrow> pyfloat list" where
  "ref_cumsum a [] = []"
| "ref_cumsum a (x # xs) = (let b = fadd a x in b # ref_cumsum b xs)"

definition fmax :: "pyfloat \<Rightarrow> pyfloat \<Rightarrow> pyfloat" where
  "fmax a b = (if a = NaN \<or> b = NaN then NaN else if fle a b then b else a)"

fun ref_accumulate :: "pyfloat \<Rightarrow> pyfloat list \<Rightarrow> pyfloat list" where
  "ref_accumulate a [] = []"
| "ref_accumulate a (x # xs) = (let b = fmax a x in b # ref_accumulate b xs)"

definition ref_numpy :: numpy_ops where
  "ref_numpy =
     \<lparr>np_sum = py_sum,
      np_mean = (\<lambda>xs. ref_div (py_sum xs) (Fin (of_nat (length xs)))),
      np_div = ref_div,
      np_cumsum = ref_cumsum (Fin 0),
      np_maximum_accumulate = (\<lambda>xs. case xs of [] \<Rightarrow> [] | y # ys \<Rightarrow> y # ref_accumulate y ys),
      np_max = (\<lambda>xs. last (sort xs)),
      pd_mean = (\<lambda>xs. let ys = filter (\<lambda>x. x \<noteq> NaN) xs in ref_div (py_sum ys) (Fin (of_nat (length ys)))),
      pd_sort_values = sort_key tr_entry_ts,
      pd_group_keys = (\<lambda>ks. remdups (sort ks))\<rparr>"

lemma length_ref_cumsum [simp]: "length (ref_cumsum a xs) = length xs"
  by (induction a xs rule: ref_cumsum.induct) (auto simp: Let_def)

lemma length_ref_accumulate [simp]: "length (ref_accumulate a xs) = length xs"
  by (induction a xs rule: ref_accumulate.induct) (auto simp: Let_def)

lemma fmax_ge: "a \<noteq> NaN \<Longrightarrow> b \<noteq> NaN \<Longrightarrow> fle b (fmax a b) \<and> fmax a b \<noteq> NaN"
  using fle_total [of a b] by (auto simp: fmax_def fle_refl_iff)

lemma ref_accumulate_ge:
  "a \<noteq> NaN \<Longrightarrow> NaN \<notin> set xs \<Longrightarrow> i < length xs \<Longrightarrow> fle (xs ! i) (ref_accumulate a xs ! i)"
proof (induction a xs arbitrary: i rule: ref_accumulate.induct)
  case (2 a x xs)
  then show ?case using fmax_ge [of a x] by (cases i) (auto simp: Let_def)
qed simp

lemma sort_key_natural:
  assumes "\<And>r. k (f r) = k r"
  shows "sort_key k (map f rows) = map f (sort_key k rows)"
proof -
  have "insort_key k (f x) (map f xs) = map f (insort_key k x xs)" for x xs
    by (induction xs) (auto simp: assms)
  then show ?thesis by (induction rows) auto
qed

interpretation ref: numpy_pandas ref_numpy
proof
  fix f :: "trade_record \<Rightarrow> trade_record" and rows
  assume "\<And>r. tr_entry_ts (f r) = tr_entry_ts r"
  then show "pd_sort_values ref_numpy (map f rows) = map f (pd_sort_values ref_numpy rows)"
    using sort_key_natural [of tr_entry_ts f] by (simp add: ref_numpy_def)
next
  fix xs :: "pyfloat list" and i
  assume "NaN \<notin> set xs" and "i < length xs"
  then show "fle (xs ! i) (np_maximum_accumulate ref_numpy xs ! i)"
    using ref_accumulate_ge
    by (cases xs; cases i) (auto simp: ref_numpy_def fle_refl_iff)
next
  fix xs :: "pyfloat list"
  assume "xs \<noteq> []"
  then show "np_max ref_numpy xs \<in> set xs"
    using last_in_set [of "sort xs"] by (simp add: ref_numpy_def) (metis length_0_conv length_sort)
qed (auto simp: ref_numpy_def ref_div_def split: list.split)

section \<open>Properties of the figures\<close>

lemma length_silo_metrics: "length (silo_metrics ops df) = length (pd_group_keys ops (map silo_key df))"
  by (simp add: silo_metrics_def)

text \<open>
  In every result of \<open>_compute_metrics\<close> the number of active months is the number of different
  (symbol, month) silos of the trades, and active and empty months add up to the given total
  (invariant P12).
\<close>

theorem metrics_silos:
  assumes "numpy_pandas ops" and "compute_metrics ops df total_silos = Inr m"
  shows "dict_get m ''active_months'' = Some (JInt (int (card (silo_key ` set df))))
       \<and> dict_get m ''empty_months'' = Some (JInt (total_silos - int (card (silo_key ` set df))))"
proof (cases "df = []")
  case True
  then show ?thesis using assms(2) by (auto simp: compute_metrics_def dict_get_def)
next
  case False
  have "length (silo_metrics ops df) = card (silo_key ` set df)"
    using numpy_pandas.keys_card [OF assms(1), of "map silo_key df"] by (simp add: length_silo_metrics)
  then show ?thesis
    using assms(2) False by (auto simp: compute_metrics_def Let_def res_bind_eq_Inr_iff dict_get_def)
qed

theorem metrics_silos_witness:
  "\<exists>m. compute_metrics ref_numpy [sample_trade 1 ''nogate''] 22 = Inr m
     \<and> dict_get m ''active_months'' = Some (JInt 1) \<and> dict_get m ''empty_months'' = Some (JInt 21)"
proof -
  have "\<not> isl (compute_metrics ref_numpy [sample_trade 1 ''nogate''] 22)" by code_simp
  then obtain m where m: "compute_metrics ref_numpy [sample_trade 1 ''nogate''] 22 = Inr m"
    by (cases "compute_metrics ref_numpy [sample_trade 1 ''nogate''] 22") auto
  show ?thesis using metrics_silos [OF ref.numpy_pandas_axioms m] m by simp
qed

lemma fsub_NaN [simp]: "fsub x NaN = NaN"
  by (cases x) (auto simp: fsub_def)

lemma fsub_nonneg: "fle y x \<Longrightarrow> fsub x y \<noteq> NaN \<Longrightarrow> fle (Fin 0) (fsub x y)"
  by (cases x; cases y) (auto simp: fsub_def intro: fl_nonneg)

text \<open>
  The maximum drawdown is never negative: it is at least zero unless some drawdown is \<open>nan\<close> (which
  needs a \<open>nan\<close> or infinite return).
\<close>

theorem max_drawdown_nonneg:
  assumes "numpy_pandas ops"
  shows "NaN \<in> set (drawdowns ops df) \<or> fle (Fin 0) (max_drawdown_metric ops df)"
proof -
  define c where "c = map (\<lambda>x. fmul x (Fin 100)) (np_cumsum ops (returns ops tr_realistic_pnl (pd_sort_values ops df)))"
  define r where "r = np_maximum_accumulate ops c"
  have dd: "drawdowns ops df = map2 fsub r c" by (simp add: drawdowns_def Let_def c_def r_def)
  have len: "length r = length c" using numpy_pandas.accumulate_length [OF assms] by (simp add: r_def)
  have "fle (Fin 0) x" if nn: "NaN \<notin> set (map2 fsub r c)" and x: "x \<in> set (map2 fsub r c)" for x
  proof -
    obtain i where i: "i < length c" "x = fsub (r ! i) (c ! i)"
      using x len by (auto simp: in_set_conv_nth)
    have "fsub (r ! j) (c ! j) \<noteq> NaN" if "j < length c" for j
      using nn that len by (metis (no_types, lifting) length_map length_zip min.idem nth_map nth_mem nth_zip case_prod_conv)
    then have "NaN \<notin> set c" and "fsub (r ! i) (c ! i) \<noteq> NaN"
      using i by (metis fsub_NaN in_set_conv_nth, blast)
    then show ?thesis
      using i numpy_pandas.accumulate_ge [OF assms, of c i] fsub_nonneg by (simp add: r_def)
  qed
  then show ?thesis
    using numpy_pandas.max_in [OF assms, of "map2 fsub r c"]
    by (auto simp: max_drawdown_metric_def dd Let_def)
qed

theorem max_drawdown_nonneg_witness:
  "NaN \<in> set (drawdowns ref_numpy [sample_trade 1 ''nogate'', sample_trade 2 ''nogate''])
   \<or> fle (Fin 0) (max_drawdown_metric ref_numpy [sample_trade 1 ''nogate'', sample_trade 2 ''nogate''])"
  by (rule max_drawdown_nonneg [OF ref.numpy_pandas_axioms])

section \<open>Decisions\<close>

lemma win_rate_value:
  assumes "compute_metrics ops df total_silos = Inr m"
  shows "dict_get m ''win_rate'' = Some (compute_win_rate df)"
proof -
  have "length (filter positive (map tr_realistic_pnl df)) = length (filter (\<lambda>t. flt (Fin 0) (tr_realistic_pnl t)) df)"
    by (induction df) (auto simp: positive_def)
  then show ?thesis
    using assms by (auto simp: compute_metrics_def Let_def res_bind_eq_Inr_iff dict_get_def compute_win_rate_def
        split: if_splits)
qed

text \<open>
  The win rate of the baseline reference and the win rate of the aggregator are computed by different
  code but agree: on the same trades both are the correctly rounded share of trades with a positive
  realistic profit, a float between 0 and 1, or \<open>None\<close> when there is no trade.
\<close>

theorem win_rate_agrees:
  assumes "compute_metrics ops df total_silos = Inr m"
  shows "dict_get m ''win_rate'' = Some (compute_win_rate df)
    \<and> (case compute_win_rate df of
         JFloat x \<Rightarrow> fle (Fin 0) x \<and> fle x (Fin 1)
       | v \<Rightarrow> v = JNull \<and> df = [])"
proof (cases "df = []")
  case True
  then show ?thesis using win_rate_value [OF assms] by (simp add: compute_win_rate_def)
next
  case False
  let ?w = "length (filter (\<lambda>t. flt (Fin 0) (tr_realistic_pnl t)) df)"
  have "of_nat ?w / of_nat (length df) \<le> (1 :: rat)" using False by (simp add: divide_le_eq)
  then have "fle (Fin 0) (ratio ?w (length df)) \<and> fle (ratio ?w (length df)) (Fin 1)"
    using fl_mono [of "of_nat ?w / of_nat (length df)" 1] by (simp add: ratio_def fl_nonneg)
  then show ?thesis using win_rate_value [OF assms] False by (simp add: compute_win_rate_def)
qed

theorem win_rate_agrees_witness:
  "\<exists>m. compute_metrics ref_numpy [] 22 = Inr m \<and> dict_get m ''win_rate'' = Some JNull"
  using win_rate_agrees [of ref_numpy "[]" 22]
  by (simp add: compute_metrics_def compute_win_rate_def)

lemma map_of_prefix_keys:
  "map_of (prefix_keys p m) (p @ k) = map_of m k"
  by (induction m) (auto simp: prefix_keys_def)

lemma distinct_prefix_keys: "distinct (map fst m) \<Longrightarrow> distinct (map fst (prefix_keys p m))"
proof -
  have "map fst (prefix_keys p m) = map ((@) p) (map fst m)" by (simp add: prefix_keys_def case_prod_beta)
  then show "distinct (map fst m) \<Longrightarrow> distinct (map fst (prefix_keys p m))"
    by (simp only: distinct_map) (simp add: inj_on_def)
qed

lemma map_of_rev: "distinct (map fst m) \<Longrightarrow> map_of (rev m) = map_of m"
  by (metis map_of_inject_set rev_map distinct_rev set_rev)

lemma compute_metrics_keys:
  assumes "compute_metrics ops df n = Inr m"
  shows "map fst m =
    [''trade_count'', ''win_rate'', ''payoff_ratio'', ''realistic_pnl_pct'', ''realistic_taker_both_pct'',
     ''raw_pnl_pct'', ''per_trade_quality_bps_over_notional'', ''max_drawdown_pct'', ''profit_factor'',
     ''active_silo_sum_pct'', ''calendar_normalized_return_pct'', ''active_months'', ''empty_months'']"
  using assms by (auto simp: compute_metrics_def Let_def res_bind_eq_Inr_iff split: if_splits)

text \<open>Reading a figure of one gate mode out of the aggregate.\<close>

lemma aggregate_get:
  assumes "aggregate ops ledger n = Inr r"
  obtains m1 m2 where
    "compute_metrics ops (filter (\<lambda>t. tr_gate_mode t = ''nogate'') ledger) n = Inr m1"
    "compute_metrics ops (filter (\<lambda>t. tr_gate_mode t = ''gate001'') ledger) n = Inr m2"
    "\<And>k. dict_get r (''nogate_'' @ k) = dict_get m1 k" "\<And>k. dict_get r (''gate001_'' @ k) = dict_get m2 k"
proof -
  obtain m1 m2 where
    m1: "compute_metrics ops (filter (\<lambda>t. tr_gate_mode t = ''nogate'') ledger) n = Inr m1" and
    m2: "compute_metrics ops (filter (\<lambda>t. tr_gate_mode t = ''gate001'') ledger) n = Inr m2" and
    r: "r = dict_update (dict_update [] (prefix_keys ''nogate_'' m1)) (prefix_keys ''gate001_'' m2)"
    using assms by (auto simp: aggregate_def res_bind_eq_Inr_iff)
  have d: "distinct (map fst (prefix_keys p m1))" "distinct (map fst (prefix_keys p m2))" for p
    using compute_metrics_keys [OF m1] compute_metrics_keys [OF m2] by (auto intro!: distinct_prefix_keys)
  have other: "map_of (prefix_keys ''gate001_'' m2) (''nogate_'' @ k) = None"
    "map_of (prefix_keys ''nogate_'' m1) (''gate001_'' @ k) = None" for k
    by (auto simp: prefix_keys_def map_of_eq_None_iff)
  have "dict_get r (''nogate_'' @ k) = dict_get m1 k" for k
    unfolding r dict_get_def map_of_dict_update map_of_rev [OF d(1)] map_of_rev [OF d(2)]
    by (simp only: other map_of_prefix_keys) (simp split: option.split)
  moreover have "dict_get r (''gate001_'' @ k) = dict_get m2 k" for k
    unfolding r dict_get_def map_of_dict_update map_of_rev [OF d(1)] map_of_rev [OF d(2)]
    by (simp only: other map_of_prefix_keys) (simp split: option.split)
  ultimately show thesis using that m1 m2 by blast
qed

text \<open>
  A candidate whose ledger is the baseline's own ledger is never flagged as having positive
  expectation: the flag requires a win rate strictly above the baseline's, and the two computations of
  the win rate agree.
\<close>

theorem baseline_never_beats_itself:
  assumes "aggregate ops trades total_silos = Inr summary" and "compute_baseline_reference trades = Inr ref"
    and "compute_event_expectation_positive summary ref = Inr b"
  shows "b = False"
proof -
  let ?nogate = "filter (\<lambda>t. tr_gate_mode t = ''nogate'') trades"
  obtain m1 where m1: "compute_metrics ops ?nogate total_silos = Inr m1"
    and get: "\<And>k. dict_get summary (''nogate_'' @ k) = dict_get m1 k"
    using aggregate_get [OF assms(1)] by metis
  have "dict_get summary ''nogate_win_rate'' = dict_get m1 ''win_rate''" using get [of "''win_rate''"] by simp
  then have "get_or_none summary ''nogate_win_rate'' = compute_win_rate ?nogate"
    using win_rate_value [OF m1] by (simp add: get_or_none_def)
  moreover have "get_or_none ref ''nogate_win_rate'' = compute_win_rate ?nogate"
    using assms(2) by (auto simp: compute_baseline_reference_def Let_def res_bind_eq_Inr_iff get_or_none_def dict_get_def)
  moreover have "\<not> flt x x" for x by (simp add: flt_def)
  ultimately show ?thesis
    using assms(3)
    by (auto simp: compute_event_expectation_positive_def Let_def res_bind_eq_Inr_iff split: if_splits)
qed

theorem baseline_never_beats_itself_witness:
  "compute_event_expectation_positive [(''nogate_calendar_normalized_return_pct'', JFloat (Fin 0))] [] = Inr False
   \<and> (\<exists>summary ref. aggregate ref_numpy [] 22 = Inr summary \<and> compute_baseline_reference [] = Inr ref
        \<and> compute_event_expectation_positive summary ref = Inr False)"
proof -
  have a: "\<not> isl (aggregate ref_numpy [] 22)" "\<not> isl (compute_baseline_reference [])" by code_simp+
  then obtain summary ref where s: "aggregate ref_numpy [] 22 = Inr summary" "compute_baseline_reference [] = Inr ref"
    by (cases "aggregate ref_numpy [] 22"; cases "compute_baseline_reference []") auto
  have "\<not> isl (compute_event_expectation_positive
      (projr (aggregate ref_numpy [] 22)) (projr (compute_baseline_reference [])))" by code_simp
  then obtain b where b: "compute_event_expectation_positive summary ref = Inr b"
    using s by (cases "compute_event_expectation_positive summary ref") auto
  have "b = False" by (rule baseline_never_beats_itself [OF s b])
  moreover have "compute_event_expectation_positive [(''nogate_calendar_normalized_return_pct'', JFloat (Fin 0))] [] = Inr False"
    by code_simp
  ultimately show ?thesis using s b by blast
qed

end
