(* ===== verification/Invariants.thy ===== *)
theory Invariants
  imports Metrics
begin

text \<open>
  \<open>invariants/invariant_checker.py\<close>, \<open>invariants/violations_markdown_writer.py\<close> and
  \<open>summary/summary_json_writer.py\<close>: the check of a ledger and its summary, the report of the
  violations and the file of the summary. A ledger frame has all the columns of \<open>LEDGER_HEADER\<close>, so
  the tests for missing columns always succeed here.
\<close>

section \<open>InvariantChecker\<close>

definition MAX_TRADES_PER_BAR :: nat where
  "MAX_TRADES_PER_BAR = 2"

definition P4_RELATIVE_TOLERANCE :: pyfloat where
  "P4_RELATIVE_TOLERANCE = fl (1 / 10 ^ 9)"

definition P9_RELATIVE_TOLERANCE :: pyfloat where
  "P9_RELATIVE_TOLERANCE = fl (1 / 10 ^ 6)"

definition TOTAL_SILOS :: int where
  "TOTAL_SILOS = 22"

text \<open>The sizes of the groups of the ledger by signal bar, symbol and gate mode.\<close>

definition bar_key :: "trade_record \<Rightarrow> datetime \<times> string \<times> string" where
  "bar_key t = (tr_signal_bar_start_ts t, tr_symbol t, tr_gate_mode t)"

definition check_p3 :: "trade_record list \<Rightarrow> int" where
  "check_p3 ledger =
     (let grouped = map (\<lambda>k. length (filter (\<lambda>t. bar_key t = k) ledger)) (remdups (map bar_key ledger))
      in int (length (filter (\<lambda>n. MAX_TRADES_PER_BAR < n) grouped)))"

text \<open>\<open>max(a, b)\<close>: the first argument unless the second is greater\<close>

definition py_max :: "pyfloat \<Rightarrow> pyfloat \<Rightarrow> pyfloat" where
  "py_max a b = (if flt a b then b else a)"

definition monotonicity_holds :: "pyfloat \<Rightarrow> pyfloat \<Rightarrow> pyfloat \<Rightarrow> pyfloat \<Rightarrow> bool" where
  "monotonicity_holds taker_both realistic slip raw =
     list_all (\<lambda>(lower, upper).
         let tol = fmul (py_max (fabs upper) (Fin 1)) P4_RELATIVE_TOLERANCE
         in \<not> flt (fadd upper tol) lower)
       [(taker_both, realistic), (realistic, slip), (slip, raw)]"

definition check_p4 :: "trade_record list \<Rightarrow> int" where
  "check_p4 ledger =
     int (length (filter (\<lambda>t. \<not> monotonicity_holds (tr_realistic_taker_both_pnl t) (tr_realistic_pnl t)
                                 (tr_slip_pnl t) (tr_raw_pnl t)) ledger))"

text \<open>A number as an operand of float arithmetic\<close>

fun float_operand :: "json \<Rightarrow> pyfloat res" where
  "float_operand (JFloat x) = Inr x"
| "float_operand (JInt i) = float_of_int i"
| "float_operand (JBool b) = Inr (Fin (if b then 1 else 0))"
| "float_operand _ = Inl TypeError"

fun equals_zero :: "json \<Rightarrow> bool" where
  "equals_zero (JInt i) = (i = 0)"
| "equals_zero (JFloat x) = (x = Fin 0)"
| "equals_zero (JBool b) = (\<not> b)"
| "equals_zero _ = False"

text \<open>The body of the loop over the two gate modes: the number of violations it adds.\<close>

definition check_p9_mode :: "numpy_ops \<Rightarrow> trade_record list \<Rightarrow> metrics_dict \<Rightarrow> string \<Rightarrow> int res" where
  "check_p9_mode ops ledger summary prefix =
     (case dict_get summary (prefix @ ''_per_trade_quality_bps_over_notional'') of
        None \<Rightarrow> Inr 1
      | Some ptq_value \<Rightarrow>
          let trade_count = (case dict_get summary (prefix @ ''_trade_count'') of None \<Rightarrow> JInt 0 | Some v \<Rightarrow> v)
          in if equals_zero trade_count then Inr (if ptq_value \<noteq> JNull then 1 else 0)
             else if ptq_value = JNull then Inr 1
             else
               let subset = filter (\<lambda>t. tr_gate_mode t = prefix) ledger;
                   valid = filter (\<lambda>t. \<not> feq (tr_notional t) (Fin 0)) subset
               in if valid = [] then Inr 0
                  else
                    let recomputed = fmul (pd_mean ops (returns ops tr_realistic_pnl valid)) (Fin 10000);
                        denom = py_max (fabs recomputed) (fl (1 / 10 ^ 12))
                    in res_bind (float_operand ptq_value) (\<lambda>ptq.
                         let rel_err = np_div ops (fabs (fsub ptq recomputed)) denom
                         in Inr (if flt P9_RELATIVE_TOLERANCE rel_err then 1 else 0)))"

definition check_p9 :: "numpy_ops \<Rightarrow> trade_record list \<Rightarrow> metrics_dict \<Rightarrow> int res" where
  "check_p9 ops ledger summary =
     (let zero_notional_count = int (length (filter (\<lambda>t. feq (tr_notional t) (Fin 0)) ledger))
      in res_bind (check_p9_mode ops ledger summary ''nogate'') (\<lambda>a.
         res_bind (check_p9_mode ops ledger summary ''gate001'') (\<lambda>b.
           Inr (zero_notional_count + a + b))))"

text \<open>\<open>a + b\<close> and \<open>v == n\<close> for an integer \<open>n\<close>, on values of a dictionary\<close>

fun as_int :: "json \<Rightarrow> int option" where
  "as_int (JInt i) = Some i"
| "as_int (JBool b) = Some (if b then 1 else 0)"
| "as_int _ = None"

definition json_add :: "json \<Rightarrow> json \<Rightarrow> json res" where
  "json_add a b =
     (case (as_int a, as_int b) of
        (Some i, Some j) \<Rightarrow> Inr (JInt (i + j))
      | _ \<Rightarrow> (case (a, b) of
                (JStr s, JStr t) \<Rightarrow> Inr (JStr (s @ t))
              | (JList xs, JList ys) \<Rightarrow> Inr (JList (xs @ ys))
              | _ \<Rightarrow> res_bind (float_operand a) (\<lambda>x. res_bind (float_operand b) (\<lambda>y. Inr (JFloat (fadd x y))))))"

fun equals_int :: "json \<Rightarrow> int \<Rightarrow> bool" where
  "equals_int (JInt i) n = (i = n)"
| "equals_int (JFloat x) n = (x = Fin (of_int n))"
| "equals_int (JBool b) n = ((if b then 1 else 0) = n)"
| "equals_int _ n = False"

definition check_p12_mode :: "metrics_dict \<Rightarrow> string \<Rightarrow> int res" where
  "check_p12_mode summary prefix =
     (if \<not> dict_has summary (prefix @ ''_active_silo_sum_pct'')
        \<or> \<not> dict_has summary (prefix @ ''_calendar_normalized_return_pct'') then Inr 1
      else case (dict_get summary (prefix @ ''_active_months''), dict_get summary (prefix @ ''_empty_months'')) of
        (Some active, Some empty_m) \<Rightarrow>
          if active \<noteq> JNull \<and> empty_m \<noteq> JNull
          then res_bind (json_add active empty_m) (\<lambda>total. Inr (if \<not> equals_int total TOTAL_SILOS then 1 else 0))
          else Inr 0
      | _ \<Rightarrow> Inr 0)"

definition check_p12 :: "metrics_dict \<Rightarrow> int res" where
  "check_p12 summary =
     res_bind (check_p12_mode summary ''nogate'') (\<lambda>a.
     res_bind (check_p12_mode summary ''gate001'') (\<lambda>b. Inr (a + b)))"

text \<open>The dictionary of the result; the entries that are not arguments are never assigned.\<close>

definition violations_dict :: "int \<Rightarrow> int \<Rightarrow> int \<Rightarrow> int \<Rightarrow> bool \<Rightarrow> metrics_dict" where
  "violations_dict p3 p4 p9 p12 live =
     [(''P1_missing_trigger_count'', JInt 0), (''P1_spurious_trigger_count'', JInt 0),
      (''P3_count'', JInt p3), (''P4_count'', JInt p4), (''P5_count'', JInt 0), (''P6_count'', JInt 0),
      (''P7_ledger_sha256_pairs'', JList []), (''P8_count'', JInt 0), (''P9_count'', JInt p9),
      (''P10_count'', JInt (if live then 1 else 0)), (''P11_count'', JInt 0), (''P12_count'', JInt p12),
      (''live_output_emitted'', JBool live)]"

definition check_invariants :: "numpy_ops \<Rightarrow> trade_record list \<Rightarrow> metrics_dict \<Rightarrow> metrics_dict res" where
  "check_invariants ops ledger summary =
     res_bind (check_p9 ops ledger summary) (\<lambda>p9.
     res_bind (check_p12 summary) (\<lambda>p12.
       Inr (violations_dict (check_p3 ledger) (check_p4 ledger) p9 p12 (flag_of summary ''live_output_emitted''))))"

definition count_keys :: "string list" where
  "count_keys =
     [''P1_missing_trigger_count'', ''P1_spurious_trigger_count'', ''P3_count'', ''P4_count'', ''P5_count'',
      ''P6_count'', ''P8_count'', ''P9_count'', ''P10_count'', ''P11_count'', ''P12_count'']"

fun any_positive :: "metrics_dict \<Rightarrow> string list \<Rightarrow> bool res" where
  "any_positive d [] = Inr False"
| "any_positive d (k # ks) =
     res_bind (count_or_zero d k) (\<lambda>n. if flt (Fin 0) n then Inr True else any_positive d ks)"

definition has_violations :: "metrics_dict \<Rightarrow> bool res" where
  "has_violations violations =
     res_bind (any_positive violations count_keys) (\<lambda>b.
       Inr (b \<or> flag_of violations ''P7_ledger_sha256_pairs'' \<or> flag_of violations ''live_output_emitted''))"

section \<open>ViolationsMarkdownWriter\<close>

definition PROPERTY_DESCRIPTIONS :: "(string \<times> string) list" where
  "PROPERTY_DESCRIPTIONS =
     [(''P1_missing_trigger'',
        ''Intrabar breakout semantic violated: trigger condition met but no trigger_ts ''
        @ ''generated.''),
      (''P1_spurious_trigger'',
        ''Intrabar breakout semantic violated: no trigger condition but trigger_ts was ''
        @ ''spuriously generated.''),
      (''P3'',
        ''Trades per bar bound violated: same signal bar has more than ''
        @ ''max_trades_per_bar=2 real entries.''),
      (''P4'',
        ''Cost model monotonicity violated: realistic_taker_both_pnl <= realistic_pnl <= ''
        @ ''slip_pnl <= raw_pnl not satisfied within relative tolerance 1e-9.''),
      (''P5'',
        ''Point-in-time features only violated: canary column (signal bar full OHLC) was ''
        @ ''accessed during entry gating.''),
      (''P6'',
        ''Walk-forward window non-overlap violated: train/validation/execute windows are ''
        @ ''not pairwise disjoint or execute.start < validation.end.''),
      (''P7'',
        ''Bit-identical ledger violated: two independent runs with same ''
        @ ''candidate_id/seed/events produced different sha256 digests for the ledger CSV.''),
      (''P8'',
        ''Round-trip serialization violated: summary JSON decode-then-encode does not ''
        @ ''produce value-equivalent content (numeric relative error > 1e-12) or ledger ''
        @ ''column order mismatch.''),
      (''P9'',
        ''Per-trade quality reporting violated: per_trade_quality_bps_over_notional field ''
        @ ''missing, null when trade_count > 0, or recomputation mismatch exceeds tolerance ''
        @ ''1e-6.''),
      (''P10'',
        ''No live config output violated: live configuration artifacts were emitted by the ''
        @ ''research harness.''),
      (''P11'',
        ''Entry price mode fallback explicit violated: post_touch_pullback_limit unfilled ''
        @ ''event appeared in ledger trade rows.''),
      (''P12'',
        ''Metric normalization both reported violated: active_silo_sum_pct and ''
        @ ''calendar_normalized_return_pct not both present, or active_months + empty_months ''
        @ ''!= 22.'')]"

definition counterexample_path :: "string \<Rightarrow> string \<Rightarrow> string" where
  "counterexample_path property_id candidate_id =
     ''research/tmp_entry_redesign_invariant_counterexamples/'' @ property_id @ ''_'' @ candidate_id @ ''.json''"

record violation_entry =
  ve_property_id :: string
  ve_candidate_id :: string
  ve_counterexample_json_path :: string
  ve_human_readable_summary :: string

definition violation_entry_of :: "string \<Rightarrow> string \<Rightarrow> string \<Rightarrow> string \<Rightarrow> violation_entry res" where
  "violation_entry_of property_id description candidate_id suffix =
     res_bind (dict_item PROPERTY_DESCRIPTIONS description) (\<lambda>text.
       Inr \<lparr>ve_property_id = property_id, ve_candidate_id = candidate_id,
            ve_counterexample_json_path = counterexample_path property_id candidate_id,
            ve_human_readable_summary = text @ '' '' @ suffix\<rparr>)"

definition count_properties :: "(string \<times> string \<times> string) list" where
  "count_properties =
     [(''P1_missing_trigger_count'', ''P1'', ''P1_missing_trigger''),
      (''P1_spurious_trigger_count'', ''P1'', ''P1_spurious_trigger''),
      (''P3_count'', ''P3'', ''P3''), (''P4_count'', ''P4'', ''P4''), (''P5_count'', ''P5'', ''P5''),
      (''P6_count'', ''P6'', ''P6''), (''P8_count'', ''P8'', ''P8''), (''P9_count'', ''P9'', ''P9''),
      (''P10_count'', ''P10'', ''P10''), (''P11_count'', ''P11'', ''P11''), (''P12_count'', ''P12'', ''P12'')]"

fun collect_counts ::
  "metrics_dict \<Rightarrow> string \<Rightarrow> (string \<times> string \<times> string) list \<Rightarrow> violation_entry list res" where
  "collect_counts violations candidate_id [] = Inr []"
| "collect_counts violations candidate_id ((key, prop_id, description) # ps) =
     (let v = (case dict_get violations key of None \<Rightarrow> JInt 0 | Some v \<Rightarrow> v)
      in res_bind (py_num v) (\<lambda>count.
         if flt (Fin 0) count
         then res_bind (py_str_of v) (\<lambda>n.
              res_bind (violation_entry_of prop_id description candidate_id (''Count: '' @ n @ ''.'')) (\<lambda>e.
              res_bind (collect_counts violations candidate_id ps) (\<lambda>es. Inr (e # es))))
         else collect_counts violations candidate_id ps))"

fun json_len :: "json \<Rightarrow> int res" where
  "json_len (JList xs) = Inr (int (length xs))"
| "json_len (JDict d) = Inr (int (length d))"
| "json_len (JStr s) = Inr (int (length s))"
| "json_len _ = Inl TypeError"

definition collect_violations :: "metrics_dict \<Rightarrow> string \<Rightarrow> violation_entry list res" where
  "collect_violations violations candidate_id =
     res_bind (collect_counts violations candidate_id count_properties) (\<lambda>entries.
     res_bind
       (case dict_get violations ''P7_ledger_sha256_pairs'' of
          None \<Rightarrow> Inr []
        | Some p7_pairs \<Rightarrow>
            if truthy p7_pairs
            then res_bind (json_len p7_pairs) (\<lambda>n.
                 res_bind (violation_entry_of ''P7'' ''P7'' candidate_id
                             (''Mismatched pairs: '' @ str_int n @ ''.'')) (\<lambda>e. Inr [e]))
            else Inr [])
       (\<lambda>p7.
     res_bind
       (if flag_of violations ''live_output_emitted''
          \<and> \<not> list_ex (\<lambda>e. ve_property_id e = ''P10'') (entries @ p7)
        then res_bind (violation_entry_of ''P10'' ''P10'' candidate_id ''live_output_emitted=true.'')
               (\<lambda>e. Inr [e])
        else Inr [])
       (\<lambda>p10. Inr (entries @ p7 @ p10))))"

text \<open>The section of the \<open>i\<close>-th entry, counted from one.\<close>

definition entry_lines :: "int \<Rightarrow> violation_entry \<Rightarrow> string list" where
  "entry_lines i e =
     [''## '' @ str_int i @ ''. Property '' @ ve_property_id e, [],
      ''- **property_id**: `'' @ ve_property_id e @ ''`'',
      ''- **candidate_id**: `'' @ ve_candidate_id e @ ''`'',
      ''- **counterexample_json_path**: `'' @ ve_counterexample_json_path e @ ''`'',
      ''- **human_readable_summary**: '' @ ve_human_readable_summary e, []]"

definition build_markdown :: "violation_entry list \<Rightarrow> string \<Rightarrow> string list" where
  "build_markdown violation_entries candidate_id =
     [''# Invariant Violations: '' @ candidate_id, [],
      ''Entry_Candidate `'' @ candidate_id @ ''` has '' @ str_int (int (length violation_entries))
        @ '' invariant violation(s).'', []]
     @ concat (map (\<lambda>(i, e). entry_lines (int i) e) (enumerate 1 violation_entries))"

definition violations_path :: "string \<Rightarrow> string \<Rightarrow> string" where
  "violations_path output_dir candidate_id =
     path_join output_dir (''tmp_entry_redesign_'' @ candidate_id @ ''_invariant_violations.md'')"

definition write_violations :: "metrics_dict \<Rightarrow> string \<Rightarrow> string \<Rightarrow> fs \<Rightarrow> (string option \<times> fs) res" where
  "write_violations violations candidate_id output_dir fs =
     res_bind (collect_violations violations candidate_id) (\<lambda>violation_entries.
       if violation_entries = [] then Inr (None, fs)
       else
         let out_path = violations_path output_dir candidate_id;
             content = str_join nl (build_markdown violation_entries candidate_id) @ nl
         in Inr (Some out_path, fs(out_path \<mapsto> content)))"

section \<open>SummaryJsonWriter\<close>

definition INVARIANT_VIOLATIONS_REQUIRED_FIELDS :: "string list" where
  "INVARIANT_VIOLATIONS_REQUIRED_FIELDS =
     [''P1_missing_trigger_count'', ''P1_spurious_trigger_count'', ''P3_count'', ''P4_count'', ''P5_count'',
      ''P6_count'', ''P7_ledger_sha256_pairs'', ''P8_count'', ''P9_count'', ''P10_count'', ''P11_count'',
      ''P12_count'', ''live_output_emitted'']"

definition REQUIRED_TOP_LEVEL_FIELDS :: "string list" where
  "REQUIRED_TOP_LEVEL_FIELDS =
     [''baseline_reference'', ''asymmetry_tag'', ''small_sample_flag'', ''event_expectation_positive'',
      ''event_expectation_positive_btc_only'', ''event_expectation_positive_eth_only'',
      ''walkforward_config'', ''gate001_snapshot_ref'']"

definition format_float_fixed :: "pyfloat \<Rightarrow> string" where
  "format_float_fixed x = trim_fraction (fixed_str 15 x)"

definition summary_encode_value :: "json \<Rightarrow> string" where
  "summary_encode_value v = encode_json format_float_fixed True 0 v"

definition validate_invariant_violations :: "metrics_dict \<Rightarrow> unit res" where
  "validate_invariant_violations summary =
     (case dict_get summary ''invariant_violations'' of
        Some (JDict iv) \<Rightarrow>
          let missing = filter (\<lambda>field. \<not> dict_has iv field) INVARIANT_VIOLATIONS_REQUIRED_FIELDS
          in if missing \<noteq> [] then Inl ValueError else Inr ()
      | _ \<Rightarrow> Inl ValueError)"

definition validate_top_level_fields :: "metrics_dict \<Rightarrow> unit res" where
  "validate_top_level_fields summary =
     (let missing = filter (\<lambda>field. \<not> dict_has summary field) REQUIRED_TOP_LEVEL_FIELDS
      in if missing \<noteq> [] then Inl ValueError else Inr ())"

definition write_summary :: "metrics_dict \<Rightarrow> string \<Rightarrow> fs \<Rightarrow> fs res" where
  "write_summary summary path fs =
     res_bind (validate_invariant_violations summary) (\<lambda>_.
     res_bind (validate_top_level_fields summary) (\<lambda>_.
       Inr (fs(path \<mapsto> ensure_lf (summary_encode_value (JDict summary))))))"


section \<open>The counts of the checker\<close>

text \<open>
  The count of P3 is zero exactly if no signal bar has more than two rows for a symbol and a gate mode.
\<close>

theorem check_p3_zero_iff:
  "check_p3 ledger = 0 \<longleftrightarrow> (\<forall>k. length (filter (\<lambda>t. bar_key t = k) ledger) \<le> MAX_TRADES_PER_BAR)"
proof -
  have "filter (\<lambda>t. bar_key t = k) ledger = []" if "k \<notin> bar_key ` set ledger" for k
    using that by (auto simp: filter_empty_conv)
  then have "(\<forall>k \<in> bar_key ` set ledger. length (filter (\<lambda>t. bar_key t = k) ledger) \<le> MAX_TRADES_PER_BAR)
    \<longleftrightarrow> (\<forall>k. length (filter (\<lambda>t. bar_key t = k) ledger) \<le> MAX_TRADES_PER_BAR)"
    by (metis le0 list.size(3))
  then show ?thesis
    by (simp add: check_p3_def Let_def filter_empty_conv not_less)
qed

lemma P4_tolerance_pos: "\<exists>e > 0. P4_RELATIVE_TOLERANCE = Fin e"
proof -
  have "case P4_RELATIVE_TOLERANCE of Fin e \<Rightarrow> 0 < e | _ \<Rightarrow> False" by code_simp
  then show ?thesis by (auto split: pyfloat.splits)
qed

lemma P9_tolerances_pos: "\<exists>e > 0. P9_RELATIVE_TOLERANCE = Fin e" "\<exists>e > 0. fl (1 / 10 ^ 12) = Fin e"
proof -
  have "case P9_RELATIVE_TOLERANCE of Fin e \<Rightarrow> 0 < e | _ \<Rightarrow> False" by code_simp
  then show "\<exists>e > 0. P9_RELATIVE_TOLERANCE = Fin e" by (auto split: pyfloat.splits)
  have "case fl (1 / 10 ^ 12) of Fin e \<Rightarrow> 0 < e | _ \<Rightarrow> False" by code_simp
  then show "\<exists>e > 0. fl (1 / 10 ^ 12) = Fin e" by (auto split: pyfloat.splits)
qed

lemma py_max_Fin: "py_max (Fin a) (Fin b) = Fin (max a b)"
  by (simp add: py_max_def flt_def max_def)

text \<open>The tolerance only weakens the comparison.\<close>

lemma not_flt_add:
  assumes "fle a b" and "is_f64 b"
  shows "\<not> flt (fadd b (fmul (py_max (fabs b) (Fin 1)) P4_RELATIVE_TOLERANCE)) a"
proof -
  obtain e where e: "0 < e" "P4_RELATIVE_TOLERANCE = Fin e" using P4_tolerance_pos by blast
  show ?thesis
  proof (cases b)
    case (Fin x)
    obtain m where m: "py_max (fabs b) (Fin 1) = Fin m" "0 \<le> m"
      using that [of "max \<bar>x\<bar> 1"] by (simp add: Fin py_max_Fin)
    have "fle (Fin 0) (fl (m * e))" using m e by (simp add: fl_nonneg)
    then have "fle (fadd b (Fin 0)) (fadd b (fl (m * e)))"
      using Fin by (intro fadd_mono) (auto simp: fle_refl_iff)
    then have "fle a (fadd b (fl (m * e)))" using assms fle_trans by auto
    then show ?thesis using m unfolding e(2) by (simp add: flt_def)
  qed (use assms e(1) in \<open>unfold e(2), auto simp: py_max_def flt_def\<close>)
qed

lemma check_p4_ladder:
  assumes "\<And>t. t \<in> set ledger \<Longrightarrow> fle (tr_realistic_taker_both_pnl t) (tr_realistic_pnl t)
      \<and> fle (tr_realistic_pnl t) (tr_slip_pnl t) \<and> fle (tr_slip_pnl t) (tr_raw_pnl t)"
    and "\<And>t. t \<in> set ledger \<Longrightarrow> is_f64 (tr_realistic_pnl t) \<and> is_f64 (tr_slip_pnl t) \<and> is_f64 (tr_raw_pnl t)"
  shows "check_p4 ledger = 0"
  using assms not_flt_add by (auto simp: check_p4_def monotonicity_holds_def Let_def filter_empty_conv)

section \<open>The checker accepts the figures of the aggregator\<close>

lemma metrics_lookups:
  assumes "compute_metrics ops df n = Inr m"
  shows "dict_get m ''trade_count'' = Some (JInt (int (length df)))"
    and "dict_get m ''per_trade_quality_bps_over_notional'' =
      Some (if df = [] then JNull else JFloat (fmul (np_mean ops (returns ops tr_realistic_pnl df)) (Fin 10000)))"
    and "dict_has m ''active_silo_sum_pct''" and "dict_has m ''calendar_normalized_return_pct''"
    and "\<exists>a. dict_get m ''active_months'' = Some (JInt a) \<and> dict_get m ''empty_months'' = Some (JInt (n - a))"
  using assms
  by (auto simp: compute_metrics_def Let_def res_bind_eq_Inr_iff dict_get_def dict_has_def split: if_splits)

lemma rel_err_zero:
  assumes "\<And>x y q. fdiv x y = Some q \<Longrightarrow> np_div ops x y = q"
  shows "\<not> flt P9_RELATIVE_TOLERANCE (np_div ops (fabs (fsub p p)) (py_max (fabs p) (fl (1 / 10 ^ 12))))"
proof -
  obtain e t where e: "0 < e" "fl (1 / 10 ^ 12) = Fin e" and t: "0 < t" "P9_RELATIVE_TOLERANCE = Fin t"
    using P9_tolerances_pos by blast
  show ?thesis
  proof (cases p)
    case (Fin x)
    obtain d where d: "py_max (fabs p) (fl (1 / 10 ^ 12)) = Fin d" "0 < d"
      using that [of "max \<bar>x\<bar> e"] e(1) unfolding e(2) by (simp add: Fin py_max_Fin)
    have "np_div ops (Fin 0) (Fin d) = Fin 0" using assms d by simp
    then show ?thesis using d t(1) Fin unfolding t(2) by (simp add: fsub_def flt_def)
  next
    case NaN
    have "np_div ops NaN NaN = NaN" using assms by simp
    then show ?thesis using NaN unfolding t(2) by (simp add: py_max_def flt_def)
  qed (use assms [of NaN PInf NaN] e in \<open>unfold t(2), simp_all add: py_max_def flt_def fsub_def\<close>)
qed

text \<open>
  The checker takes the mean of the returns with \<open>pandas\<close> (\<open>checker.py:106\<close>), the aggregator with
  \<open>numpy\<close>. Neither library documents how it rounds, so the two means may differ; \<open>means_differ\<close> says
  that they do so by more than the checker tolerates.
\<close>

definition means_differ :: "numpy_ops \<Rightarrow> pyfloat list \<Rightarrow> bool" where
  "means_differ ops rs \<longleftrightarrow> rs \<noteq> [] \<and>
     (let quality = fmul (np_mean ops rs) (Fin 10000); recomputed = fmul (pd_mean ops rs) (Fin 10000)
      in flt P9_RELATIVE_TOLERANCE
           (np_div ops (fabs (fsub quality recomputed)) (py_max (fabs recomputed) (fl (1 / 10 ^ 12)))))"

definition mode_means_differ :: "numpy_ops \<Rightarrow> trade_record list \<Rightarrow> string \<Rightarrow> bool" where
  "mode_means_differ ops ledger mode \<longleftrightarrow>
     means_differ ops (returns ops tr_realistic_pnl (filter (\<lambda>t. tr_gate_mode t = mode) ledger))"

lemma means_differ_Nil [simp]: "\<not> means_differ ops []" "\<not> mode_means_differ ops [] mode"
  by (simp_all add: means_differ_def mode_means_differ_def returns_def)

definition checked_figures :: "string list" where
  "checked_figures =
     [''trade_count'', ''per_trade_quality_bps_over_notional'', ''active_silo_sum_pct'',
      ''calendar_normalized_return_pct'', ''active_months'', ''empty_months'']"

lemma p12_mode_accepts:
  assumes "compute_metrics ops rows TOTAL_SILOS = Inr m"
    and "\<And>k. k \<in> set checked_figures \<Longrightarrow> dict_get summary (prefix @ ''_'' @ k) = dict_get m k"
  shows "check_p12_mode summary prefix = Inr 0"
proof -
  note k = assms(2) [of "''active_silo_sum_pct''"] assms(2) [of "''calendar_normalized_return_pct''"]
    assms(2) [of "''active_months''"] assms(2) [of "''empty_months''"]
  show ?thesis
    using metrics_lookups(3-5) [OF assms(1)] k
    by (auto simp: check_p12_mode_def dict_has_iff checked_figures_def json_add_def)
qed

lemma p9_mode_counts:
  assumes "compute_metrics ops (filter (\<lambda>t. tr_gate_mode t = mode) ledger) n = Inr m"
    and "\<And>k. k \<in> set checked_figures \<Longrightarrow> dict_get summary (mode @ ''_'' @ k) = dict_get m k"
    and notional: "\<And>t. t \<in> set ledger \<Longrightarrow> \<not> feq (tr_notional t) (Fin 0)"
  shows "check_p9_mode ops ledger summary mode = Inr (of_bool (mode_means_differ ops ledger mode))"
proof -
  let ?rows = "filter (\<lambda>t. tr_gate_mode t = mode) ledger"
  have valid: "filter (\<lambda>t. \<not> feq (tr_notional t) (Fin 0)) ?rows = ?rows"
    using notional by (intro filter_True) auto
  note k = assms(2) [of "''per_trade_quality_bps_over_notional''"] assms(2) [of "''trade_count''"]
  have Nil: "returns ops tr_realistic_pnl rows = [] \<longleftrightarrow> rows = []" for rows by (simp add: returns_def)
  show ?thesis
    using metrics_lookups(1,2) [OF assms(1)] k
    unfolding check_p9_mode_def mode_means_differ_def means_differ_def Let_def valid Nil
    by (auto simp: checked_figures_def)
qed

lemma figures_counted:
  assumes "aggregate ops ledger TOTAL_SILOS = Inr metrics"
    and "\<And>k. k \<in> set checked_figures \<Longrightarrow> dict_get summary (''nogate_'' @ k) = dict_get metrics (''nogate_'' @ k)"
    and "\<And>k. k \<in> set checked_figures \<Longrightarrow> dict_get summary (''gate001_'' @ k) = dict_get metrics (''gate001_'' @ k)"
    and notional: "\<And>t. t \<in> set ledger \<Longrightarrow> \<not> feq (tr_notional t) (Fin 0)"
  shows "check_p9 ops ledger summary =
      Inr (of_bool (mode_means_differ ops ledger ''nogate'') + of_bool (mode_means_differ ops ledger ''gate001''))"
    and "check_p12 summary = Inr 0"
proof -
  obtain m1 m2 where
    m1: "compute_metrics ops (filter (\<lambda>t. tr_gate_mode t = ''nogate'') ledger) TOTAL_SILOS = Inr m1" and
    m2: "compute_metrics ops (filter (\<lambda>t. tr_gate_mode t = ''gate001'') ledger) TOTAL_SILOS = Inr m2" and
    get: "\<And>k. dict_get metrics (''nogate_'' @ k) = dict_get m1 k" "\<And>k. dict_get metrics (''gate001_'' @ k) = dict_get m2 k"
    using aggregate_get [OF assms(1)] by metis
  have k1: "dict_get summary (''nogate'' @ ''_'' @ k) = dict_get m1 k" if "k \<in> set checked_figures" for k
    using get(1) [of k] assms(2) [OF that] by simp
  have k2: "dict_get summary (''gate001'' @ ''_'' @ k) = dict_get m2 k" if "k \<in> set checked_figures" for k
    using get(2) [of k] assms(3) [OF that] by simp
  note p9 = p9_mode_counts [OF m1 k1 notional] p9_mode_counts [OF m2 k2 notional]
  have "filter (\<lambda>t. feq (tr_notional t) (Fin 0)) ledger = []"
    using notional by (auto simp: filter_empty_conv)
  then show "check_p9 ops ledger summary =
      Inr (of_bool (mode_means_differ ops ledger ''nogate'') + of_bool (mode_means_differ ops ledger ''gate001''))"
    using p9 by (simp add: check_p9_def Let_def)
  show "check_p12 summary = Inr 0"
    using p12_mode_accepts [OF m1 k1] p12_mode_accepts [OF m2 k2] by (simp add: check_p12_def)
qed

text \<open>The reference instance sums both means the same way.\<close>

lemma ref_means_agree:
  assumes "NaN \<notin> set rs"
  shows "\<not> means_differ ref_numpy rs"
proof -
  have "filter (\<lambda>x. x \<noteq> NaN) rs = rs" using assms by (induction rs) auto
  then have "pd_mean ref_numpy rs = np_mean ref_numpy rs" by (simp add: ref_numpy_def)
  moreover have "fdiv x y = Some q \<Longrightarrow> np_div ref_numpy x y = q" for x y q by (rule ref.div_plain)
  ultimately show ?thesis using rel_err_zero [of ref_numpy] by (auto simp: means_differ_def Let_def)
qed

section \<open>The verdict\<close>

lemma int_positive: "flt (Fin 0) (Fin (of_int i)) \<longleftrightarrow> 0 < i"
  by (auto simp: flt_def)

lemma violations_dict_simps:
  "map fst (violations_dict p3 p4 p9 p12 live) = INVARIANT_VIOLATIONS_REQUIRED_FIELDS"
  "has_violations (violations_dict p3 p4 p9 p12 live) = Inr (0 < p3 \<or> 0 < p4 \<or> 0 < p9 \<or> 0 < p12 \<or> live)"
  by (simp add: violations_dict_def INVARIANT_VIOLATIONS_REQUIRED_FIELDS_def)
     (auto simp: violations_dict_def has_violations_def count_keys_def count_or_zero_def dict_get_def
        int_positive flag_of_def flt_def)

text \<open>
  The verdict on a checked ledger: the result of \<open>check\<close> has exactly the thirteen fields of the
  schema, \<open>has_violations\<close> never raises on it, and it is true exactly if one of the counts of P3, P4, P9
  and P12 is positive or live output was reported. The other counts of the schema are always zero.
\<close>

theorem has_violations_iff:
  assumes "check_invariants ops ledger summary = Inr v"
  shows "map fst v = INVARIANT_VIOLATIONS_REQUIRED_FIELDS
    \<and> (\<exists>p9 p12. check_p9 ops ledger summary = Inr p9 \<and> check_p12 summary = Inr p12
        \<and> has_violations v = Inr (0 < check_p3 ledger \<or> 0 < check_p4 ledger \<or> 0 < p9 \<or> 0 < p12
            \<or> flag_of summary ''live_output_emitted''))"
  using assms by (auto simp: check_invariants_def res_bind_eq_Inr_iff violations_dict_simps)

theorem has_violations_iff_witness:
  "\<exists>v. check_invariants ref_numpy [] [] = Inr v \<and> map fst v = INVARIANT_VIOLATIONS_REQUIRED_FIELDS
     \<and> has_violations v = Inr True"
proof -
  let ?v = "violations_dict 0 0 2 2 False"
  have "check_invariants ref_numpy [] [] = Inr ?v" by code_simp
  then show ?thesis using has_violations_iff [of ref_numpy "[]" "[]" ?v] by (simp add: violations_dict_simps)
qed

text \<open>The counts that the report reads: each is present, and an entry is added for each positive one.\<close>

lemma violation_entry_total:
  "d \<in> fst ` set PROPERTY_DESCRIPTIONS \<Longrightarrow> \<exists>e. violation_entry_of p d cid sfx = Inr e"
proof -
  assume "d \<in> fst ` set PROPERTY_DESCRIPTIONS"
  then obtain w where "map_of PROPERTY_DESCRIPTIONS d = Some w"
    using map_of_eq_None_iff [of PROPERTY_DESCRIPTIONS d] by (metis not_None_eq)
  then show ?thesis by (simp add: violation_entry_of_def dict_item_def)
qed

lemma collect_counts_spec:
  assumes "\<forall>(k, p, d) \<in> set ps. d \<in> fst ` set PROPERTY_DESCRIPTIONS \<and> dict_get v k = Some (JInt (n k))"
  shows "\<exists>es. collect_counts v cid ps = Inr es \<and> (es = [] \<longleftrightarrow> (\<forall>(k, p, d) \<in> set ps. n k \<le> 0))"
  using assms
proof (induction ps)
  case (Cons q ps)
  obtain k p d where q: "q = (k, p, d)" by (cases q)
  obtain es where es: "collect_counts v cid ps = Inr es" "es = [] \<longleftrightarrow> (\<forall>(k, p, d) \<in> set ps. n k \<le> 0)"
  proof -
    have "\<forall>(k, p, d) \<in> set ps. d \<in> fst ` set PROPERTY_DESCRIPTIONS \<and> dict_get v k = Some (JInt (n k))"
      using Cons.prems by simp
    from Cons.IH [OF this] show thesis using that by blast
  qed
  obtain e where "violation_entry_of p d cid (''Count: '' @ str_int (n k) @ ''.'') = Inr e"
    using Cons.prems violation_entry_total q by fastforce
  then show ?case using es Cons.prems by (auto simp: q int_positive)
qed simp

lemma count_properties_described:
  "list_all (\<lambda>(k, p, d). List.member (map fst PROPERTY_DESCRIPTIONS) d) count_properties"
  by code_simp

lemma collect_violations_dict:
  "\<exists>es. collect_violations (violations_dict p3 p4 p9 p12 live) cid = Inr es
     \<and> (es = [] \<longleftrightarrow> \<not> (0 < p3 \<or> 0 < p4 \<or> 0 < p9 \<or> 0 < p12 \<or> live))"
proof -
  let ?v = "violations_dict p3 p4 p9 p12 live"
  define n where "n k = (case dict_get ?v k of Some (JInt i) \<Rightarrow> i | _ \<Rightarrow> 0)" for k
  have get: "\<forall>(k, p, d) \<in> set count_properties. dict_get ?v k = Some (JInt (n k))"
    by (simp add: count_properties_def n_def violations_dict_def dict_get_def)
  have desc: "\<forall>(k, p, d) \<in> set count_properties. d \<in> fst ` set PROPERTY_DESCRIPTIONS"
    using count_properties_described by (simp add: list_all_iff case_prod_beta)
  obtain es where es: "collect_counts ?v cid count_properties = Inr es"
    "es = [] \<longleftrightarrow> (\<forall>(k, p, d) \<in> set count_properties. n k \<le> 0)"
    using collect_counts_spec [of count_properties ?v n cid] get desc by (auto simp: case_prod_beta)
  have none: "es = [] \<longleftrightarrow> \<not> (0 < p3 \<or> 0 < p4 \<or> 0 < p9 \<or> 0 < p12 \<or> live)"
    unfolding es(2) by (auto simp: count_properties_def n_def violations_dict_def dict_get_def)
  have flags: "dict_get ?v ''P7_ledger_sha256_pairs'' = Some (JList [])" "flag_of ?v ''live_output_emitted'' = live"
    by (simp_all add: violations_dict_def dict_get_def flag_of_def)
  obtain e where "violation_entry_of ''P10'' ''P10'' cid ''live_output_emitted=true.'' = Inr e"
    using violation_entry_total [of "''P10''" "''P10''" cid "''live_output_emitted=true.''"] desc
    unfolding count_properties_def by force
  then show ?thesis using es(1) none flags by (auto simp: collect_violations_def)
qed

text \<open>
  The report agrees with the verdict: for every result of \<open>check\<close> the writer returns without raising;
  it writes the report, and nothing else, if \<open>has_violations\<close> holds, and otherwise changes no file.
\<close>

theorem violations_written_iff:
  assumes "check_invariants ops ledger summary = Inr v"
  shows "has_violations v = Inr False \<and> write_violations v cid dir fs = Inr (None, fs)
    \<or> has_violations v = Inr True
      \<and> (\<exists>content. write_violations v cid dir fs
           = Inr (Some (violations_path dir cid), fs(violations_path dir cid \<mapsto> content)))"
proof -
  obtain p3 p4 p9 p12 live where v: "v = violations_dict p3 p4 p9 p12 live"
    using assms by (auto simp: check_invariants_def res_bind_eq_Inr_iff)
  obtain es where "collect_violations v cid = Inr es"
    "es = [] \<longleftrightarrow> \<not> (0 < p3 \<or> 0 < p4 \<or> 0 < p9 \<or> 0 < p12 \<or> live)"
    using collect_violations_dict v by blast
  then show ?thesis by (auto simp: v write_violations_def Let_def violations_dict_simps)
qed

theorem violations_written_iff_witness:
  "\<exists>v content. check_invariants ref_numpy [] [] = Inr v
     \<and> write_violations v ''c'' ''research'' Map.empty
        = Inr (Some (violations_path ''research'' ''c''), [violations_path ''research'' ''c'' \<mapsto> content])"
proof -
  let ?v = "violations_dict 0 0 2 2 False"
  have "check_invariants ref_numpy [] [] = Inr ?v" by code_simp
  then show ?thesis
    using violations_written_iff [of ref_numpy "[]" "[]" ?v "''c''" "''research''" Map.empty]
    by (auto simp: violations_dict_simps)
qed

section \<open>The file of the summary\<close>

text \<open>
  The writer accepts a summary exactly if its \<open>invariant_violations\<close> is a dictionary with the thirteen
  fields of the schema and all the top-level fields are present; it then writes one file, ending in a
  line feed. Otherwise it raises \<open>ValueError\<close> and no file changes.
\<close>

theorem write_summary_iff:
  "write_summary summary path fs =
    (if (\<exists>iv. dict_get summary ''invariant_violations'' = Some (JDict iv)
           \<and> set INVARIANT_VIOLATIONS_REQUIRED_FIELDS \<subseteq> fst ` set iv)
        \<and> set REQUIRED_TOP_LEVEL_FIELDS \<subseteq> fst ` set summary
     then Inr (fs(path \<mapsto> ensure_lf (summary_encode_value (JDict summary)))) else Inl ValueError)"
proof -
  have iv: "validate_invariant_violations summary =
    (if \<exists>iv. dict_get summary ''invariant_violations'' = Some (JDict iv)
        \<and> set INVARIANT_VIOLATIONS_REQUIRED_FIELDS \<subseteq> fst ` set iv then Inr () else Inl ValueError)"
    by (auto simp: validate_invariant_violations_def filter_empty_conv dict_has_def
        split: option.splits json.splits)
  have top: "validate_top_level_fields summary =
    (if set REQUIRED_TOP_LEVEL_FIELDS \<subseteq> fst ` set summary then Inr () else Inl ValueError)"
    by (auto simp: validate_top_level_fields_def filter_empty_conv dict_has_def)
  show ?thesis unfolding write_summary_def iv top by simp
qed

text \<open>
  The fifteen decimal places keep the promised relative error of \<open>1e-12\<close> for every number of
  magnitude at least \<open>5e-4\<close>, but not below: there is a positive float that is printed as \<open>0.0\<close>.
\<close>

theorem format_float_fixed_error:
  "(5 / 10 ^ 4 \<le> \<bar>x\<bar> \<longrightarrow>
      is_fixed_point (format_float_fixed (Fin x))
      \<and> \<bar>decimal_value (format_float_fixed (Fin x)) - x\<bar> \<le> \<bar>x\<bar> / 10 ^ 12)
   \<and> (\<exists>y > 0. is_f64 (Fin y) \<and> format_float_fixed (Fin y) = ''0.0'')"
proof -
  have close: "\<bar>decimal_value (format_float_fixed (Fin x)) - x\<bar> \<le> 1 / (2 * 10 ^ 15)"
    "is_fixed_point (format_float_fixed (Fin x))"
    using trim_fraction_close [of 15 x] fixed_rat_close [of 15 x] by (simp_all add: format_float_fixed_def)
  have "\<bar>decimal_value (format_float_fixed (Fin x)) - x\<bar> \<le> \<bar>x\<bar> / 10 ^ 12" if "5 / 10 ^ 4 \<le> \<bar>x\<bar>"
  proof -
    have "(5 / 10 ^ 4) / 10 ^ 12 \<le> \<bar>x\<bar> / 10 ^ 12" using that by (rule divide_right_mono) simp
    then show ?thesis using close by simp
  qed
  moreover have "is_f64 (Fin (1 / 2 ^ 60)) \<and> format_float_fixed (Fin (1 / 2 ^ 60)) = ''0.0''" by code_simp
  moreover have "(0 :: rat) < 1 / 2 ^ 60" by simp
  ultimately show ?thesis using close(2) by blast
qed

theorem format_float_fixed_error_witness:
  "\<bar>decimal_value (format_float_fixed (Fin 1)) - 1\<bar> \<le> 1 / 10 ^ 12"
  using format_float_fixed_error [of 1] by simp

end
