(* ===== verification/RoundTrip.thy ===== *)
theory RoundTrip
  imports Invariants JsonLoads
begin

text \<open>
  The JSON files of the harness are read back as what was written: the recursive encoder of
  \<open>snapshot/runner_parameter_snapshot.py\<close> and \<open>summary/summary_json_writer.py\<close> against \<open>json.loads\<close>.
\<close>

section \<open>Floats in fixed-point notation\<close>

lemma dec_val_shift: "dec_val a f = a * 10 ^ length f + dec_val 0 f"
proof (induction f arbitrary: a)
  case (Cons c f)
  show ?case using Cons [of "10 * a + digit_val c"] Cons [of "digit_val c"] by (simp add: algebra_simps)
qed simp

lemma lex_decimal:
  assumes "0 \<le> w" and "list_all is_digit f" and "f \<noteq> []" and "ends_number r"
  shows "lex_unsigned sg (str_dec w @ CHR ''.'' # f @ r)
    = Some (JFloat (fl (of_int sg * decimal_abs (str_dec w @ CHR ''.'' # f))), r)"
proof -
  have a: "dec_val 0 (str_dec w @ f) = dec_val 0 (str_dec w) * 10 ^ length f + dec_val 0 f"
    using dec_val_shift [of "dec_val 0 (str_dec w)" f] by (simp add: dec_val_append)
  have b: "pow10 (0 - int (length f)) = 1 / 10 ^ length f" by (simp add: pow10_def)
  have c: "decimal_abs (str_dec w @ CHR ''.'' # f) = of_int (dec_val 0 (str_dec w)) + of_int (dec_val 0 f) / 10 ^ length f"
    using str_dec_digits [OF assms(1)] by (rule decimal_abs_parts)
  have v: "of_int (sg * dec_val 0 (str_dec w @ f)) * pow10 (0 - int (length f))
      = of_int sg * decimal_abs (str_dec w @ CHR ''.'' # f)"
    unfolding a b c by (simp add: field_simps)
  have "lex_unsigned sg (str_dec w @ (if f = [] then [] else CHR ''.'' # f) @ [] @ r)
      = Some (JFloat (fl (of_int (sg * dec_val 0 (str_dec w @ f)) * pow10 (0 - int (length f)))), r)"
    using assms int_digits_str_dec by (intro lex_unsigned_float) auto
  then show ?thesis unfolding v if_not_P [OF assms(3)] by simp
qed

text \<open>The float that a text with \<open>n\<close> decimal places denotes.\<close>

definition fixed_float :: "nat \<Rightarrow> pyfloat \<Rightarrow> pyfloat" where
  "fixed_float n x = (case x of Fin q \<Rightarrow> fl (decimal_value (fixed_rat n q)) | _ \<Rightarrow> x)"

lemma reads_trim_fraction:
  assumes "0 < n"
  shows "reads (trim_fraction (fixed_str n (Fin x))) (JFloat (fixed_float n (Fin x)))"
proof -
  define m where "m = rne (\<bar>x\<bar> * 10 ^ n)"
  define w f where "w = m div 10 ^ n" and "f = (let f = rstrip_zeros (zpad n (m mod 10 ^ n)) in if f = [] then ''0'' else f)"
  note d = fixed_rat_digits [of x n, folded m_def]
  have t: "trim_fraction (fixed_str n (Fin x)) = (if x < 0 then ''-'' else []) @ str_dec w @ CHR ''.'' # f"
    using trim_fraction_parts [of n x] by (simp add: m_def w_def f_def Let_def)
  have f: "list_all is_digit f" "f \<noteq> []"
    using zpad_digits [OF d(2), of n] rstrip_zeros_split [of "zpad n (m mod 10 ^ n)"]
    by (auto simp: f_def Let_def list_all_iff) (metis UnCI set_append)
  have w: "0 \<le> w" using d(1) by (simp add: w_def)
  obtain c cs where c: "str_dec w = c # cs" "is_digit c" using first_digit [OF w] by blast
  have v: "decimal_value (fixed_rat n x) = of_int (if x < 0 then - 1 else 1) * decimal_abs (str_dec w @ CHR ''.'' # f)"
    using trim_fraction_close(2) [OF assms, of x, unfolded t] c by (auto simp: decimal_value_simps)
  have "lex_number (trim_fraction (fixed_str n (Fin x)) @ r) = Some (JFloat (fixed_float n (Fin x)), r)" if "ends_number r" for r
  proof (cases "x < 0")
    case True
    then show ?thesis unfolding t using lex_decimal [OF w f that, of "- 1"] v by (simp add: lex_number_def fixed_float_def)
  next
    case False
    then show ?thesis
      unfolding t using lex_number_unsigned [OF lex_decimal [OF w f that, of 1]] v by (simp add: fixed_float_def)
  qed
  then show ?thesis using lex_number_token ends_value_number by (simp add: reads_def)
qed

section \<open>The recursive encoder\<close>

lemma str_join_indent:
  "xs \<noteq> [] \<Longrightarrow> str_join (s @ nl) (map (\<lambda>x. p @ f x) xs) = p @ str_join (s @ nl @ p) (map f xs)"
  by (induction xs rule: induct_list012) simp_all

lemma ws_spaces [simp]: "list_all is_ws (spaces n)" "list_all is_ws nl"
  by (simp_all add: spaces_def nl_def list_all_iff is_ws_def)

lemma reads_empty: "reads ''[]'' (JList [])" "reads ''{}'' (JDict [])"
  using reads_list [of "[]" undefined undefined "[]" "[]" "[]"] reads_dict [of "[]" undefined undefined "[]" "[]" "[]"]
  by simp_all

lemma reads_encode_json:
  assumes "\<And>x. P x \<Longrightarrow> reads (fmt x) (JFloat (g x))" and "all_floats P v"
  shows "reads (encode_json fmt sk ind v) (canon sk g v)"
  using assms
proof (induction fmt sk ind v rule: encode_json.induct)
  case (6 fmt sk ind xs)
  let ?sp = "spaces (ind + 2)"
  have "\<forall>x \<in> set xs. reads (encode_json fmt sk (ind + 2) x) (canon sk g x)"
    using 6 by (cases "xs = []") (auto simp: list_all_iff)
  from reads_list [OF this, of "nl @ ?sp" "nl @ ?sp" "nl @ spaces ind"] show ?case
    using str_join_indent [of xs "'',''" ?sp "encode_json fmt sk (ind + 2)"] by (cases "xs = []") (simp_all add: reads_empty)
next
  case (7 fmt sk ind d)
  let ?sp = "spaces (ind + 2)" and ?o = "if sk then sorted_items else id"
  have o: "?o (map (\<lambda>(k, v). (k, f v)) d) = map (\<lambda>(k, v). (k, f v)) (?o d)" for f :: "json \<Rightarrow> 'x"
    by (simp add: sorted_items_map)
  have ne: "?o d = [] \<longleftrightarrow> d = []" by (metis id_apply set_empty set_sorted_items(1))
  have "\<forall>(k, v) \<in> set (?o d). reads (encode_json fmt sk (ind + 2) v) (canon sk g v)"
    using 7 by (cases "d = []") (auto simp: list_all_iff)
  note r = reads_dict [OF this, of "nl @ ?sp" "nl @ ?sp" "nl @ spaces ind"]
  have j: "str_join ('','' @ nl) (map (\<lambda>(k, v). ?sp @ json_quote k @ '': '' @ encode_json fmt sk (ind + 2) v) (?o d))
      = ?sp @ str_join ('','' @ nl @ ?sp) (map (\<lambda>(k, v). json_quote k @ '': '' @ encode_json fmt sk (ind + 2) v) (?o d))" if "d \<noteq> []"
    using str_join_indent [of "?o d" "'',''" ?sp "\<lambda>(k, v). json_quote k @ '': '' @ encode_json fmt sk (ind + 2) v"] that ne
    by (simp add: case_prod_unfold)
  show ?case
  proof (cases "d = []")
    case False
    have e: "(if sk then sorted_items (map (\<lambda>(k, v). (k, encode_json fmt sk (ind + 2) v)) d)
        else map (\<lambda>(k, v). (k, encode_json fmt sk (ind + 2) v)) d) = map (\<lambda>(k, v). (k, encode_json fmt sk (ind + 2) v)) (?o d)"
      using o by (cases sk) simp_all
    show ?thesis
      using r j [OF False] False unfolding encode_json.simps canon.simps o e Let_def
      by (simp add: comp_def case_prod_unfold)
  next
    case True
    then show ?thesis by (simp add: sorted_items_def reads_empty)
  qed
qed (simp_all add: reads_word json_words_def reads_int reads_quote)

section \<open>The summary file\<close>

definition finite_float :: "pyfloat \<Rightarrow> bool" where
  "finite_float x = (case x of Fin _ \<Rightarrow> True | _ \<Rightarrow> False)"

lemma reads_summary:
  assumes "all_floats finite_float v"
  shows "reads (summary_encode_value v) (canon True (fixed_float 15) v)"
proof -
  have "reads (format_float_fixed x) (JFloat (fixed_float 15 x))" if "finite_float x" for x
    using that reads_trim_fraction [of 15] by (cases x) (auto simp: finite_float_def format_float_fixed_def simp del: fixed_str.simps)
  then show ?thesis unfolding summary_encode_value_def using assms by (rule reads_encode_json)
qed

lemma loads_ensure_lf:
  assumes "reads s v" and "distinct_keys v"
  shows "json_loads (ensure_lf s) = Inr v"
  using json_loads_reads [OF assms, of nl] json_loads_reads [OF assms, of "[]"] by (simp add: ensure_lf_def)

text \<open>
  C22. Every summary that the writer accepts, with finite floats and without repeated keys, is a valid
  JSON text: reading the file gives the same dictionary, its keys in order, every float replaced by the
  binary64 number nearest to its first fifteen decimal places.
\<close>

theorem summary_reads_back:
  assumes "write_summary summary path fs = Inr fs'"
    and "all_floats finite_float (JDict summary)" and "distinct_keys (JDict summary)"
  shows "\<exists>content. fs' path = Some content
    \<and> json_loads content = Inr (canon True (fixed_float 15) (JDict summary))"
  using assms(1) loads_ensure_lf [OF reads_summary [OF assms(2)] distinct_keys_canon [OF assms(3)]]
  by (auto simp: write_summary_def res_bind_eq_Inr_iff)

definition sample_summary :: metrics_dict where
  "sample_summary =
     (''invariant_violations'', JDict (violations_dict 0 0 0 0 False))
     # map (\<lambda>k. (k, JFloat (fl (1 / 3)))) REQUIRED_TOP_LEVEL_FIELDS"

theorem summary_reads_back_witness:
  "\<exists>fs' content. write_summary sample_summary ''s.json'' Map.empty = Inr fs' \<and> fs' ''s.json'' = Some content
     \<and> json_loads content = Inr (canon True (fixed_float 15) (JDict sample_summary))"
proof -
  have "validate_invariant_violations sample_summary = Inr ()" "validate_top_level_fields sample_summary = Inr ()"
    "all_floats finite_float (JDict sample_summary)" "distinct_keys (JDict sample_summary)"
    by code_simp+
  then show ?thesis
    using summary_reads_back [of sample_summary "''s.json''" Map.empty] by (simp add: write_summary_def)
qed

end
