(* ===== verification/Assertions.thy ===== *)
theory Assertions
  imports RoundTrip WalkForward
begin

text \<open>
  \<open>invariants/assertions.py\<close>: the assertions P1, P3, P4, P6, P7, P8, P9, P11 and P12 on a ledger and its
  summary. An assertion returns, or it writes a counterexample file and raises \<open>InvariantViolation\<close>,
  or another exception escapes from it. The texts that pandas prints for a time stamp and for a group
  of \<open>groupby\<close>, and the message of a built-in exception, are parameters.
\<close>

section \<open>The exception and its counterexample file\<close>

record invariant_violation =
  iv_property_id :: string
  iv_message :: string
  iv_candidate_id :: "string option"
  iv_details :: metrics_dict
  iv_counterexample_path :: "string option"

datatype assert_outcome = Holds | Violated invariant_violation | Raised py_error

type_synonym assertion = "fs \<Rightarrow> assert_outcome \<times> fs"

record pandas_text =
  ts_str :: "datetime \<Rightarrow> string"
  group_str :: "datetime \<times> string \<times> string \<Rightarrow> string"

definition new_violation :: "string \<Rightarrow> string \<Rightarrow> string \<Rightarrow> metrics_dict \<Rightarrow> invariant_violation" where
  "new_violation property_id message candidate_id details =
     \<lparr>iv_property_id = property_id, iv_message = ''['' @ property_id @ ''] '' @ message,
      iv_candidate_id = Some candidate_id, iv_details = details, iv_counterexample_path = None\<rparr>"

definition COUNTEREXAMPLE_DIR :: string where
  "COUNTEREXAMPLE_DIR = ''research/tmp_entry_redesign_invariant_counterexamples''"

definition serialize_counterexample ::
  "string \<Rightarrow> string \<Rightarrow> metrics_dict \<Rightarrow> string option \<Rightarrow> fs \<Rightarrow> string \<times> fs" where
  "serialize_counterexample property_id candidate_id counterexample base_dir fs =
     (let out_dir = (case base_dir of Some d \<Rightarrow> d | None \<Rightarrow> COUNTEREXAMPLE_DIR);
          out_path = path_join out_dir (property_id @ ''_'' @ candidate_id @ ''.json'');
          content = json_dumps True (JDict counterexample)
      in (out_path, fs(out_path \<mapsto> content @ nl)))"

definition extract_candidate_id :: "trade_record list \<Rightarrow> metrics_dict \<Rightarrow> string" where
  "extract_candidate_id ledger summary =
     (let a = get_or_none summary ''candidate_id'';
          cid = (if truthy a then a else get_or_none summary ''entry_candidate_id'')
      in if truthy cid then py_str cid
         else case ledger of
                [] \<Rightarrow> ''unknown''
              | t # _ \<Rightarrow> let s = str_strip (tr_entry_candidate_id t) in if s \<noteq> [] then s else ''unknown'')"

text \<open>The end of every assertion that found a violation: write the counterexample, then raise.\<close>

definition fail_with :: "string \<Rightarrow> string \<Rightarrow> string \<Rightarrow> metrics_dict \<Rightarrow> assertion" where
  "fail_with property_id candidate_id message details fs =
     (let (path, fs') = serialize_counterexample property_id candidate_id details None fs;
          exc = new_violation property_id message candidate_id details
      in (Violated (exc\<lparr>iv_counterexample_path := Some path\<rparr>), fs'))"

text \<open>\<open>summary.get("invariant_violations", {}).get(key, default)\<close>; only a dictionary has the method \<open>get\<close>.\<close>

definition recorded :: "metrics_dict \<Rightarrow> string \<Rightarrow> json \<Rightarrow> json res" where
  "recorded summary key dflt =
     (case dict_get summary ''invariant_violations'' of
        None \<Rightarrow> Inr dflt
      | Some (JDict d) \<Rightarrow> Inr (case dict_get d key of None \<Rightarrow> dflt | Some v \<Rightarrow> v)
      | Some _ \<Rightarrow> Inl AttributeError)"

text \<open>A value that may raise, before the rest of the assertion.\<close>

definition try_bind :: "'a res \<Rightarrow> ('a \<Rightarrow> assertion) \<Rightarrow> assertion" where
  "try_bind m f fs = (case m of Inl e \<Rightarrow> (Raised e, fs) | Inr a \<Rightarrow> f a fs)"

definition passes :: assertion where
  "passes fs = (Holds, fs)"

section \<open>P1, P3 and P4\<close>

definition assert_invariant_P1 :: "trade_record list \<Rightarrow> metrics_dict \<Rightarrow> assertion" where
  "assert_invariant_P1 ledger summary =
     try_bind (recorded summary ''P1_missing_trigger_count'' (JInt 0)) (\<lambda>missing_count.
     try_bind (recorded summary ''P1_spurious_trigger_count'' (JInt 0)) (\<lambda>spurious_count.
     try_bind (json_add missing_count spurious_count) (\<lambda>total_violations.
     try_bind (py_num total_violations) (\<lambda>total.
       if flt (Fin 0) total
       then let candidate_id = extract_candidate_id ledger summary in
            fail_with ''P1'' candidate_id
              (''Intrabar breakout semantic violated: missing='' @ py_str missing_count
               @ '', spurious='' @ py_str spurious_count)
              [(''property_id'', JStr ''P1''), (''candidate_id'', JStr candidate_id),
               (''P1_missing_trigger_count'', missing_count),
               (''P1_spurious_trigger_count'', spurious_count),
               (''total_violations'', total_violations),
               (''description'', JStr
                  (''Intrabar breakout semantic violated: '' @ py_str missing_count
                   @ '' missing triggers (condition met but no trigger_ts), '' @ py_str spurious_count
                   @ '' spurious triggers (no condition but trigger_ts generated).''))]
       else passes))))"

text \<open>The groups of \<open>groupby\<close> come in increasing order of their keys.\<close>

definition violating_groups :: "trade_record list \<Rightarrow> ((datetime \<times> string \<times> string) \<times> nat) list" where
  "violating_groups ledger =
     filter (\<lambda>(k, n). MAX_TRADES_PER_BAR < n)
       (map (\<lambda>k. (k, length (filter (\<lambda>t. bar_key t = k) ledger))) (sort (remdups (map bar_key ledger))))"

definition assert_invariant_P3 :: "pandas_text \<Rightarrow> trade_record list \<Rightarrow> metrics_dict \<Rightarrow> assertion" where
  "assert_invariant_P3 txts ledger summary =
     (case violating_groups ledger of
        [] \<Rightarrow> passes
      | (first_violation_idx, first_count) # others \<Rightarrow>
          let candidate_id = extract_candidate_id ledger summary;
              count = str_int (int (length (violating_groups ledger)));
              (bar_ts, symbol, gate_mode) = first_violation_idx
          in fail_with ''P3'' candidate_id
               (''Trades per bar bound violated: '' @ count @ '' bars exceed max_trades_per_bar=2'')
               [(''property_id'', JStr ''P3''), (''candidate_id'', JStr candidate_id),
                (''violation_count'', JInt (int (length (violating_groups ledger)))),
                (''max_trades_per_bar_limit'', JInt (int MAX_TRADES_PER_BAR)),
                (''first_violation'', JDict
                   [(''signal_bar_start_ts'', JStr (ts_str txts bar_ts)), (''symbol'', JStr symbol),
                    (''gate_mode'', JStr gate_mode), (''actual_trade_count'', JInt (int first_count))]),
                (''description'', JStr
                   (''Trades per bar bound violated: '' @ count
                    @ '' signal bars have more than 2 trades. First violation: ''
                    @ group_str txts first_violation_idx @ '' with '' @ str_int (int first_count)
                    @ '' trades.''))])"

text \<open>The first of the three comparisons of a row that fails.\<close>

definition p4_pairs :: "trade_record \<Rightarrow> (string \<times> string \<times> pyfloat \<times> pyfloat) list" where
  "p4_pairs t =
     [(''realistic_taker_both_pnl'', ''realistic_pnl'', tr_realistic_taker_both_pnl t, tr_realistic_pnl t),
      (''realistic_pnl'', ''slip_pnl'', tr_realistic_pnl t, tr_slip_pnl t),
      (''slip_pnl'', ''raw_pnl'', tr_slip_pnl t, tr_raw_pnl t)]"

fun p4_row :: "int \<Rightarrow> (string \<times> string \<times> pyfloat \<times> pyfloat) list \<Rightarrow> json list" where
  "p4_row idx [] = []"
| "p4_row idx ((lower_name, upper_name, lower_val, upper_val) # pairs) =
     (let tol = fmul (py_max (fabs upper_val) (Fin 1)) P4_RELATIVE_TOLERANCE
      in if flt (fadd upper_val tol) lower_val
         then [JDict [(''row_index'', JInt idx), (''lower_field'', JStr lower_name),
                      (''upper_field'', JStr upper_name), (''lower_value'', JFloat lower_val),
                      (''upper_value'', JFloat upper_val), (''difference'', JFloat (fsub lower_val upper_val))]]
         else p4_row idx pairs)"

definition p4_violations :: "trade_record list \<Rightarrow> json list" where
  "p4_violations ledger = concat (map (\<lambda>(i, t). p4_row (int i) (p4_pairs t)) (enumerate 0 ledger))"

definition assert_invariant_P4 :: "trade_record list \<Rightarrow> metrics_dict \<Rightarrow> assertion" where
  "assert_invariant_P4 ledger summary =
     (case p4_violations ledger of
        [] \<Rightarrow> passes
      | first_violation # others \<Rightarrow>
          let candidate_id = extract_candidate_id ledger summary;
              n = int (length (p4_violations ledger))
          in fail_with ''P4'' candidate_id
               (''Cost model monotonicity violated: '' @ str_int n @ '' trades'')
               [(''property_id'', JStr ''P4''), (''candidate_id'', JStr candidate_id),
                (''violation_count'', JInt n), (''tolerance'', JFloat P4_RELATIVE_TOLERANCE),
                (''first_violation'', first_violation),
                (''description'', JStr
                   (''Cost model monotonicity violated: '' @ str_int n
                    @ '' trades do not satisfy realistic_taker_both_pnl <= realistic_pnl <= slip_pnl <= raw_pnl within tolerance ''
                    @ float_repr P4_RELATIVE_TOLERANCE @ ''.''))])"

section \<open>P6\<close>

text \<open>\<open>date.fromisoformat\<close> on a string of at most ten characters: four digits, two digits, two digits.\<close>

definition is_leap :: "int \<Rightarrow> bool" where
  "is_leap y \<longleftrightarrow> y mod 4 = 0 \<and> (y mod 100 \<noteq> 0 \<or> y mod 400 = 0)"

definition days_in_month :: "int \<Rightarrow> int \<Rightarrow> int" where
  "days_in_month y m =
     (if m = 2 then (if is_leap y then 29 else 28) else if m \<in> {4, 6, 9, 11} then 30 else 31)"

definition valid_date :: "date \<Rightarrow> bool" where
  "valid_date = (\<lambda>(y, m, d). 1 \<le> y \<and> y \<le> 9999 \<and> 1 \<le> m \<and> m \<le> 12 \<and> 1 \<le> d \<and> d \<le> days_in_month y m)"

definition date_fromisoformat :: "string \<Rightarrow> date option" where
  "date_fromisoformat s =
     (if length s = 10 \<and> s ! 4 = CHR ''-'' \<and> s ! 7 = CHR ''-''
         \<and> list_all is_digit (take 4 s @ take 2 (drop 5 s) @ drop 8 s)
      then let d = (dec_val 0 (take 4 s), dec_val 0 (take 2 (drop 5 s)), dec_val 0 (drop 8 s))
           in if valid_date d then Some d else None
      else None)"

definition parse_date :: "json \<Rightarrow> date option" where
  "parse_date v = (case v of JStr s \<Rightarrow> date_fromisoformat (take 10 s) | _ \<Rightarrow> None)"

definition isoformat :: "date \<Rightarrow> string" where
  "isoformat = (\<lambda>(y, m, d). zpad 4 y @ ''-'' @ zpad 2 m @ ''-'' @ zpad 2 d)"

definition cap_sign :: string where
  "cap_sign = '' '' @ utf8 [226, 136, 169] @ '' ''"

text \<open>The four tests on the windows of a split.\<close>

definition split_overlaps :: "date \<Rightarrow> date \<Rightarrow> date \<Rightarrow> date \<Rightarrow> date \<Rightarrow> date \<Rightarrow> string list" where
  "split_overlaps ts te vs ve es ee =
     (if ts < ve \<and> vs < te then [''train'' @ cap_sign @ ''validation''] else [])
     @ (if vs < ee \<and> es < ve then [''validation'' @ cap_sign @ ''execute''] else [])
     @ (if ts < ee \<and> es < te then [''train'' @ cap_sign @ ''execute''] else [])
     @ (if es < ve then [''execute.start < validation.end''] else [])"

definition interval_str :: "date \<Rightarrow> date \<Rightarrow> json" where
  "interval_str a b = JStr (''['' @ isoformat a @ '', '' @ isoformat b @ '')'')"

text \<open>The body of the loop over the splits.\<close>

definition p6_split :: "int \<Rightarrow> json \<Rightarrow> json list res" where
  "p6_split i split =
     (case split of
        JDict d \<Rightarrow>
          Inr (case map (\<lambda>k. parse_date (get_or_none d k))
                      [''train_start'', ''train_end'', ''validation_start'', ''validation_end'',
                       ''execute_start'', ''execute_end''] of
                 [Some ts, Some te, Some vs, Some ve, Some es, Some ee] \<Rightarrow>
                   let overlaps = split_overlaps ts te vs ve es ee
                   in if overlaps \<noteq> []
                      then [JDict [(''split_index'', JInt i), (''overlaps'', JList (map JStr overlaps)),
                                   (''train'', interval_str ts te), (''validation'', interval_str vs ve),
                                   (''execute'', interval_str es ee)]]
                      else []
               | _ \<Rightarrow> [])
      | _ \<Rightarrow> Inl AttributeError)"

definition p6_violations :: "json \<Rightarrow> json list res" where
  "p6_violations splits =
     (case splits of
        JList xs \<Rightarrow>
          res_bind (res_map (\<lambda>(i, split). p6_split (int i) split) (enumerate 0 xs)) (\<lambda>vs. Inr (concat vs))
      | JDict d \<Rightarrow> Inl AttributeError
      | JStr s \<Rightarrow> Inl AttributeError
      | _ \<Rightarrow> Inl TypeError)"

definition assert_invariant_P6 :: "trade_record list \<Rightarrow> metrics_dict \<Rightarrow> assertion" where
  "assert_invariant_P6 ledger summary =
     try_bind (recorded summary ''P6_count'' (JInt 0)) (\<lambda>p6_count.
     try_bind (py_num p6_count) (\<lambda>count.
     let candidate_id = extract_candidate_id ledger summary;
         splits = (case dict_get summary ''walkforward_splits'' of None \<Rightarrow> JList [] | Some v \<Rightarrow> v)
     in if flt (Fin 0) count
        then fail_with ''P6'' candidate_id
               (''Walk-forward window non-overlap violated: '' @ py_str p6_count @ '' splits'')
               [(''property_id'', JStr ''P6''), (''candidate_id'', JStr candidate_id), (''P6_count'', p6_count),
                (''description'', JStr (''Walk-forward window non-overlap violated: '' @ py_str p6_count
                                       @ '' splits have overlapping windows.''))]
        else if \<not> truthy splits then passes
        else try_bind (p6_violations splits) (\<lambda>violation_splits.
          case violation_splits of
            [] \<Rightarrow> passes
          | first_violation # others \<Rightarrow>
              let n = int (length violation_splits)
              in fail_with ''P6'' candidate_id
                   (''Walk-forward window non-overlap violated: '' @ str_int n @ '' splits'')
                   [(''property_id'', JStr ''P6''), (''candidate_id'', JStr candidate_id),
                    (''violation_count'', JInt n), (''first_violation'', first_violation),
                    (''description'', JStr (''Walk-forward window non-overlap violated: '' @ str_int n
                                           @ '' splits have overlapping windows.''))])))"

section \<open>P7\<close>

definition assert_invariant_P7 :: "trade_record list \<Rightarrow> metrics_dict \<Rightarrow> assertion" where
  "assert_invariant_P7 ledger summary =
     try_bind (recorded summary ''P7_ledger_sha256_pairs'' (JList [])) (\<lambda>sha256_pairs.
       if truthy sha256_pairs
       then try_bind (json_len sha256_pairs) (\<lambda>n.
            let candidate_id = extract_candidate_id ledger summary
            in fail_with ''P7'' candidate_id
                 (''Bit-identical ledger violated: '' @ str_int n @ '' pair(s) differ'')
                 [(''property_id'', JStr ''P7''), (''candidate_id'', JStr candidate_id),
                  (''sha256_pairs'', sha256_pairs), (''pair_count'', JInt n),
                  (''description'', JStr (''Bit-identical ledger violated: '' @ str_int n
                                         @ '' run pair(s) produced different sha256 digests.''))])
       else passes)"

section \<open>P8\<close>

text \<open>The end of the assertions that collect a list of issues.\<close>

definition report_issues ::
  "string \<Rightarrow> string \<Rightarrow> trade_record list \<Rightarrow> metrics_dict \<Rightarrow> json list \<Rightarrow> assertion" where
  "report_issues property_id what ledger summary violations =
     (if violations = [] then passes
      else let candidate_id = extract_candidate_id ledger summary; n = int (length violations)
           in fail_with property_id candidate_id (what @ '' violated: '' @ str_int n @ '' issue(s)'')
                [(''property_id'', JStr property_id), (''candidate_id'', JStr candidate_id),
                 (''violation_count'', JInt n), (''violations'', JList violations),
                 (''description'', JStr (what @ '' violated: '' @ str_int n @ '' issue(s) found.''))])"

fun isnan :: "pyfloat \<Rightarrow> bool" where
  "isnan NaN = True"
| "isnan _ = False"

fun isinf :: "pyfloat \<Rightarrow> bool" where
  "isinf PInf = True"
| "isinf NInf = True"
| "isinf _ = False"

definition numeric_close :: "pyfloat \<Rightarrow> pyfloat \<Rightarrow> pyfloat \<Rightarrow> bool res" where
  "numeric_close a b tolerance =
     (if feq a b then Inr True
      else if isnan a \<and> isnan b then Inr True
      else if isinf a \<or> isinf b then Inr (feq a b)
      else let denom = py_max (py_max (fabs a) (fabs b)) (fl (1 / 10 ^ 15))
           in res_bind (the_or_raise ZeroDivisionError (fdiv (fabs (fsub a b)) denom)) (\<lambda>q.
                Inr (fle q tolerance)))"

fun is_number :: "json \<Rightarrow> bool" where
  "is_number (JInt _) = True"
| "is_number (JFloat _) = True"
| "is_number (JBool _) = True"
| "is_number _ = False"

fun type_name :: "json \<Rightarrow> string" where
  "type_name JNull = ''NoneType''"
| "type_name (JBool _) = ''bool''"
| "type_name (JInt _) = ''int''"
| "type_name (JFloat _) = ''float''"
| "type_name (JStr _) = ''str''"
| "type_name (JList _) = ''list''"
| "type_name (JDict _) = ''dict''"

definition RT_TOLERANCE :: pyfloat where
  "RT_TOLERANCE = fl (1 / 10 ^ 12)"

text \<open>The comparison of two values that are neither both lists nor both dictionaries.\<close>

definition check_atoms :: "json \<Rightarrow> json \<Rightarrow> string \<Rightarrow> string list res" where
  "check_atoms original roundtripped path_prefix =
     (if is_number original \<and> is_number roundtripped
      then res_bind (py_float original) (\<lambda>x. res_bind (py_float roundtripped) (\<lambda>y.
           res_bind (numeric_close x y RT_TOLERANCE) (\<lambda>close.
             Inr (if close then []
                  else [path_prefix @ '': numeric mismatch ('' @ py_str original @ '' vs '' @ py_str roundtripped @ '')'']))))
      else if original \<noteq> roundtripped
      then Inr [path_prefix @ '': value mismatch ('' @ type_name original @ '')'']
      else Inr [])"

lemma res_map_cong [fundef_cong]:
  "xs = ys \<Longrightarrow> (\<And>x. x \<in> set ys \<Longrightarrow> f x = g x) \<Longrightarrow> res_map f xs = res_map g ys"
proof (induction ys arbitrary: xs)
  case (Cons y ys)
  then show ?case by simp
qed simp

lemma json_size_dict: "(k, a) \<in> set d \<Longrightarrow> size a < size (JDict d)"
  by (induction d) auto

lemma json_size_list: "a \<in> set xs \<Longrightarrow> size a < size (JList xs)"
  by (induction xs) auto

function check_value_equivalence :: "json \<Rightarrow> json \<Rightarrow> string \<Rightarrow> string list res" where
  "check_value_equivalence original roundtripped path_prefix =
     (case (original, roundtripped) of
        (JDict d, JDict e) \<Rightarrow>
          res_bind (res_map (\<lambda>key.
              let sub_path = (if path_prefix \<noteq> [] then path_prefix @ ''.'' @ key else key)
              in case dict_get d key of
                   None \<Rightarrow> Inr [sub_path @ '': missing in original'']
                 | Some a \<Rightarrow>
                     (case dict_get e key of
                        None \<Rightarrow> Inr [sub_path @ '': missing in roundtripped'']
                      | Some b \<Rightarrow> check_value_equivalence a b sub_path))
            (sort (remdups (map fst d @ map fst e)))) (\<lambda>issues. Inr (concat issues))
      | (JList xs, JList ys) \<Rightarrow>
          if length xs \<noteq> length ys
          then Inr [path_prefix @ '': list length mismatch ('' @ str_int (int (length xs)) @ '' vs ''
                    @ str_int (int (length ys)) @ '')'']
          else res_bind (res_map (\<lambda>(i, a, b).
                 check_value_equivalence a b (path_prefix @ ''['' @ str_int (int i) @ '']''))
               (enumerate 0 (zip xs ys))) (\<lambda>issues. Inr (concat issues))
      | _ \<Rightarrow> check_atoms original roundtripped path_prefix)"
  by pat_completeness auto
termination
proof (relation "measure (\<lambda>(a, b, p). size a)", goal_cases)
  case (2 original roundtripped path_prefix x y xs ys z i c a b)
  then show ?case using json_size_list [of a xs] by (auto simp: in_set_enumerate_eq in_set_zip)
next
  case (3 original roundtripped path_prefix x y d e key sub_path a b)
  then show ?case using json_size_dict [of key a d] by (auto simp: dict_get_def map_of_SomeD)
qed simp

declare check_value_equivalence.simps [simp del]

text \<open>
  \<open>rt_issues\<close> is cut to five entries. The two caught exceptions become a violation with their text,
  \<open>str(e)\<close>, which the interpreter provides.
\<close>

definition p8_roundtrip :: "(py_error \<Rightarrow> string) \<Rightarrow> metrics_dict \<Rightarrow> json list res" where
  "p8_roundtrip exc_str summary =
     (case res_bind (json_loads (json_dumps_line True (JDict summary))) (\<lambda>decoded.
             check_value_equivalence (JDict summary) decoded ''summary'') of
        Inr rt_issues \<Rightarrow>
          Inr (if rt_issues \<noteq> []
               then [JDict [(''type'', JStr ''summary_roundtrip''),
                            (''issues'', JList (map JStr (take 5 rt_issues)))]]
               else [])
      | Inl e \<Rightarrow>
          if e = TypeError \<or> e = ValueError
          then Inr [JDict [(''type'', JStr ''summary_roundtrip_error''), (''error'', JStr (exc_str e))]]
          else Inl e)"

text \<open>\<open>columns\<close> is the column index of the frame, which an empty ledger does not have to fill.\<close>

definition p8_columns :: "string list \<Rightarrow> trade_record list \<Rightarrow> json list" where
  "p8_columns columns ledger =
     (if ledger \<noteq> [] \<and> columns \<noteq> LEDGER_HEADER
      then [JDict [(''type'', JStr ''ledger_column_order''),
              (''expected'', JList (map JStr LEDGER_HEADER)), (''actual'', JList (map JStr columns)),
              (''missing_columns'', JList (map JStr (filter (\<lambda>c. c \<notin> set columns) LEDGER_HEADER))),
              (''extra_columns'', JList (map JStr (filter (\<lambda>c. c \<notin> set LEDGER_HEADER) columns))),
              (''order_mismatch'', JBool (set columns = set LEDGER_HEADER \<and> columns \<noteq> LEDGER_HEADER))]]
      else [])"

definition assert_invariant_P8 ::
  "(py_error \<Rightarrow> string) \<Rightarrow> string list \<Rightarrow> trade_record list \<Rightarrow> metrics_dict \<Rightarrow> assertion" where
  "assert_invariant_P8 exc_str columns ledger summary =
     try_bind (p8_roundtrip exc_str summary) (\<lambda>rt.
     try_bind (recorded summary ''P8_count'' (JInt 0)) (\<lambda>p8_count.
     try_bind (py_num p8_count) (\<lambda>count.
       report_issues ''P8'' ''Round-trip serialization'' ledger summary
         (rt @ p8_columns columns ledger
          @ (if flt (Fin 0) count
             then [JDict [(''type'', JStr ''summary_p8_count_nonzero''), (''P8_count'', p8_count)]] else [])))))"

section \<open>P9\<close>

text \<open>\<open>format(x, ".2e")\<close>\<close>

fun format_2e :: "pyfloat \<Rightarrow> string" where
  "format_2e (Fin x) =
     (if x = 0 then ''0.00e+00''
      else let (m, e) = sig_digits 3 \<bar>x\<bar>; ds = str_dec m
           in (if x < 0 then ''-'' else []) @ take 1 ds @ ''.'' @ drop 1 ds @ ''e''
              @ (if e < 0 then ''-'' else ''+'') @ zpad 2 \<bar>e\<bar>)"
| "format_2e PInf = ''inf''"
| "format_2e NInf = ''-inf''"
| "format_2e NaN = ''nan''"

definition p9_zero_notional :: "trade_record list \<Rightarrow> json list" where
  "p9_zero_notional ledger =
     (let zero_count = int (length (filter (\<lambda>t. feq (tr_notional t) (Fin 0)) ledger))
      in if 0 < zero_count
         then [JDict [(''type'', JStr ''zero_notional_in_ledger''), (''count'', JInt zero_count),
                 (''description'', JStr (str_int zero_count
                    @ '' trade(s) with notional==0 found in ledger (should be rejected before writing).''))]]
         else [])"

text \<open>The body of the loop over the two gate modes.\<close>

definition p9_mode :: "numpy_ops \<Rightarrow> trade_record list \<Rightarrow> metrics_dict \<Rightarrow> string \<Rightarrow> json list res" where
  "p9_mode ops ledger summary prefix =
     (let ptq_key = prefix @ ''_per_trade_quality_bps_over_notional''
      in case dict_get summary ptq_key of
        None \<Rightarrow> Inr [JDict [(''type'', JStr ''field_missing''), (''field'', JStr ptq_key),
                          (''description'', JStr (ptq_key @ '' field missing from summary.''))]]
      | Some ptq_value \<Rightarrow>
          let trade_count = (case dict_get summary (prefix @ ''_trade_count'') of None \<Rightarrow> JInt 0 | Some v \<Rightarrow> v)
          in if equals_zero trade_count
             then Inr (if ptq_value \<noteq> JNull
                       then [JDict [(''type'', JStr ''null_expected''), (''field'', JStr ptq_key),
                               (''actual_value'', ptq_value),
                               (''description'', JStr (ptq_key @ '' should be null when trade_count==0, got ''
                                                      @ py_str ptq_value @ ''.''))]]
                       else [])
             else if ptq_value = JNull
             then Inr [JDict [(''type'', JStr ''null_unexpected''), (''field'', JStr ptq_key),
                         (''trade_count'', trade_count),
                         (''description'', JStr (ptq_key @ '' is null but trade_count='' @ py_str trade_count
                                                @ '' > 0.''))]]
             else
               let subset = filter (\<lambda>t. tr_gate_mode t = prefix) ledger;
                   valid = filter (\<lambda>t. \<not> feq (tr_notional t) (Fin 0)) subset
               in if valid = [] then Inr []
                  else
                    let recomputed = fmul (pd_mean ops (returns ops tr_realistic_pnl valid)) (Fin 10000);
                        denom = py_max (fabs recomputed) (fl (1 / 10 ^ 12))
                    in res_bind (py_float ptq_value) (\<lambda>ptq.
                         let rel_err = np_div ops (fabs (fsub ptq recomputed)) denom
                         in Inr (if flt P9_RELATIVE_TOLERANCE rel_err
                                 then [JDict [(''type'', JStr ''recomputation_mismatch''),
                                         (''field'', JStr ptq_key), (''summary_value'', JFloat ptq),
                                         (''recomputed_value'', JFloat recomputed),
                                         (''relative_error'', JFloat rel_err),
                                         (''tolerance'', JFloat P9_RELATIVE_TOLERANCE),
                                         (''description'', JStr (ptq_key @ '' mismatch: summary=''
                                            @ py_str ptq_value @ '', recomputed='' @ fixed_str 10 recomputed
                                            @ '', rel_err='' @ format_2e rel_err @ '' > ''
                                            @ float_repr P9_RELATIVE_TOLERANCE @ ''.''))]]
                                 else [])))"

definition assert_invariant_P9 :: "numpy_ops \<Rightarrow> trade_record list \<Rightarrow> metrics_dict \<Rightarrow> assertion" where
  "assert_invariant_P9 ops ledger summary =
     try_bind (p9_mode ops ledger summary ''nogate'') (\<lambda>a.
     try_bind (p9_mode ops ledger summary ''gate001'') (\<lambda>b.
       report_issues ''P9'' ''Per-trade quality reporting'' ledger summary (p9_zero_notional ledger @ a @ b)))"

section \<open>P11 and P12\<close>

definition invalid_pullback_rows :: "trade_record list \<Rightarrow> trade_record list" where
  "invalid_pullback_rows ledger =
     filter (\<lambda>t. tr_entry_price t = NaN \<or> feq (tr_entry_price t) (Fin 0))
       (filter (\<lambda>t. startswith (tr_entry_price_mode_id t) ''pullback_'') ledger)"

definition assert_invariant_P11 :: "trade_record list \<Rightarrow> metrics_dict \<Rightarrow> assertion" where
  "assert_invariant_P11 ledger summary =
     try_bind (recorded summary ''P11_count'' (JInt 0)) (\<lambda>p11_count.
     try_bind (py_num p11_count) (\<lambda>count.
     let invalid_count = int (length (invalid_pullback_rows ledger))
     in report_issues ''P11'' ''Entry price mode fallback'' ledger summary
          ((if flt (Fin 0) count
            then [JDict [(''type'', JStr ''summary_p11_count_nonzero''), (''P11_count'', p11_count)]] else [])
           @ (if 0 < invalid_count
              then [JDict [(''type'', JStr ''unfilled_pullback_in_ledger''), (''count'', JInt invalid_count),
                      (''description'', JStr (str_int invalid_count
                         @ '' pullback_limit trade(s) with invalid entry_price found in ledger (unfilled events should not appear in ledger).''))]]
              else []))))"

definition p12_mode :: "metrics_dict \<Rightarrow> string \<Rightarrow> json list res" where
  "p12_mode summary prefix =
     (let ass_key = prefix @ ''_active_silo_sum_pct''; cnr_key = prefix @ ''_calendar_normalized_return_pct'';
          missing_fields = map JStr (filter (\<lambda>k. \<not> dict_has summary k) [ass_key, cnr_key])
      in if missing_fields \<noteq> []
         then Inr [JDict [(''type'', JStr ''field_missing''), (''prefix'', JStr prefix),
                     (''missing_fields'', JList missing_fields),
                     (''description'', JStr (''Fields '' @ py_repr (JList missing_fields)
                        @ '' missing from summary (both active_silo_sum_pct and calendar_normalized_return_pct must be present).''))]]
         else case (dict_get summary (prefix @ ''_active_months''), dict_get summary (prefix @ ''_empty_months'')) of
           (Some active, Some empty_m) \<Rightarrow>
             if active \<noteq> JNull \<and> empty_m \<noteq> JNull
             then res_bind (json_add active empty_m) (\<lambda>total.
                  Inr (if \<not> equals_int total TOTAL_SILOS
                       then [JDict [(''type'', JStr ''silo_count_mismatch''), (''prefix'', JStr prefix),
                               (''active_months'', active), (''empty_months'', empty_m),
                               (''expected_total'', JInt TOTAL_SILOS), (''actual_total'', total),
                               (''description'', JStr (prefix @ '': active_months('' @ py_str active
                                  @ '') + empty_months('' @ py_str empty_m @ '') = '' @ py_str total
                                  @ '' != '' @ str_int TOTAL_SILOS @ ''.''))]]
                       else []))
             else Inr []
         | _ \<Rightarrow> Inr [])"

definition assert_invariant_P12 :: "trade_record list \<Rightarrow> metrics_dict \<Rightarrow> assertion" where
  "assert_invariant_P12 ledger summary =
     try_bind (p12_mode summary ''nogate'') (\<lambda>a.
     try_bind (p12_mode summary ''gate001'') (\<lambda>b.
       report_issues ''P12'' ''Metric normalization both reported'' ledger summary (a @ b)))"

section \<open>The assertions and the checker\<close>

text \<open>
  What an assertion does: with a violation it raises \<open>InvariantViolation\<close> and writes one file, the one
  that the report of violations refers to; without one it returns and no file changes.
\<close>

definition asserts :: "string \<Rightarrow> string \<Rightarrow> bool \<Rightarrow> assertion \<Rightarrow> bool" where
  "asserts property_id candidate_id violated a \<longleftrightarrow>
     (\<forall>fs. if violated
           then \<exists>exc content. a fs = (Violated exc, fs(counterexample_path property_id candidate_id \<mapsto> content))
                  \<and> iv_property_id exc = property_id
                  \<and> iv_counterexample_path exc = Some (counterexample_path property_id candidate_id)
           else a fs = (Holds, fs))"

lemma counterexample_dir [simp]:
  "path_join COUNTEREXAMPLE_DIR (p @ CHR ''_'' # c @ ''.json'') = counterexample_path p c"
  by (simp add: path_join_def COUNTEREXAMPLE_DIR_def counterexample_path_def)

lemma asserts_fail_with [simp, intro]: "asserts p c True (fail_with p c msg details)"
  by (auto simp: asserts_def fail_with_def serialize_counterexample_def Let_def new_violation_def)

lemma asserts_passes [simp, intro]: "asserts p c False passes"
  by (simp add: asserts_def passes_def)

lemma asserts_outcome: "asserts p c violated a \<Longrightarrow> (\<exists>fs. fst (a fs) \<noteq> Holds) = violated"
  unfolding asserts_def by (cases violated) (auto simp: fst_def split: prod.split, metis assert_outcome.distinct(1) prod.inject)

lemma try_bind_Inr [simp]: "try_bind (Inr a) f = f a"
  by (rule ext) (simp add: try_bind_def)

lemma asserts_report [simp]:
  "asserts p (extract_candidate_id ledger summary) (vs \<noteq> []) (report_issues p what ledger summary vs)"
  by (simp add: report_issues_def Let_def)

lemma violating_groups_iff: "violating_groups ledger \<noteq> [] \<longleftrightarrow> 0 < check_p3 ledger"
  by (auto simp: violating_groups_def check_p3_def Let_def filter_empty_conv)

lemma assert_P3_iff:
  "asserts ''P3'' (extract_candidate_id ledger summary) (0 < check_p3 ledger) (assert_invariant_P3 txts ledger summary)"
  using violating_groups_iff [of ledger]
  by (cases "violating_groups ledger") (auto simp: assert_invariant_P3_def Let_def)

lemma p4_row_Nil_iff:
  "p4_row i (p4_pairs t) = [] \<longleftrightarrow>
   monotonicity_holds (tr_realistic_taker_both_pnl t) (tr_realistic_pnl t) (tr_slip_pnl t) (tr_raw_pnl t)"
  by (simp add: p4_pairs_def monotonicity_holds_def Let_def)

lemma p4_violations_iff: "p4_violations ledger \<noteq> [] \<longleftrightarrow> 0 < check_p4 ledger"
proof -
  let ?mono = "\<lambda>t. monotonicity_holds (tr_realistic_taker_both_pnl t) (tr_realistic_pnl t) (tr_slip_pnl t) (tr_raw_pnl t)"
  have "p4_violations ledger = [] \<longleftrightarrow> (\<forall>t \<in> snd ` set (enumerate 0 ledger). ?mono t)"
    by (fastforce simp: p4_violations_def p4_row_Nil_iff)
  also have "snd ` set (enumerate 0 ledger) = set ledger"
    by (metis list.set_map map_snd_enumerate)
  finally show ?thesis
    by (auto simp: check_p4_def filter_empty_conv)
qed

lemma assert_P4_iff:
  "asserts ''P4'' (extract_candidate_id ledger summary) (0 < check_p4 ledger) (assert_invariant_P4 ledger summary)"
  using p4_violations_iff [of ledger]
  by (cases "p4_violations ledger") (auto simp: assert_invariant_P4_def Let_def)

lemma py_float_operand: "float_operand v = Inr x \<Longrightarrow> py_float v = Inr x"
  by (cases v) auto

lemma p9_mode_iff:
  assumes "check_p9_mode ops ledger summary prefix = Inr n"
  obtains vs where "p9_mode ops ledger summary prefix = Inr vs" and "vs \<noteq> [] \<longleftrightarrow> 0 < n" and "0 \<le> n"
  using assms
  by (auto simp: check_p9_mode_def p9_mode_def Let_def res_bind_eq_Inr_iff py_float_operand
      split: option.splits if_splits)

lemma assert_P9_iff:
  assumes "check_p9 ops ledger summary = Inr n"
  shows "asserts ''P9'' (extract_candidate_id ledger summary) (0 < n) (assert_invariant_P9 ops ledger summary)"
proof -
  obtain a b where a: "check_p9_mode ops ledger summary ''nogate'' = Inr a"
    and b: "check_p9_mode ops ledger summary ''gate001'' = Inr b"
    and n: "n = int (length (filter (\<lambda>t. feq (tr_notional t) (Fin 0)) ledger)) + a + b"
    using assms by (auto simp: check_p9_def Let_def res_bind_eq_Inr_iff)
  obtain va vb where v: "p9_mode ops ledger summary ''nogate'' = Inr va" "va \<noteq> [] \<longleftrightarrow> 0 < a" "0 \<le> a"
    "p9_mode ops ledger summary ''gate001'' = Inr vb" "vb \<noteq> [] \<longleftrightarrow> 0 < b" "0 \<le> b"
    using p9_mode_iff [OF a] p9_mode_iff [OF b] by metis
  have "p9_zero_notional ledger @ va @ vb \<noteq> [] \<longleftrightarrow> 0 < n"
    using v unfolding n by (auto simp: p9_zero_notional_def Let_def)
  then show ?thesis
    using asserts_report [of "''P9''" ledger summary "p9_zero_notional ledger @ va @ vb"]
    by (simp add: assert_invariant_P9_def v)
qed

lemma p12_mode_iff:
  assumes "check_p12_mode summary prefix = Inr n"
  obtains vs where "p12_mode summary prefix = Inr vs" and "vs \<noteq> [] \<longleftrightarrow> 0 < n" and "0 \<le> n"
proof (cases "dict_has summary (prefix @ ''_active_silo_sum_pct'')
    \<and> dict_has summary (prefix @ ''_calendar_normalized_return_pct'')")
  case True
  then show thesis
    using assms that
    by (auto simp: check_p12_mode_def p12_mode_def Let_def res_bind_eq_Inr_iff split: option.splits if_splits)
next
  case False
  then have "\<exists>v. p12_mode summary prefix = Inr [v]" by (auto simp: p12_mode_def Let_def)
  then show thesis using assms False that by (auto simp: check_p12_mode_def)
qed

lemma assert_P12_iff:
  assumes "check_p12 summary = Inr n"
  shows "asserts ''P12'' (extract_candidate_id ledger summary) (0 < n) (assert_invariant_P12 ledger summary)"
proof -
  obtain a b where a: "check_p12_mode summary ''nogate'' = Inr a"
    and b: "check_p12_mode summary ''gate001'' = Inr b" and n: "n = a + b"
    using assms by (auto simp: check_p12_def res_bind_eq_Inr_iff)
  obtain va vb where v: "p12_mode summary ''nogate'' = Inr va" "va \<noteq> [] \<longleftrightarrow> 0 < a" "0 \<le> a"
    "p12_mode summary ''gate001'' = Inr vb" "vb \<noteq> [] \<longleftrightarrow> 0 < b" "0 \<le> b"
    using p12_mode_iff [OF a] p12_mode_iff [OF b] by metis
  then have "va @ vb \<noteq> [] \<longleftrightarrow> 0 < n" unfolding n by auto
  then show ?thesis
    using asserts_report [of "''P12''" ledger summary "va @ vb"] by (simp add: assert_invariant_P12_def v)
qed

section \<open>The windows of the splits\<close>

lemma parse_date_valid: "parse_date v = Some d \<Longrightarrow> valid_date d"
  by (cases v) (auto simp: parse_date_def date_fromisoformat_def Let_def split: if_splits)

lemma parse_date_iso:
  assumes "valid_date d"
  shows "parse_date (JStr (isoformat d @ rest)) = Some d"
proof -
  obtain y m n where d: "d = (y, m, n)" by (cases d) auto
  with assms have b: "0 \<le> y" "y < 10 ^ 4" "0 \<le> m" "m < 10 ^ 2" "0 \<le> n" "n < 10 ^ 2"
    by (auto simp: valid_date_def days_in_month_def split: if_splits)
  obtain ya yb yc yd where y: "zpad 4 y = [ya, yb, yc, yd]"
    using length_zpad [of y 3] b by (auto simp: numeral_eq_Suc length_Suc_conv)
  obtain ma mb na nb where m: "zpad 2 m = [ma, mb]" and n: "zpad 2 n = [na, nb]"
    using length_zpad [of m 1] length_zpad [of n 1] b by (auto simp: numeral_eq_Suc length_Suc_conv)
  have "list_all is_digit [ya, yb, yc, yd, ma, mb, na, nb]"
    using zpad_digits [of y 4] zpad_digits [of m 2] zpad_digits [of n 2] b by (simp add: y m n)
  moreover have "dec_val 0 [ya, yb, yc, yd] = y" "dec_val 0 [ma, mb] = m" "dec_val 0 [na, nb] = n"
    using dec_val_zpad [of y 4] dec_val_zpad [of m 2] dec_val_zpad [of n 2] b by (simp_all only: y m n)
  ultimately show ?thesis
    using assms by (simp add: d isoformat_def parse_date_def date_fromisoformat_def y m n)
qed

text \<open>
  Every date of the calendar is read back from its ISO text, also when a time of day follows it, and
  whatever \<open>_parse_date\<close> accepts is a date of the calendar.
\<close>

theorem parse_date_isoformat:
  "(\<forall>d rest. valid_date d \<longrightarrow> parse_date (JStr (isoformat d @ rest)) = Some d)
   \<and> (\<forall>v d. parse_date v = Some d \<longrightarrow> valid_date d)"
  using parse_date_iso parse_date_valid by blast

theorem parse_date_isoformat_witness:
  "parse_date (JStr (isoformat (2024, 2, 29) @ ''T00:00:00'')) = Some (2024, 2, 29) \<and> valid_date (2024, 2, 29)"
  using parse_date_isoformat by (simp add: valid_date_def days_in_month_def is_leap_def)

text \<open>A split as a dictionary of ISO dates, as a summary contains it.\<close>

definition split_json :: "walkforward_split \<Rightarrow> json" where
  "split_json s =
     JDict [(''train_start'', JStr (isoformat (train_start s))), (''train_end'', JStr (isoformat (train_end s))),
            (''validation_start'', JStr (isoformat (validation_start s))),
            (''validation_end'', JStr (isoformat (validation_end s))),
            (''execute_start'', JStr (isoformat (execute_start s))),
            (''execute_end'', JStr (isoformat (execute_end s)))]"

definition window :: "date \<Rightarrow> date \<Rightarrow> date set" where
  "window a b = {d. a \<le> d \<and> d < b}"

text \<open>Six dates of the calendar that bound three non-empty windows\<close>

definition proper_split :: "walkforward_split \<Rightarrow> bool" where
  "proper_split s \<longleftrightarrow>
     list_all valid_date [train_start s, train_end s, validation_start s, validation_end s, execute_start s, execute_end s]
     \<and> train_start s < train_end s \<and> validation_start s < validation_end s \<and> execute_start s < execute_end s"

definition windows_apart :: "walkforward_split \<Rightarrow> bool" where
  "windows_apart s \<longleftrightarrow>
     window (train_start s) (train_end s) \<inter> window (validation_start s) (validation_end s) = {}
     \<and> window (validation_start s) (validation_end s) \<inter> window (execute_start s) (execute_end s) = {}
     \<and> window (train_start s) (train_end s) \<inter> window (execute_start s) (execute_end s) = {}
     \<and> validation_end s \<le> execute_start s"

lemma windows_meet:
  assumes "a < b" and "c < d"
  shows "a < d \<and> c < b \<longleftrightarrow> window a b \<inter> window c d \<noteq> {}"
proof
  assume "a < d \<and> c < b"
  then have "max a c \<in> window a b \<inter> window c d" using assms by (auto simp: window_def)
  then show "window a b \<inter> window c d \<noteq> {}" by blast
qed (auto simp: window_def)

lemma split_overlaps_iff:
  assumes "proper_split s"
  shows "split_overlaps (train_start s) (train_end s) (validation_start s) (validation_end s) (execute_start s) (execute_end s) = []
    \<longleftrightarrow> windows_apart s"
  using assms windows_meet
  by (auto simp: split_overlaps_def windows_apart_def proper_split_def not_less)

lemma p6_split_json:
  assumes "proper_split s"
  shows "\<exists>vs. p6_split i (split_json s) = Inr vs \<and> (vs = [] \<longleftrightarrow> windows_apart s)"
proof -
  have "parse_date (JStr (isoformat d)) = Some d" if "valid_date d" for d
    using that parse_date_iso [of d "[]"] by simp
  then show ?thesis
    using assms split_overlaps_iff [OF assms]
    by (auto simp: p6_split_def split_json_def get_or_none_def dict_get_def proper_split_def Let_def)
qed

lemma p6_violations_splits:
  assumes "\<And>s. s \<in> set splits \<Longrightarrow> proper_split s"
  shows "\<exists>vs. p6_violations (JList (map split_json splits)) = Inr vs \<and> (vs = [] \<longleftrightarrow> list_all windows_apart splits)"
proof -
  have "\<exists>vs. res_map (\<lambda>(i, split). p6_split (int i) split) (enumerate n (map split_json splits)) = Inr vs
      \<and> (concat vs = [] \<longleftrightarrow> list_all windows_apart splits)" for n
    using assms
  proof (induction splits arbitrary: n)
    case (Cons s splits)
    obtain v where v: "p6_split (int n) (split_json s) = Inr v" "v = [] \<longleftrightarrow> windows_apart s"
      using p6_split_json Cons.prems by fastforce
    obtain vs where "res_map (\<lambda>(i, split). p6_split (int i) split) (enumerate (Suc n) (map split_json splits)) = Inr vs"
      "concat vs = [] \<longleftrightarrow> list_all windows_apart splits"
      using Cons.IH [of "Suc n"] Cons.prems by auto
    with v show ?case by (intro exI [of _ "v # vs"]) auto
  qed simp
  then obtain vs where "res_map (\<lambda>(i, split). p6_split (int i) split) (enumerate 0 (map split_json splits)) = Inr vs"
    "concat vs = [] \<longleftrightarrow> list_all windows_apart splits"
    by blast
  then show ?thesis by (simp add: p6_violations_def)
qed

text \<open>
  C24. On a list of splits with non-empty windows, given by their ISO dates, assertion P6 is exact: it raises
  \<open>InvariantViolation\<close> and writes its counterexample if some split has two windows with a day in common
  or an execution that starts before the end of the validation, and returns otherwise.
\<close>

theorem assert_P6_windows:
  assumes "\<And>s. s \<in> set splits \<Longrightarrow> proper_split s"
  shows "asserts ''P6'' (extract_candidate_id ledger [(''walkforward_splits'', JList (map split_json splits))])
    (\<not> list_all windows_apart splits)
    (assert_invariant_P6 ledger [(''walkforward_splits'', JList (map split_json splits))])"
proof -
  obtain vs where "p6_violations (JList (map split_json splits)) = Inr vs" "vs = [] \<longleftrightarrow> list_all windows_apart splits"
    using p6_violations_splits [of splits] assms by blast
  then show ?thesis
    by (cases vs) (auto simp: assert_invariant_P6_def recorded_def dict_get_def Let_def flt_def)
qed

text \<open>The splits of the driver satisfy the assertion.\<close>

lemma valid_month_start: "12 \<le> i \<Longrightarrow> i < 119999 \<Longrightarrow> valid_date (month_of_index i)"
  by (auto simp: month_of_index_def valid_date_def days_in_month_def)

lemma driver_splits_proper:
  assumes "i \<in> {24305..24315}"
  shows "proper_split (split_of_index i)" and "windows_apart (split_of_index i)"
proof -
  have "month_of_index a < month_of_index b" if "a < b" "12 \<le> a" "b < 120000" for a b
    using that lex_less_index [of "month_of_index a" "month_of_index b"]
    by (simp add: month_of_index_valid) (simp add: month_of_index_def)
  then show p: "proper_split (split_of_index i)"
    using assms by (auto simp: proper_split_def split_of_index_def intro: valid_month_start)
  then show "windows_apart (split_of_index i)"
    by (auto simp: windows_apart_def window_def split_of_index_def proper_split_def)
qed

theorem assert_P6_windows_witness:
  "\<exists>splits. iter_splits = Inr splits \<and> (\<forall>s \<in> set splits. proper_split s)
     \<and> asserts ''P6'' ''unknown'' False
         (assert_invariant_P6 [] [(''walkforward_splits'', JList (map split_json splits))])"
proof -
  let ?splits = "map split_of_index [24305..24315]"
  have p: "proper_split s" if "s \<in> set ?splits" for s using that driver_splits_proper(1) by auto
  have "list_all windows_apart ?splits" using driver_splits_proper(2) by (simp add: list_all_iff)
  moreover have "extract_candidate_id [] [(''walkforward_splits'', v)] = ''unknown''" for v
    by (simp add: extract_candidate_id_def get_or_none_def dict_get_def)
  ultimately have "asserts ''P6'' ''unknown'' False
      (assert_invariant_P6 [] [(''walkforward_splits'', JList (map split_json ?splits))])"
    using assert_P6_windows [of ?splits "[]", OF p] by simp
  then show ?thesis using iter_splits_eq p by blast
qed

section \<open>The round trip of a summary\<close>

text \<open>The integers that \<open>float\<close> converts without an overflow\<close>

fun floatable :: "json \<Rightarrow> bool" where
  "floatable (JInt i) = (\<not> isl (py_float (JInt i)))"
| "floatable (JList xs) = list_all floatable xs"
| "floatable (JDict d) = list_all (\<lambda>(k, b). b) (map (\<lambda>(k, v). (k, floatable v)) d)"
| "floatable v = True"

lemma res_map_Inr: "(\<And>x. x \<in> set xs \<Longrightarrow> f x = Inr (g x)) \<Longrightarrow> res_map f xs = Inr (map g xs)"
  by (induction xs) auto

lemma res_map_issues:
  "(\<And>x. x \<in> set xs \<Longrightarrow> f x = Inr []) \<Longrightarrow> res_bind (res_map f xs) (\<lambda>issues. Inr (concat issues)) = Inr []"
  using res_map_Inr [of xs f "\<lambda>x. []"] by simp

lemma numeric_close_refl: "numeric_close x x tol = Inr True"
  by (cases x) (auto simp: numeric_close_def feq_def)

lemma check_atoms_refl: "floatable v \<Longrightarrow> check_atoms v v p = Inr []"
  by (cases v; cases "py_float v") (auto simp: check_atoms_def numeric_close_refl isl_def)

text \<open>Reordering the entries of a dictionary is not an issue for the comparison.\<close>

lemma check_value_equivalence_canon:
  "distinct_keys v \<Longrightarrow> floatable v \<Longrightarrow> check_value_equivalence v (canon True (\<lambda>x. x) v) p = Inr []"
proof (induction v arbitrary: p rule: distinct_keys.induct)
  case (1 xs)
  then show ?case
    by (auto simp: check_value_equivalence.simps [of "JList xs"] in_set_enumerate_eq list_all_iff
        intro!: res_map_issues)
next
  case (2 d)
  let ?e = "sorted_items (map (\<lambda>(k, v). (k, canon True (\<lambda>x. x) v)) d)"
  have "\<exists>a. dict_get d k = Some a \<and> dict_get ?e k = Some (canon True (\<lambda>x. x) a)
      \<and> (\<forall>p. check_value_equivalence a (canon True (\<lambda>x. x) a) p = Inr [])"
    if k: "k \<in> fst ` set d \<union> fst ` set ?e" for k
  proof -
    from k obtain a where a: "(k, a) \<in> set d" by auto
    then have "dict_get d k = Some a" using 2(2) by (simp add: dict_get_def)
    moreover have "\<forall>p. check_value_equivalence a (canon True (\<lambda>x. x) a) p = Inr []"
      using 2 a by (force simp: list_all_iff)
    ultimately show ?thesis using 2(2) by (simp add: dict_get_sorted_items)
  qed
  then show ?case
    by (fastforce simp: check_value_equivalence.simps [of "JDict d"] Let_def intro!: res_map_issues)
qed (simp_all add: check_value_equivalence.simps check_atoms_refl)

lemma p8_roundtrip_clean:
  assumes "distinct_keys (JDict summary)" and "all_floats is_f64 (JDict summary)" and "floatable (JDict summary)"
  shows "p8_roundtrip exc_str summary = Inr []"
proof -
  let ?v = "JDict summary"
  have "json_loads (json_dumps_line True ?v) = Inr (canon True (\<lambda>x. x) ?v)"
    using json_loads_reads [OF reads_dumps_line [OF assms(2), of True] distinct_keys_canon [OF assms(1)], of "[]"] by simp
  then show ?thesis
    using check_value_equivalence_canon [OF assms(1,3), of "''summary''"] by (simp add: p8_roundtrip_def)
qed

lemma assert_P8_iff:
  assumes "distinct_keys (JDict summary)" and "all_floats is_f64 (JDict summary)" and "floatable (JDict summary)"
    and "recorded summary ''P8_count'' (JInt 0) = Inr (JInt n)"
  shows "asserts ''P8'' (extract_candidate_id ledger summary) (ledger \<noteq> [] \<and> columns \<noteq> LEDGER_HEADER \<or> 0 < n)
    (assert_invariant_P8 exc_str columns ledger summary)"
proof -
  let ?vs = "p8_columns columns ledger
    @ (if 0 < n then [JDict [(''type'', JStr ''summary_p8_count_nonzero''), (''P8_count'', JInt n)]] else [])"
  have "(?vs \<noteq> []) = (ledger \<noteq> [] \<and> columns \<noteq> LEDGER_HEADER \<or> 0 < n)" by (simp add: p8_columns_def)
  moreover have "assert_invariant_P8 exc_str columns ledger summary
      = report_issues ''P8'' ''Round-trip serialization'' ledger summary ?vs"
    using assms(4) by (simp add: assert_invariant_P8_def p8_roundtrip_clean [OF assms(1-3)] flt_def)
  ultimately show ?thesis using asserts_report [of "''P8''" ledger summary ?vs] by simp
qed

text \<open>
  C23. On every summary whose floats are binary64 numbers and whose integers are in their range, writing and
  reading the summary back raises no issue: assertion P8 raises \<open>InvariantViolation\<close> exactly if a
  non-empty ledger has other columns than the 22 fields in their order, or the summary records a
  positive count for P8. Otherwise it returns and writes nothing.
\<close>

theorem assert_P8_exact:
  assumes "distinct_keys (JDict summary)" and "all_floats is_f64 (JDict summary)" and "floatable (JDict summary)"
    and "recorded summary ''P8_count'' (JInt 0) = Inr (JInt n)"
  shows "asserts ''P8'' (extract_candidate_id ledger summary) (ledger \<noteq> [] \<and> columns \<noteq> LEDGER_HEADER \<or> 0 < n)
    (assert_invariant_P8 exc_str columns ledger summary)"
  by (rule assert_P8_iff [OF assms])

theorem assert_P8_exact_witness:
  "asserts ''P8'' ''abc'' False
     (assert_invariant_P8 (\<lambda>e. []) [] []
        [(''candidate_id'', JStr ''abc''), (''x'', JFloat (fl (1 / 10))), (''y'', JList [JInt 7, JNull]),
         (''invariant_violations'', JDict (violations_dict 0 0 0 0 False))])"
proof -
  let ?s = "[(''candidate_id'', JStr ''abc''), (''x'', JFloat (fl (1 / 10))), (''y'', JList [JInt 7, JNull]),
         (''invariant_violations'', JDict (violations_dict 0 0 0 0 False))]"
  have "distinct_keys (JDict ?s)" by (simp add: violations_dict_def)
  moreover have "all_floats is_f64 (JDict ?s)"
    by (simp add: violations_dict_def)
  moreover have "floatable (JDict ?s)" by (simp add: violations_dict_def) code_simp
  moreover have "recorded ?s ''P8_count'' (JInt 0) = Inr (JInt 0)"
    by (simp add: recorded_def dict_get_def violations_dict_def)
  moreover have "extract_candidate_id [] ?s = ''abc''"
    by (simp add: extract_candidate_id_def get_or_none_def dict_get_def)
  ultimately show ?thesis using assert_P8_exact [of ?s 0 "[]" "[]" "\<lambda>e. []"] by simp
qed

section \<open>All assertions on a checked summary\<close>

text \<open>
  The nine assertions of the module on one ledger and summary. P8 also reads the column names of the
  frame; \<open>exc_str\<close> is the text of an exception of the JSON reader.
\<close>

definition all_assertions ::
  "numpy_ops \<Rightarrow> pandas_text \<Rightarrow> (py_error \<Rightarrow> string) \<Rightarrow> string list \<Rightarrow> trade_record list \<Rightarrow> metrics_dict
    \<Rightarrow> (string \<times> assertion) list" where
  "all_assertions ops txts exc_str columns ledger summary =
     [(''P1'', assert_invariant_P1 ledger summary), (''P3'', assert_invariant_P3 txts ledger summary),
      (''P4'', assert_invariant_P4 ledger summary), (''P6'', assert_invariant_P6 ledger summary),
      (''P7'', assert_invariant_P7 ledger summary),
      (''P8'', assert_invariant_P8 exc_str columns ledger summary), (''P9'', assert_invariant_P9 ops ledger summary),
      (''P11'', assert_invariant_P11 ledger summary), (''P12'', assert_invariant_P12 ledger summary)]"

text \<open>The counts that the checker never assigns satisfy their assertions.\<close>

lemma recorded_checked:
  assumes "dict_get summary ''invariant_violations'' = Some (JDict (violations_dict p3 p4 p9 p12 live))"
  shows "recorded summary ''P1_missing_trigger_count'' d = Inr (JInt 0)"
    and "recorded summary ''P1_spurious_trigger_count'' d = Inr (JInt 0)"
    and "recorded summary ''P6_count'' d = Inr (JInt 0)"
    and "recorded summary ''P7_ledger_sha256_pairs'' d = Inr (JList [])"
    and "recorded summary ''P11_count'' d = Inr (JInt 0)"
    and "recorded summary ''P8_count'' d = Inr (JInt 0)"
  unfolding recorded_def assms by (simp_all add: violations_dict_def dict_get_def)

lemma unassigned_hold:
  assumes "dict_get summary ''invariant_violations'' = Some (JDict (violations_dict p3 p4 p9 p12 live))"
    and "dict_get summary ''walkforward_splits'' = None"
  shows "assert_invariant_P1 ledger summary = passes" and "assert_invariant_P6 ledger summary = passes"
    and "assert_invariant_P7 ledger summary = passes"
    and "asserts ''P11'' (extract_candidate_id ledger summary) (invalid_pullback_rows ledger \<noteq> [])
           (assert_invariant_P11 ledger summary)"
  using asserts_report [of "''P11''" ledger summary]
  by (auto simp: assert_invariant_P1_def assert_invariant_P6_def assert_invariant_P7_def assert_invariant_P11_def
      recorded_checked [OF assms(1)] json_add_def flt_def assms(2) report_issues_def Let_def)

lemma check_p9_extra: "check_p9 ops ledger (dict_set summary ''invariant_violations'' v) = check_p9 ops ledger summary"
  unfolding check_p9_def check_p9_mode_def dict_get_dict_set by simp

lemma check_p12_extra: "check_p12 (dict_set summary ''invariant_violations'' v) = check_p12 summary"
  unfolding check_p12_def check_p12_mode_def dict_has_iff dict_get_dict_set by simp

text \<open>
  C21. The assertions of the test suite and the checker of the pipeline, two implementations of the same
  invariants, agree. Take a ledger and a summary that the checker has completed with its result, and
  suppose that no live output is reported, that the summary lists no splits and that no pull-back row
  has an invalid entry price (which the checker does not look at); for P8 suppose further that the frame
  of a non-empty ledger has the 22 columns in their order and that the completed summary has distinct keys, binary64
  floats and no integer beyond the range of a float (which P8 would answer with \<open>OverflowError\<close>). Then none
  of the nine assertions fails with an unexpected exception, each one either returns without touching a
  file or writes the counterexample file of its property, and all of them return exactly if
  \<open>has_violations\<close> is false.
\<close>

theorem assertions_agree:
  assumes "check_invariants ops ledger summary = Inr v"
    and "\<not> flag_of summary ''live_output_emitted''" and "dict_get summary ''walkforward_splits'' = None"
    and "invalid_pullback_rows ledger = []" and "ledger = [] \<or> columns = LEDGER_HEADER"
  defines "checked \<equiv> dict_set summary ''invariant_violations'' (JDict v)"
  assumes "distinct_keys (JDict checked)" and "all_floats is_f64 (JDict checked)" and "floatable (JDict checked)"
  shows "(\<forall>(p, a) \<in> set (all_assertions ops txts exc_str columns ledger checked).
            asserts p (extract_candidate_id ledger checked) (\<exists>fs. fst (a fs) \<noteq> Holds) a)
       \<and> has_violations v = Inr (\<exists>(p, a) \<in> set (all_assertions ops txts exc_str columns ledger checked).
            \<exists>fs. fst (a fs) \<noteq> Holds)"
proof -
  obtain p9 p12 where v: "check_p9 ops ledger checked = Inr p9" "check_p12 checked = Inr p12"
    "v = violations_dict (check_p3 ledger) (check_p4 ledger) p9 p12 False"
    "has_violations v = Inr (0 < check_p3 ledger \<or> 0 < check_p4 ledger \<or> 0 < p9 \<or> 0 < p12)"
    using assms(1,2)
    by (auto simp: check_invariants_def res_bind_eq_Inr_iff violations_dict_simps checked_def check_p9_extra check_p12_extra)
  have c: "dict_get checked ''invariant_violations'' = Some (JDict (violations_dict (check_p3 ledger) (check_p4 ledger) p9 p12 False))"
    "dict_get checked ''walkforward_splits'' = None"
    by (simp_all add: checked_def assms(3) v(3))
  note u = unassigned_hold [OF c, of ledger]
  have p8: "asserts ''P8'' (extract_candidate_id ledger checked) False (assert_invariant_P8 exc_str columns ledger checked)"
    using assert_P8_iff [OF assms(7-9) recorded_checked(6) [OF c(1)], of ledger columns exc_str] assms(5) by auto
  note facts = assert_P3_iff [of ledger checked txts] assert_P4_iff [of ledger checked]
    assert_P9_iff [OF v(1)] assert_P12_iff [OF v(2), of ledger] u(4)
    p8
  have pass: "\<not> (\<exists>fs. fst (passes fs) \<noteq> Holds)" by (simp add: passes_def)
  note outcomes = facts [THEN asserts_outcome]
  show ?thesis
    using facts pass unfolding all_assertions_def u(1-3) v(4)
    by (simp add: outcomes assms(4))
qed

text \<open>The empty ledger, whose summary lacks all figures, violates P9 and P12.\<close>

theorem assertions_agree_witness:
  "\<exists>v. check_invariants ref_numpy [] [] = Inr v \<and> has_violations v = Inr True
     \<and> (\<exists>(p, a) \<in> set (all_assertions ref_numpy \<lparr>ts_str = str_int, group_str = \<lambda>k. []\<rparr> (\<lambda>e. []) LEDGER_HEADER []
              (dict_set [] ''invariant_violations'' (JDict v))). \<exists>fs. fst (a fs) \<noteq> Holds)"
proof -
  let ?v = "violations_dict 0 0 2 2 False"
  let ?checked = "dict_set [] ''invariant_violations'' (JDict ?v)"
  have v: "check_invariants ref_numpy [] [] = Inr ?v" by code_simp
  have "\<not> flag_of [] ''live_output_emitted''" "dict_get [] ''walkforward_splits'' = (None :: json option)"
    "invalid_pullback_rows [] = []"
    by (simp_all add: flag_of_def dict_get_def invalid_pullback_rows_def)
  moreover have "distinct_keys (JDict ?checked)" "all_floats is_f64 (JDict ?checked)"
    by (simp_all add: violations_dict_def)
  moreover have "floatable (JDict ?checked)" by (simp add: violations_dict_def) code_simp
  ultimately have "has_violations ?v = Inr (\<exists>(p, a) \<in> set (all_assertions ref_numpy
      \<lparr>ts_str = str_int, group_str = \<lambda>k. []\<rparr> (\<lambda>e. []) LEDGER_HEADER [] ?checked). \<exists>fs. fst (a fs) \<noteq> Holds)"
    using assertions_agree [OF v, of LEDGER_HEADER "\<lparr>ts_str = str_int, group_str = \<lambda>k. []\<rparr>" "\<lambda>e. []"] by blast
  then show ?thesis using v by (intro exI [of _ ?v]) (simp only: violations_dict_simps, simp)
qed

end
