(* ===== verification/Pipeline.thy ===== *)
theory Pipeline
  imports Invariants
begin

text \<open>
  \<open>scheduler/pipeline.py\<close>: the composition of all components. A method that writes files is a function
  of the type \<open>'a io\<close>: it takes the files and returns the value or the exception together with the
  files as they are then, so that files written before an exception stay written. The class
  \<open>EventsLoader\<close>, which the pipeline's caller implements, is the record \<open>events_loader\<close> of its
  methods, a parameter of every definition that uses it.
\<close>

section \<open>Computations on files\<close>

type_synonym 'a io = "fs \<Rightarrow> 'a res \<times> fs"

definition io_return :: "'a \<Rightarrow> 'a io" where
  "io_return a fs = (Inr a, fs)"

definition io_bind :: "'a io \<Rightarrow> ('a \<Rightarrow> 'b io) \<Rightarrow> 'b io" where
  "io_bind m f fs = (case m fs of (Inl e, fs') \<Rightarrow> (Inl e, fs') | (Inr a, fs') \<Rightarrow> f a fs')"

text \<open>A computation without effect on files, one that reads them, and a writer, which changes the files only if it succeeds.\<close>

definition io_res :: "'a res \<Rightarrow> 'a io" where
  "io_res r fs = (r, fs)"

definition io_read :: "(fs \<Rightarrow> 'a res) \<Rightarrow> 'a io" where
  "io_read f fs = (f fs, fs)"

definition io_writer :: "(fs \<Rightarrow> fs res) \<Rightarrow> unit io" where
  "io_writer w fs = (case w fs of Inl e \<Rightarrow> (Inl e, fs) | Inr fs' \<Rightarrow> (Inr (), fs'))"

section \<open>Configuration, result and loader\<close>

record pipeline_config =
  pc_seed :: int
  pc_git_commit_sha :: string
  pc_events_source_path :: string
  pc_events_source_sha256 :: string
  pc_runner_version :: string
  pc_output_dir :: string
  pc_project_root :: string
  pc_tick_size_by_symbol :: "(string \<times> pyfloat) list"
  pc_step_size_by_symbol :: "(string \<times> pyfloat) list"
  pc_atr14_source_path :: string
  pc_atr14_source_sha256 :: string
  pc_gate_snapshot_expected_sha256 :: "string option"
  pc_validation_metrics :: "validation_metrics_t option"
  pc_aborted_at_utc_ms :: string

record pipeline_result =
  res_candidate_id :: string
  res_status :: string
  res_ledger_path :: "string option"
  res_summary_path :: "string option"
  res_attribution_path :: "string option"
  res_snapshot_path :: "string option"
  res_ablation_pretouch_only_path :: "string option"
  res_ablation_posttouch_only_path :: "string option"
  res_abort_reason :: "string option"
  res_reject_reason :: "string option"

record exit_info =
  ei_exit_ts :: datetime
  ei_exit_price :: pyfloat
  ei_exit_reason :: string
  ei_raw_pnl :: pyfloat
  ei_notional :: pyfloat

record events_loader =
  load_events :: "date \<Rightarrow> date \<Rightarrow> event list"
  get_onesec_window :: "event \<Rightarrow> one_second_bar list"
  get_trades_window :: "event \<Rightarrow> taker_trade list"
  get_hourly_history :: "event \<Rightarrow> hourly_bar list option"
  get_posttouch_onesec_window :: "event \<Rightarrow> trigger_decision \<Rightarrow> one_second_bar_ext list"
  get_posttouch_trades_window :: "event \<Rightarrow> trigger_decision \<Rightarrow> sided_trade list"
  get_exit_info :: "event \<Rightarrow> price_resolution \<Rightarrow> exit_info"

section \<open>Validation, rejection and abort\<close>

text \<open>\<open>_try_validate\<close>: an invalid candidate gives \<open>None\<close>, any other exception propagates.\<close>

definition try_validate :: "entry_candidate_spec \<Rightarrow> string option res" where
  "try_validate spec =
     (case res_bind (validate spec) (\<lambda>_. generate_candidate_id spec) of
        Inr candidate_id \<Rightarrow> Inr (Some candidate_id)
      | Inl (InvalidCandidateError r) \<Rightarrow> Inr None
      | Inl e \<Rightarrow> Inl e)"

definition rejected_result :: "string \<Rightarrow> string \<Rightarrow> pipeline_result" where
  "rejected_result candidate_id reason =
     \<lparr>res_candidate_id = candidate_id, res_status = ''rejected'', res_ledger_path = None,
      res_summary_path = None, res_attribution_path = None, res_snapshot_path = None,
      res_ablation_pretouch_only_path = None, res_ablation_posttouch_only_path = None,
      res_abort_reason = None, res_reject_reason = Some reason\<rparr>"

definition handle_reject :: "string \<Rightarrow> entry_candidate_spec \<Rightarrow> pipeline_config \<Rightarrow> pipeline_result io" where
  "handle_reject output_dir spec config =
     io_bind (io_res
       (case generate_candidate_id spec of
          Inr candidate_id \<Rightarrow> Inr candidate_id
        | Inl e \<Rightarrow> if e = KeyError \<or> e = ValueError then Inr ''unknown_rejected'' else Inl e)) (\<lambda>candidate_id.
     io_bind (io_res
       (case validate spec of
          Inr _ \<Rightarrow> Inr ''H_gt_D''
        | Inl (InvalidCandidateError r) \<Rightarrow> Inr (if r = ''H_gt_D'' then ''H_gt_D'' else ''token_mapping_error'')
        | Inl e \<Rightarrow> Inl e)) (\<lambda>reject_reason.
     io_bind (io_writer (\<lambda>fs. res_bind
         (write_rejected output_dir candidate_id reject_reason spec (pc_aborted_at_utc_ms config) fs)
         (\<lambda>(p, fs'). Inr fs'))) (\<lambda>_.
       io_return (rejected_result candidate_id reject_reason))))"

definition aborted_result :: "string \<Rightarrow> string \<Rightarrow> pipeline_result" where
  "aborted_result candidate_id reason =
     \<lparr>res_candidate_id = candidate_id, res_status = ''aborted'', res_ledger_path = None,
      res_summary_path = None, res_attribution_path = None, res_snapshot_path = None,
      res_ablation_pretouch_only_path = None, res_ablation_posttouch_only_path = None,
      res_abort_reason = Some reason, res_reject_reason = None\<rparr>"

definition handle_abort ::
  "string \<Rightarrow> string \<Rightarrow> string \<Rightarrow> (string \<times> string) list list \<Rightarrow> pipeline_config \<Rightarrow> pipeline_result io" where
  "handle_abort output_dir candidate_id abort_reason mismatched_fields config =
     io_bind (io_writer (\<lambda>fs. res_bind
         (write_aborted output_dir candidate_id abort_reason mismatched_fields (pc_aborted_at_utc_ms config) fs)
         (\<lambda>(p, fs'). Inr fs'))) (\<lambda>_.
       io_return (aborted_result candidate_id abort_reason))"

section \<open>Snapshot and gate snapshot\<close>

definition build_snapshot :: "entry_candidate_spec \<Rightarrow> pipeline_config \<Rightarrow> runner_parameter_snapshot res" where
  "build_snapshot spec config =
     post_init
       \<lparr>candidate = spec,
        cost_model_baseline = BASELINE_COST_PARAMS,
        cost_model_stress = STRESS_COST_PARAMS,
        seed = pc_seed config,
        git_commit_sha = pc_git_commit_sha config,
        events_source_path = pc_events_source_path config,
        events_source_sha256 = pc_events_source_sha256 config,
        runner_version = pc_runner_version config,
        symbol_filters =
          \<lparr>tick_size_by_symbol = pc_tick_size_by_symbol config,
           step_size_by_symbol = pc_step_size_by_symbol config\<rparr>,
        features =
          \<lparr>atr14_source =
             \<lparr>atr14_path = pc_atr14_source_path config, atr14_sha256 = pc_atr14_source_sha256 config\<rparr>\<rparr>\<rparr>"

definition load_gate_snapshot :: "fs \<Rightarrow> pipeline_config \<Rightarrow> (string \<times> string) list option res" where
  "load_gate_snapshot fs config =
     (let snapshot_path = path_join (pc_project_root config) DEFAULT_SNAPSHOT_PATH
      in case load_snapshot fs (new_loader snapshot_path) of
           Inl e \<Rightarrow>
             if e = OSError
             then case pc_gate_snapshot_expected_sha256 config of
                    Some h \<Rightarrow> Inr None
                  | None \<Rightarrow> Inr (Some [(''path'', snapshot_path), (''sha256'', ''unavailable'')])
             else Inl e
         | Inr (th, l) \<Rightarrow>
             res_bind
               (case pc_gate_snapshot_expected_sha256 config of
                  None \<Rightarrow> Inr True
                | Some h \<Rightarrow> verify_sha256 l h)
               (\<lambda>ok. if ok then res_bind (get_snapshot_ref l) (\<lambda>r. Inr (Some r)) else Inr None))"

definition get_primary_tick_size :: "pipeline_config \<Rightarrow> pyfloat res" where
  "get_primary_tick_size config =
     (let ticks = pc_tick_size_by_symbol config
      in if dict_has ticks ''ETHUSDT'' then dict_item ticks ''ETHUSDT''
         else if ticks \<noteq> [] then Inr (snd (hd ticks))
         else Inr (fl (1 / 100)))"

section \<open>The walk-forward loop\<close>

text \<open>What the loop body reads: the candidate, its snapshot and the objects built before the loop.\<close>

record wf_env =
  we_candidate_id :: string
  we_spec :: entry_candidate_spec
  we_snapshot :: runner_parameter_snapshot
  we_posttouch_gate :: posttouch_gate
  we_validation_metrics :: validation_metrics_t
  we_loader :: events_loader

text \<open>The ledger row of one gate mode.\<close>

definition make_trade_record ::
  "wf_env \<Rightarrow> event \<Rightarrow> trigger_decision \<Rightarrow> price_resolution \<Rightarrow> exit_info \<Rightarrow> priced_trade \<Rightarrow> string
   \<Rightarrow> gate_decision \<Rightarrow> trade_record" where
  "make_trade_record env event trigger resolution exit_info priced_trade gate_mode gate_decision =
     \<lparr>tr_entry_ts = the (pr_entry_ts resolution),
      tr_exit_ts = ei_exit_ts exit_info,
      tr_symbol = ev_symbol event,
      tr_side = ev_side event,
      tr_entry_price = the (pr_entry_price resolution),
      tr_exit_price = ei_exit_price exit_info,
      tr_notional = ei_notional exit_info,
      tr_raw_pnl = ei_raw_pnl exit_info,
      tr_slip_pnl = pt_slip_pnl priced_trade,
      tr_realistic_pnl = pt_realistic_pnl priced_trade,
      tr_realistic_taker_both_pnl = pt_realistic_taker_both_pnl priced_trade,
      tr_exit_reason = (if passed gate_decision then ei_exit_reason exit_info else ''gate_rejected''),
      tr_entry_candidate_id = we_candidate_id env,
      tr_gate_mode = gate_mode,
      tr_signal_bar_start_ts = ev_signal_bar_start_ts event,
      tr_trigger_ts = td_trigger_ts trigger,
      tr_entry_delay_seconds = entry_delay_seconds (we_spec env),
      tr_feature_horizon_seconds = feature_horizon_seconds (we_spec env),
      tr_trigger_confirmation_id = trigger_confirmation_id (we_spec env),
      tr_entry_price_mode_id = entry_price_mode_id (we_spec env),
      tr_pretouch_state_band_id = pretouch_state_band_id (we_spec env),
      tr_posttouch_quality_band_id = posttouch_quality_band_id (we_spec env)\<rparr>"

text \<open>Pricing a filled entry and evaluating both gate modes.\<close>

definition record_entry ::
  "wf_env \<Rightarrow> event \<Rightarrow> trigger_decision \<Rightarrow> price_resolution \<Rightarrow> trade_record list res" where
  "record_entry env event trigger resolution =
     (let exit_info = get_exit_info (we_loader env) event resolution;
          raw_trade =
            \<lparr>rt_raw_pnl = ei_raw_pnl exit_info, rt_notional = ei_notional exit_info,
             rt_entry_price = the (pr_entry_price resolution), rt_exit_price = ei_exit_price exit_info,
             rt_symbol = ev_symbol event, rt_side = ev_side event\<rparr>;
          priced_trade = apply_cost raw_trade BASELINE_COST_PARAMS
      in res_map (\<lambda>gate_mode.
           res_bind (evaluate_gate GATE_001_THRESHOLDS (we_validation_metrics env) gate_mode) (\<lambda>gate_decision.
             Inr (make_trade_record env event trigger resolution exit_info priced_trade gate_mode gate_decision)))
         [''nogate'', ''gate001''])"

text \<open>The body of the loop over events; the resolver carries the context of the last event.\<close>

definition process_event ::
  "wf_env \<Rightarrow> price_resolver \<Rightarrow> event \<Rightarrow> (trade_record list \<times> price_resolver) res" where
  "process_event env resolver event =
     (let loader = we_loader env;
          r = set_context (atr14_prev_closed_1h event) (ev_symbol event) resolver;
          onesec_window = get_onesec_window loader event;
          trades_window = get_trades_window loader event
      in case detect event onesec_window of
           None \<Rightarrow> Inr ([], r)
         | Some trigger \<Rightarrow>
             res_bind (evaluate_confirmation (we_snapshot env) trigger onesec_window trades_window
                         (get_hourly_history loader event)) (\<lambda>confirmation.
             if \<not> confirmed confirmation then Inr ([], r)
             else if \<not> pretouch_allow (pretouch_state_band_id (we_spec env)) event (atr14_prev_closed_1h event)
             then Inr ([], r)
             else res_bind (posttouch_allow (we_posttouch_gate env) trigger
                              (get_posttouch_onesec_window loader event trigger)
                              (get_posttouch_trades_window loader event trigger)
                              (atr14_prev_closed_1h event)) (\<lambda>allowed.
             if \<not> allowed then Inr ([], r)
             else res_bind (resolve r trigger onesec_window) (\<lambda>resolution.
             if \<not> filled resolution then Inr ([], r)
             else res_bind (record_entry env event trigger resolution) (\<lambda>rows. Inr (rows, r))))))"

fun walk_events ::
  "wf_env \<Rightarrow> price_resolver \<Rightarrow> event list \<Rightarrow> (trade_record list \<times> price_resolver) res" where
  "walk_events env r [] = Inr ([], r)"
| "walk_events env r (ev # evs) =
     res_bind (process_event env r ev) (\<lambda>(ts, r').
     res_bind (walk_events env r' evs) (\<lambda>(ts', r''). Inr (ts @ ts', r'')))"

fun walk_splits :: "wf_env \<Rightarrow> price_resolver \<Rightarrow> walkforward_split list \<Rightarrow> trade_record list res" where
  "walk_splits env r [] = Inr []"
| "walk_splits env r (s # ss) =
     res_bind (walk_events env r (load_events (we_loader env) (execute_start s) (execute_end s))) (\<lambda>(ts, r').
     res_bind (walk_splits env r' ss) (\<lambda>ts'. Inr (ts @ ts')))"

definition default_validation_metrics :: validation_metrics_t where
  "default_validation_metrics =
     \<lparr>validation_return_over_dd = Fin 0, validation_topk_sizing_markov_score_mean = Fin 0,
      validation_topk_sized_return_pct = Fin 0\<rparr>"

definition execute_walkforward ::
  "entry_candidate_spec \<Rightarrow> runner_parameter_snapshot \<Rightarrow> pipeline_config \<Rightarrow> events_loader option
   \<Rightarrow> trade_record list res" where
  "execute_walkforward spec snapshot config loader =
     res_bind (generate_candidate_id spec) (\<lambda>candidate_id.
     res_bind (get_primary_tick_size config) (\<lambda>tick_size.
     res_bind (new_posttouch_gate (posttouch_quality_band_id spec) tick_size) (\<lambda>posttouch_gate.
     res_bind iter_splits (\<lambda>splits.
       case loader of
         None \<Rightarrow> Inr []
       | Some l \<Rightarrow>
           walk_splits
             \<lparr>we_candidate_id = candidate_id, we_spec = spec, we_snapshot = snapshot,
              we_posttouch_gate = posttouch_gate,
              we_validation_metrics =
                (case pc_validation_metrics config of Some m \<Rightarrow> m | None \<Rightarrow> default_validation_metrics),
              we_loader = l\<rparr>
             (new_resolver snapshot) splits))))"

section \<open>Summary\<close>

text \<open>The two early returns of \<open>_compute_symbol_metrics\<close>\<close>

definition empty_symbol_metrics :: metrics_dict where
  "empty_symbol_metrics =
     [(''nogate_trade_count'', JInt 0), (''nogate_win_rate'', JNull), (''nogate_payoff_ratio'', JNull),
      (''nogate_calendar_normalized_return_pct'', JFloat (Fin 0)),
      (''nogate_per_trade_quality_bps_over_notional'', JNull)]"

definition compute_symbol_metrics :: "numpy_ops \<Rightarrow> trade_record list \<Rightarrow> string \<Rightarrow> metrics_dict res" where
  "compute_symbol_metrics ops ledger_df symbol =
     (if ledger_df = [] then Inr empty_symbol_metrics
      else let symbol_df = filter (\<lambda>t. tr_symbol t = symbol) ledger_df
           in if symbol_df = [] then Inr empty_symbol_metrics else aggregate ops symbol_df 11)"

definition no_baseline_ref :: metrics_dict where
  "no_baseline_ref =
     (let none = [(''nogate_win_rate'', JNull), (''nogate_payoff_ratio'', JNull)]
      in none @ [(''BTCUSDT'', JDict none), (''ETHUSDT'', JDict none)])"

definition sub_dict :: "metrics_dict \<Rightarrow> string \<Rightarrow> metrics_dict" where
  "sub_dict d k = (case dict_get d k of Some (JDict e) \<Rightarrow> e | _ \<Rightarrow> [])"

definition str_dict :: "(string \<times> string) list \<Rightarrow> json" where
  "str_dict d = JDict (map (\<lambda>(k, s). (k, JStr s)) d)"

definition get_or_int0 :: "metrics_dict \<Rightarrow> string \<Rightarrow> json" where
  "get_or_int0 d k = (case dict_get d k of None \<Rightarrow> JInt 0 | Some v \<Rightarrow> v)"

definition build_summary ::
  "numpy_ops \<Rightarrow> metrics_dict \<Rightarrow> (string \<times> string) list \<Rightarrow> trade_record list \<Rightarrow> trade_record list option
   \<Rightarrow> metrics_dict res" where
  "build_summary ops metrics gate_snapshot_ref ledger_df baseline_trades =
     res_bind (case baseline_trades of
                 Some ts \<Rightarrow> compute_baseline_reference ts
               | None \<Rightarrow> Inr no_baseline_ref) (\<lambda>baseline_ref.
     let s1 = dict_update [] metrics;
         s2 = dict_set s1 ''walkforward_config'' (JDict get_walkforward_config);
         s3 = dict_set s2 ''gate001_snapshot_ref'' (str_dict gate_snapshot_ref);
         s4 = dict_set s3 ''baseline_reference'' (JDict baseline_ref)
     in res_bind (compute_event_expectation_positive s4 baseline_ref) (\<lambda>positive_all.
     res_bind (compute_symbol_metrics ops ledger_df ''BTCUSDT'') (\<lambda>btc_summary.
     res_bind (compute_symbol_metrics ops ledger_df ''ETHUSDT'') (\<lambda>eth_summary.
     res_bind (compute_event_expectation_positive btc_summary (sub_dict baseline_ref ''BTCUSDT'')) (\<lambda>positive_btc.
     res_bind (compute_event_expectation_positive eth_summary (sub_dict baseline_ref ''ETHUSDT'')) (\<lambda>positive_eth.
     let s5 = dict_set s4 ''event_expectation_positive'' (JBool positive_all);
         s6 = dict_set s5 ''event_expectation_positive_btc_only'' (JBool positive_btc);
         s7 = dict_set s6 ''event_expectation_positive_eth_only'' (JBool positive_eth);
         s8 = dict_set s7 ''btc_nogate_trade_count'' (get_or_int0 btc_summary ''nogate_trade_count'');
         s9 = dict_set s8 ''eth_nogate_trade_count'' (get_or_int0 eth_summary ''nogate_trade_count'')
     in res_bind (compute_small_sample_flag s9) (\<lambda>small.
     let s10 = dict_set s9 ''small_sample_flag'' (JBool small);
         s11 = dict_set s10 ''asymmetry_tag'' (JStr (compute_asymmetry_tag s10))
     in Inr (dict_set s11 ''live_output_emitted'' (JBool False)))))))))"

section \<open>Attribution\<close>

definition silo_symbols :: "string list" where
  "silo_symbols = [''BTCUSDT'', ''ETHUSDT'']"

definition silo_months :: "string list" where
  "silo_months =
     map (\<lambda>(y, m). fmt_ym y m)
       [(2025, 6), (2025, 7), (2025, 8), (2025, 9), (2025, 10), (2025, 11), (2025, 12),
        (2026, 1), (2026, 2), (2026, 3), (2026, 4)]"

definition in_silo :: "string \<Rightarrow> string \<Rightarrow> trade_record \<Rightarrow> bool" where
  "in_silo symbol year_month t \<longleftrightarrow> tr_symbol t = symbol \<and> year_month_of (tr_signal_bar_start_ts t) = year_month"

definition is_combined_pretouch_posttouch :: "entry_candidate_spec \<Rightarrow> bool" where
  "is_combined_pretouch_posttouch spec \<longleftrightarrow>
     pretouch_state_band_id spec \<noteq> ''none'' \<and> posttouch_quality_band_id spec \<noteq> ''none''"

definition determine_layer_dependency :: "json \<Rightarrow> json \<Rightarrow> entry_candidate_spec \<Rightarrow> string res" where
  "determine_layer_dependency nogate_pnl_pct gate001_pnl_pct spec =
     (if pretouch_state_band_id spec \<noteq> ''none'' \<and> posttouch_quality_band_id spec \<noteq> ''none''
      then Inr ''combined''
      else res_bind (py_num nogate_pnl_pct) (\<lambda>n.
           if fle (Fin 0) n then Inr ''entry_only''
           else res_bind (py_num gate001_pnl_pct) (\<lambda>g.
             if fle (Fin 0) g \<and> flt n (Fin 0) then Inr ''gate_dependent'' else Inr ''entry_only'')))"

text \<open>Count, profit and quality of the rows of one silo and gate mode.\<close>

definition silo_figures :: "numpy_ops \<Rightarrow> trade_record list \<Rightarrow> nat \<times> pyfloat \<times> pyfloat" where
  "silo_figures ops df =
     (if df = [] then (0, Fin 0, Fin 0)
      else let r_i = returns ops tr_realistic_pnl df
           in (length df, fmul (np_sum ops r_i) (Fin 100), fmul (np_mean ops r_i) (Fin 10000)))"

definition baseline_quality_overall :: "numpy_ops \<Rightarrow> trade_record list option \<Rightarrow> pyfloat" where
  "baseline_quality_overall ops baseline_trades =
     (case baseline_trades of
        None \<Rightarrow> Fin 0
      | Some ts \<Rightarrow>
          let baseline_nogate = filter (\<lambda>t. tr_gate_mode t = ''nogate'') ts
          in if baseline_nogate = [] then Fin 0
             else fmul (np_mean ops (returns ops tr_realistic_pnl baseline_nogate)) (Fin 10000))"

text \<open>The tables of baseline figures per silo are never filled, so each lookup yields \<open>0.0\<close>.\<close>

definition attribution_row_of ::
  "numpy_ops \<Rightarrow> trade_record list \<Rightarrow> metrics_dict \<Rightarrow> trade_record list option \<Rightarrow> entry_candidate_spec
   \<Rightarrow> string \<Rightarrow> string \<Rightarrow> row_dict res" where
  "attribution_row_of ops ledger_df metrics baseline_trades spec symbol year_month =
     (let silo = filter (in_silo symbol year_month) ledger_df;
          (nogate_tc, nogate_pnl_pct, nogate_quality_bps) =
            silo_figures ops (filter (\<lambda>t. tr_gate_mode t = ''nogate'') silo);
          (gate001_tc, gate001_pnl_pct, gate001_quality_bps) =
            silo_figures ops (filter (\<lambda>t. tr_gate_mode t = ''gate001'') silo);
          bl_pnl = Fin 0; bl_quality = Fin 0;
          entry_effect_bps = fsub nogate_quality_bps (baseline_quality_overall ops baseline_trades);
          gate_effect_bps = fsub gate001_quality_bps nogate_quality_bps;
          get0 = (\<lambda>k. case dict_get metrics k of None \<Rightarrow> JFloat (Fin 0) | Some v \<Rightarrow> v)
      in res_bind (determine_layer_dependency (get0 ''nogate_calendar_normalized_return_pct'')
                     (get0 ''gate001_calendar_normalized_return_pct'') spec) (\<lambda>layer_dependency.
         Inr [(''symbol'', JStr symbol),
              (''year_month'', JStr year_month),
              (''nogate_trade_count'', JInt (int nogate_tc)),
              (''nogate_realistic_pnl_pct'', JFloat nogate_pnl_pct),
              (''nogate_per_trade_quality_bps_over_notional'', JFloat nogate_quality_bps),
              (''gate001_trade_count'', JInt (int gate001_tc)),
              (''gate001_realistic_pnl_pct'', JFloat gate001_pnl_pct),
              (''gate001_per_trade_quality_bps_over_notional'', JFloat gate001_quality_bps),
              (''baseline_delta_nogate_realistic_pnl_pct'', JFloat (fsub nogate_pnl_pct bl_pnl)),
              (''baseline_delta_nogate_per_trade_quality_bps_over_notional'',
                JFloat (fsub nogate_quality_bps bl_quality)),
              (''entry_effect_bps'', JFloat entry_effect_bps),
              (''gate_effect_bps'', JFloat gate_effect_bps),
              (''sizing_effect_bps'', JFloat (Fin 0)),
              (''layer_dependency'', JStr layer_dependency),
              (''pullback_limit_unfilled_count'', JInt 0)]))"

definition build_attribution_rows ::
  "numpy_ops \<Rightarrow> trade_record list \<Rightarrow> metrics_dict \<Rightarrow> trade_record list option \<Rightarrow> entry_candidate_spec
   \<Rightarrow> row_dict list res" where
  "build_attribution_rows ops ledger_df metrics baseline_trades spec =
     res_map (\<lambda>(symbol, year_month).
         attribution_row_of ops ledger_df metrics baseline_trades spec symbol year_month)
       (List.product silo_symbols silo_months)"

section \<open>Artifacts\<close>

definition artifact_path :: "string \<Rightarrow> string \<Rightarrow> string \<Rightarrow> string" where
  "artifact_path output_dir candidate_id suffix =
     path_join output_dir (''tmp_entry_redesign_'' @ candidate_id @ suffix)"

definition get_ledger_path :: "string \<Rightarrow> string \<Rightarrow> string" where
  "get_ledger_path output_dir candidate_id = artifact_path output_dir candidate_id ''_ledger.csv''"

definition get_summary_path :: "string \<Rightarrow> string \<Rightarrow> string" where
  "get_summary_path output_dir candidate_id = artifact_path output_dir candidate_id ''_summary.json''"

definition get_attribution_path :: "string \<Rightarrow> string \<Rightarrow> string" where
  "get_attribution_path output_dir candidate_id = artifact_path output_dir candidate_id ''_attribution.csv''"

definition get_snapshot_path :: "string \<Rightarrow> string \<Rightarrow> string" where
  "get_snapshot_path output_dir candidate_id = artifact_path output_dir candidate_id ''_runner_snapshot.json''"

definition ablation_pretouch_path :: "string \<Rightarrow> string \<Rightarrow> string" where
  "ablation_pretouch_path output_dir candidate_id =
     artifact_path output_dir candidate_id ''_ablation_pretouch_only_ledger.csv''"

definition ablation_posttouch_path :: "string \<Rightarrow> string \<Rightarrow> string" where
  "ablation_posttouch_path output_dir candidate_id =
     artifact_path output_dir candidate_id ''_ablation_posttouch_only_ledger.csv''"

definition write_snapshot :: "runner_parameter_snapshot \<Rightarrow> string \<Rightarrow> unit io" where
  "write_snapshot snapshot path = io_writer (\<lambda>fs. Inr (fs(path \<mapsto> snapshot_to_json snapshot)))"

definition produce_ablation_ledgers ::
  "string \<Rightarrow> entry_candidate_spec \<Rightarrow> pipeline_config \<Rightarrow> events_loader option \<Rightarrow> string \<Rightarrow> (string \<times> string) io" where
  "produce_ablation_ledgers output_dir spec config loader candidate_id =
     (let pretouch_only_spec = spec\<lparr>posttouch_quality_band_id := ''none''\<rparr>;
          posttouch_only_spec = spec\<lparr>pretouch_state_band_id := ''none''\<rparr>;
          pretouch_only_path = ablation_pretouch_path output_dir candidate_id;
          posttouch_only_path = ablation_posttouch_path output_dir candidate_id
      in io_bind (io_res (build_snapshot pretouch_only_spec config)) (\<lambda>pretouch_only_snapshot.
         io_bind (io_res (execute_walkforward pretouch_only_spec pretouch_only_snapshot config loader))
           (\<lambda>pretouch_only_trades.
         io_bind (io_writer (write_ledger pretouch_only_trades pretouch_only_path)) (\<lambda>_.
         io_bind (io_res (build_snapshot posttouch_only_spec config)) (\<lambda>posttouch_only_snapshot.
         io_bind (io_res (execute_walkforward posttouch_only_spec posttouch_only_snapshot config loader))
           (\<lambda>posttouch_only_trades.
         io_bind (io_writer (write_ledger posttouch_only_trades posttouch_only_path)) (\<lambda>_.
           io_return (pretouch_only_path, posttouch_only_path))))))))"

text \<open>The \<open>try\<close> block around the availability checks of all splits: whether history is missing.\<close>

definition history_missing :: "fs \<Rightarrow> pipeline_config \<Rightarrow> bool res" where
  "history_missing fs config =
     (case res_bind iter_splits (\<lambda>splits.
             res_map (\<lambda>s. check_data_availability fs s (pc_events_source_path config)) splits) of
        Inr _ \<Rightarrow> Inr False
      | Inl (InsufficientWalkforwardHistoryError ms) \<Rightarrow> Inr True
      | Inl e \<Rightarrow> Inl e)"

definition completed_result :: "string \<Rightarrow> string \<Rightarrow> string option \<times> string option \<Rightarrow> pipeline_result" where
  "completed_result output_dir candidate_id ablation_paths =
     \<lparr>res_candidate_id = candidate_id, res_status = ''completed'',
      res_ledger_path = Some (get_ledger_path output_dir candidate_id),
      res_summary_path = Some (get_summary_path output_dir candidate_id),
      res_attribution_path = Some (get_attribution_path output_dir candidate_id),
      res_snapshot_path = Some (get_snapshot_path output_dir candidate_id),
      res_ablation_pretouch_only_path = fst ablation_paths,
      res_ablation_posttouch_only_path = snd ablation_paths, res_abort_reason = None,
      res_reject_reason = None\<rparr>"

text \<open>Steps 5 to 13 of \<open>run\<close>\<close>

definition run_completed ::
  "numpy_ops \<Rightarrow> string \<Rightarrow> entry_candidate_spec \<Rightarrow> pipeline_config \<Rightarrow> events_loader option
   \<Rightarrow> trade_record list option \<Rightarrow> string \<Rightarrow> runner_parameter_snapshot \<Rightarrow> (string \<times> string) list
   \<Rightarrow> pipeline_result io" where
  "run_completed ops output_dir spec config loader baseline_trades candidate_id snapshot gate_snapshot_ref =
     io_bind (io_res (execute_walkforward spec snapshot config loader)) (\<lambda>trades.
     let ledger_path = get_ledger_path output_dir candidate_id in
     io_bind (io_writer (write_ledger trades ledger_path)) (\<lambda>_.
     io_bind (io_res (aggregate ops trades 22)) (\<lambda>metrics.
     io_bind (io_res (build_summary ops metrics gate_snapshot_ref trades baseline_trades)) (\<lambda>summary.
     io_bind (io_res (check_invariants ops trades summary)) (\<lambda>violations.
     let summary = dict_set summary ''invariant_violations'' (JDict violations) in
     io_bind (io_res (has_violations violations)) (\<lambda>_.
     let summary_path = get_summary_path output_dir candidate_id in
     io_bind (io_writer (write_summary summary summary_path)) (\<lambda>_.
     let attribution_path = get_attribution_path output_dir candidate_id in
     io_bind (io_res (build_attribution_rows ops trades metrics baseline_trades spec)) (\<lambda>attribution_rows.
     io_bind (io_writer (write_attribution attribution_rows attribution_path)) (\<lambda>_.
     let snapshot_path = get_snapshot_path output_dir candidate_id in
     io_bind (write_snapshot snapshot snapshot_path) (\<lambda>_.
     io_bind
       (if is_combined_pretouch_posttouch spec
        then io_bind (produce_ablation_ledgers output_dir spec config loader candidate_id)
               (\<lambda>(p, q). io_return (Some p, Some q))
        else io_return (None, None)) (\<lambda>ablation_paths.
     io_return (completed_result output_dir candidate_id ablation_paths))))))))))))"

definition run_pipeline ::
  "numpy_ops \<Rightarrow> string \<Rightarrow> entry_candidate_spec \<Rightarrow> pipeline_config \<Rightarrow> events_loader option
   \<Rightarrow> trade_record list option \<Rightarrow> pipeline_result io" where
  "run_pipeline ops output_dir spec config loader baseline_trades =
     io_bind (io_res (try_validate spec)) (\<lambda>validated.
       case validated of
         None \<Rightarrow> handle_reject output_dir spec config
       | Some candidate_id \<Rightarrow>
           io_bind (io_res (build_snapshot spec config)) (\<lambda>snapshot.
           io_bind (io_read (\<lambda>fs. load_gate_snapshot fs config)) (\<lambda>gate_snapshot_ref.
             case gate_snapshot_ref of
               None \<Rightarrow>
                 handle_abort output_dir candidate_id ''parameter_mismatch''
                   [[(''field_name'', ''gate001_snapshot_sha256''),
                     (''expected'', case pc_gate_snapshot_expected_sha256 config of Some h \<Rightarrow> h | None \<Rightarrow> []),
                     (''observed'', ''file_not_found_or_mismatch'')]] config
             | Some ref \<Rightarrow>
                 io_bind (io_read (\<lambda>fs. history_missing fs config)) (\<lambda>missing.
                   if missing
                   then handle_abort output_dir candidate_id ''insufficient_walkforward_history'' [] config
                   else run_completed ops output_dir spec config loader baseline_trades candidate_id
                          snapshot ref))))"

section \<open>Rules for computations on files\<close>

named_theorems io_simps \<open>successful computations on files\<close>

lemma io_bind_Inr_iff [io_simps]:
  "io_bind m f fs = (Inr b, fs') \<longleftrightarrow> (\<exists>a fs1. m fs = (Inr a, fs1) \<and> f a fs1 = (Inr b, fs'))"
  by (auto simp: io_bind_def split: prod.splits sum.splits)

lemma io_return_iff [io_simps]: "io_return a fs = (Inr b, fs') \<longleftrightarrow> b = a \<and> fs' = fs"
  by (auto simp: io_return_def)

lemma io_res_iff [io_simps]: "io_res r fs = (Inr b, fs') \<longleftrightarrow> r = Inr b \<and> fs' = fs"
  by (auto simp: io_res_def)

lemma io_read_iff [io_simps]: "io_read f fs = (Inr b, fs') \<longleftrightarrow> f fs = Inr b \<and> fs' = fs"
  by (auto simp: io_read_def)

lemma io_writer_iff [io_simps]: "io_writer w fs = (Inr b, fs') \<longleftrightarrow> w fs = Inr fs'"
  by (auto simp: io_writer_def split: sum.splits)

section \<open>Rows of the ledger\<close>

lemma record_entry_eq:
  "record_entry env ev trigger resolution =
     (let exit_info = get_exit_info (we_loader env) ev resolution;
          priced = apply_cost
            \<lparr>rt_raw_pnl = ei_raw_pnl exit_info, rt_notional = ei_notional exit_info,
             rt_entry_price = the (pr_entry_price resolution), rt_exit_price = ei_exit_price exit_info,
             rt_symbol = ev_symbol ev, rt_side = ev_side ev\<rparr> BASELINE_COST_PARAMS;
          row = make_trade_record env ev trigger resolution exit_info priced
      in Inr [row ''nogate'' \<lparr>passed = True, gd_gate_mode = ''nogate''\<rparr>,
              row ''gate001'' \<lparr>passed = evaluate_gate001 GATE_001_THRESHOLDS (we_validation_metrics env),
                              gd_gate_mode = ''gate001''\<rparr>])"
  by (simp add: record_entry_def evaluate_gate_def Let_def)

text \<open>The rows of an event, if any: every stage of the entry layer accepted it.\<close>

lemma process_event_cases:
  assumes "process_event env r ev = Inr (ts, r')"
  obtains (none) "ts = []"
    | (entry) trigger c resolution where
        "detect ev (get_onesec_window (we_loader env) ev) = Some trigger"
        "evaluate_confirmation (we_snapshot env) trigger (get_onesec_window (we_loader env) ev)
           (get_trades_window (we_loader env) ev) (get_hourly_history (we_loader env) ev) = Inr c" "confirmed c"
        "pretouch_allow (pretouch_state_band_id (we_spec env)) ev (atr14_prev_closed_1h ev)"
        "resolve (set_context (atr14_prev_closed_1h ev) (ev_symbol ev) r) trigger
           (get_onesec_window (we_loader env) ev) = Inr resolution" "filled resolution"
        "record_entry env ev trigger resolution = Inr ts"
  using assms
  by (auto simp: process_event_def Let_def res_bind_eq_Inr_iff split: option.splits if_splits)

lemma process_event_context:
  "process_event env r ev = Inr (ts, r') \<Longrightarrow> r' = set_context (atr14_prev_closed_1h ev) (ev_symbol ev) r"
  by (auto simp: process_event_def Let_def res_bind_eq_Inr_iff split: option.splits if_splits)

text \<open>
  What holds for the rows of every event, for no rows, and for two lists of rows put together holds
  for the ledger of the walk.
\<close>

lemma walk_events_closed:
  assumes "\<And>r ev ts r'. pr_snapshot r = s \<Longrightarrow> ev \<in> set evs \<Longrightarrow> process_event env r ev = Inr (ts, r') \<Longrightarrow> Q ts"
    and "Q []" and "\<And>xs ys. Q xs \<Longrightarrow> Q ys \<Longrightarrow> Q (xs @ ys)"
  shows "pr_snapshot r = s \<Longrightarrow> walk_events env r evs = Inr (ts, r') \<Longrightarrow> Q ts \<and> pr_snapshot r' = s"
  using assms(1)
proof (induction evs arbitrary: r ts r')
  case (Cons ev evs)
  obtain ts1 r1 ts2 r2 where 1: "process_event env r ev = Inr (ts1, r1)"
    and 2: "walk_events env r1 evs = Inr (ts2, r2)" and ts: "ts = ts1 @ ts2" "r' = r2"
    using Cons.prems(2) by (auto simp: res_bind_eq_Inr_iff)
  have r1: "pr_snapshot r1 = s" using Cons.prems(1) process_event_context [OF 1] by (simp add: set_context_def)
  have "Q ts1" using Cons.prems(3) [OF Cons.prems(1) _ 1] by simp
  moreover have "Q ts2 \<and> pr_snapshot r2 = s"
    by (rule Cons.IH [OF r1 2]) (rule Cons.prems(3), auto)
  ultimately show ?case using assms(3) ts by simp
qed (simp add: assms(2))

lemma walk_splits_closed:
  assumes "\<And>r ev sp ts r'. pr_snapshot r = s \<Longrightarrow> sp \<in> set ss
      \<Longrightarrow> ev \<in> set (load_events (we_loader env) (execute_start sp) (execute_end sp))
      \<Longrightarrow> process_event env r ev = Inr (ts, r') \<Longrightarrow> Q ts"
    and "Q []" and "\<And>xs ys. Q xs \<Longrightarrow> Q ys \<Longrightarrow> Q (xs @ ys)"
  shows "pr_snapshot r = s \<Longrightarrow> walk_splits env r ss = Inr ts \<Longrightarrow> Q ts"
  using assms(1)
proof (induction ss arbitrary: r ts)
  case (Cons sp ss)
  obtain ts1 r1 ts2 where
    1: "walk_events env r (load_events (we_loader env) (execute_start sp) (execute_end sp)) = Inr (ts1, r1)"
    and 2: "walk_splits env r1 ss = Inr ts2" and ts: "ts = ts1 @ ts2"
    using Cons.prems(2) by (auto simp: res_bind_eq_Inr_iff)
  have q1: "Q ts1 \<and> pr_snapshot r1 = s"
    by (rule walk_events_closed [OF _ assms(2,3) Cons.prems(1) 1]) (rule Cons.prems(3), auto)
  have "Q ts2"
    by (rule Cons.IH [OF conjunct2 [OF q1] 2]) (rule Cons.prems(3), auto)
  then show ?case using q1 assms(3) ts by simp
qed (simp add: assms(2))

text \<open>The same for \<open>_execute_walkforward\<close>, whose environment is built from its arguments.\<close>

definition wf_env_of ::
  "string \<Rightarrow> entry_candidate_spec \<Rightarrow> runner_parameter_snapshot \<Rightarrow> pipeline_config \<Rightarrow> posttouch_gate
   \<Rightarrow> events_loader \<Rightarrow> wf_env" where
  "wf_env_of candidate_id spec snapshot config gate l =
     \<lparr>we_candidate_id = candidate_id, we_spec = spec, we_snapshot = snapshot, we_posttouch_gate = gate,
      we_validation_metrics =
        (case pc_validation_metrics config of Some m \<Rightarrow> m | None \<Rightarrow> default_validation_metrics),
      we_loader = l\<rparr>"

lemma wf_env_of_simps [simp]:
  "we_candidate_id (wf_env_of c spec s config g l) = c" "we_spec (wf_env_of c spec s config g l) = spec"
  "we_snapshot (wf_env_of c spec s config g l) = s" "we_loader (wf_env_of c spec s config g l) = l"
  by (simp_all add: wf_env_of_def)

lemma execute_walkforward_closed:
  assumes "execute_walkforward spec snapshot config loader = Inr trades"
    and step: "\<And>l candidate_id gate splits sp r ev ts r'. loader = Some l \<Longrightarrow>
      generate_candidate_id spec = Inr candidate_id \<Longrightarrow> iter_splits = Inr splits \<Longrightarrow> sp \<in> set splits \<Longrightarrow>
      ev \<in> set (load_events l (execute_start sp) (execute_end sp)) \<Longrightarrow> pr_snapshot r = snapshot \<Longrightarrow>
      process_event (wf_env_of candidate_id spec snapshot config gate l) r ev = Inr (ts, r') \<Longrightarrow> Q ts"
    and nil: "Q []" and app: "\<And>xs ys. Q xs \<Longrightarrow> Q ys \<Longrightarrow> Q (xs @ ys)"
  shows "Q trades"
proof (cases loader)
  case None
  then show ?thesis using assms(1) nil by (auto simp: execute_walkforward_def res_bind_eq_Inr_iff)
next
  case (Some l)
  obtain cid gate splits where c: "generate_candidate_id spec = Inr cid" and sp: "iter_splits = Inr splits"
    and w: "walk_splits (wf_env_of cid spec snapshot config gate l) (new_resolver snapshot) splits = Inr trades"
    using assms(1) Some by (auto simp: execute_walkforward_def res_bind_eq_Inr_iff wf_env_of_def)
  show ?thesis
    by (rule walk_splits_closed [OF _ nil app _ w])
       (use step [OF Some c sp] in \<open>auto simp: new_resolver_def\<close>)
qed

text \<open>What every row of a ledger owes to the event it comes from.\<close>

definition row_from_event ::
  "entry_candidate_spec \<Rightarrow> runner_parameter_snapshot \<Rightarrow> events_loader \<Rightarrow> event \<Rightarrow> trade_record \<Rightarrow> bool" where
  "row_from_event spec snapshot l ev t \<longleftrightarrow>
     (\<exists>trigger c resolution.
        detect ev (get_onesec_window l ev) = Some trigger
        \<and> evaluate_confirmation snapshot trigger (get_onesec_window l ev) (get_trades_window l ev)
            (get_hourly_history l ev) = Inr c \<and> confirmed c
        \<and> pretouch_allow (pretouch_state_band_id spec) ev (atr14_prev_closed_1h ev)
        \<and> tr_symbol t = ev_symbol ev \<and> tr_side t = ev_side ev
        \<and> tr_signal_bar_start_ts t = ev_signal_bar_start_ts ev
        \<and> tr_trigger_ts t = td_trigger_ts trigger
        \<and> resolution = fill (tr_entry_price t) (tr_entry_ts t)
        \<and> tr_notional t = ei_notional (get_exit_info l ev resolution)
        \<and> tr_raw_pnl t = ei_raw_pnl (get_exit_info l ev resolution)
        \<and> tr_exit_reason t \<in> {ei_exit_reason (get_exit_info l ev resolution), ''gate_rejected''}
        \<and> tr_trigger_ts t \<le> tr_entry_ts t
        \<and> tr_entry_ts t \<le> tr_trigger_ts t + seconds (entry_delay_seconds (candidate snapshot)))"

lemma process_event_sound:
  assumes "process_event env r ev = Inr (ts, r')" and "pr_snapshot r = we_snapshot env"
    and "0 \<le> entry_delay_seconds (candidate (we_snapshot env))" and "t \<in> set ts"
  shows "row_from_event (we_spec env) (we_snapshot env) (we_loader env) ev t"
  using assms(1)
proof (cases rule: process_event_cases)
  case none
  then show ?thesis using assms(4) by simp
next
  case (entry trigger c resolution)
  obtain price ts' where f: "resolution = fill price ts'" "td_trigger_ts trigger \<le> ts'"
      "ts' \<le> td_trigger_ts trigger + seconds (entry_delay_seconds (candidate (we_snapshot env)))"
    using resolve_window [OF entry(5)] entry(6) assms(2,3) by (auto simp: set_context_def unfilled_def)
  have "t \<in> set ts" by (rule assms(4))
  then have "tr_symbol t = ev_symbol ev \<and> tr_side t = ev_side ev
        \<and> tr_signal_bar_start_ts t = ev_signal_bar_start_ts ev \<and> tr_trigger_ts t = td_trigger_ts trigger
        \<and> tr_entry_price t = price \<and> tr_entry_ts t = ts'
        \<and> tr_notional t = ei_notional (get_exit_info (we_loader env) ev resolution)
        \<and> tr_raw_pnl t = ei_raw_pnl (get_exit_info (we_loader env) ev resolution)
        \<and> tr_exit_reason t \<in> {ei_exit_reason (get_exit_info (we_loader env) ev resolution), ''gate_rejected''}"
    using entry(7) f(1) by (auto simp: record_entry_eq Let_def make_trade_record_def)
  then show ?thesis
    unfolding row_from_event_def
    by (intro exI [of _ trigger] exI [of _ c] exI [of _ resolution]) (use entry f in simp)
qed

section \<open>The two gate modes\<close>

text \<open>A row without the two fields in which the rows of the gate modes may differ.\<close>

definition strip_gate :: "trade_record \<Rightarrow> trade_record" where
  "strip_gate t = t\<lparr>tr_exit_reason := [], tr_gate_mode := []\<rparr>"

lemma walkforward_pairs:
  assumes "execute_walkforward spec snapshot config loader = Inr trades"
  shows "map strip_gate (filter (\<lambda>t. tr_gate_mode t = ''nogate'') trades)
       = map strip_gate (filter (\<lambda>t. tr_gate_mode t = ''gate001'') trades)"
  using assms
proof (rule execute_walkforward_closed)
  fix l candidate_id gate splits sp r ev ts r'
  assume "process_event (wf_env_of candidate_id spec snapshot config gate l) r ev = Inr (ts, r')"
  then show "map strip_gate (filter (\<lambda>t. tr_gate_mode t = ''nogate'') ts)
       = map strip_gate (filter (\<lambda>t. tr_gate_mode t = ''gate001'') ts)"
  proof (cases rule: process_event_cases)
    case (entry trigger c resolution)
    then show ?thesis by (auto simp: record_entry_eq Let_def make_trade_record_def strip_gate_def)
  qed simp
qed auto

context numpy_pandas
begin

text \<open>The figures read neither the gate mode nor the exit reason.\<close>

lemma compute_metrics_strip: "compute_metrics ops (map strip_gate df) n = compute_metrics ops df n"
proof -
  have ret: "returns ops g (map strip_gate rows) = returns ops g rows"
    if "\<And>t. g (strip_gate t) = g t" for g rows
    using that by (simp add: returns_def comp_def) (simp add: strip_gate_def)
  have key: "silo_key (strip_gate t) = silo_key t" for t
    by (simp add: silo_key_def strip_gate_def)
  have fields: "tr_realistic_pnl (strip_gate t) = tr_realistic_pnl t" "tr_raw_pnl (strip_gate t) = tr_raw_pnl t"
    "tr_realistic_taker_both_pnl (strip_gate t) = tr_realistic_taker_both_pnl t"
    "tr_entry_ts (strip_gate t) = tr_entry_ts t" for t
    by (simp_all add: strip_gate_def)
  have dd: "max_drawdown_metric ops (map strip_gate df) = max_drawdown_metric ops df"
    by (simp add: max_drawdown_metric_def drawdowns_def Let_def sort_natural fields ret)
  have silos: "silo_metrics ops (map strip_gate df) = silo_metrics ops df"
    by (simp add: silo_metrics_def comp_def key filter_map ret fields)
  show ?thesis
    by (cases "df = []") (simp_all add: compute_metrics_def dd silos ret fields comp_def)
qed

lemma gate_modes_same_metrics:
  assumes "map strip_gate (filter (\<lambda>t. tr_gate_mode t = ''nogate'') trades)
         = map strip_gate (filter (\<lambda>t. tr_gate_mode t = ''gate001'') trades)"
    and "aggregate ops trades n = Inr m"
  shows "dict_get m (''nogate_'' @ k) = dict_get m (''gate001_'' @ k)"
proof -
  obtain m1 m2 where
    m: "compute_metrics ops (filter (\<lambda>t. tr_gate_mode t = ''nogate'') trades) n = Inr m1"
      "compute_metrics ops (filter (\<lambda>t. tr_gate_mode t = ''gate001'') trades) n = Inr m2"
    and get: "\<And>k. dict_get m (''nogate_'' @ k) = dict_get m1 k" "\<And>k. dict_get m (''gate001_'' @ k) = dict_get m2 k"
    using aggregate_get [OF assms(2)] by metis
  have "m1 = m2" using m assms(1) compute_metrics_strip by (metis sum.inject(2))
  then show ?thesis by (simp only: get)
qed

end

section \<open>The figures of the rows\<close>

text \<open>What the pipeline needs of the exits its loader supplies: a profit and a positive, finite notional.\<close>

definition good_exit :: "exit_info \<Rightarrow> bool" where
  "good_exit e \<longleftrightarrow> is_f64 (ei_raw_pnl e) \<and> ei_raw_pnl e \<noteq> NaN \<and> ei_raw_pnl e \<noteq> PInf
     \<and> (case ei_notional e of Fin n \<Rightarrow> 0 < n | _ \<Rightarrow> False)"

definition row_ok :: "trade_record \<Rightarrow> bool" where
  "row_ok t \<longleftrightarrow>
     fle (tr_realistic_taker_both_pnl t) (tr_realistic_pnl t) \<and> fle (tr_realistic_pnl t) (tr_slip_pnl t)
     \<and> fle (tr_slip_pnl t) (tr_raw_pnl t)
     \<and> is_f64 (tr_realistic_pnl t) \<and> is_f64 (tr_slip_pnl t) \<and> is_f64 (tr_raw_pnl t)
     \<and> (case tr_notional t of Fin n \<Rightarrow> 0 < n | _ \<Rightarrow> False)"

lemma apply_cost_f64:
  "is_f64 (pt_slip_pnl (apply_cost t p))" "is_f64 (pt_realistic_pnl (apply_cost t p))"
  "pt_raw_pnl (apply_cost t p) = rt_raw_pnl t"
  by (simp_all add: apply_cost_def Let_def fsub_def)

lemma record_entry_ok:
  assumes "record_entry env ev trigger resolution = Inr ts"
    and "good_exit (get_exit_info (we_loader env) ev resolution)" and "t \<in> set ts"
  shows "row_ok t"
proof -
  let ?e = "get_exit_info (we_loader env) ev resolution"
  let ?raw = "\<lparr>rt_raw_pnl = ei_raw_pnl ?e, rt_notional = ei_notional ?e,
             rt_entry_price = the (pr_entry_price resolution), rt_exit_price = ei_exit_price ?e,
             rt_symbol = ev_symbol ev, rt_side = ev_side ev\<rparr>"
  let ?p = "apply_cost ?raw BASELINE_COST_PARAMS"
  have n: "fle (Fin 0) (ei_notional ?e)" and e: "is_f64 (ei_raw_pnl ?e)" "ei_raw_pnl ?e \<noteq> NaN" "ei_raw_pnl ?e \<noteq> PInf"
    using assms(2) by (auto simp: good_exit_def split: pyfloat.splits)
  have ladder: "fle (pt_realistic_taker_both_pnl ?p) (pt_realistic_pnl ?p)
      \<and> fle (pt_realistic_pnl ?p) (pt_slip_pnl ?p) \<and> fle (pt_slip_pnl ?p) (ei_raw_pnl ?e)"
    using cost_ladder_holds [of ?raw BASELINE_COST_PARAMS] n e by (simp add: apply_cost_f64)
  have t: "tr_raw_pnl t = ei_raw_pnl ?e" "tr_slip_pnl t = pt_slip_pnl ?p" "tr_realistic_pnl t = pt_realistic_pnl ?p"
    "tr_realistic_taker_both_pnl t = pt_realistic_taker_both_pnl ?p" "tr_notional t = ei_notional ?e"
    using assms(1,3) by (auto simp: record_entry_eq Let_def make_trade_record_def)
  show ?thesis
    unfolding row_ok_def t using ladder e assms(2) by (auto simp: good_exit_def apply_cost_f64)
qed

lemma walkforward_rows_ok:
  assumes "execute_walkforward spec snapshot config loader = Inr trades"
    and "\<And>l ev resolution. loader = Some l \<Longrightarrow> good_exit (get_exit_info l ev resolution)"
  shows "list_all row_ok trades"
  using assms(1)
proof (rule execute_walkforward_closed)
  fix l candidate_id gate splits sp r ev ts r'
  assume l: "loader = Some l"
    and "process_event (wf_env_of candidate_id spec snapshot config gate l) r ev = Inr (ts, r')"
  from this(2) show "list_all row_ok ts"
  proof (cases rule: process_event_cases)
    case (entry trigger c resolution)
    then show ?thesis
      using record_entry_ok [OF entry(7)] assms(2) [OF l] by (simp add: list_all_iff)
  qed simp
qed auto

section \<open>The checks on a ledger of the pipeline\<close>

lemma fdiv_positive_not_NaN: "0 < n \<Longrightarrow> x \<noteq> NaN \<Longrightarrow> \<exists>q. fdiv x (Fin n) = Some q \<and> q \<noteq> NaN"
  by (cases x) auto

lemma rows_ok_checks:
  assumes "list_all row_ok trades"
  shows "check_p4 trades = 0" and "\<forall>t \<in> set trades. \<not> feq (tr_notional t) (Fin 0)"
proof -
  show "check_p4 trades = 0"
    using assms by (intro check_p4_ladder) (auto simp: list_all_iff row_ok_def)
  show "\<forall>t \<in> set trades. \<not> feq (tr_notional t) (Fin 0)"
    using assms by (auto simp: list_all_iff row_ok_def feq_iff split: pyfloat.splits)
qed

lemma rows_ok_returns:
  assumes "numpy_pandas ops" and "list_all row_ok trades"
  shows "NaN \<notin> set (returns ops tr_realistic_pnl trades)"
proof -
  have "np_div ops (tr_realistic_pnl t) (tr_notional t) \<noteq> NaN" if "t \<in> set trades" for t
  proof -
    have "row_ok t" using assms(2) that by (simp add: list_all_iff)
    then obtain n where n: "tr_notional t = Fin n" "0 < n" and "tr_realistic_pnl t \<noteq> NaN"
      using fle_not_NaN by (auto simp: row_ok_def split: pyfloat.splits)
    then obtain q where "fdiv (tr_realistic_pnl t) (Fin n) = Some q" "q \<noteq> NaN"
      using fdiv_positive_not_NaN by blast
    then show ?thesis using numpy_pandas.div_plain [OF assms(1)] n by metis
  qed
  then show ?thesis by (force simp: returns_def)
qed

lemma distinct_dict_update: "distinct (map fst d) \<Longrightarrow> distinct (map fst (dict_update d e))"
  by (induction d e rule: dict_update.induct) (auto simp: distinct_dict_set)

lemma dict_get_dict_update_Nil: "distinct (map fst m) \<Longrightarrow> dict_get (dict_update [] m) k = dict_get m k"
  by (simp add: dict_get_def map_of_dict_update map_of_rev split: option.split)

lemma aggregate_distinct: "aggregate ops trades n = Inr m \<Longrightarrow> distinct (map fst m)"
  by (auto simp: aggregate_def res_bind_eq_Inr_iff intro!: distinct_dict_update)

lemma build_summary_get:
  assumes "build_summary ops metrics ref trades bl = Inr summary" and "distinct (map fst metrics)"
  shows "dict_get summary (''nogate_'' @ k) = dict_get metrics (''nogate_'' @ k)"
    and "dict_get summary (''gate001_'' @ k) = (if k = ''snapshot_ref'' then Some (str_dict ref)
      else dict_get metrics (''gate001_'' @ k))"
    and "flag_of summary ''live_output_emitted'' = False"
    and "set REQUIRED_TOP_LEVEL_FIELDS \<subseteq> fst ` set summary"
  using assms
  by (auto simp: build_summary_def res_bind_eq_Inr_iff Let_def dict_get_dict_update_Nil flag_of_def
      REQUIRED_TOP_LEVEL_FIELDS_def)

section \<open>The files of a run\<close>

text \<open>The paths a result names.\<close>

definition result_paths :: "pipeline_result \<Rightarrow> string list" where
  "result_paths r =
     concat (map (case_option [] (\<lambda>p. [p]))
       [res_ledger_path r, res_summary_path r, res_attribution_path r, res_snapshot_path r,
        res_ablation_pretouch_only_path r, res_ablation_posttouch_only_path r])"

text \<open>A change of files that writes all of a set of paths and nothing else.\<close>

definition writes_exactly :: "string set \<Rightarrow> fs \<Rightarrow> fs \<Rightarrow> bool" where
  "writes_exactly ps fs fs' \<longleftrightarrow> (\<forall>p. p \<notin> ps \<longrightarrow> fs' p = fs p) \<and> (\<forall>p \<in> ps. fs' p \<noteq> None)"

lemma writes_exactly_none [simp]: "writes_exactly {} fs fs' \<longleftrightarrow> fs' = fs"
  by (auto simp: writes_exactly_def fun_eq_iff)

lemma writes_exactly_trans:
  "writes_exactly ps fs fs1 \<Longrightarrow> writes_exactly qs fs1 fs2 \<Longrightarrow> writes_exactly (ps \<union> qs) fs fs2"
  unfolding writes_exactly_def by (metis Un_iff)

lemma write_ledger_writes: "write_ledger ts path fs = Inr fs' \<Longrightarrow> writes_exactly {path} fs fs'"
  by (auto simp: write_ledger_def writes_exactly_def res_bind_eq_Inr_iff)

lemma write_summary_writes: "write_summary s path fs = Inr fs' \<Longrightarrow> writes_exactly {path} fs fs'"
  by (auto simp: write_summary_def writes_exactly_def res_bind_eq_Inr_iff)

lemma write_attribution_writes: "write_attribution rows path fs = Inr fs' \<Longrightarrow> writes_exactly {path} fs fs'"
  by (auto simp: write_attribution_def writes_exactly_def res_bind_eq_Inr_iff)

lemma write_snapshot_writes: "write_snapshot s path fs = (Inr u, fs') \<Longrightarrow> writes_exactly {path} fs fs'"
  by (auto simp: write_snapshot_def writes_exactly_def io_simps)

lemma produce_ablation_writes:
  assumes "produce_ablation_ledgers dir spec config loader cid fs = (Inr (p, q), fs')"
  shows "p = ablation_pretouch_path dir cid" and "q = ablation_posttouch_path dir cid"
    and "writes_exactly {p, q} fs fs'"
proof -
  obtain fs1 ts ts' where pq: "p = ablation_pretouch_path dir cid" "q = ablation_posttouch_path dir cid"
    and w: "write_ledger ts p fs = Inr fs1" "write_ledger ts' q fs1 = Inr fs'"
    using assms by (auto simp: produce_ablation_ledgers_def Let_def io_simps)
  show "p = ablation_pretouch_path dir cid" and "q = ablation_posttouch_path dir cid" by (rule pq)+
  show "writes_exactly {p, q} fs fs'"
    using writes_exactly_trans [OF write_ledger_writes [OF w(1)] write_ledger_writes [OF w(2)]]
    by (simp add: insert_commute)
qed

text \<open>The stages of a completed run.\<close>

lemma io_bindE:
  assumes "io_bind m f fs = (Inr b, fs')"
  obtains a fs1 where "m fs = (Inr a, fs1)" and "f a fs1 = (Inr b, fs')"
  using assms by (auto simp: io_bind_Inr_iff)

lemma io_resE:
  assumes "io_res r fs = (Inr b, fs')"
  obtains "r = Inr b" and "fs' = fs"
  using assms by (auto simp: io_res_iff)

lemma io_writerE:
  assumes "io_writer w fs = (Inr b, fs')"
  obtains "w fs = Inr fs'"
  using assms by (auto simp: io_writer_iff)

lemma run_completed_stages:
  assumes "run_completed ops dir spec config loader bl cid snapshot ref fs = (Inr r, fs')"
  obtains trades metrics summary violations rows fs1 fs2 fs3 fs4 u pq where
    "execute_walkforward spec snapshot config loader = Inr trades"
    "write_ledger trades (get_ledger_path dir cid) fs = Inr fs1"
    "aggregate ops trades 22 = Inr metrics"
    "build_summary ops metrics ref trades bl = Inr summary"
    "check_invariants ops trades summary = Inr violations"
    "write_summary (dict_set summary ''invariant_violations'' (JDict violations)) (get_summary_path dir cid) fs1
       = Inr fs2"
    "build_attribution_rows ops trades metrics bl spec = Inr rows"
    "write_attribution rows (get_attribution_path dir cid) fs2 = Inr fs3"
    "write_snapshot snapshot (get_snapshot_path dir cid) fs3 = (Inr u, fs4)"
    "(if is_combined_pretouch_posttouch spec
      then io_bind (produce_ablation_ledgers dir spec config loader cid) (\<lambda>(p, q). io_return (Some p, Some q))
      else io_return (None, None)) fs4 = (Inr pq, fs')"
    "r = completed_result dir cid pq"
proof -
  from assms show thesis
    unfolding run_completed_def Let_def
    by (elim io_bindE io_resE io_writerE) (simp only: io_return_iff, elim conjE, hypsubst, rule that)
qed

text \<open>The paths of a completed run: four, and two more for a candidate with both bands.\<close>

definition completed_paths :: "string \<Rightarrow> entry_candidate_spec \<Rightarrow> string \<Rightarrow> string list" where
  "completed_paths dir spec cid =
     [get_ledger_path dir cid, get_summary_path dir cid, get_attribution_path dir cid, get_snapshot_path dir cid]
     @ (if is_combined_pretouch_posttouch spec
        then [ablation_pretouch_path dir cid, ablation_posttouch_path dir cid] else [])"

lemma ablation_stage:
  assumes "(if is_combined_pretouch_posttouch spec
      then io_bind (produce_ablation_ledgers dir spec config loader cid) (\<lambda>(p, q). io_return (Some p, Some q))
      else io_return (None, None)) fs = (Inr pq, fs')"
  shows "result_paths (completed_result dir cid pq) = completed_paths dir spec cid"
    and "writes_exactly (set (drop 4 (completed_paths dir spec cid))) fs fs'"
proof -
  have "if is_combined_pretouch_posttouch spec
    then pq = (Some (ablation_pretouch_path dir cid), Some (ablation_posttouch_path dir cid))
      \<and> writes_exactly {ablation_pretouch_path dir cid, ablation_posttouch_path dir cid} fs fs'
    else pq = (None, None) \<and> fs' = fs"
    using assms produce_ablation_writes by (auto simp: io_simps split: if_splits)
  moreover have "set (drop 4 (completed_paths dir spec cid)) = (if is_combined_pretouch_posttouch spec
      then {ablation_pretouch_path dir cid, ablation_posttouch_path dir cid} else {})"
    by (auto simp: completed_paths_def)
  ultimately show "result_paths (completed_result dir cid pq) = completed_paths dir spec cid"
    and "writes_exactly (set (drop 4 (completed_paths dir spec cid))) fs fs'"
    by (simp_all add: completed_result_def result_paths_def completed_paths_def split: if_splits)
qed

lemma run_completed_files:
  assumes "run_completed ops dir spec config loader bl cid snapshot ref fs = (Inr r, fs')"
  shows "res_status r = ''completed'' \<and> res_candidate_id r = cid
    \<and> result_paths r = completed_paths dir spec cid \<and> writes_exactly (set (result_paths r)) fs fs'"
  using assms
proof (cases rule: run_completed_stages)
  case (1 trades metrics summary violations rows fs1 fs2 fs3 fs4 u pq)
  have paths: "result_paths r = completed_paths dir spec cid" using ablation_stage [OF 1(10)] 1(11) by simp
  have "writes_exactly ({get_ledger_path dir cid} \<union> {get_summary_path dir cid} \<union> {get_attribution_path dir cid}
      \<union> {get_snapshot_path dir cid} \<union> set (drop 4 (completed_paths dir spec cid))) fs fs'"
    using write_ledger_writes [OF 1(2)] write_summary_writes [OF 1(6)] write_attribution_writes [OF 1(8)]
      write_snapshot_writes [OF 1(9)] ablation_stage(2) [OF 1(10)]
    by (meson writes_exactly_trans)
  moreover have "{get_ledger_path dir cid} \<union> {get_summary_path dir cid} \<union> {get_attribution_path dir cid}
      \<union> {get_snapshot_path dir cid} \<union> set (drop 4 (completed_paths dir spec cid)) = set (result_paths r)"
    unfolding paths by (auto simp: completed_paths_def)
  ultimately show ?thesis using paths by (simp add: 1(11) completed_result_def)
qed

lemma handle_reject_files:
  assumes "handle_reject dir spec config fs = (Inr r, fs')"
  shows "res_status r = ''rejected''" and "result_paths r = []"
    and "writes_exactly {rejected_path dir (res_candidate_id r)} fs fs'"
  using assms
  by (auto simp: handle_reject_def io_simps write_rejected_def Let_def rejected_result_def result_paths_def
      writes_exactly_def res_bind_eq_Inr_iff split: if_splits)

lemma handle_abort_files:
  assumes "handle_abort dir cid reason mm config fs = (Inr r, fs')"
  shows "res_status r = ''aborted''" and "result_paths r = []" and "res_candidate_id r = cid"
    and "writes_exactly {aborted_path dir cid} fs fs'"
  using assms
  by (auto simp: handle_abort_def io_simps write_aborted_def Let_def aborted_result_def result_paths_def
      writes_exactly_def res_bind_eq_Inr_iff split: if_splits)

text \<open>The three ways in which \<open>run\<close> returns.\<close>

lemma run_pipeline_cases:
  assumes "run_pipeline ops dir spec config loader bl fs = (Inr r, fs')"
  obtains (rejected) "try_validate spec = Inr None" "handle_reject dir spec config fs = (Inr r, fs')"
    | (aborted) cid reason mm where "try_validate spec = Inr (Some cid)"
        "handle_abort dir cid reason mm config fs = (Inr r, fs')"
    | (completed) cid snapshot ref where "try_validate spec = Inr (Some cid)"
        "build_snapshot spec config = Inr snapshot" "load_gate_snapshot fs config = Inr (Some ref)"
        "history_missing fs config = Inr False"
        "run_completed ops dir spec config loader bl cid snapshot ref fs = (Inr r, fs')"
  using assms unfolding run_pipeline_def
  by (elim io_bindE io_resE) (auto simp: io_simps split: option.splits if_splits)

section \<open>No exception for known candidates\<close>

text \<open>
  The parameters in the identifiers of the token tables can be parsed and are small, every price mode
  has its table entry and every post-touch band its threshold.
\<close>

definition ok :: "'a res \<Rightarrow> bool" where
  "ok r \<longleftrightarrow> \<not> isl r"

named_theorems ok_intros \<open>computations that raise nothing\<close>

lemma ok_Inr [ok_intros]: "ok (Inr a)"
  by (simp add: ok_def)

lemma ok_iff: "ok r \<longleftrightarrow> (\<exists>a. r = Inr a)"
  by (cases r) (auto simp: ok_def)

lemma ok_bind [ok_intros]: "ok m \<Longrightarrow> (\<And>a. m = Inr a \<Longrightarrow> ok (f a)) \<Longrightarrow> ok (res_bind m f)"
  by (cases m) (auto simp: ok_def)

lemma ok_if [ok_intros]: "(b \<Longrightarrow> ok x) \<Longrightarrow> (\<not> b \<Longrightarrow> ok y) \<Longrightarrow> ok (if b then x else y)"
  by simp

lemma ok_option [ok_intros]:
  "(v = None \<Longrightarrow> ok x) \<Longrightarrow> (\<And>a. v = Some a \<Longrightarrow> ok (f a)) \<Longrightarrow> ok (case v of None \<Rightarrow> x | Some a \<Rightarrow> f a)"
  by (cases v) auto

lemma ok_prod [ok_intros]: "(\<And>a b. v = (a, b) \<Longrightarrow> ok (f a b)) \<Longrightarrow> ok (case v of (a, b) \<Rightarrow> f a b)"
  by (cases v) auto

lemma ok_dict_item: "dict_has d k \<Longrightarrow> ok (dict_item d k)"
  using dict_item_total by (auto simp: ok_iff)

definition confirmation_id_ok :: "string \<Rightarrow> bool" where
  "confirmation_id_ok cid =
     (if cid = ''none'' then True
      else if startswith cid ''persistence_n'' then ok (parse_persistence_n cid)
      else if startswith cid ''retest_tb'' then ok (res_bind (parse_retest_tick_buffer cid) float_of_int)
      else if startswith cid ''minvol_bps'' then ok (res_bind (parse_minvol_bps cid) float_of_int)
      else False)"

definition price_mode_ok :: "string \<Rightarrow> bool" where
  "price_mode_ok mode \<longleftrightarrow> mode = ''market_on_touch'' \<or> mode = ''limit_at_level''
     \<or> dict_has TICK_BUFFER_K_MAP mode \<or> dict_has PULLBACK_P_MAP mode"

definition band_ok :: "string \<Rightarrow> bool" where
  "band_ok b \<longleftrightarrow> b = ''none'' \<or> dict_has CONT1S_THRESHOLDS b \<or> dict_has TICKIMB_THRESHOLDS b
     \<or> dict_has SPREAD_THRESHOLDS b"

lemma tables_ok:
  "list_all (\<lambda>e. confirmation_id_ok (fst e)) TRIGGER_CONFIRMATION_TOKEN_MAP"
  "list_all (\<lambda>e. price_mode_ok (fst e)) ENTRY_PRICE_MODE_TOKEN_MAP"
  "list_all (\<lambda>e. band_ok (fst e)) POSTTOUCH_QUALITY_BAND_TOKEN_MAP"
  "list_all (\<lambda>e. ok (float_of_int (snd e))) SPREAD_THRESHOLDS"
  by code_simp+

lemma table_lookup: "list_all (\<lambda>e. P (fst e)) d \<Longrightarrow> dict_has d k \<Longrightarrow> P k"
  by (auto simp: list_all_iff dict_has_def)

lemma evaluate_confirmation_total:
  assumes "confirmation_id_ok (trigger_confirmation_id (candidate s))"
  shows "ok (evaluate_confirmation s t bars trades hist)"
proof -
  have parts: "ok (parse_persistence_n cid) \<or> cid = ''none'' \<or> \<not> startswith cid ''persistence_n''"
    "confirmation_id_ok cid \<Longrightarrow> cid \<noteq> ''none'' \<Longrightarrow> \<not> startswith cid ''persistence_n'' \<Longrightarrow> startswith cid ''retest_tb''
       \<Longrightarrow> ok (parse_retest_tick_buffer cid) \<and> (\<forall>n. parse_retest_tick_buffer cid = Inr n \<longrightarrow> ok (float_of_int n))"
    "confirmation_id_ok cid \<Longrightarrow> cid \<noteq> ''none'' \<Longrightarrow> \<not> startswith cid ''persistence_n'' \<Longrightarrow> \<not> startswith cid ''retest_tb''
       \<Longrightarrow> ok (parse_minvol_bps cid) \<and> (\<forall>n. parse_minvol_bps cid = Inr n \<longrightarrow> ok (float_of_int n))"
    if "confirmation_id_ok cid" for cid
    using that by (auto simp: confirmation_id_ok_def ok_iff res_bind_eq_Inr_iff split: if_splits)
  have med: "ok (median vs)" for vs
    by (auto simp: median_def Let_def ok_def)
  have thr: "ok (the_or_raise e (fdiv x (Fin 10000)))" for e x by (simp add: ok_def)
  show ?thesis
    using parts [OF assms] assms
    unfolding evaluate_confirmation_def evaluate_persistence_def evaluate_retest_def evaluate_min_volume_def Let_def
    by (intro ok_intros med thr) (auto simp: confirmation_id_ok_def split: if_splits)
qed

lemma get_tick_size_total:
  assumes "tick_size_by_symbol (symbol_filters (pr_snapshot r)) \<noteq> []"
  shows "ok (get_tick_size r)"
proof -
  let ?ks = "map fst (tick_size_by_symbol (symbol_filters (pr_snapshot r)))"
  have "hd (sort ?ks) \<in> set (sort ?ks)" using assms by (intro hd_in_set) (metis length_0_conv length_map length_sort)
  then have "dict_has (tick_size_by_symbol (symbol_filters (pr_snapshot r))) (hd (sort ?ks))"
    by (simp add: dict_has_def)
  then show ?thesis
    using assms unfolding get_tick_size_def Let_def by (intro ok_intros ok_dict_item) auto
qed

lemma resolve_total:
  assumes "price_mode_ok (entry_price_mode_id (candidate (pr_snapshot r)))"
    and "tick_size_by_symbol (symbol_filters (pr_snapshot r)) \<noteq> []"
  shows "ok (resolve r t bars)"
  using assms unfolding resolve_def resolve_tick_buffer_def resolve_pullback_limit_def Let_def price_mode_ok_def
  by (intro ok_intros ok_dict_item get_tick_size_total) auto

lemma new_posttouch_gate_total:
  assumes "band_ok b"
  shows "ok (new_posttouch_gate b tick)"
proof -
  have "ok (float_of_int n)" if "dict_item SPREAD_THRESHOLDS b = Inr n" for n
    using that tables_ok(4) map_of_SomeD [of SPREAD_THRESHOLDS b n]
    by (auto simp: dict_item_def the_or_raise_eq_Inr_iff list_all_iff)
  then show ?thesis
    using assms unfolding new_posttouch_gate_def Let_def band_ok_def
    by (intro ok_intros ok_dict_item) auto
qed

lemma process_event_total:
  assumes "confirmation_id_ok (trigger_confirmation_id (candidate (we_snapshot env)))"
    and "price_mode_ok (entry_price_mode_id (candidate (we_snapshot env)))"
    and "tick_size_by_symbol (symbol_filters (we_snapshot env)) \<noteq> []"
    and "pr_snapshot r = we_snapshot env"
  shows "ok (process_event env r ev)"
proof -
  have gate: "ok (posttouch_allow g t bars trades atr14)" for g t bars trades atr14
    using posttouch_decides by (simp add: ok_iff)
  have rec: "ok (record_entry env ev trigger resolution)" for trigger resolution
    by (simp add: record_entry_eq Let_def ok_def)
  show ?thesis
    unfolding process_event_def Let_def
    by (intro ok_intros evaluate_confirmation_total resolve_total gate rec)
       (use assms in \<open>auto simp: set_context_def\<close>)
qed

lemma walk_events_total:
  assumes "\<And>r ev. pr_snapshot r = s \<Longrightarrow> ok (process_event env r ev)"
  shows "pr_snapshot r = s \<Longrightarrow> ok (walk_events env r evs)
    \<and> (\<forall>ts r'. walk_events env r evs = Inr (ts, r') \<longrightarrow> pr_snapshot r' = s)"
proof (induction evs arbitrary: r)
  case (Cons ev evs)
  obtain ts r' where p: "process_event env r ev = Inr (ts, r')" using assms [OF Cons.prems, of ev] by (auto simp: ok_iff)
  then have "pr_snapshot r' = s" using process_event_context [OF p] Cons.prems by (simp add: set_context_def)
  from Cons.IH [OF this] show ?case by (auto simp: p ok_iff)
qed (simp add: ok_def)

lemma walk_splits_total:
  assumes "\<And>r ev. pr_snapshot r = s \<Longrightarrow> ok (process_event env r ev)"
  shows "pr_snapshot r = s \<Longrightarrow> ok (walk_splits env r ss)"
proof (induction ss arbitrary: r)
  case (Cons sp ss)
  let ?evs = "load_events (we_loader env) (execute_start sp) (execute_end sp)"
  obtain ts r' where w: "walk_events env r ?evs = Inr (ts, r')" and "pr_snapshot r' = s"
    using walk_events_total [OF assms Cons.prems, of ?evs] by (auto simp: ok_iff)
  from Cons.IH [OF this(2)] show ?case by (auto simp: w ok_iff)
qed (simp add: ok_def)

lemma execute_walkforward_ok:
  assumes "known_ids spec" and "candidate snapshot = spec"
    and "tick_size_by_symbol (symbol_filters snapshot) \<noteq> []"
  shows "ok (execute_walkforward spec snapshot config loader)"
proof -
  have ids: "confirmation_id_ok (trigger_confirmation_id spec)" "price_mode_ok (entry_price_mode_id spec)"
    "band_ok (posttouch_quality_band_id spec)"
    using assms(1) tables_ok table_lookup by (auto simp: known_ids_def)
  have walk: "ok (walk_splits env (new_resolver snapshot) ss)" if "we_snapshot env = snapshot" for env ss
    by (rule walk_splits_total [where s = snapshot])
       (use that process_event_total ids assms in \<open>auto simp: new_resolver_def\<close>)
  have "ok (generate_candidate_id spec)"
    using assms(1) known_ids_iff by (auto simp: generate_candidate_id_eq ok_iff)
  moreover have "ok (get_primary_tick_size config)"
    unfolding get_primary_tick_size_def Let_def by (intro ok_intros ok_dict_item) auto
  moreover have "ok iter_splits" by (simp add: iter_splits_eq ok_def)
  ultimately show ?thesis
    unfolding execute_walkforward_def
    by (intro ok_intros new_posttouch_gate_total ids walk) auto
qed

section \<open>A summary without a baseline\<close>

text \<open>Without losing trades no quotient of the metrics is computed, so they raise nothing.\<close>

lemma compute_metrics_ok:
  assumes "filter negative (returns ops tr_realistic_pnl df) = []"
    and "filter negative (map tr_realistic_pnl df) = []" and "np_sum ops [] = Fin 0"
  shows "ok (compute_metrics ops df n)"
  using assms unfolding compute_metrics_def Let_def payoff_metric_def profit_factor_metric_def
  by (intro ok_intros) (auto simp: feq_def)

lemma aggregate_ok:
  assumes "filter negative (returns ops tr_realistic_pnl df) = []"
    and "filter negative (map tr_realistic_pnl df) = []" and "np_sum ops [] = Fin 0"
  shows "ok (aggregate ops df n)"
  unfolding aggregate_def
  by (intro ok_intros compute_metrics_ok)
     (use assms in \<open>auto simp: filter_empty_conv returns_def\<close>)

text \<open>The types of the figures that the decision flags read.\<close>

definition nogate_typed :: "metrics_dict \<Rightarrow> bool" where
  "nogate_typed m \<longleftrightarrow>
     (\<exists>x q i. dict_get m ''nogate_calendar_normalized_return_pct'' = Some (JFloat x)
        \<and> dict_get m ''nogate_per_trade_quality_bps_over_notional'' = Some q \<and> (q = JNull \<or> (\<exists>y. q = JFloat y))
        \<and> dict_get m ''nogate_trade_count'' = Some (JInt i))"

lemma aggregate_typed:
  assumes "aggregate ops df n = Inr m"
  shows "nogate_typed m"
proof -
  obtain m1 where m1: "compute_metrics ops (filter (\<lambda>t. tr_gate_mode t = ''nogate'') df) n = Inr m1"
    and get: "\<And>k. dict_get m (''nogate_'' @ k) = dict_get m1 k"
    using aggregate_get [OF assms] by metis
  have "\<exists>x. dict_get m1 ''calendar_normalized_return_pct'' = Some (JFloat x)"
    using m1 by (auto simp: compute_metrics_def Let_def res_bind_eq_Inr_iff dict_get_def split: if_splits)
  then show ?thesis
    using get [of "''calendar_normalized_return_pct''"] get [of "''per_trade_quality_bps_over_notional''"]
      get [of "''trade_count''"] metrics_lookups(1,2) [OF m1]
    by (auto simp: nogate_typed_def)
qed

lemma symbol_metrics_typed: "compute_symbol_metrics ops df symbol = Inr m \<Longrightarrow> nogate_typed m"
  by (auto simp: compute_symbol_metrics_def Let_def dest: aggregate_typed split: if_splits)
     (simp_all add: empty_symbol_metrics_def nogate_typed_def dict_get_def)

lemma expectation_ok:
  assumes "nogate_typed d" and "get_or_none b ''nogate_win_rate'' = JNull"
  shows "ok (compute_event_expectation_positive d b)"
  using assms unfolding compute_event_expectation_positive_def Let_def nogate_typed_def
  by (intro ok_intros) (auto simp: get_or_none_def ok_def)

lemma no_baseline_none:
  "get_or_none no_baseline_ref ''nogate_win_rate'' = JNull"
  "get_or_none (sub_dict no_baseline_ref ''BTCUSDT'') ''nogate_win_rate'' = JNull"
  "get_or_none (sub_dict no_baseline_ref ''ETHUSDT'') ''nogate_win_rate'' = JNull"
  by (simp_all add: get_or_none_def no_baseline_ref_def sub_dict_def dict_get_def Let_def)

lemma count_or_zero_ok: "dict_get d k = Some (JInt i) \<Longrightarrow> ok (count_or_zero d k)"
  by (auto simp: count_or_zero_def ok_def)

lemma symbol_count_int:
  "nogate_typed m \<Longrightarrow> \<exists>i. get_or_int0 m ''nogate_trade_count'' = JInt i"
  by (auto simp: nogate_typed_def get_or_int0_def)

lemma build_summary_ok:
  assumes "nogate_typed metrics" and "distinct (map fst metrics)"
    and "\<And>symbol. ok (compute_symbol_metrics ops df symbol)"
  shows "ok (build_summary ops metrics ref df None)"
proof -
  note d = dict_get_dict_update_Nil [OF assms(2)]
  obtain b e where be: "compute_symbol_metrics ops df ''BTCUSDT'' = Inr b"
      "compute_symbol_metrics ops df ''ETHUSDT'' = Inr e"
    using assms(3) by (meson ok_iff)
  obtain i j k where ij: "get_or_int0 b ''nogate_trade_count'' = JInt i" "get_or_int0 e ''nogate_trade_count'' = JInt j"
      "dict_get metrics ''nogate_trade_count'' = Some (JInt k)"
    using be assms(1) symbol_metrics_typed symbol_count_int by (meson nogate_typed_def)
  obtain p where p: "compute_event_expectation_positive b (sub_dict no_baseline_ref ''BTCUSDT'') = Inr p"
    using expectation_ok [OF symbol_metrics_typed [OF be(1)] no_baseline_none(2)] by (auto simp: ok_iff)
  obtain q where q: "compute_event_expectation_positive e (sub_dict no_baseline_ref ''ETHUSDT'') = Inr q"
    using expectation_ok [OF symbol_metrics_typed [OF be(2)] no_baseline_none(3)] by (auto simp: ok_iff)
  let ?s = "dict_set (dict_set (dict_set (dict_update [] metrics) ''walkforward_config'' (JDict get_walkforward_config))
      ''gate001_snapshot_ref'' (str_dict ref)) ''baseline_reference'' (JDict no_baseline_ref)"
  have "nogate_typed ?s" using assms(1) d by (simp add: nogate_typed_def)
  then obtain a where a: "compute_event_expectation_positive ?s no_baseline_ref = Inr a"
    using expectation_ok no_baseline_none(1) by (auto simp: ok_iff)
  show ?thesis
    unfolding build_summary_def Let_def option.case res_bind_Inr be p q a ij compute_small_sample_flag_def
    by (intro ok_intros count_or_zero_ok [where i = k] count_or_zero_ok [where i = i] count_or_zero_ok [where i = j])
       (use d ij in simp_all)
qed

text \<open>What the checks find in the figures of a summary, and that its writer accepts it.\<close>

lemma summary_figures_counted:
  assumes "aggregate ops trades 22 = Inr metrics"
    and "build_summary ops metrics ref trades bl = Inr summary"
    and "\<forall>t \<in> set trades. \<not> feq (tr_notional t) (Fin 0)"
  shows "check_p9 ops trades summary =
      Inr (of_bool (mode_means_differ ops trades ''nogate'') + of_bool (mode_means_differ ops trades ''gate001''))"
    and "check_p12 summary = Inr 0"
proof -
  note get = build_summary_get [OF assms(2) aggregate_distinct [OF assms(1)]]
  have silos: "aggregate ops trades TOTAL_SILOS = Inr metrics" using assms(1) by (simp add: TOTAL_SILOS_def)
  have "k \<noteq> ''snapshot_ref''" if "k \<in> set checked_figures" for k
    using that by (auto simp: checked_figures_def)
  then show "check_p9 ops trades summary =
      Inr (of_bool (mode_means_differ ops trades ''nogate'') + of_bool (mode_means_differ ops trades ''gate001''))"
    and "check_p12 summary = Inr 0"
    using figures_counted [OF silos, of summary] get(1,2) assms(3) by auto
qed

lemma write_summary_ok:
  assumes "aggregate ops trades 22 = Inr metrics" and "build_summary ops metrics ref trades bl = Inr summary"
    and "check_invariants ops trades summary = Inr violations"
  shows "\<exists>fs'. write_summary (dict_set summary ''invariant_violations'' (JDict violations)) path fs = Inr fs'"
proof -
  note get = build_summary_get [OF assms(2) aggregate_distinct [OF assms(1)]]
  obtain p3 p4 p9 p12 live where v: "violations = violations_dict p3 p4 p9 p12 live"
    using assms(3) by (auto simp: check_invariants_def res_bind_eq_Inr_iff)
  have "validate_invariant_violations (dict_set summary ''invariant_violations'' (JDict violations)) = Inr ()"
    by (simp add: validate_invariant_violations_def v dict_has_def filter_empty_conv flip: violations_dict_simps(1) [of p3 p4 p9 p12 live])
  moreover have "validate_top_level_fields (dict_set summary ''invariant_violations'' (JDict violations)) = Inr ()"
    using get(4) by (auto simp: validate_top_level_fields_def dict_has_def filter_empty_conv)
  ultimately show ?thesis by (simp add: write_summary_def)
qed

end
