(* ===== verification/Driver.thy ===== *)
theory Driver
  imports Pipeline RoundTrip
begin

text \<open>
  \<open>scheduler/run_default_subset.py\<close>: the command that runs the pipeline for the 36 candidates of the
  default subset, one after the other on the same files, and writes the ranking and one report per
  candidate. Parameters are the current date, and of pandas \<open>read_csv\<close>, which turns the text of a
  file into rows of named cells. The messages on the console are not modelled.
\<close>

section \<open>Arguments and constants\<close>

record driver_args =
  da_seed :: int
  da_events_source_path :: string
  da_git_commit_sha :: string
  da_output_dir :: string
  da_project_root :: string
  da_atr14_source_path :: string
  da_runner_version :: string
  da_report_date :: "string option"
  da_gate_snapshot_sha256 :: "string option"

definition DEFAULT_RUNNER_VERSION :: string where
  "DEFAULT_RUNNER_VERSION = ''entry_redesign_runner_v1.0.0''"

definition DEFAULT_TICK_SIZE_BY_SYMBOL :: "(string \<times> pyfloat) list" where
  "DEFAULT_TICK_SIZE_BY_SYMBOL = [(''BTCUSDT'', fl (1 / 10)), (''ETHUSDT'', fl (1 / 100))]"

definition DEFAULT_STEP_SIZE_BY_SYMBOL :: "(string \<times> pyfloat) list" where
  "DEFAULT_STEP_SIZE_BY_SYMBOL = [(''BTCUSDT'', fl (1 / 1000)), (''ETHUSDT'', fl (1 / 1000))]"

text \<open>\<open>str(pathlib.Path(s))\<close>: empty and dot components disappear, a leading slash stays.\<close>

definition pathlib_path :: "string \<Rightarrow> string" where
  "pathlib_path s =
     (let root = (if startswith s ''//'' \<and> \<not> startswith s ''///'' then ''//''
                  else if startswith s ''/'' then ''/'' else []);
          p = root @ str_join ''/'' (filter (\<lambda>c. c \<noteq> [] \<and> c \<noteq> ''.'') (str_split (CHR ''/'') s))
      in if p = [] then ''.'' else p)"

section \<open>Helpers\<close>

text \<open>
  The loop over chunks of 65536 bytes; the state of the hash object is the text it has been fed, and
  \<open>hexdigest\<close> hashes that text.
\<close>

function hash_loop :: "string \<Rightarrow> string \<Rightarrow> string" where
  "hash_loop h rest =
     (let chunk = take 65536 rest
      in if chunk = [] then h else hash_loop (h @ chunk) (drop 65536 rest))"
  by pat_completeness auto
termination by (relation "measure (\<lambda>(h, rest). length rest)") auto

declare hash_loop.simps [simp del]

definition compute_file_sha256 :: "fs \<Rightarrow> string \<Rightarrow> string res" where
  "compute_file_sha256 fs file_path =
     res_bind (the_or_raise OSError (fs file_path)) (\<lambda>content. Inr (sha256_hex (hash_loop [] content)))"

definition get_report_date_prefix :: "string \<Rightarrow> string option \<Rightarrow> string res" where
  "get_report_date_prefix utc_today report_date =
     (case report_date of
        Some d \<Rightarrow> if length d \<noteq> 8 \<or> \<not> list_all is_digit d then Inl ValueError else Inr d
      | None \<Rightarrow> Inr utc_today)"

definition artifact_line :: "string \<Rightarrow> string option \<Rightarrow> string list" where
  "artifact_line label path = (case path of None \<Rightarrow> [] | Some p \<Rightarrow> [''- '' @ label @ '': `'' @ p @ ''`''])"

definition candidate_markdown :: "pipeline_result \<Rightarrow> entry_candidate_spec \<Rightarrow> string \<Rightarrow> string" where
  "candidate_markdown result spec date_prefix =
     str_join nl
       ([''# Entry Redesign Report: '' @ res_candidate_id result, [],
         ''**Date**: '' @ date_prefix, ''**Status**: '' @ res_status result, [],
         ''## Candidate Spec'', [],
         ''- `entry_delay_seconds`: '' @ str_int (entry_delay_seconds spec),
         ''- `feature_horizon_seconds`: '' @ str_int (feature_horizon_seconds spec),
         ''- `trigger_confirmation_id`: '' @ trigger_confirmation_id spec,
         ''- `entry_price_mode_id`: '' @ entry_price_mode_id spec,
         ''- `pretouch_state_band_id`: '' @ pretouch_state_band_id spec,
         ''- `posttouch_quality_band_id`: '' @ posttouch_quality_band_id spec, [],
         ''## Artifacts'', []]
        @ artifact_line ''Ledger'' (res_ledger_path result)
        @ artifact_line ''Summary'' (res_summary_path result)
        @ artifact_line ''Attribution'' (res_attribution_path result)
        @ artifact_line ''Snapshot'' (res_snapshot_path result)
        @ artifact_line ''Ablation (pretouch only)'' (res_ablation_pretouch_only_path result)
        @ artifact_line ''Ablation (posttouch only)'' (res_ablation_posttouch_only_path result)
        @ [[]])"

definition markdown_path :: "string \<Rightarrow> string \<Rightarrow> string \<Rightarrow> string" where
  "markdown_path output_dir date_prefix candidate_id =
     path_join output_dir (date_prefix @ ''_entry_redesign_'' @ candidate_id @ ''.md'')"

definition write_per_candidate_markdown ::
  "pipeline_result \<Rightarrow> entry_candidate_spec \<Rightarrow> string \<Rightarrow> string \<Rightarrow> string option io" where
  "write_per_candidate_markdown result spec output_dir date_prefix =
     (if res_status result \<noteq> ''completed'' then io_return None
      else let md_path = markdown_path output_dir date_prefix (res_candidate_id result)
           in io_bind (io_writer (\<lambda>fs. Inr (fs(md_path \<mapsto> candidate_markdown result spec date_prefix)))) (\<lambda>_.
                io_return (Some md_path)))"

section \<open>Reading results back\<close>

text \<open>
  A row of a frame gives the value of a cell by the name of its column. The record keeps the texts of
  the four time columns, here the times that they denote (\<open>as_time\<close>); nothing reads these fields of a
  baseline trade.
\<close>

type_synonym csv_row = "string \<Rightarrow> json option"

definition cell :: "csv_row \<Rightarrow> string \<Rightarrow> json res" where
  "cell row column = the_or_raise KeyError (row column)"

definition text_cell :: "csv_row \<Rightarrow> string \<Rightarrow> string res" where
  "text_cell row column = res_bind (cell row column) (\<lambda>v. Inr (py_str v))"

definition float_cell :: "csv_row \<Rightarrow> string \<Rightarrow> pyfloat res" where
  "float_cell row column = res_bind (cell row column) py_float"

definition int_cell :: "csv_row \<Rightarrow> string \<Rightarrow> int res" where
  "int_cell row column = res_bind (cell row column) py_int_of"

definition trade_of_row :: "(json \<Rightarrow> datetime) \<Rightarrow> csv_row \<Rightarrow> trade_record res" where
  "trade_of_row as_time row =
     res_bind (cell row ''entry_ts'') (\<lambda>entry_ts.
     res_bind (cell row ''exit_ts'') (\<lambda>exit_ts.
     res_bind (text_cell row ''symbol'') (\<lambda>symbol.
     res_bind (text_cell row ''side'') (\<lambda>side.
     res_bind (float_cell row ''entry_price'') (\<lambda>entry_price.
     res_bind (float_cell row ''exit_price'') (\<lambda>exit_price.
     res_bind (float_cell row ''notional'') (\<lambda>notional.
     res_bind (float_cell row ''raw_pnl'') (\<lambda>raw_pnl.
     res_bind (float_cell row ''slip_pnl'') (\<lambda>slip_pnl.
     res_bind (float_cell row ''realistic_pnl'') (\<lambda>realistic_pnl.
     res_bind (float_cell row ''realistic_taker_both_pnl'') (\<lambda>realistic_taker_both_pnl.
     res_bind (text_cell row ''exit_reason'') (\<lambda>exit_reason.
     res_bind (text_cell row ''entry_candidate_id'') (\<lambda>entry_candidate_id.
     res_bind (text_cell row ''gate_mode'') (\<lambda>gate_mode.
     res_bind (cell row ''signal_bar_start_ts'') (\<lambda>signal_bar_start_ts.
     res_bind (cell row ''trigger_ts'') (\<lambda>trigger_ts.
     res_bind (int_cell row ''entry_delay_seconds'') (\<lambda>entry_delay.
     res_bind (int_cell row ''feature_horizon_seconds'') (\<lambda>feature_horizon.
     res_bind (text_cell row ''trigger_confirmation_id'') (\<lambda>confirmation_id.
     res_bind (text_cell row ''entry_price_mode_id'') (\<lambda>price_mode_id.
     res_bind (text_cell row ''pretouch_state_band_id'') (\<lambda>pretouch_id.
     res_bind (text_cell row ''posttouch_quality_band_id'') (\<lambda>posttouch_id.
       Inr \<lparr>tr_entry_ts = as_time entry_ts, tr_exit_ts = as_time exit_ts, tr_symbol = symbol, tr_side = side,
            tr_entry_price = entry_price, tr_exit_price = exit_price, tr_notional = notional,
            tr_raw_pnl = raw_pnl, tr_slip_pnl = slip_pnl, tr_realistic_pnl = realistic_pnl,
            tr_realistic_taker_both_pnl = realistic_taker_both_pnl, tr_exit_reason = exit_reason,
            tr_entry_candidate_id = entry_candidate_id, tr_gate_mode = gate_mode,
            tr_signal_bar_start_ts = as_time signal_bar_start_ts, tr_trigger_ts = as_time trigger_ts,
            tr_entry_delay_seconds = entry_delay, tr_feature_horizon_seconds = feature_horizon,
            tr_trigger_confirmation_id = confirmation_id, tr_entry_price_mode_id = price_mode_id,
            tr_pretouch_state_band_id = pretouch_id, tr_posttouch_quality_band_id = posttouch_id\<rparr>))))))))))))))))))))))"

text \<open>\<open>_load_baseline_trades\<close>: every exception while reading gives \<open>None\<close>.\<close>

definition load_baseline_trades ::
  "(string \<Rightarrow> csv_row list res) \<Rightarrow> (json \<Rightarrow> datetime) \<Rightarrow> pipeline_result \<Rightarrow> fs \<Rightarrow> trade_record list option" where
  "load_baseline_trades read_csv as_time result fs =
     (if res_status result \<noteq> ''completed'' then None
      else case res_ledger_path result of
        None \<Rightarrow> None
      | Some path \<Rightarrow>
          (case fs path of
             None \<Rightarrow> None
           | Some content \<Rightarrow>
               (case res_bind (read_csv content) (\<lambda>df. if df = [] then Inr [] else res_map (trade_of_row as_time) df) of
                  Inl e \<Rightarrow> None
                | Inr trades \<Rightarrow> Some trades)))"

definition ranking_entry :: "string \<Rightarrow> string \<Rightarrow> row_dict option res" where
  "ranking_entry candidate_id content =
     res_bind (json_loads content) (\<lambda>summary.
       case summary of
         JDict d \<Rightarrow>
           let cal_return = get_or_none d ''nogate_calendar_normalized_return_pct'';
               quality_bps = get_or_none d ''nogate_per_trade_quality_bps_over_notional'';
               asymmetry_tag = (case dict_get d ''asymmetry_tag'' of None \<Rightarrow> JStr ''none'' | Some v \<Rightarrow> v)
           in if cal_return = JNull \<or> quality_bps = JNull then Inr None
              else res_bind (py_float cal_return) (\<lambda>x.
                   res_bind (py_float quality_bps) (\<lambda>y.
                     Inr (Some [(''candidate_id'', JStr candidate_id),
                                (''nogate_calendar_normalized_return_pct'', JFloat x),
                                (''nogate_per_trade_quality_bps_over_notional'', JFloat y),
                                (''asymmetry_tag'', asymmetry_tag)])))
       | _ \<Rightarrow> Inl AttributeError)"

text \<open>The exceptions that the loop swallows; a summary that is no dictionary raises another one.\<close>

definition skip_errors :: "'a option res \<Rightarrow> 'a option res" where
  "skip_errors r =
     (case r of
        Inl e \<Rightarrow> if e \<in> {OSError, KeyError, TypeError, ValueError} then Inr None else Inl e
      | Inr x \<Rightarrow> Inr x)"

fun collect_ranking_candidates ::
  "(entry_candidate_spec \<times> pipeline_result) list \<Rightarrow> fs \<Rightarrow> row_dict list res" where
  "collect_ranking_candidates [] fs = Inr []"
| "collect_ranking_candidates ((spec, result) # results) fs =
     res_bind
       (case (if res_status result \<noteq> ''completed'' then None else res_summary_path result) of
          None \<Rightarrow> Inr None
        | Some path \<Rightarrow>
            (case fs path of
               None \<Rightarrow> Inr None
             | Some content \<Rightarrow> skip_errors (ranking_entry (res_candidate_id result) content))) (\<lambda>c.
     res_bind (collect_ranking_candidates results fs) (\<lambda>cs.
       Inr (case c of None \<Rightarrow> cs | Some d \<Rightarrow> d # cs)))"

section \<open>The command\<close>

definition driver_config :: "driver_args \<Rightarrow> string \<Rightarrow> string \<Rightarrow> pipeline_config" where
  "driver_config args events_sha256 atr14_sha256' =
     \<lparr>pc_seed = da_seed args, pc_git_commit_sha = da_git_commit_sha args,
      pc_events_source_path = da_events_source_path args, pc_events_source_sha256 = events_sha256,
      pc_runner_version = da_runner_version args, pc_output_dir = pathlib_path (da_output_dir args),
      pc_project_root = pathlib_path (da_project_root args),
      pc_tick_size_by_symbol = DEFAULT_TICK_SIZE_BY_SYMBOL, pc_step_size_by_symbol = DEFAULT_STEP_SIZE_BY_SYMBOL,
      pc_atr14_source_path = da_atr14_source_path args, pc_atr14_source_sha256 = atr14_sha256',
      pc_gate_snapshot_expected_sha256 = da_gate_snapshot_sha256 args, pc_validation_metrics = None,
      pc_aborted_at_utc_ms = ''1970-01-01T00:00:00.000Z''\<rparr>"

fun run_candidates ::
  "numpy_ops \<Rightarrow> string \<Rightarrow> pipeline_config \<Rightarrow> pipeline_result \<Rightarrow> trade_record list option
   \<Rightarrow> entry_candidate_spec list \<Rightarrow> (entry_candidate_spec \<times> pipeline_result) list io" where
  "run_candidates ops output_dir config baseline_result baseline_trades [] = io_return []"
| "run_candidates ops output_dir config baseline_result baseline_trades (spec # specs) =
     io_bind (io_res (generate_candidate_id spec)) (\<lambda>_.
     io_bind (if spec = BASELINE then io_return baseline_result
              else run_pipeline ops output_dir spec config None baseline_trades) (\<lambda>result.
     io_bind (run_candidates ops output_dir config baseline_result baseline_trades specs) (\<lambda>results.
       io_return ((spec, result) # results))))"

fun write_reports ::
  "(entry_candidate_spec \<times> pipeline_result) list \<Rightarrow> string \<Rightarrow> string \<Rightarrow> int io" where
  "write_reports [] output_dir date_prefix = io_return 0"
| "write_reports ((spec, result) # results) output_dir date_prefix =
     io_bind (write_per_candidate_markdown result spec output_dir date_prefix) (\<lambda>md_path.
     io_bind (write_reports results output_dir date_prefix) (\<lambda>md_count.
       io_return (if md_path \<noteq> None then md_count + 1 else md_count)))"

definition ranking_path :: "string \<Rightarrow> string" where
  "ranking_path output_dir = path_join output_dir ''entry_candidate_ranking.md''"

text \<open>Steps 4 to 7, after the two input files have been hashed\<close>

definition run_subset ::
  "numpy_ops \<Rightarrow> (string \<Rightarrow> csv_row list res) \<Rightarrow> (json \<Rightarrow> datetime) \<Rightarrow> string \<Rightarrow> pipeline_config \<Rightarrow> int io" where
  "run_subset ops read_csv as_time date_prefix config =
     (let output_dir = pc_output_dir config in
      io_bind (run_pipeline ops output_dir BASELINE config None None) (\<lambda>baseline_result.
      io_bind (io_read (\<lambda>fs. Inr (load_baseline_trades read_csv as_time baseline_result fs))) (\<lambda>baseline_trades.
      io_bind (run_candidates ops output_dir config baseline_result baseline_trades DEFAULT_SUBSET) (\<lambda>results.
      io_bind (io_read (collect_ranking_candidates results)) (\<lambda>ranking_candidates.
      io_bind (if ranking_candidates \<noteq> [] then io_writer (write_ranking ranking_candidates (ranking_path output_dir))
               else io_return ()) (\<lambda>_.
      io_bind (write_reports results output_dir date_prefix) (\<lambda>md_count.
        io_return 0)))))))"

text \<open>A missing input file ends the command with exit code 1.\<close>

definition hash_or_exit :: "string \<Rightarrow> (string \<Rightarrow> int io) \<Rightarrow> int io" where
  "hash_or_exit path cont fs =
     (case compute_file_sha256 fs path of
        Inr h \<Rightarrow> cont h fs
      | Inl e \<Rightarrow> if e = OSError then (Inr 1, fs) else (Inl e, fs))"

definition run_default_subset ::
  "numpy_ops \<Rightarrow> (string \<Rightarrow> csv_row list res) \<Rightarrow> (json \<Rightarrow> datetime) \<Rightarrow> string \<Rightarrow> driver_args \<Rightarrow> int io" where
  "run_default_subset ops read_csv as_time utc_today args =
     io_bind (io_res (get_report_date_prefix utc_today (da_report_date args))) (\<lambda>date_prefix.
     hash_or_exit (da_events_source_path args) (\<lambda>events_sha256.
     hash_or_exit (da_atr14_source_path args) (\<lambda>atr14_sha256'.
       run_subset ops read_csv as_time date_prefix (driver_config args events_sha256 atr14_sha256'))))"

section \<open>Hashing in chunks\<close>

lemma hash_loop_eq: "hash_loop h rest = h @ rest"
proof (induction h rest rule: hash_loop.induct)
  case (1 h rest)
  then show ?case by (subst hash_loop.simps) (auto simp: Let_def)
qed

lemma compute_file_sha256_eq:
  "compute_file_sha256 fs path = (case fs path of None \<Rightarrow> Inl OSError | Some content \<Rightarrow> Inr (sha256_hex content))"
  by (simp add: compute_file_sha256_def hash_loop_eq split: option.split)

section \<open>A run without events\<close>

text \<open>With no trades, neither the figures nor the verdict depend on numpy.\<close>

lemma empty_aggregate: "aggregate ops [] n = aggregate ref_numpy [] n"
  by (simp add: aggregate_def compute_metrics_def)

lemma empty_build_summary: "build_summary ops m ref [] bl = build_summary ref_numpy m ref [] bl"
proof -
  have "compute_symbol_metrics ops [] s = Inr empty_symbol_metrics" for ops s
    by (simp add: compute_symbol_metrics_def)
  then show ?thesis unfolding build_summary_def by (simp only:)
qed

lemma empty_check: "check_invariants ops [] summary = check_invariants ref_numpy [] summary"
proof -
  have "check_p9_mode ops [] summary p = check_p9_mode ref_numpy [] summary p" for p
    by (simp add: check_p9_mode_def Let_def split: option.split)
  then show ?thesis unfolding check_invariants_def check_p9_def Let_def by (simp only:)
qed

definition no_quality :: "metrics_dict \<Rightarrow> bool" where
  "no_quality d \<longleftrightarrow> get_or_none d ''nogate_per_trade_quality_bps_over_notional'' = JNull"

text \<open>Values that are read back from the summary file: finite floats, no repeated keys.\<close>

definition good_json :: "json \<Rightarrow> bool" where
  "good_json v \<longleftrightarrow> distinct_keys v \<and> all_floats finite_float v"

lemma good_JDict: "good_json (JDict d) \<longleftrightarrow> distinct (map fst d) \<and> (\<forall>(k, v) \<in> set d. good_json v)"
  by (induction d) (auto simp: good_json_def)

lemma good_dict_set: "good_json (JDict d) \<Longrightarrow> good_json v \<Longrightarrow> good_json (JDict (dict_set d k v))"
  unfolding good_JDict by (induction d) (auto split: if_splits)

lemma good_dict_update:
  "good_json (JDict d) \<Longrightarrow> \<forall>(k, v) \<in> set e. good_json v \<Longrightarrow> good_json (JDict (dict_update d e))"
  by (induction d e rule: dict_update.induct) (auto simp: good_dict_set)

lemma good_atoms [simp]: "good_json JNull" "good_json (JStr x)" "good_json (JBool b)" "good_json (JInt i)"
  "good_json (JFloat (Fin q))"
  by (simp_all add: good_json_def finite_float_def)

lemma good_build_summary:
  assumes "build_summary ops m ref [] None = Inr s" and "\<forall>(k, v) \<in> set m. good_json v" and "distinct (map fst ref)"
  shows "good_json (JDict s)"
proof -
  have "good_json (JDict get_walkforward_config)" "good_json (JDict no_baseline_ref)" by code_simp+
  moreover have "good_json (str_dict ref)" using assms(3)
    by (auto simp: str_dict_def good_JDict comp_def case_prod_unfold)
  moreover have "good_json (JDict [])" by (simp add: good_json_def)
  ultimately show ?thesis
    using assms(1,2)
    by (auto simp: build_summary_def Let_def res_bind_eq_Inr_iff compute_symbol_metrics_def empty_symbol_metrics_def
        get_or_int0_def dict_get_def intro!: good_dict_set good_dict_update)
qed

lemma empty_baseline: "compute_baseline_reference [] = Inr no_baseline_ref"
  by code_simp

text \<open>The stages of a run that has no trades\<close>

lemma empty_stages:
  assumes "distinct (map fst ref)"
  obtains m s v where "\<And>ops. aggregate ops [] 22 = Inr m" and "\<And>ops. build_summary ops m ref [] None = Inr s"
    and "\<And>ops. check_invariants ops [] s = Inr v" and "has_violations v = Inr False"
    and "good_json (JDict (dict_set s ''invariant_violations'' (JDict v)))"
    and "no_quality (dict_set s ''invariant_violations'' (JDict v))"
    and "dict_get m ''nogate_calendar_normalized_return_pct'' = Some (JFloat (Fin 0))"
proof -
  obtain m where m: "aggregate ref_numpy [] 22 = Inr m" by (simp add: aggregate_def compute_metrics_def)
  have m_good: "\<forall>(k, v) \<in> set m. good_json v"
    using m by (auto simp: aggregate_def compute_metrics_def prefix_keys_def dest!: arg_cong [of _ _ "\<lambda>m. good_json (JDict m)"])
  have get: "dict_get m (''nogate_'' @ ''calendar_normalized_return_pct'') = Some (JFloat (Fin 0))"
    "dict_get m (''nogate_'' @ ''per_trade_quality_bps_over_notional'') = Some JNull"
    by (rule aggregate_get [OF m], simp only:, simp add: compute_metrics_def dict_get_def)+
  have "ok (build_summary ref_numpy m ref [] None)"
    by (intro build_summary_ok aggregate_typed [OF m] aggregate_distinct [OF m])
       (simp add: compute_symbol_metrics_def ok_def)
  then obtain s where s: "build_summary ref_numpy m ref [] None = Inr s" by (auto simp: ok_iff)
  note sg = build_summary_get [OF s aggregate_distinct [OF m]]
  have "check_p9 ref_numpy [] s = Inr 0" "check_p12 s = Inr 0"
    using summary_figures_counted [OF m s] by simp_all
  then have v: "check_invariants ref_numpy [] s = Inr (violations_dict 0 0 0 0 False)"
    using sg(3) by (simp add: check_invariants_def check_p3_def check_p4_def)
  show thesis
  proof (rule that [of m s "violations_dict 0 0 0 0 False"])
    have "good_json (JDict (violations_dict 0 0 0 0 False))" by code_simp
    then show "good_json (JDict (dict_set s ''invariant_violations'' (JDict (violations_dict 0 0 0 0 False))))"
      by (intro good_dict_set good_build_summary [OF s m_good assms])
    show "no_quality (dict_set s ''invariant_violations'' (JDict (violations_dict 0 0 0 0 False)))"
      using sg(1) [of "''per_trade_quality_bps_over_notional''"] get(2) by (simp add: no_quality_def get_or_none_def)
    show "aggregate ops [] 22 = Inr m" for ops by (subst empty_aggregate) (rule m)
    show "build_summary ops m ref [] None = Inr s" for ops by (subst empty_build_summary) (rule s)
    show "check_invariants ops [] s = Inr (violations_dict 0 0 0 0 False)" for ops by (subst empty_check) (rule v)
    show "has_violations (violations_dict 0 0 0 0 False) = Inr False" by (simp add: violations_dict_simps)
    show "dict_get m ''nogate_calendar_normalized_return_pct'' = Some (JFloat (Fin 0))" using get(1) by simp
  qed
qed

lemma empty_attribution:
  assumes "dict_get m ''nogate_calendar_normalized_return_pct'' = Some (JFloat (Fin 0))"
    and "\<not> is_combined_pretouch_posttouch spec"
  obtains rows content where "\<And>ops. build_attribution_rows ops [] m None spec = Inr rows"
    and "attribution_content rows = Inr content"
proof -
  let ?m = "[(''nogate_calendar_normalized_return_pct'', JFloat (Fin 0))]"
  have row: "attribution_row_of ops [] m None spec symbol ym = attribution_row_of ref_numpy [] ?m None BASELINE symbol ym"
    for ops symbol ym
    using assms
    by (auto simp: attribution_row_of_def silo_figures_def determine_layer_dependency_def baseline_quality_overall_def
        is_combined_pretouch_posttouch_def BASELINE_def dict_get_def Let_def)
  have "ok (res_bind (build_attribution_rows ref_numpy [] ?m None BASELINE) attribution_content)" by code_simp
  then obtain rows content where "build_attribution_rows ref_numpy [] ?m None BASELINE = Inr rows"
    "attribution_content rows = Inr content" by (auto simp: ok_iff res_bind_eq_Inr_iff)
  then show thesis using that by (simp add: build_attribution_rows_def row)
qed

text \<open>A candidate of the default subset\<close>

definition plain_candidate :: "entry_candidate_spec \<Rightarrow> bool" where
  "plain_candidate spec \<longleftrightarrow>
     known_ids spec \<and> validate spec = Inr () \<and> \<not> is_combined_pretouch_posttouch spec"

lemma default_subset_plain: "list_all plain_candidate DEFAULT_SUBSET"
  by code_simp

lemma baseline_plain: "plain_candidate BASELINE"
  by code_simp

definition header_only :: string where
  "header_only = str_join '','' LEDGER_HEADER @ nl"

text \<open>What a run without events does to the files\<close>

definition quiet_run :: "string \<Rightarrow> string \<Rightarrow> pipeline_result \<Rightarrow> fs \<Rightarrow> fs \<Rightarrow> bool" where
  "quiet_run dir cid r fs fs' \<longleftrightarrow>
     (\<exists>reason content. r = aborted_result cid reason \<and> fs' = fs(aborted_path dir cid \<mapsto> content))
   \<or> (\<exists>summary d attribution snapshot.
        r = completed_result dir cid (None, None) \<and> json_loads summary = Inr (JDict d) \<and> no_quality d
        \<and> fs' = fs(get_ledger_path dir cid \<mapsto> header_only, get_summary_path dir cid \<mapsto> summary,
                   get_attribution_path dir cid \<mapsto> attribution, get_snapshot_path dir cid \<mapsto> snapshot))"

lemma summary_without_quality:
  assumes "good_json (JDict d)" and "no_quality d" and "ok (write_summary d p fs0)"
  obtains content e where "\<And>path fs. write_summary d path fs = Inr (fs(path \<mapsto> content))"
    and "json_loads content = Inr (JDict e)" and "no_quality e"
proof (rule that)
  let ?e = "sorted_items (map (\<lambda>(k, v). (k, canon True (fixed_float 15) v)) d)"
  have d: "distinct_keys (JDict d)" "all_floats finite_float (JDict d)" using assms(1) by (simp_all add: good_json_def)
  show "write_summary d path fs = Inr (fs(path \<mapsto> ensure_lf (summary_encode_value (JDict d))))" for path fs
    using assms(3) by (auto simp: write_summary_def ok_iff res_bind_eq_Inr_iff)
  show "json_loads (ensure_lf (summary_encode_value (JDict d))) = Inr (JDict ?e)"
    using loads_ensure_lf [OF reads_summary [OF d(2)] distinct_keys_canon [OF d(1)]] by simp
  show "no_quality ?e"
    using assms(2) d(1) by (auto simp: no_quality_def get_or_none_def dict_get_sorted_items split: option.splits)
qed

text \<open>An empty list of baseline trades is as good as none.\<close>

lemma empty_baseline_same:
  assumes "bl = None \<or> bl = Some []"
  shows "build_summary ops m ref ledger bl = build_summary ops m ref ledger None"
    and "build_attribution_rows ops ledger m bl spec = build_attribution_rows ops ledger m None spec"
proof -
  have "baseline_quality_overall ops bl = baseline_quality_overall ops None"
    using assms by (auto simp: baseline_quality_overall_def)
  then show "build_attribution_rows ops ledger m bl spec = build_attribution_rows ops ledger m None spec"
    unfolding build_attribution_rows_def attribution_row_of_def by (simp only:)
  show "build_summary ops m ref ledger bl = build_summary ops m ref ledger None"
    using assms by (auto simp only: build_summary_def option.case empty_baseline)
qed

lemma run_completed_quiet:
  assumes "plain_candidate spec" and "candidate snapshot = spec" and "tick_size_by_symbol (symbol_filters snapshot) \<noteq> []"
    and "distinct (map fst ref)" and "bl = None \<or> bl = Some []"
  shows "\<exists>r fs'. run_completed ops dir spec config None bl cid snapshot ref fs = (Inr r, fs') \<and> quiet_run dir cid r fs fs'"
proof -
  have "ok (execute_walkforward spec snapshot config None)"
    using assms(1-3) by (intro execute_walkforward_ok) (auto simp: plain_candidate_def)
  then have wf: "execute_walkforward spec snapshot config None = Inr []"
    by (auto simp: ok_iff execute_walkforward_def res_bind_eq_Inr_iff)
  have nc: "\<not> is_combined_pretouch_posttouch spec" using assms(1) by (simp add: plain_candidate_def)
  obtain m s v where st: "aggregate ops [] 22 = Inr m" "build_summary ops m ref [] None = Inr s"
    "check_invariants ops [] s = Inr v" "has_violations v = Inr False"
    and good: "good_json (JDict (dict_set s ''invariant_violations'' (JDict v)))"
    "no_quality (dict_set s ''invariant_violations'' (JDict v))"
    "dict_get m ''nogate_calendar_normalized_return_pct'' = Some (JFloat (Fin 0))"
    using empty_stages [OF assms(4)] by metis
  have "ok (write_summary (dict_set s ''invariant_violations'' (JDict v)) p fs)" for p
    using write_summary_ok [OF st(1-3)] by (simp add: ok_iff)
  then obtain sm e where sm: "\<And>path fs. write_summary (dict_set s ''invariant_violations'' (JDict v)) path fs
      = Inr (fs(path \<mapsto> sm))" "json_loads sm = Inr (JDict e)" "no_quality e"
    using summary_without_quality [OF good(1,2)] by metis
  obtain rows content where rows: "build_attribution_rows ops [] m None spec = Inr rows"
    "attribution_content rows = Inr content"
    using empty_attribution [OF good(3) nc] by metis
  have "ledger_content [] = Inr header_only" by (simp add: ledger_content_def header_only_def)
  then have "run_completed ops dir spec config None bl cid snapshot ref fs =
      (Inr (completed_result dir cid (None, None)),
       fs(get_ledger_path dir cid \<mapsto> header_only, get_summary_path dir cid \<mapsto> sm,
          get_attribution_path dir cid \<mapsto> content, get_snapshot_path dir cid \<mapsto> snapshot_to_json snapshot))"
    by (simp add: run_completed_def io_bind_def io_res_def io_writer_def io_return_def write_ledger_def write_snapshot_def
        write_attribution_def wf st sm(1) rows nc empty_baseline_same [OF assms(5)])
  then show ?thesis using sm(2,3) unfolding quiet_run_def by blast
qed

lemma res_map_Inl: "res_map f xs = Inl e \<Longrightarrow> \<exists>x \<in> set xs. f x = Inl e"
  by (induction xs) (auto simp: res_bind_def split: sum.splits)

lemma history_missing_total: "\<exists>b. history_missing fs config = Inr b"
proof -
  have "ok (res_bind iter_splits (\<lambda>ss. res_map (\<lambda>s. enumerate_months (train_start s) (validation_end s)) ss))" by code_simp
  then obtain splits ms where splits: "iter_splits = Inr splits"
    "res_map (\<lambda>s. enumerate_months (train_start s) (validation_end s)) splits = Inr ms"
    by (auto simp: ok_iff res_bind_eq_Inr_iff)
  have months: "\<exists>ms. enumerate_months (train_start s) (validation_end s) = Inr ms" if "s \<in> set splits" for s
    using that res_map_nth [OF splits(2)] by (metis in_set_conv_nth)
  have "\<exists>ms. e = InsufficientWalkforwardHistoryError ms"
    if "s \<in> set splits" "check_data_availability fs s path = Inl e" for s path e
    using that months [OF that(1)] by (auto simp: check_data_availability_def Let_def split: option.splits if_splits)
  then have "\<exists>ms. e = InsufficientWalkforwardHistoryError ms"
    if "res_map (\<lambda>s. check_data_availability fs s (pc_events_source_path config)) splits = Inl e" for e
    using res_map_Inl [OF that] by blast
  then show ?thesis
    by (cases "res_map (\<lambda>s. check_data_availability fs s (pc_events_source_path config)) splits")
       (auto simp: history_missing_def splits(1))
qed

lemma load_gate_snapshot_total:
  "\<exists>r. load_gate_snapshot fs config = Inr r \<and> (\<forall>ref. r = Some ref \<longrightarrow> distinct (map fst ref))"
  by (cases "fs (path_join (pc_project_root config) DEFAULT_SNAPSHOT_PATH)"; cases "pc_gate_snapshot_expected_sha256 config")
     (auto simp: load_gate_snapshot_def Let_def load_snapshot_def new_loader_def verify_sha256_def
      get_snapshot_ref_def)

lemma handle_abort_quiet:
  assumes "reason \<in> set VALID_ABORT_REASONS"
    and "mm = [] \<or> (\<exists>a b c. mm = [[(''field_name'', a), (''expected'', b), (''observed'', c)]])"
  shows "\<exists>r fs'. handle_abort dir cid reason mm config fs = (Inr r, fs') \<and> quiet_run dir cid r fs fs'"
proof -
  obtain content where "write_aborted dir cid reason mm (pc_aborted_at_utc_ms config) fs
      = Inr (aborted_path dir cid, fs(aborted_path dir cid \<mapsto> content))"
    using assms by (auto simp: write_aborted_def Let_def mismatch_json_def dict_has_def dict_item_def)
  then have "handle_abort dir cid reason mm config fs
      = (Inr (aborted_result cid reason), fs(aborted_path dir cid \<mapsto> content))"
    by (simp add: handle_abort_def io_bind_def io_writer_def io_return_def)
  then show ?thesis unfolding quiet_run_def by blast
qed

lemma run_pipeline_quiet:
  assumes "plain_candidate spec" and "generate_candidate_id spec = Inr cid" and "bl = None \<or> bl = Some []"
    and "runner_version_regex (pc_runner_version config)" and "pc_tick_size_by_symbol config \<noteq> []"
  shows "\<exists>r fs'. run_pipeline ops dir spec config None bl fs = (Inr r, fs') \<and> quiet_run dir cid r fs fs'"
proof -
  have v: "try_validate spec = Inr (Some cid)" using assms(1,2) by (simp add: try_validate_def plain_candidate_def)
  obtain snap where snap: "build_snapshot spec config = Inr snap" "candidate snap = spec"
    "tick_size_by_symbol (symbol_filters snap) \<noteq> []"
    using assms(4,5) by (auto simp: build_snapshot_def post_init_def)
  obtain b where b: "history_missing fs config = Inr b" using history_missing_total by blast
  have reasons: "''parameter_mismatch'' \<in> set VALID_ABORT_REASONS"
    "''insufficient_walkforward_history'' \<in> set VALID_ABORT_REASONS" by code_simp+
  note run = run_pipeline_def io_bind_def io_res_def io_read_def v snap(1) b
  obtain g where g: "load_gate_snapshot fs config = Inr g" "\<And>ref. g = Some ref \<Longrightarrow> distinct (map fst ref)"
    using load_gate_snapshot_total by blast
  show ?thesis
  proof (cases g)
    case None
    then show ?thesis using g(1) by (simp add: run handle_abort_quiet [OF reasons(1)])
  next
    case (Some ref)
    then show ?thesis
      using g(1) handle_abort_quiet [OF reasons(2)] run_completed_quiet [OF assms(1) snap(2,3) g(2) [OF Some] assms(3)]
      by (simp add: run)
  qed
qed

section \<open>The files of the command\<close>

text \<open>Artifacts of different kinds have different names, whatever the candidates are.\<close>

lemma suffixes_differ:
  assumes "take n (rev s) \<noteq> take n (rev s')" and "n \<le> length s" and "n \<le> length s'"
  shows "c @ s \<noteq> c' @ s'"
proof
  assume "c @ s = c' @ s'"
  then have "take n (rev (c @ s)) = take n (rev (c' @ s'))" by simp
  with assms show False by simp
qed

lemma summary_path_differs [simp]:
  "get_summary_path dir c \<noteq> aborted_path dir c'" "get_summary_path dir c \<noteq> get_ledger_path dir c'"
  "get_summary_path dir c \<noteq> get_attribution_path dir c'" "get_summary_path dir c \<noteq> get_snapshot_path dir c'"
  by (simp_all add: get_summary_path_def aborted_path_def get_ledger_path_def get_attribution_path_def
      get_snapshot_path_def artifact_path_def suffixes_differ [where n = 6])

lemma ledger_path_differs [simp]:
  "get_ledger_path dir c \<noteq> aborted_path dir c'" "get_ledger_path dir c \<noteq> get_summary_path dir c'"
  "get_ledger_path dir c \<noteq> get_attribution_path dir c'" "get_ledger_path dir c \<noteq> get_snapshot_path dir c'"
  by (simp_all add: get_summary_path_def aborted_path_def get_ledger_path_def get_attribution_path_def
      get_snapshot_path_def artifact_path_def suffixes_differ [where n = 6])

lemma ranking_path_differs [simp]:
  "ranking_path dir \<noteq> aborted_path dir c" "ranking_path dir \<noteq> get_ledger_path dir c"
  "ranking_path dir \<noteq> get_summary_path dir c" "ranking_path dir \<noteq> get_attribution_path dir c"
  "ranking_path dir \<noteq> get_snapshot_path dir c"
  by (simp_all add: ranking_path_def get_summary_path_def aborted_path_def get_ledger_path_def get_attribution_path_def
      get_snapshot_path_def artifact_path_def)

text \<open>What the command leaves for a candidate\<close>

definition no_quality_file :: "fs \<Rightarrow> string \<Rightarrow> bool" where
  "no_quality_file fs p \<longleftrightarrow> (\<exists>content d. fs p = Some content \<and> json_loads content = Inr (JDict d) \<and> no_quality d)"

definition settled :: "string \<Rightarrow> fs \<Rightarrow> entry_candidate_spec \<times> pipeline_result \<Rightarrow> bool" where
  "settled dir fs x \<longleftrightarrow>
     (\<exists>cid. generate_candidate_id (fst x) = Inr cid
        \<and> (snd x = completed_result dir cid (None, None) \<and> fs (get_ledger_path dir cid) = Some header_only
             \<and> no_quality_file fs (get_summary_path dir cid)
           \<or> (\<exists>reason. snd x = aborted_result cid reason) \<and> fs (aborted_path dir cid) \<noteq> None))"

lemma quiet_run_keeps:
  assumes "quiet_run dir cid r fs fs'"
  shows "fs (get_ledger_path dir c) = Some header_only \<Longrightarrow> fs' (get_ledger_path dir c) = Some header_only"
    and "no_quality_file fs (get_summary_path dir c) \<Longrightarrow> no_quality_file fs' (get_summary_path dir c)"
    and "fs p \<noteq> None \<Longrightarrow> fs' p \<noteq> None"
    and "fs' (ranking_path dir) = fs (ranking_path dir)"
  using assms by (auto simp: quiet_run_def no_quality_file_def)

lemma settled_keeps: "quiet_run dir cid r fs fs' \<Longrightarrow> settled dir fs x \<Longrightarrow> settled dir fs' x"
  unfolding settled_def using quiet_run_keeps [of dir cid r fs fs'] by metis

lemma settled_run:
  "quiet_run dir cid r fs fs' \<Longrightarrow> generate_candidate_id spec = Inr cid \<Longrightarrow> settled dir fs' (spec, r)"
  by (auto simp: settled_def quiet_run_def no_quality_file_def)

lemma plain_candidate_id: "plain_candidate spec \<Longrightarrow> \<exists>cid. generate_candidate_id spec = Inr cid"
  using known_ids_iff by (auto simp: plain_candidate_def generate_candidate_id_eq)

lemma run_candidates_settle:
  assumes "runner_version_regex (pc_runner_version config)" and "pc_tick_size_by_symbol config \<noteq> []"
    and "bl = None \<or> bl = Some []" and "list_all plain_candidate specs" and "settled dir fs (BASELINE, b)"
  shows "\<exists>results fs'. run_candidates ops dir config b bl specs fs = (Inr results, fs') \<and> map fst results = specs
    \<and> list_all (settled dir fs') results \<and> fs' (ranking_path dir) = fs (ranking_path dir)
    \<and> (\<forall>x. settled dir fs x \<longrightarrow> settled dir fs' x)"
  using assms(4,5)
proof (induction specs arbitrary: fs)
  case (Cons spec specs)
  obtain cid where cid: "generate_candidate_id spec = Inr cid" using Cons.prems plain_candidate_id by auto
  obtain r fs1 where r: "(if spec = BASELINE then io_return b else run_pipeline ops dir spec config None bl) fs = (Inr r, fs1)"
    "settled dir fs1 (spec, r)" "fs1 (ranking_path dir) = fs (ranking_path dir)" "\<forall>x. settled dir fs x \<longrightarrow> settled dir fs1 x"
  proof (cases "spec = BASELINE")
    case True
    then show ?thesis using that [of b fs] Cons.prems(2) by (simp add: io_return_def)
  next
    case False
    obtain r fs1 where "run_pipeline ops dir spec config None bl fs = (Inr r, fs1)" "quiet_run dir cid r fs fs1"
      using run_pipeline_quiet [OF _ cid assms(3,1,2)] Cons.prems(1) by force
    then show ?thesis
      using that [of r fs1] False settled_run [OF _ cid] settled_keeps quiet_run_keeps(4) by auto
  qed
  obtain results fs' where "run_candidates ops dir config b bl specs fs1 = (Inr results, fs')" "map fst results = specs"
    "list_all (settled dir fs') results" "fs' (ranking_path dir) = fs1 (ranking_path dir)"
    "\<forall>x. settled dir fs1 x \<longrightarrow> settled dir fs' x"
    using Cons.IH [of fs1] Cons.prems r(4) by auto
  then show ?case using r cid by (auto simp: io_bind_def io_res_def io_return_def)
qed (simp add: io_return_def)

lemma collect_nothing: "list_all (settled dir fs) results \<Longrightarrow> collect_ranking_candidates results fs = Inr []"
proof (induction results)
  case (Cons x results)
  obtain spec r where x: "x = (spec, r)" by (cases x)
  from Cons have "settled dir fs (spec, r)" by (simp add: x)
  then show ?case
    using Cons unfolding x
    by (auto simp: settled_def completed_result_def aborted_result_def no_quality_file_def no_quality_def ranking_entry_def
        skip_errors_def Let_def)
qed simp

text \<open>The reports: one for every completed candidate, and nothing else changes.\<close>

lemma markdown_path_inject [simp]: "markdown_path dir d c = markdown_path dir d c' \<longleftrightarrow> c = c'"
  by (simp add: markdown_path_def)

lemma write_reports_files:
  assumes "distinct (map (res_candidate_id \<circ> snd) results)"
  shows "\<exists>n fs'. write_reports results dir d fs = (Inr n, fs')
    \<and> (\<forall>(spec, r) \<in> set results. res_status r = ''completed'' \<longrightarrow>
         fs' (markdown_path dir d (res_candidate_id r)) = Some (candidate_markdown r spec d))
    \<and> (\<forall>p. (\<forall>r \<in> snd ` set results. p \<noteq> markdown_path dir d (res_candidate_id r)) \<longrightarrow> fs' p = fs p)"
  using assms
proof (induction results arbitrary: fs)
  case (Cons x results)
  obtain spec r where x: "x = (spec, r)" by (cases x)
  let ?p = "markdown_path dir d (res_candidate_id r)"
  define fs1 where "fs1 = (if res_status r = ''completed'' then fs(?p \<mapsto> candidate_markdown r spec d) else fs)"
  obtain q where q: "write_per_candidate_markdown r spec dir d fs = (Inr q, fs1)"
    by (cases "res_status r = ''completed''")
       (auto simp: write_per_candidate_markdown_def fs1_def io_return_def io_bind_def io_writer_def Let_def)
  obtain n fs' where IH: "write_reports results dir d fs1 = (Inr n, fs')"
    "\<forall>(spec, r) \<in> set results. res_status r = ''completed'' \<longrightarrow>
       fs' (markdown_path dir d (res_candidate_id r)) = Some (candidate_markdown r spec d)"
    "\<forall>p. (\<forall>r \<in> snd ` set results. p \<noteq> markdown_path dir d (res_candidate_id r)) \<longrightarrow> fs' p = fs1 p"
    using Cons.IH [of fs1] Cons.prems by auto
  have "res_candidate_id r \<noteq> res_candidate_id r'" if "r' \<in> snd ` set results" for r'
    using Cons.prems that by (force simp: x)
  then have "fs' ?p = fs1 ?p" using IH(3) by auto
  then show ?case using IH q by (auto simp: x io_bind_def io_return_def fs1_def)
qed (simp add: io_return_def)

lemma digits_first: "list_all is_digit d \<Longrightarrow> length d = 8 \<Longrightarrow> \<exists>c e. d = c # e \<and> is_digit c"
  by (cases d) auto

lemma markdown_path_differs:
  assumes "list_all is_digit d" and "length d = 8"
  shows "artifact_path dir c s \<noteq> markdown_path dir d c'" and "aborted_path dir c \<noteq> markdown_path dir d c'"
    and "ranking_path dir \<noteq> markdown_path dir d c'"
  using digits_first [OF assms]
  by (auto simp: artifact_path_def aborted_path_def ranking_path_def markdown_path_def is_digit_def)

lemma settled_reports:
  assumes "settled dir fs x"
    and "\<And>c s. fs' (artifact_path dir c s) = fs (artifact_path dir c s)" and "\<And>c. fs' (aborted_path dir c) = fs (aborted_path dir c)"
  shows "settled dir fs' x"
  using assms by (simp add: settled_def no_quality_file_def get_ledger_path_def get_summary_path_def)

lemma settled_id: "settled dir fs (spec, r) \<Longrightarrow> generate_candidate_id spec = Inr (res_candidate_id r)"
  by (auto simp: settled_def completed_result_def aborted_result_def)

lemma settled_ids_distinct:
  assumes "list_all (settled dir fs) results" and "distinct (map fst results)" and "list_all plain_candidate (map fst results)"
  shows "distinct (map (res_candidate_id \<circ> snd) results)"
proof -
  have "generate_candidate_id (fst x) = Inr (res_candidate_id (snd x))" if "x \<in> set results" for x
    using that assms(1) settled_id [of dir fs "fst x" "snd x"] by (auto simp: list_all_iff)
  then have "inj_on (res_candidate_id \<circ> snd) (set results)"
    using assms(2,3) candidate_id_unique
    by (intro inj_onI) (metis (mono_tags, lifting) comp_apply distinct_map inj_on_eq_iff list.pred_map list_all_iff plain_candidate_def)
  then show ?thesis using assms(2) by (simp add: distinct_map)
qed

section \<open>The outcome of the command\<close>

lemma run_subset_outcome:
  assumes "runner_version_regex (pc_runner_version config)" and "pc_tick_size_by_symbol config \<noteq> []"
    and "read_csv header_only = Inr []" and "list_all is_digit d" and "length d = 8" and "pc_output_dir config = dir"
  shows "\<exists>results fs'. run_subset ops read_csv as_time d config fs = (Inr 0, fs') \<and> map fst results = DEFAULT_SUBSET
    \<and> list_all (settled dir fs') results \<and> fs' (ranking_path dir) = fs (ranking_path dir)
    \<and> (\<forall>(spec, r) \<in> set results. res_status r = ''completed'' \<longrightarrow>
         fs' (markdown_path dir d (res_candidate_id r)) = Some (candidate_markdown r spec d))"
proof -
  obtain cid where cid: "generate_candidate_id BASELINE = Inr cid" using plain_candidate_id baseline_plain by blast
  obtain b fs1 where b: "run_pipeline ops dir BASELINE config None None fs = (Inr b, fs1)" "quiet_run dir cid b fs fs1"
    using run_pipeline_quiet [OF baseline_plain cid _ assms(1,2)] by blast
  let ?bl = "load_baseline_trades read_csv as_time b fs1"
  have bl: "?bl = None \<or> ?bl = Some []"
    using b(2) assms(3) by (auto simp: quiet_run_def load_baseline_trades_def aborted_result_def completed_result_def)
  obtain results fs2 where run: "run_candidates ops dir config b ?bl DEFAULT_SUBSET fs1 = (Inr results, fs2)"
    "map fst results = DEFAULT_SUBSET" "list_all (settled dir fs2) results" "fs2 (ranking_path dir) = fs1 (ranking_path dir)"
    using run_candidates_settle [OF assms(1,2) bl default_subset_plain settled_run [OF b(2) cid]] by blast
  have "distinct DEFAULT_SUBSET" by code_simp
  then have "distinct (map (res_candidate_id \<circ> snd) results)"
    using settled_ids_distinct [OF run(3)] run(2) default_subset_plain by simp
  from write_reports_files [OF this, of dir d fs2] obtain n fs' where rep: "write_reports results dir d fs2 = (Inr n, fs')"
    "\<forall>(spec, r) \<in> set results. res_status r = ''completed'' \<longrightarrow>
       fs' (markdown_path dir d (res_candidate_id r)) = Some (candidate_markdown r spec d)"
    "\<forall>p. (\<forall>r \<in> snd ` set results. p \<noteq> markdown_path dir d (res_candidate_id r)) \<longrightarrow> fs' p = fs2 p" by blast
  note other = markdown_path_differs [OF assms(4,5)]
  have "list_all (settled dir fs') results"
    using run(3) rep(3) other settled_reports [of dir fs2 _ fs'] by (simp add: list_all_iff)
  moreover have "fs' (ranking_path dir) = fs (ranking_path dir)"
    using rep(3) other(3) run(4) quiet_run_keeps(4) [OF b(2)] by simp
  moreover have "run_subset ops read_csv as_time d config fs = (Inr 0, fs')"
    using rep(1) b(1) run(1) collect_nothing [OF run(3)]
    by (simp add: run_subset_def Let_def assms(6) io_bind_def io_read_def io_return_def)
  ultimately show ?thesis using run(2) rep(2) by blast
qed

text \<open>
  C9. Suppose that both input files exist, that the report date is one that \<open>get_report_date_prefix\<close> accepts (the
  given one, or today as eight digits) and that the runner version has the form the snapshot demands; a malformed date
  or version raises instead. Suppose also that \<open>read_csv\<close> makes an empty frame of a file with nothing but a header. Then
  the command comes to an end with exit code 0, whatever the two files and all others contain: no candidate
  raises an exception. Every candidate of the default subset is either aborted, with its abort record,
  or completed with a ledger that holds only the header, a summary without a trade quality and its
  report. The ranking is never written, because no candidate has a quality to rank.
\<close>

theorem driver_outcome:
  assumes "fs (da_events_source_path args) \<noteq> None" and "fs (da_atr14_source_path args) \<noteq> None"
    and "get_report_date_prefix utc_today (da_report_date args) = Inr d" and "list_all is_digit utc_today" and "length utc_today = 8"
    and "runner_version_regex (da_runner_version args)" and "read_csv header_only = Inr []"
  defines "dir \<equiv> pathlib_path (da_output_dir args)"
  shows "\<exists>results fs'. run_default_subset ops read_csv as_time utc_today args fs = (Inr 0, fs')
    \<and> map fst results = DEFAULT_SUBSET \<and> fs' (ranking_path dir) = fs (ranking_path dir)
    \<and> (\<forall>(spec, r) \<in> set results.
         res_status r = ''aborted'' \<and> fs' (aborted_path dir (res_candidate_id r)) \<noteq> None
       \<or> res_status r = ''completed'' \<and> fs' (get_ledger_path dir (res_candidate_id r)) = Some header_only
         \<and> no_quality_file fs' (get_summary_path dir (res_candidate_id r))
         \<and> fs' (markdown_path dir d (res_candidate_id r)) = Some (candidate_markdown r spec d))"
proof -
  obtain h1 h2 where h: "compute_file_sha256 fs (da_events_source_path args) = Inr h1"
    "compute_file_sha256 fs (da_atr14_source_path args) = Inr h2"
    using assms(1,2) by (auto simp: compute_file_sha256_eq)
  let ?c = "driver_config args h1 h2"
  have d: "list_all is_digit d" "length d = 8"
    using assms(3-5) by (auto simp: get_report_date_prefix_def split: option.splits if_splits)
  have "runner_version_regex (pc_runner_version ?c)" "pc_tick_size_by_symbol ?c \<noteq> []" "pc_output_dir ?c = dir"
    using assms(6) by (simp_all add: driver_config_def DEFAULT_TICK_SIZE_BY_SYMBOL_def dir_def)
  then obtain results fs' where run: "run_subset ops read_csv as_time d ?c fs = (Inr 0, fs')"
    "map fst results = DEFAULT_SUBSET" "list_all (settled dir fs') results" "fs' (ranking_path dir) = fs (ranking_path dir)"
    "\<forall>(spec, r) \<in> set results. res_status r = ''completed'' \<longrightarrow>
         fs' (markdown_path dir d (res_candidate_id r)) = Some (candidate_markdown r spec d)"
    using run_subset_outcome [of ?c read_csv d dir ops as_time fs] assms(7) d by blast
  have "run_default_subset ops read_csv as_time utc_today args fs = (Inr 0, fs')"
    using run(1) by (simp add: run_default_subset_def io_bind_def io_res_def assms(3) hash_or_exit_def h)
  then show ?thesis
    using run(2-5)
    by (intro exI [of _ results] exI [of _ fs'])
       (force simp: list_all_iff settled_def completed_result_def aborted_result_def)
qed

text \<open>
  C37. The exit code says only whether an input file was missing: if the command returns, its code is 1 and no
  file has changed when the events or the ATR file does not exist, and 0 in every other case, also
  when candidates were aborted or invariants violated.
\<close>

theorem driver_exit_code:
  assumes "run_default_subset ops read_csv as_time utc_today args fs = (Inr code, fs')"
  shows "if fs (da_events_source_path args) = None \<or> fs (da_atr14_source_path args) = None
    then code = 1 \<and> fs' = fs else code = 0"
  using assms
  by (auto simp: run_default_subset_def hash_or_exit_def compute_file_sha256_eq run_subset_def Let_def io_simps
      split: option.splits)

definition sample_args :: driver_args where
  "sample_args =
     \<lparr>da_seed = 42, da_events_source_path = ''events.csv'', da_git_commit_sha = ''abc'', da_output_dir = ''research/'',
      da_project_root = ''.'', da_atr14_source_path = ''atr.csv'', da_runner_version = DEFAULT_RUNNER_VERSION,
      da_report_date = None, da_gate_snapshot_sha256 = None\<rparr>"

theorem driver_outcome_witness:
  "\<exists>fs'. run_default_subset ref_numpy (\<lambda>s. Inr []) (\<lambda>v. 0) ''20260515'' sample_args
       [''events.csv'' \<mapsto> [], ''atr.csv'' \<mapsto> []] = (Inr 0, fs')
     \<and> fs' (ranking_path ''research'') = None"
proof -
  let ?fs = "[''events.csv'' \<mapsto> [], ''atr.csv'' \<mapsto> []] :: fs"
  have dir: "pathlib_path (da_output_dir sample_args) = ''research''" by code_simp
  have "runner_version_regex (da_runner_version sample_args)" by code_simp
  moreover have "?fs (da_events_source_path sample_args) \<noteq> None" "?fs (da_atr14_source_path sample_args) \<noteq> None"
    "get_report_date_prefix ''20260515'' (da_report_date sample_args) = Inr ''20260515''"
    by (simp_all add: sample_args_def get_report_date_prefix_def)
  moreover have "list_all is_digit ''20260515''" "length ''20260515'' = 8" by code_simp+
  moreover have "?fs (ranking_path ''research'') = None" by (simp add: ranking_path_def path_join_def)
  ultimately show ?thesis
    using driver_outcome [of ?fs sample_args "''20260515''" "''20260515''" "\<lambda>s. Inr []" ref_numpy "\<lambda>v. 0"]
    unfolding dir by auto
qed

theorem driver_exit_code_witness:
  "run_default_subset ref_numpy (\<lambda>s. Inr []) (\<lambda>v. 0) ''20260515'' sample_args Map.empty = (Inr 1, Map.empty)"
proof -
  let ?run = "run_default_subset ref_numpy (\<lambda>s. Inr []) (\<lambda>v. 0) ''20260515'' sample_args Map.empty"
  obtain code fs' where "?run = (Inr code, fs')"
    by (simp add: run_default_subset_def io_bind_def io_res_def get_report_date_prefix_def sample_args_def hash_or_exit_def
        compute_file_sha256_eq)
  then show ?thesis using driver_exit_code [of ref_numpy "\<lambda>s. Inr []" "\<lambda>v. 0" "''20260515''" sample_args Map.empty] by simp
qed

end
