(* ===== verification/Backtest.thy ===== *)
theory Backtest
  imports Invariants
begin

text \<open>
  \<open>research/backTest.py\<close>: the helpers of the breakout strategy and its first engine,
  \<open>run_backtest_1min_granularity\<close>, which replays minute bars against the bars of a signal frame. A frame
  is the list of its rows, in the order of its time index; a missing number is nan. Arithmetic on the
  cells is that of numpy, so a division by zero is the parameter \<open>np_div\<close>. The random slippage and the
  messages on the console are not modelled: the slippage is an argument.
\<close>

section \<open>Frames\<close>

record signal_bar =
  sg_time :: datetime
  sg_open :: pyfloat
  sg_high :: pyfloat
  sg_low :: pyfloat
  sg_close :: pyfloat
  sg_atr :: pyfloat
  sg_ma5 :: "pyfloat option"
  sg_ma20 :: pyfloat
  prev_high_1 :: pyfloat
  prev_high_2 :: pyfloat
  prev_low_1 :: pyfloat
  prev_low_2 :: pyfloat
  prev_body_high_1 :: pyfloat
  prev_body_high_2 :: pyfloat
  prev_body_low_1 :: pyfloat
  prev_body_low_2 :: pyfloat

record minute_bar =
  mb_time :: datetime
  mb_open :: pyfloat
  mb_high :: pyfloat
  mb_low :: pyfloat
  mb_close :: pyfloat

text \<open>\<open>max(axis=1)\<close> and \<open>min(axis=1)\<close> of a frame with two columns, which skip nan, and \<open>shift(k)\<close>\<close>

definition row_max :: "pyfloat \<Rightarrow> pyfloat \<Rightarrow> pyfloat" where
  "row_max x y = (if x = NaN then y else if y = NaN then x else py_max x y)"

definition row_min :: "pyfloat \<Rightarrow> pyfloat \<Rightarrow> pyfloat" where
  "row_min x y = (if x = NaN then y else if y = NaN then x else py_min x [y])"

definition shift :: "nat \<Rightarrow> pyfloat list \<Rightarrow> pyfloat list" where
  "shift k xs = take (length xs) (replicate k NaN @ xs)"

definition set_column :: "(pyfloat \<Rightarrow> signal_bar \<Rightarrow> signal_bar) \<Rightarrow> pyfloat list \<Rightarrow> signal_bar list \<Rightarrow> signal_bar list" where
  "set_column upd xs df = map2 upd xs df"

definition attach_body_extrema_levels :: "signal_bar list \<Rightarrow> signal_bar list" where
  "attach_body_extrema_levels df_signal =
     (let body_high = map (\<lambda>s. row_max (sg_open s) (sg_close s)) df_signal;
          body_low = map (\<lambda>s. row_min (sg_open s) (sg_close s)) df_signal;
          df1 = set_column (\<lambda>x. prev_body_high_1_update (\<lambda>_. x)) (shift 1 body_high) df_signal;
          df2 = set_column (\<lambda>x. prev_body_high_2_update (\<lambda>_. x)) (shift 2 body_high) df1;
          df3 = set_column (\<lambda>x. prev_body_low_1_update (\<lambda>_. x)) (shift 1 body_low) df2
      in set_column (\<lambda>x. prev_body_low_2_update (\<lambda>_. x)) (shift 2 body_low) df3)"

definition set_levels ::
  "pyfloat list \<Rightarrow> pyfloat list \<Rightarrow> pyfloat list \<Rightarrow> pyfloat list \<Rightarrow> signal_bar list \<Rightarrow> signal_bar list" where
  "set_levels h1 h2 l1 l2 df =
     set_column (\<lambda>x. prev_low_2_update (\<lambda>_. x)) l2
       (set_column (\<lambda>x. prev_low_1_update (\<lambda>_. x)) l1
         (set_column (\<lambda>x. prev_high_2_update (\<lambda>_. x)) h2
           (set_column (\<lambda>x. prev_high_1_update (\<lambda>_. x)) h1 df)))"

definition apply_wick_breakout_levels :: "signal_bar list \<Rightarrow> signal_bar list" where
  "apply_wick_breakout_levels df_signal =
     (let prepared = attach_body_extrema_levels df_signal
      in set_levels (shift 1 (map sg_high prepared)) (shift 2 (map sg_high prepared))
           (shift 1 (map sg_low prepared)) (shift 2 (map sg_low prepared)) prepared)"

definition apply_body_breakout_levels :: "signal_bar list \<Rightarrow> signal_bar list" where
  "apply_body_breakout_levels df_signal =
     (let prepared = attach_body_extrema_levels df_signal
      in set_levels (map prev_body_high_1 prepared) (map prev_body_high_2 prepared)
           (map prev_body_low_1 prepared) (map prev_body_low_2 prepared) prepared)"

definition normalized :: "string \<Rightarrow> string" where
  "normalized s = str_strip (str_lower s)"

definition apply_breakout_levels :: "signal_bar list \<Rightarrow> string \<Rightarrow> signal_bar list res" where
  "apply_breakout_levels df_signal breakout_levels =
     (if normalized breakout_levels = ''wick'' then Inr (apply_wick_breakout_levels df_signal)
      else if normalized breakout_levels = ''body'' then Inr (apply_body_breakout_levels df_signal)
      else Inl ValueError)"

definition apply_reentry_anchor_levels :: "signal_bar list \<Rightarrow> string \<Rightarrow> signal_bar list res" where
  "apply_reentry_anchor_levels df_signal reentry_anchor_levels =
     (if normalized reentry_anchor_levels = ''wick'' then Inr df_signal
      else if normalized reentry_anchor_levels = ''body'' then Inr (attach_body_extrema_levels df_signal)
      else Inl ValueError)"

section \<open>Prices of the strategy\<close>

definition resolve_reentry_price :: "signal_bar \<Rightarrow> string \<Rightarrow> string \<Rightarrow> pyfloat \<Rightarrow> pyfloat res" where
  "resolve_reentry_price sig side reentry_anchor_levels reentry_atr =
     res_bind
       (if normalized reentry_anchor_levels = ''body''
        then Inr (if side = ''long'' then prev_body_low_1 sig else prev_body_high_1 sig)
        else if normalized reentry_anchor_levels = ''wick''
        then Inr (if side = ''long'' then prev_low_1 sig else prev_high_1 sig)
        else Inl ValueError) (\<lambda>anchor.
     if side = ''long'' then Inr (fadd anchor (fmul reentry_atr (sg_atr sig)))
     else Inr (fsub anchor (fmul reentry_atr (sg_atr sig))))"

definition normalize_reentry_trigger_mode :: "string \<Rightarrow> string res" where
  "normalize_reentry_trigger_mode mode =
     (if normalized mode = ''reclaim'' \<or> normalized mode = ''pullback'' then Inr (normalized mode) else Inl ValueError)"

definition normalize_zero_initial_mode :: "string \<Rightarrow> string res" where
  "normalize_zero_initial_mode mode =
     (if normalized mode = ''position'' \<or> normalized mode = ''reentry_window'' then Inr (normalized mode) else Inl ValueError)"

text \<open>\<open>prev_close_value is not None and not pd.isna(prev_close_value)\<close>\<close>

definition known :: "pyfloat option \<Rightarrow> bool" where
  "known x \<longleftrightarrow> x \<noteq> None \<and> x \<noteq> Some NaN"

definition reentry_triggered ::
  "string \<Rightarrow> string \<Rightarrow> pyfloat \<Rightarrow> pyfloat \<Rightarrow> pyfloat \<Rightarrow> pyfloat option \<Rightarrow> pyfloat \<Rightarrow> bool \<Rightarrow> (bool \<times> pyfloat) res" where
  "reentry_triggered side trigger_mode high_value low_value close_value prev_close_value re_p with_confirm =
     res_bind (normalize_reentry_trigger_mode trigger_mode) (\<lambda>mode.
       if mode = ''pullback''
       then if side = ''long'' then Inr (fle low_value re_p, re_p) else Inr (fle re_p high_value, re_p)
       else if side = ''long''
       then if with_confirm
            then Inr (known prev_close_value \<and> flt re_p close_value \<and> flt re_p (the prev_close_value), close_value)
            else Inr (fle re_p high_value, re_p)
       else if with_confirm
       then Inr (known prev_close_value \<and> flt close_value re_p \<and> flt (the prev_close_value) re_p, close_value)
       else Inr (fle low_value re_p, re_p))"

definition resolve_regime_ready :: "signal_bar \<Rightarrow> bool \<times> bool" where
  "resolve_regime_ready sig =
     (case sg_ma5 sig of
        Some ma5 \<Rightarrow>
          let atr = sg_atr sig; early_band = fmul (fl (6 / 100)) atr
          in if ma5 = NaN \<or> fle ma5 (Fin 0) \<or> atr = NaN \<or> fle atr (Fin 0) then (False, False)
             else (flt ma5 (sg_close sig)
                   \<or> fle (fsub ma5 early_band) (sg_close sig) \<and> flt (prev_high_1 sig) (prev_high_2 sig)
                     \<and> fle (prev_low_2 sig) (prev_low_1 sig),
                   flt (sg_close sig) ma5
                   \<or> fle (sg_close sig) (fadd ma5 early_band) \<and> flt (prev_low_2 sig) (prev_low_1 sig)
                     \<and> fle (prev_high_1 sig) (prev_high_2 sig))
      | None \<Rightarrow> (flt (sg_ma20 sig) (sg_close sig), flt (sg_close sig) (sg_ma20 sig)))"

text \<open>The three forms of the argument \<open>reentry_size_schedule\<close>\<close>

datatype sizes_arg = NoSizes | OneSize pyfloat | Sizes "pyfloat list"

fun normalize_reentry_sizes :: "sizes_arg \<Rightarrow> pyfloat list res" where
  "normalize_reentry_sizes NoSizes = Inr [fl (10 / 100), fl (20 / 100)]"
| "normalize_reentry_sizes (OneSize x) = Inr [x]"
| "normalize_reentry_sizes (Sizes xs) = (if xs = [] then Inl ValueError else Inr xs)"

definition get_reentry_size :: "int \<Rightarrow> pyfloat list \<Rightarrow> pyfloat res" where
  "get_reentry_size trades_in_bar schedule =
     (if trades_in_bar \<le> 0 then Inr (Fin 0)
      else res_bind (normalize_reentry_sizes (Sizes schedule)) (\<lambda>sizes.
           Inr (sizes ! nat (min (max 0 (trades_in_bar - 1)) (int (length sizes) - 1)))))"

definition get_reentry_window_real_order_size :: "int \<Rightarrow> pyfloat list \<Rightarrow> pyfloat res" where
  "get_reentry_window_real_order_size trades_in_bar schedule =
     res_bind (normalize_reentry_sizes (Sizes schedule)) (\<lambda>sizes.
       Inr (sizes ! nat (min (max 0 trades_in_bar) (int (length sizes) - 1))))"

definition resolve_stop_price :: "string \<Rightarrow> pyfloat \<Rightarrow> signal_bar \<Rightarrow> string \<Rightarrow> pyfloat \<Rightarrow> pyfloat res" where
  "resolve_stop_price side entry_p sig stop_mode stop_loss_atr =
     (let structural_stop = (if side = ''long'' then prev_low_1 sig else prev_high_1 sig);
          atr_stop = (if side = ''long'' then fsub entry_p (fmul stop_loss_atr (sg_atr sig))
                      else fadd entry_p (fmul stop_loss_atr (sg_atr sig)))
      in if stop_mode = ''structural'' then Inr structural_stop
         else if stop_mode = ''atr'' then Inr atr_stop
         else if stop_mode = ''hybrid_tighter''
         then Inr (if side = ''long'' then py_max structural_stop atr_stop else py_min structural_stop [atr_stop])
         else if stop_mode = ''hybrid_wider''
         then Inr (if side = ''long'' then py_min structural_stop [atr_stop] else py_max structural_stop atr_stop)
         else Inl ValueError)"

section \<open>Positions, log and accounting\<close>

record position =
  po_side :: string
  po_entry_p :: pyfloat
  po_sl :: pyfloat
  po_protected :: bool
  po_notional :: pyfloat

record log_row =
  lr_time :: datetime
  lr_type :: string
  lr_price :: pyfloat
  lr_reason :: string
  lr_notional :: pyfloat
  lr_bal :: pyfloat

definition COMMISSION :: pyfloat where
  "COMMISSION = fl (1 / 1000)"

definition REENTRY_TIMEOUT :: int where
  "REENTRY_TIMEOUT = 1"

text \<open>The price after slippage: against the trader on entry and on exit\<close>

definition entry_price :: "pyfloat \<Rightarrow> string \<Rightarrow> pyfloat \<Rightarrow> pyfloat" where
  "entry_price slippage side p = fmul p (if side = ''long'' then fadd (Fin 1) slippage else fsub (Fin 1) slippage)"

definition exit_price :: "pyfloat \<Rightarrow> string \<Rightarrow> pyfloat \<Rightarrow> pyfloat" where
  "exit_price slippage side p = fmul p (if side = ''long'' then fsub (Fin 1) slippage else fadd (Fin 1) slippage)"

text \<open>The balance after closing a position at a price\<close>

definition settle :: "numpy_ops \<Rightarrow> string \<Rightarrow> pyfloat \<Rightarrow> pyfloat \<Rightarrow> pyfloat \<Rightarrow> pyfloat \<Rightarrow> pyfloat" where
  "settle ops side entry_p notional exit_p balance =
     (if flt (Fin 0) notional
      then let side_mult = (if side = ''long'' then Fin 1 else Fin (- 1));
               pnl = fmul (np_div ops (fmul side_mult (fsub exit_p entry_p)) entry_p) notional
           in fadd balance (fsub pnl (fmul notional COMMISSION))
      else balance)"

text \<open>The breakout of the signal bar before last: armed, hit by a bar, and the price it is entered at\<close>

definition breakout_armed :: "string \<Rightarrow> signal_bar \<Rightarrow> bool" where
  "breakout_armed side sig =
     (if side = ''long'' then flt (prev_high_1 sig) (prev_high_2 sig) else flt (prev_low_2 sig) (prev_low_1 sig))"

definition breakout_hit :: "string \<Rightarrow> signal_bar \<Rightarrow> minute_bar \<Rightarrow> bool" where
  "breakout_hit side sig bar =
     (if side = ''long'' then fle (prev_high_2 sig) (mb_high bar) else fle (mb_low bar) (prev_low_2 sig))"

definition breakout_price :: "string \<Rightarrow> signal_bar \<Rightarrow> minute_bar \<Rightarrow> pyfloat" where
  "breakout_price side sig bar =
     (if side = ''long'' then py_max (mb_open bar) (prev_high_2 sig) else py_min (mb_open bar) [prev_low_2 sig])"

definition entry_type :: "string \<Rightarrow> string" where
  "entry_type side = (if side = ''long'' then ''BUY'' else ''SHORT'')"

section \<open>The minute engine\<close>

text \<open>The arguments of the engine; \<open>bp_schedule\<close> and \<open>bp_stop_mode\<close> are the normalised ones.\<close>

record bt_params =
  bp_confirm :: bool
  bp_zero_initial :: bool
  bp_slippage :: pyfloat
  bp_stop_loss_atr :: pyfloat
  bp_max_trades :: int
  bp_schedule :: "pyfloat list"
  bp_long_reentry_atr :: pyfloat
  bp_short_reentry_atr :: pyfloat
  bp_stop_mode :: string
  bp_profit_protect :: pyfloat
  bp_anchor_levels :: string
  bp_trigger_mode :: string

definition cash_usage_initial :: "bool \<Rightarrow> pyfloat" where
  "cash_usage_initial zero_initial = (if zero_initial then Fin 0 else fl (10 / 100))"

definition effective_stop_mode :: "bool \<Rightarrow> string option \<Rightarrow> string" where
  "effective_stop_mode structural_sl stop_mode =
     (case stop_mode of
        None \<Rightarrow> if structural_sl then ''structural'' else ''atr''
      | Some m \<Rightarrow> if m = [] then ''atr'' else m)"

definition reentry_atr_of :: "bt_params \<Rightarrow> string \<Rightarrow> pyfloat" where
  "reentry_atr_of p side = (if side = ''long'' then bp_long_reentry_atr p else bp_short_reentry_atr p)"

record bt_state =
  bs_balance :: pyfloat
  bs_position :: "position option"
  bs_log :: "log_row list"
  bs_last_exit_bar :: int
  bs_last_exit_reason :: "string option"
  bs_last_exit_side :: "string option"
  bs_trades_in_bar :: int

definition open_position ::
  "bt_params \<Rightarrow> signal_bar \<Rightarrow> string \<Rightarrow> pyfloat \<Rightarrow> pyfloat \<Rightarrow> string \<Rightarrow> bool \<Rightarrow> datetime \<Rightarrow> bt_state \<Rightarrow> bt_state res" where
  "open_position p sig side price usage reason protected' time st =
     (let notional_value = fmul (bs_balance st) usage
      in res_bind (resolve_stop_price side price sig (bp_stop_mode p) (bp_stop_loss_atr p)) (\<lambda>sl.
           let balance = fsub (bs_balance st) (fmul notional_value COMMISSION)
           in Inr (st\<lparr>bs_position := Some \<lparr>po_side = side, po_entry_p = price, po_sl = sl,
                                          po_protected = protected', po_notional = notional_value\<rparr>,
                      bs_balance := balance,
                      bs_log := bs_log st @ [\<lparr>lr_time = time, lr_type = entry_type side, lr_price = price,
                                              lr_reason = reason, lr_notional = notional_value, lr_bal = balance\<rparr>]\<rparr>)))"

text \<open>Section A of the loop, for the side whose regime is ready: the initial entry or a re-entry\<close>

definition try_enter ::
  "bt_params \<Rightarrow> int \<Rightarrow> signal_bar \<Rightarrow> string \<Rightarrow> minute_bar option \<Rightarrow> minute_bar \<Rightarrow> bt_state \<Rightarrow> bt_state res" where
  "try_enter p i sig side prev_bar bar st =
     res_bind (resolve_reentry_price sig side (bp_anchor_levels p) (reentry_atr_of p side)) (\<lambda>re_p.
     if bs_trades_in_bar st = 0 \<and> breakout_armed side sig
     then if breakout_hit side sig bar
          then res_bind (open_position p sig side (entry_price (bp_slippage p) side (breakout_price side sig bar))
                           (cash_usage_initial (bp_zero_initial p)) ''Initial'' False (mb_time bar) st) (\<lambda>st'.
               Inr (st'\<lparr>bs_trades_in_bar := bs_trades_in_bar st' + 1\<rparr>))
          else Inr st
     else if bs_last_exit_side st = Some side \<and> i - bs_last_exit_bar st \<le> REENTRY_TIMEOUT
     then res_bind (reentry_triggered side (bp_trigger_mode p) (mb_high bar) (mb_low bar) (mb_close bar)
                      (map_option mb_close prev_bar) re_p (bp_confirm p)) (\<lambda>(is_triggered, entry_p_raw).
          if is_triggered
          then let reason = (if bs_last_exit_reason st = Some ''SL'' then ''SL-Reentry'' else ''PT-Reentry'')
               in res_bind
                    (if reason = ''SL-Reentry'' \<and> bs_trades_in_bar st < bp_max_trades p \<or> reason = ''PT-Reentry''
                     then res_bind (get_reentry_size (bs_trades_in_bar st) (bp_schedule p)) (\<lambda>usage.
                          res_bind (open_position p sig side (entry_price (bp_slippage p) side entry_p_raw) usage reason
                                      (startswith reason ''PT'') (mb_time bar) st) (\<lambda>st'.
                          Inr (if reason = ''SL-Reentry'' then st'\<lparr>bs_trades_in_bar := bs_trades_in_bar st' + 1\<rparr> else st')))
                     else Inr st) (\<lambda>st'.
                  Inr (st'\<lparr>bs_last_exit_side := None\<rparr>))
          else Inr st)
     else Inr st)"

text \<open>Section B: profit protection, then stop or target\<close>

definition exit_signal :: "bt_params \<Rightarrow> signal_bar \<Rightarrow> minute_bar \<Rightarrow> position \<Rightarrow> position \<times> (pyfloat \<times> string) option" where
  "exit_signal p sig bar pos =
     (let protect = fmul (bp_profit_protect p) (sg_atr sig)
      in if po_side pos = ''long''
         then let pos' = (if \<not> po_protected pos \<and> fle (fadd (po_entry_p pos) protect) (mb_high bar)
                          then pos\<lparr>po_protected := True\<rparr> else pos)
              in (pos', if fle (mb_low bar) (po_sl pos') then Some (po_sl pos', ''SL'')
                        else if po_protected pos' \<and> fle (mb_low bar) (prev_low_1 sig) then Some (prev_low_1 sig, ''PT'')
                        else None)
         else let pos' = (if \<not> po_protected pos \<and> fle (mb_low bar) (fsub (po_entry_p pos) protect)
                          then pos\<lparr>po_protected := True\<rparr> else pos)
              in (pos', if fle (po_sl pos') (mb_high bar) then Some (po_sl pos', ''SL'')
                        else if po_protected pos' \<and> fle (prev_high_1 sig) (mb_high bar) then Some (prev_high_1 sig, ''PT'')
                        else None))"

definition close_position ::
  "numpy_ops \<Rightarrow> bt_params \<Rightarrow> position \<Rightarrow> pyfloat \<Rightarrow> string \<Rightarrow> datetime \<Rightarrow> bt_state \<Rightarrow> bt_state" where
  "close_position ops p pos raw_p reason time st =
     (let exit_p = exit_price (bp_slippage p) (po_side pos) raw_p;
          balance = settle ops (po_side pos) (po_entry_p pos) (po_notional pos) exit_p (bs_balance st)
      in st\<lparr>bs_balance := balance,
            bs_log := bs_log st @ [\<lparr>lr_time = time, lr_type = ''EXIT'', lr_price = exit_p, lr_reason = reason,
                                    lr_notional = po_notional pos, lr_bal = balance\<rparr>]\<rparr>)"

definition hold_or_exit :: "numpy_ops \<Rightarrow> bt_params \<Rightarrow> int \<Rightarrow> signal_bar \<Rightarrow> minute_bar \<Rightarrow> position \<Rightarrow> bt_state \<Rightarrow> bt_state" where
  "hold_or_exit ops p i sig bar pos st =
     (case exit_signal p sig bar pos of
        (pos', None) \<Rightarrow> st\<lparr>bs_position := Some pos'\<rparr>
      | (pos', Some (raw_p, reason)) \<Rightarrow>
          (close_position ops p pos' raw_p reason (mb_time bar) st)
            \<lparr>bs_last_exit_reason := Some reason, bs_last_exit_side := Some (po_side pos'),
             bs_last_exit_bar := i, bs_position := None\<rparr>)"

text \<open>The body of the loop over minutes, and the loop\<close>

definition minute_step ::
  "numpy_ops \<Rightarrow> bt_params \<Rightarrow> int \<Rightarrow> signal_bar \<Rightarrow> minute_bar option \<Rightarrow> minute_bar \<Rightarrow> bt_state \<Rightarrow> bt_state res" where
  "minute_step ops p i sig prev_bar bar st =
     (case bs_position st of
        None \<Rightarrow>
          if fst (resolve_regime_ready sig) then try_enter p i sig ''long'' prev_bar bar st
          else if snd (resolve_regime_ready sig) then try_enter p i sig ''short'' prev_bar bar st
          else Inr st
      | Some pos \<Rightarrow> Inr (hold_or_exit ops p i sig bar pos st))"

fun run_window ::
  "numpy_ops \<Rightarrow> bt_params \<Rightarrow> int \<Rightarrow> signal_bar \<Rightarrow> minute_bar option \<Rightarrow> minute_bar list \<Rightarrow> bt_state \<Rightarrow> bt_state res" where
  "run_window ops p i sig prev_bar [] st = Inr st"
| "run_window ops p i sig prev_bar (bar # bars) st =
     res_bind (minute_step ops p i sig prev_bar bar st) (run_window ops p i sig (Some bar) bars)"

text \<open>\<open>df_1min.loc[start_t:end_t]\<close> on an increasing index: both ends belong to the window.\<close>

definition window_of :: "datetime \<Rightarrow> datetime \<Rightarrow> minute_bar list \<Rightarrow> minute_bar list" where
  "window_of start_t end_t df_1min = filter (\<lambda>b. start_t \<le> mb_time b \<and> mb_time b \<le> end_t) df_1min"

definition enter_signal_bar :: "int \<Rightarrow> bt_state \<Rightarrow> bt_state" where
  "enter_signal_bar i st =
     (let st1 = st\<lparr>bs_trades_in_bar := 0\<rparr>
      in if REENTRY_TIMEOUT < i - bs_last_exit_bar st1 then st1\<lparr>bs_last_exit_side := None\<rparr> else st1)"

fun run_signals ::
  "numpy_ops \<Rightarrow> bt_params \<Rightarrow> minute_bar list \<Rightarrow> int \<Rightarrow> signal_bar list \<Rightarrow> bt_state \<Rightarrow> bt_state res" where
  "run_signals ops p df_1min i (sig # nxt # df_4h) st =
     res_bind
       (let window = window_of (sg_time sig) (sg_time nxt) df_1min
        in if window = [] \<or> sg_atr sig = NaN then Inr st
           else run_window ops p i sig None window (enter_signal_bar i st))
       (run_signals ops p df_1min (i + 1) (nxt # df_4h))"
| "run_signals ops p df_1min i df_4h st = Inr st"

text \<open>The block after the loop. It leaves the position as it is, and the source has it twice.\<close>

definition mark_to_market :: "numpy_ops \<Rightarrow> bt_params \<Rightarrow> minute_bar list \<Rightarrow> bt_state \<Rightarrow> bt_state" where
  "mark_to_market ops p df_1min st =
     (case bs_position st of
        None \<Rightarrow> st
      | Some pos \<Rightarrow>
          if df_1min = [] then st
          else close_position ops p pos (mb_close (last df_1min)) ''FinalMarkToMarket'' (mb_time (last df_1min)) st)"

definition initial_state :: "pyfloat \<Rightarrow> bt_state" where
  "initial_state initial_balance =
     \<lparr>bs_balance = initial_balance, bs_position = None, bs_log = [], bs_last_exit_bar = - 999,
      bs_last_exit_reason = None, bs_last_exit_side = None, bs_trades_in_bar = 0\<rparr>"

record bt_args =
  ba_confirm :: bool
  ba_zero_initial :: bool
  ba_structural_sl :: bool
  ba_slippage :: pyfloat
  ba_stop_loss_atr :: pyfloat
  ba_max_trades_per_bar :: int
  ba_reentry_size_schedule :: sizes_arg
  ba_long_reentry_atr :: pyfloat
  ba_short_reentry_atr :: pyfloat
  ba_stop_mode :: "string option"
  ba_profit_protect_atr :: pyfloat
  ba_reentry_anchor_levels :: string
  ba_reentry_trigger_mode :: string

definition bt_params_of :: "bt_args \<Rightarrow> bt_params res" where
  "bt_params_of a =
     res_bind (normalize_reentry_sizes (ba_reentry_size_schedule a)) (\<lambda>schedule.
       Inr \<lparr>bp_confirm = ba_confirm a, bp_zero_initial = ba_zero_initial a, bp_slippage = ba_slippage a,
            bp_stop_loss_atr = ba_stop_loss_atr a, bp_max_trades = ba_max_trades_per_bar a, bp_schedule = schedule,
            bp_long_reentry_atr = ba_long_reentry_atr a, bp_short_reentry_atr = ba_short_reentry_atr a,
            bp_stop_mode = effective_stop_mode (ba_structural_sl a) (ba_stop_mode a),
            bp_profit_protect = ba_profit_protect_atr a, bp_anchor_levels = ba_reentry_anchor_levels a,
            bp_trigger_mode = ba_reentry_trigger_mode a\<rparr>)"

definition run_backtest_1min_granularity ::
  "numpy_ops \<Rightarrow> minute_bar list \<Rightarrow> signal_bar list \<Rightarrow> pyfloat \<Rightarrow> bt_args \<Rightarrow> log_row list res" where
  "run_backtest_1min_granularity ops df_1min df_4h initial_balance args =
     res_bind (apply_reentry_anchor_levels df_4h (ba_reentry_anchor_levels args)) (\<lambda>signals.
     res_bind (bt_params_of args) (\<lambda>p.
     res_bind (run_signals ops p df_1min 0 signals (initial_state initial_balance)) (\<lambda>st.
       Inr (bs_log (mark_to_market ops p df_1min (mark_to_market ops p df_1min st))))))"

section \<open>Breakout levels look back only\<close>

lemma length_shift [simp]: "length (shift k xs) = length xs"
  by (simp add: shift_def)

lemma nth_shift: "i < length xs \<Longrightarrow> shift k xs ! i = (if i < k then NaN else xs ! (i - k))"
  by (simp add: shift_def nth_append)

lemma length_set_column [simp]: "length xs = length df \<Longrightarrow> length (set_column upd xs df) = length df"
  by (simp add: set_column_def)

lemma nth_set_column: "length xs = length df \<Longrightarrow> i < length df \<Longrightarrow> set_column upd xs df ! i = upd (xs ! i) (df ! i)"
  by (simp add: set_column_def)

lemma length_attach [simp]: "length (attach_body_extrema_levels df) = length df"
  by (simp add: attach_body_extrema_levels_def Let_def)

lemma nth_attach:
  assumes "i < length df"
  shows "attach_body_extrema_levels df ! i =
    (df ! i)\<lparr>prev_body_high_1 := if i < 1 then NaN else row_max (sg_open (df ! (i - 1))) (sg_close (df ! (i - 1))),
             prev_body_high_2 := if i < 2 then NaN else row_max (sg_open (df ! (i - 2))) (sg_close (df ! (i - 2))),
             prev_body_low_1 := if i < 1 then NaN else row_min (sg_open (df ! (i - 1))) (sg_close (df ! (i - 1))),
             prev_body_low_2 := if i < 2 then NaN else row_min (sg_open (df ! (i - 2))) (sg_close (df ! (i - 2)))\<rparr>"
  using assms by (simp add: attach_body_extrema_levels_def Let_def nth_set_column nth_shift)

lemma nth_set_levels:
  assumes "length h1 = length df" "length h2 = length df" "length l1 = length df" "length l2 = length df" "i < length df"
  shows "set_levels h1 h2 l1 l2 df ! i =
    (df ! i)\<lparr>prev_high_1 := h1 ! i, prev_high_2 := h2 ! i, prev_low_1 := l1 ! i, prev_low_2 := l2 ! i\<rparr>"
  using assms by (simp add: set_levels_def nth_set_column)

lemma nth_attach_hl: "i < length df \<Longrightarrow> sg_high (attach_body_extrema_levels df ! i) = sg_high (df ! i)
    \<and> sg_low (attach_body_extrema_levels df ! i) = sg_low (df ! i)"
  by (simp add: nth_attach)

text \<open>
  The breakout levels of a signal bar come from the two bars before it and from nothing later:
  their highs and lows for \<open>wick\<close>, the ends of their bodies for \<open>body\<close>, nan where there is no such bar;
  everything else of the row stays. Any other name for the levels raises.
\<close>

theorem breakout_levels_look_back:
  assumes "apply_breakout_levels df levels = Inr df'"
  defines "body \<equiv> normalized levels = ''body''"
  shows "length df' = length df \<and> (\<forall>i < length df.
      sg_time (df' ! i) = sg_time (df ! i) \<and> sg_close (df' ! i) = sg_close (df ! i) \<and> sg_atr (df' ! i) = sg_atr (df ! i)
    \<and> (\<forall>k \<in> {1, 2}. (if k = 1 then prev_high_1 else prev_high_2) (df' ! i) =
         (if i < k then NaN else if body then row_max (sg_open (df ! (i - k))) (sg_close (df ! (i - k))) else sg_high (df ! (i - k))))
    \<and> (\<forall>k \<in> {1, 2}. (if k = 1 then prev_low_1 else prev_low_2) (df' ! i) =
         (if i < k then NaN else if body then row_min (sg_open (df ! (i - k))) (sg_close (df ! (i - k))) else sg_low (df ! (i - k)))))"
proof -
  consider "df' = apply_wick_breakout_levels df" "\<not> body" | "df' = apply_body_breakout_levels df" body
    using assms by (auto simp: apply_breakout_levels_def split: if_splits)
  then show ?thesis
  proof cases
    case 1
    then show ?thesis
      by (auto simp: apply_wick_breakout_levels_def Let_def nth_set_levels nth_shift nth_attach nth_attach_hl)
         (simp_all add: set_levels_def)
  next
    case 2
    then show ?thesis
      by (auto simp: apply_body_breakout_levels_def Let_def nth_set_levels nth_attach)
         (simp_all add: set_levels_def)
  qed
qed

section \<open>The log of the minute engine\<close>

text \<open>
  Replaying a log: entries and exits alternate, and an exit closes the notional of the entry before it.
  The result is the entry that is still open.
\<close>

fun replay :: "log_row option \<Rightarrow> log_row list \<Rightarrow> log_row option option" where
  "replay cur [] = Some cur"
| "replay None (r # rs) = (if lr_type r \<in> {''BUY'', ''SHORT''} then replay (Some r) rs else None)"
| "replay (Some e) (r # rs) =
     (if lr_type r = ''EXIT'' \<and> lr_notional r = lr_notional e then replay None rs else None)"

lemma replay_append: "replay c (xs @ ys) = Option.bind (replay c xs) (\<lambda>c'. replay c' ys)"
  by (induction c xs rule: replay.induct) auto

definition opened_by :: "log_row \<Rightarrow> position \<Rightarrow> bool" where
  "opened_by e pos \<longleftrightarrow> lr_type e = entry_type (po_side pos) \<and> lr_price e = po_entry_p pos \<and> lr_notional e = po_notional pos"

text \<open>The log is in order up to a time, and it ends with the position that is open.\<close>

definition log_inv :: "datetime \<Rightarrow> bt_state \<Rightarrow> bool" where
  "log_inv t st \<longleftrightarrow>
     sorted (map lr_time (bs_log st)) \<and> (\<forall>r \<in> set (bs_log st). lr_time r \<le> t)
   \<and> (case bs_position st of
        None \<Rightarrow> replay None (bs_log st) = Some None
      | Some pos \<Rightarrow> \<exists>e. replay None (bs_log st) = Some (Some e) \<and> opened_by e pos)"

lemma log_inv_cong:
  assumes "bs_log st' = bs_log st" and "bs_position st' = bs_position st"
  shows "log_inv t st' = log_inv t st"
  unfolding log_inv_def assms ..

lemma log_inv_later: "log_inv t st \<Longrightarrow> t \<le> t' \<Longrightarrow> log_inv t' st"
  by (force simp: log_inv_def)

lemma log_inv_open:
  assumes "open_position p sig side price usage reason prot t st = Inr st'" and "log_inv t st" and "bs_position st = None"
  shows "log_inv t st'"
  using assms
  by (auto simp: open_position_def Let_def res_bind_eq_Inr_iff log_inv_def sorted_append replay_append opened_by_def
      entry_type_def)

text \<open>What a bar without a position does: nothing, forget the exit, or open one position.\<close>

lemma try_enter_cases:
  assumes "try_enter p i sig side prev bar st = Inr st'"
  obtains (idle) "st' = st" | (forget) "st' = st\<lparr>bs_last_exit_side := None\<rparr>"
  | (initial) st1 where "bs_trades_in_bar st = 0"
      "open_position p sig side (entry_price (bp_slippage p) side (breakout_price side sig bar))
         (cash_usage_initial (bp_zero_initial p)) ''Initial'' False (mb_time bar) st = Inr st1"
      "st' = st1\<lparr>bs_trades_in_bar := bs_trades_in_bar st1 + 1\<rparr>"
  | (sl_reentry) price usage st1 where "bs_trades_in_bar st < bp_max_trades p"
      "open_position p sig side price usage ''SL-Reentry'' False (mb_time bar) st = Inr st1"
      "st' = st1\<lparr>bs_trades_in_bar := bs_trades_in_bar st1 + 1, bs_last_exit_side := None\<rparr>"
  | (pt_reentry) price usage st1 where "open_position p sig side price usage ''PT-Reentry'' True (mb_time bar) st = Inr st1"
      "st' = st1\<lparr>bs_last_exit_side := None\<rparr>"
proof -
  obtain re_p where re: "resolve_reentry_price sig side (bp_anchor_levels p) (reentry_atr_of p side) = Inr re_p"
    using assms by (auto simp: try_enter_def res_bind_eq_Inr_iff)
  consider (A) "bs_trades_in_bar st = 0 \<and> breakout_armed side sig"
    | (B) "\<not> (bs_trades_in_bar st = 0 \<and> breakout_armed side sig)"
      "bs_last_exit_side st = Some side \<and> i - bs_last_exit_bar st \<le> REENTRY_TIMEOUT"
    | (C) "\<not> (bs_trades_in_bar st = 0 \<and> breakout_armed side sig)"
      "\<not> (bs_last_exit_side st = Some side \<and> i - bs_last_exit_bar st \<le> REENTRY_TIMEOUT)" by blast
  then show thesis
  proof cases
    case A
    then show ?thesis using assms initial idle
      by (auto simp: try_enter_def re res_bind_eq_Inr_iff split: if_splits)
  next
    case B
    then show ?thesis using assms idle forget sl_reentry pt_reentry
      by (auto simp: try_enter_def re res_bind_eq_Inr_iff Let_def startswith_def split: if_splits)
  next
    case C
    then show ?thesis using assms idle by (auto simp: try_enter_def re split: if_splits)
  qed
qed

lemma log_inv_enter:
  assumes "try_enter p i sig side prev bar st = Inr st'" and "log_inv (mb_time bar) st" and "bs_position st = None"
  shows "log_inv (mb_time bar) st'"
  using assms(1)
proof (cases rule: try_enter_cases)
  case forget
  then show ?thesis using assms(2) log_inv_cong [of st' st] by simp
next
  case (initial st1)
  then show ?thesis using log_inv_open [OF initial(2) assms(2,3)] log_inv_cong [of st' st1] by simp
next
  case (sl_reentry price usage st1)
  then show ?thesis using log_inv_open [OF sl_reentry(2) assms(2,3)] log_inv_cong [of st' st1] by simp
next
  case (pt_reentry price usage st1)
  then show ?thesis using log_inv_open [OF pt_reentry(1) assms(2,3)] log_inv_cong [of st' st1] by simp
qed (use assms(2) in simp)

lemma exit_signal_same:
  "exit_signal p sig bar pos = (pos', x) \<Longrightarrow>
   po_side pos' = po_side pos \<and> po_entry_p pos' = po_entry_p pos \<and> po_notional pos' = po_notional pos \<and> po_sl pos' = po_sl pos"
  by (auto simp: exit_signal_def Let_def split: if_splits)

lemma log_inv_hold:
  assumes "log_inv (mb_time bar) st" and "bs_position st = Some pos"
  shows "log_inv (mb_time bar) (hold_or_exit ops p i sig bar pos st)"
proof -
  obtain pos' x where x: "exit_signal p sig bar pos = (pos', x)" by (cases "exit_signal p sig bar pos")
  note same = exit_signal_same [OF x]
  show ?thesis
    using assms same
    by (auto simp: hold_or_exit_def x close_position_def Let_def log_inv_def sorted_append replay_append opened_by_def
        split: option.split)
qed

lemma log_inv_step:
  assumes "minute_step ops p i sig prev bar st = Inr st'" and "log_inv (mb_time bar) st"
  shows "log_inv (mb_time bar) st'"
  using assms log_inv_enter log_inv_hold
  by (auto simp: minute_step_def split: option.splits if_splits)

lemma log_inv_window:
  assumes "run_window ops p i sig prev bars st = Inr st'" and "log_inv t st" and "sorted (t # map mb_time bars)"
  shows "log_inv (last (t # map mb_time bars)) st'"
  using assms
proof (induction bars arbitrary: prev st t)
  case (Cons bar bars)
  obtain st1 where st1: "minute_step ops p i sig prev bar st = Inr st1" "run_window ops p i sig (Some bar) bars st1 = Inr st'"
    using Cons.prems(1) by (auto simp: res_bind_eq_Inr_iff)
  have "log_inv (mb_time bar) st1" using log_inv_step [OF st1(1)] log_inv_later [OF Cons.prems(2)] Cons.prems(3) by simp
  then show ?case using Cons.IH [OF st1(2)] Cons.prems(3) by simp
qed simp

lemma log_inv_signal: "log_inv t (enter_signal_bar i st) = log_inv t st"
  by (rule log_inv_cong) (simp_all add: enter_signal_bar_def Let_def)

lemma sorted_window:
  assumes "sorted (map mb_time df)" and "t \<le> a"
  shows "sorted (t # map mb_time (window_of a b df))"
  using assms by (auto simp: window_of_def intro: sorted_filter)

lemma log_inv_signals:
  assumes "run_signals ops p df i sigs st = Inr st'" and "log_inv t st" and "t \<le> T" and "sigs \<noteq> [] \<Longrightarrow> t \<le> sg_time (hd sigs)"
    and "sorted (map sg_time sigs)" and "sorted (map mb_time df)" and "\<forall>b \<in> set df. mb_time b \<le> T"
  shows "log_inv T st'"
  using assms
proof (induction ops p df i sigs st arbitrary: t rule: run_signals.induct)
  case (1 ops p df i sig nxt sigs st)
  define w where "w = window_of (sg_time sig) (sg_time nxt) df"
  obtain st1 where
    bind: "(let window = window_of (sg_time sig) (sg_time nxt) df
      in if window = [] \<or> sg_atr sig = NaN then Inr st else run_window ops p i sig None window (enter_signal_bar i st)) = Inr st1"
      "run_signals ops p df (i + 1) (nxt # sigs) st1 = Inr st'"
    using "1.prems"(1) unfolding run_signals.simps res_bind_eq_Inr_iff by blast
  note st1 = bind(1) [unfolded Let_def, folded w_def]
  have srt: "sorted (t # map mb_time w)" using sorted_window "1.prems" by (simp add: w_def)
  have in_w: "mb_time b \<le> sg_time nxt \<and> mb_time b \<le> T" if "b \<in> set w" for b
    using that "1.prems"(7) by (auto simp: w_def window_of_def)
  have "\<exists>t'. log_inv t' st1 \<and> t' \<le> sg_time nxt \<and> t' \<le> T"
  proof (cases "w = [] \<or> sg_atr sig = NaN")
    case True
    then show ?thesis using st1 "1.prems"(2-5) by (intro exI [of _ t]) auto
  next
    case False
    then have "log_inv (last (t # map mb_time w)) st1"
      using log_inv_window [of ops p i sig None w "enter_signal_bar i st" st1 t] st1 "1.prems"(2) srt
      by (simp add: log_inv_signal)
    moreover have "last (t # map mb_time w) = mb_time (last w)" using False by (simp add: last_map)
    ultimately show ?thesis using in_w [of "last w"] False by auto
  qed
  then obtain t' where t': "log_inv t' st1" "t' \<le> sg_time nxt" "t' \<le> T" by blast
  show ?case using "1.IH" [OF bind t'(1,3)] t'(2) "1.prems" by simp
qed (auto intro: log_inv_later)

lemma run_signals_no_minutes: "run_signals ops p [] i sigs st = Inr st' \<Longrightarrow> st' = st"
  by (induction ops p "[] :: minute_bar list" i sigs st rule: run_signals.induct)
     (auto simp: window_of_def res_bind_eq_Inr_iff)

lemma attach_times: "map sg_time (attach_body_extrema_levels df) = map sg_time df"
  by (rule nth_equalityI) (simp_all add: nth_attach)

lemma anchor_times: "apply_reentry_anchor_levels df s = Inr df' \<Longrightarrow> map sg_time df' = map sg_time df"
  by (auto simp: apply_reentry_anchor_levels_def attach_times split: if_splits)

text \<open>Marking to the market twice\<close>

lemma mark_twice:
  fixes ops :: numpy_ops and p :: bt_params
  assumes inv: "log_inv t st" and t: "df \<noteq> [] \<Longrightarrow> t = mb_time (last df)" and df: "df = [] \<Longrightarrow> bs_position st = None"
  defines "out \<equiv> bs_log (mark_to_market ops p df (mark_to_market ops p df st))"
  shows "sorted (map lr_time out) \<and> (replay None out = Some None
    \<or> (\<exists>core e x y. out = core @ [x, y] \<and> replay None core = Some (Some e) \<and> replay (Some e) [x] = Some None
        \<and> lr_reason x = ''FinalMarkToMarket'' \<and> y = x\<lparr>lr_bal := lr_bal y\<rparr>
        \<and> lr_bal y = settle ops (if lr_type e = ''BUY'' then ''long'' else ''short'') (lr_price e) (lr_notional e)
                      (lr_price y) (lr_bal x)))"
proof (cases "bs_position st")
  case None
  then show ?thesis using inv by (simp add: out_def mark_to_market_def log_inv_def)
next
  case (Some pos)
  then have df: "df \<noteq> []" "t = mb_time (last df)" using assms by auto
  obtain e where e: "replay None (bs_log st) = Some (Some e)" "opened_by e pos" using inv Some by (auto simp: log_inv_def)
  define x where "x = last (bs_log (mark_to_market ops p df st))"
  define y where "y = last (bs_log (mark_to_market ops p df (mark_to_market ops p df st)))"
  have side: "settle ops (if lr_type e = ''BUY'' then ''long'' else ''short'') = settle ops (po_side pos)"
    using e(2) by (auto simp: opened_by_def entry_type_def settle_def fun_eq_iff split: if_splits)
  have xy: "out = bs_log st @ [x, y]" "replay (Some e) [x] = Some None" "lr_reason x = ''FinalMarkToMarket''"
    "y = x\<lparr>lr_bal := lr_bal y\<rparr>"
    "lr_bal y = settle ops (po_side pos) (lr_price e) (lr_notional e) (lr_price y) (lr_bal x)"
    using df(1) e(2) Some by (simp_all add: out_def x_def y_def mark_to_market_def close_position_def opened_by_def Let_def)
  moreover have "sorted (map lr_time out)" unfolding xy(1)
    using inv df Some
    by (auto simp: x_def y_def mark_to_market_def close_position_def Let_def log_inv_def sorted_append)
  ultimately show ?thesis using e(1) unfolding side [symmetric] by blast
qed

text \<open>
  C12. The log of a run pairs every entry with the exit that closes it. When minutes and signals
  are in order of time, the log is in order, and it has a first part in which entries and exits alternate
  with the exit closing the notional of its entry. After that part either nothing is open and the log ends,
  or one entry is open at the end of the data and exactly two \<open>FinalMarkToMarket\<close> exits follow: both close the
  same position at the same price, and the second books its profit on a balance that already has it.
\<close>

theorem log_is_paired:
  assumes "run_backtest_1min_granularity ops df_1min df_4h initial_balance args = Inr out"
    and "sorted (map mb_time df_1min)" and "sorted (map sg_time df_4h)"
  shows "sorted (map lr_time out) \<and> (replay None out = Some None
    \<or> (\<exists>core e x y. out = core @ [x, y] \<and> replay None core = Some (Some e) \<and> replay (Some e) [x] = Some None
        \<and> lr_reason x = ''FinalMarkToMarket'' \<and> y = x\<lparr>lr_bal := lr_bal y\<rparr>
        \<and> lr_bal y = settle ops (if lr_type e = ''BUY'' then ''long'' else ''short'') (lr_price e) (lr_notional e)
                      (lr_price y) (lr_bal x)))"
proof -
  obtain sigs p st where run: "apply_reentry_anchor_levels df_4h (ba_reentry_anchor_levels args) = Inr sigs"
      "run_signals ops p df_1min 0 sigs (initial_state initial_balance) = Inr st"
      "out = bs_log (mark_to_market ops p df_1min (mark_to_market ops p df_1min st))"
    using assms(1) by (auto simp: run_backtest_1min_granularity_def res_bind_eq_Inr_iff)
  define T where "T = (if df_1min = [] then sg_time (hd sigs) else mb_time (last df_1min))"
  define t where "t = (if sigs = [] then T else min T (sg_time (hd sigs)))"
  have "log_inv t (initial_state initial_balance)" by (simp add: log_inv_def initial_state_def)
  moreover have "\<forall>b \<in> set df_1min. mb_time b \<le> T"
    using assms(2) by (auto simp: T_def sorted_iff_nth_mono in_set_conv_nth last_conv_nth)
  moreover have "sorted (map sg_time sigs)" using anchor_times [OF run(1)] assms(3) by simp
  ultimately have "log_inv T st"
    using log_inv_signals [OF run(2), of t T] assms(2) by (auto simp: t_def)
  moreover have "bs_position st = None" if "df_1min = []"
    using run_signals_no_minutes [of ops p 0 sigs "initial_state initial_balance" st] run(2) that
    by (simp add: initial_state_def)
  ultimately show ?thesis
    unfolding run(3) by (intro mark_twice [of T]) (simp_all add: T_def)
qed

section \<open>Trades per signal bar\<close>

text \<open>The entries that count against \<open>MAX_TRADES_PER_BAR\<close>\<close>

definition counted :: "log_row list \<Rightarrow> nat" where
  "counted rows = length (filter (\<lambda>r. lr_reason r \<in> {''Initial'', ''SL-Reentry''}) rows)"

lemma counted_append [simp]: "counted (xs @ ys) = counted xs + counted ys"
  by (simp add: counted_def)

lemma open_position_effect:
  assumes "open_position p sig side price usage reason prot t st = Inr st'"
  shows "bs_trades_in_bar st' = bs_trades_in_bar st \<and> (\<exists>r. bs_log st' = bs_log st @ [r] \<and> lr_reason r = reason)"
  using assms by (auto simp: open_position_def Let_def res_bind_eq_Inr_iff)

text \<open>The counter of the bar counts these rows, and it stays within its bound.\<close>

definition trades_inv :: "bt_params \<Rightarrow> log_row list \<Rightarrow> bt_state \<Rightarrow> bool" where
  "trades_inv p old st \<longleftrightarrow> (\<exists>rows. bs_log st = old @ rows \<and> bs_trades_in_bar st = int (counted rows))
     \<and> bs_trades_in_bar st \<le> max 1 (bp_max_trades p)"

lemma trades_inv_open:
  assumes "open_position p sig side price usage reason prot t st = Inr st1" and "trades_inv p old st"
    and "bs_log st' = bs_log st1" and "bs_trades_in_bar st' = bs_trades_in_bar st1 + (if n then 1 else 0)"
    and "n \<longleftrightarrow> reason \<in> {''Initial'', ''SL-Reentry''}" and "n \<Longrightarrow> bs_trades_in_bar st < max 1 (bp_max_trades p)"
  shows "trades_inv p old st'"
proof -
  obtain rows where rows: "bs_log st = old @ rows" "bs_trades_in_bar st = int (counted rows)"
    using assms(2) by (auto simp: trades_inv_def)
  obtain r where r: "bs_trades_in_bar st1 = bs_trades_in_bar st" "bs_log st1 = bs_log st @ [r]" "lr_reason r = reason"
    using open_position_effect [OF assms(1)] by blast
  have "counted [r] = (if n then 1 else 0)" using r(3) assms(5) by (simp add: counted_def)
  then show ?thesis
    using assms(2-4,6) rows r(1,2) unfolding trades_inv_def
    by (intro conjI exI [of _ "rows @ [r]"]) (auto split: if_splits)
qed

lemma trades_inv_enter:
  assumes "try_enter p i sig side prev bar st = Inr st'" and "trades_inv p old st"
  shows "trades_inv p old st'"
  using assms(1)
proof (cases rule: try_enter_cases)
  case (initial st1)
  show ?thesis by (rule trades_inv_open [OF initial(2) assms(2), where n = True]) (use initial in auto)
next
  case (sl_reentry price usage st1)
  show ?thesis by (rule trades_inv_open [OF sl_reentry(2) assms(2), where n = True]) (use sl_reentry in auto)
next
  case (pt_reentry price usage st1)
  show ?thesis by (rule trades_inv_open [OF pt_reentry(1) assms(2), where n = False]) (use pt_reentry in auto)
qed (use assms(2) in \<open>simp_all add: trades_inv_def\<close>)

lemma exit_signal_reason: "exit_signal p sig bar pos = (pos', Some (x, reason)) \<Longrightarrow> reason \<in> {''SL'', ''PT''}"
  by (auto simp: exit_signal_def Let_def split: if_splits)

lemma trades_inv_hold:
  assumes "trades_inv p old st"
  shows "trades_inv p old (hold_or_exit ops p i sig bar pos st)"
proof (cases "exit_signal p sig bar pos")
  case (Pair pos' x)
  show ?thesis
  proof (cases x)
    case None
    then show ?thesis using assms Pair by (simp add: hold_or_exit_def trades_inv_def)
  next
    case (Some a)
    then have "lr_reason r \<in> {''SL'', ''PT''} \<Longrightarrow> counted [r] = 0" "snd a \<in> {''SL'', ''PT''}" for r
      using exit_signal_reason [of p sig bar pos pos' "fst a" "snd a"] Pair by (auto simp: counted_def)
    then show ?thesis using assms Pair Some
      by (auto simp: hold_or_exit_def trades_inv_def close_position_def Let_def split: prod.split)
  qed
qed

lemma trades_inv_window:
  "run_window ops p i sig prev bars st = Inr st' \<Longrightarrow> trades_inv p old st \<Longrightarrow> trades_inv p old st'"
proof (induction bars arbitrary: prev st)
  case (Cons bar bars)
  obtain st1 where st1: "minute_step ops p i sig prev bar st = Inr st1" "run_window ops p i sig (Some bar) bars st1 = Inr st'"
    using Cons.prems(1) by (auto simp: res_bind_eq_Inr_iff)
  have "trades_inv p old st1"
    using st1(1) Cons.prems(2) trades_inv_enter trades_inv_hold
    by (auto simp: minute_step_def split: option.splits if_splits)
  then show ?case using Cons.IH [OF st1(2)] by simp
qed simp

text \<open>
  Within one signal bar the engine opens at most \<open>max_trades_per_bar\<close> positions by an initial breakout or a
  re-entry after a stop, one at least being possible: it only adds rows to the log, and its counter is the
  number of these entries. Re-entries after a target are not counted.
\<close>

theorem trades_per_bar_bounded:
  assumes "run_window ops p i sig None window (enter_signal_bar i st) = Inr st'"
  shows "\<exists>rows. bs_log st' = bs_log st @ rows \<and> bs_trades_in_bar st' = int (counted rows)
     \<and> int (counted rows) \<le> max 1 (bp_max_trades p)"
proof -
  have "trades_inv p (bs_log st) (enter_signal_bar i st)" by (simp add: trades_inv_def enter_signal_bar_def Let_def counted_def)
  from trades_inv_window [OF assms this] show ?thesis by (auto simp: trades_inv_def)
qed


definition flat_bar :: "datetime \<Rightarrow> int \<Rightarrow> minute_bar" where
  "flat_bar t x = \<lparr>mb_time = t, mb_open = Fin (of_int x), mb_high = Fin (of_int x), mb_low = Fin (of_int x), mb_close = Fin (of_int x)\<rparr>"

definition demo_signal :: "datetime \<Rightarrow> signal_bar" where
  "demo_signal t =
     \<lparr>sg_time = t, sg_open = Fin 100, sg_high = Fin 110, sg_low = Fin 90, sg_close = Fin 105, sg_atr = Fin 10,
      sg_ma5 = None, sg_ma20 = Fin 100, prev_high_1 = Fin 110, prev_high_2 = Fin 120, prev_low_1 = Fin 90,
      prev_low_2 = Fin 80, prev_body_high_1 = Fin 0, prev_body_high_2 = Fin 0, prev_body_low_1 = Fin 0,
      prev_body_low_2 = Fin 0\<rparr>"

definition demo_args :: bt_args where
  "demo_args =
     \<lparr>ba_confirm = False, ba_zero_initial = False, ba_structural_sl = True, ba_slippage = Fin 0, ba_stop_loss_atr = Fin 1,
      ba_max_trades_per_bar = 3, ba_reentry_size_schedule = NoSizes, ba_long_reentry_atr = Fin 0,
      ba_short_reentry_atr = Fin 0, ba_stop_mode = None, ba_profit_protect_atr = Fin 1,
      ba_reentry_anchor_levels = ''wick'', ba_reentry_trigger_mode = ''reclaim''\<rparr>"

definition demo_minutes :: "minute_bar list" where
  "demo_minutes = [flat_bar 0 120, flat_bar 1 240]"

text \<open>A long position opened at the first minute at 120, and still open at the end of the data at 240\<close>

definition demo_params :: bt_params where
  "demo_params =
     \<lparr>bp_confirm = False, bp_zero_initial = False, bp_slippage = Fin 0, bp_stop_loss_atr = Fin 1, bp_max_trades = 3,
      bp_schedule = [fl (10 / 100), fl (20 / 100)], bp_long_reentry_atr = Fin 0, bp_short_reentry_atr = Fin 0,
      bp_stop_mode = ''structural'', bp_profit_protect = Fin 1, bp_anchor_levels = ''wick'', bp_trigger_mode = ''reclaim''\<rparr>"

definition demo_position :: position where
  "demo_position = \<lparr>po_side = ''long'', po_entry_p = Fin 120, po_sl = Fin 90, po_protected = False, po_notional = Fin 100\<rparr>"

definition demo_open :: bt_state where
  "demo_open = (initial_state (fl (9999 / 10)))
     \<lparr>bs_position := Some demo_position, bs_trades_in_bar := 1,
      bs_log := [\<lparr>lr_time = 0, lr_type = ''BUY'', lr_price = Fin 120, lr_reason = ''Initial'', lr_notional = Fin 100,
                  lr_bal = fl (9999 / 10)\<rparr>]\<rparr>"

lemma demo_params_eq: "bt_params_of demo_args = Inr demo_params"
  by (simp add: bt_params_of_def demo_args_def demo_params_def effective_stop_mode_def)

lemma demo_first: "minute_step ref_numpy demo_params 0 (demo_signal 0) None (flat_bar 0 120) (initial_state (Fin 1000)) = Inr demo_open"
  by code_simp

lemma demo_second: "minute_step ref_numpy demo_params 0 (demo_signal 0) (Some (flat_bar 0 120)) (flat_bar 1 240) demo_open
   = Inr (demo_open\<lparr>bs_position := Some (demo_position\<lparr>po_protected := True\<rparr>)\<rparr>)"
  by code_simp
lemma demo_settle:
  "settle ref_numpy ''long'' (Fin 120) (Fin 100) (Fin 240) (fl (9999 / 10)) = fl (5499 / 5)"
  "settle ref_numpy ''long'' (Fin 120) (Fin 100) (Fin 240) (fl (5499 / 5)) = fl (11997 / 10)"
  "exit_price (Fin 0) ''long'' (Fin 240) = Fin 240"
  by code_simp+

lemma demo_window: "run_window ref_numpy demo_params 0 (demo_signal 0) None demo_minutes (enter_signal_bar 0 (initial_state (Fin 1000)))
    = Inr (demo_open\<lparr>bs_position := Some (demo_position\<lparr>po_protected := True\<rparr>)\<rparr>)"
proof -
  have "enter_signal_bar 0 (initial_state (Fin 1000)) = initial_state (Fin 1000)"
    by (simp add: enter_signal_bar_def initial_state_def Let_def)
  then show ?thesis by (simp add: demo_minutes_def demo_first demo_second)
qed

definition demo_end :: bt_state where
  "demo_end = demo_open\<lparr>bs_position := Some (demo_position\<lparr>po_protected := True\<rparr>)\<rparr>"

lemma demo_signals:
  "run_signals ref_numpy demo_params demo_minutes 0 [demo_signal 0, demo_signal 5] (initial_state (Fin 1000)) = Inr demo_end"
proof -
  have "window_of 0 5 demo_minutes = demo_minutes" "demo_minutes \<noteq> []" by (simp_all add: window_of_def demo_minutes_def flat_bar_def)
  moreover have "sg_time (demo_signal t) = t" "sg_atr (demo_signal t) \<noteq> NaN" for t by (simp_all add: demo_signal_def)
  ultimately show ?thesis using demo_window by (simp add: demo_end_def)
qed

lemma demo_run:
  "\<exists>out. run_backtest_1min_granularity ref_numpy demo_minutes [demo_signal 0, demo_signal 5] (Fin 1000) demo_args = Inr out
     \<and> map lr_type out = [''BUY'', ''EXIT'', ''EXIT''] \<and> map lr_bal out = [fl (9999 / 10), fl (5499 / 5), fl (11997 / 10)]"
proof -
  have "normalized ''wick'' = ''wick''" by code_simp
  then have "apply_reentry_anchor_levels [demo_signal 0, demo_signal 5] (ba_reentry_anchor_levels demo_args)
      = Inr [demo_signal 0, demo_signal 5]" by (simp add: apply_reentry_anchor_levels_def demo_args_def)
  then have "run_backtest_1min_granularity ref_numpy demo_minutes [demo_signal 0, demo_signal 5] (Fin 1000) demo_args
      = Inr (bs_log (mark_to_market ref_numpy demo_params demo_minutes (mark_to_market ref_numpy demo_params demo_minutes demo_end)))"
    using demo_signals by (simp add: run_backtest_1min_granularity_def demo_params_eq del: run_signals.simps)
  then show ?thesis
    by (simp add: mark_to_market_def close_position_def Let_def demo_minutes_def flat_bar_def demo_position_def demo_open_def
        demo_end_def demo_settle demo_params_def initial_state_def)
qed

theorem log_is_paired_witness:
  "\<exists>out core e x y. run_backtest_1min_granularity ref_numpy demo_minutes [demo_signal 0, demo_signal 5] (Fin 1000) demo_args = Inr out
     \<and> out = core @ [x, y] \<and> replay None core = Some (Some e) \<and> replay (Some e) [x] = Some None
     \<and> y = x\<lparr>lr_bal := lr_bal y\<rparr> \<and> lr_bal x = fl (5499 / 5) \<and> lr_bal y = fl (11997 / 10)"
proof -
  obtain out where out: "run_backtest_1min_granularity ref_numpy demo_minutes [demo_signal 0, demo_signal 5] (Fin 1000) demo_args = Inr out"
    "map lr_type out = [''BUY'', ''EXIT'', ''EXIT'']" "map lr_bal out = [fl (9999 / 10), fl (5499 / 5), fl (11997 / 10)]"
    using demo_run by (elim exE conjE)
  have srt: "sorted (map mb_time demo_minutes)" "sorted (map sg_time [demo_signal 0, demo_signal 5])"
    by (simp_all add: demo_minutes_def flat_bar_def demo_signal_def)
  obtain a b c where "out = [a, b, c]" "lr_type b = ''EXIT''" "lr_type c = ''EXIT''" using out(2) by (auto simp: map_eq_Cons_conv)
  then have "replay None out \<noteq> Some None" by simp
  then obtain core e x y where "out = core @ [x, y]" "replay None core = Some (Some e)" "replay (Some e) [x] = Some None"
    "y = x\<lparr>lr_bal := lr_bal y\<rparr>" using log_is_paired [OF out(1) srt] by blast
  moreover from this(1) have "lr_bal x = fl (5499 / 5)" "lr_bal y = fl (11997 / 10)"
    using out(3) by (simp_all add: map_eq_append_conv append_eq_Cons_conv)
  ultimately show ?thesis using out(1) by blast
qed

theorem trades_per_bar_bounded_witness:
  "\<exists>rows. bs_log (demo_open\<lparr>bs_position := Some (demo_position\<lparr>po_protected := True\<rparr>)\<rparr>) = rows
     \<and> bs_trades_in_bar demo_open = int (counted rows) \<and> int (counted rows) \<le> 3"
  using trades_per_bar_bounded [OF demo_window] by (simp add: initial_state_def demo_params_def)

theorem breakout_levels_look_back_witness:
  "\<exists>df'. apply_breakout_levels [demo_signal 0, demo_signal 5, demo_signal 9] ''Body '' = Inr df' \<and> length df' = 3
     \<and> prev_high_1 (df' ! 2) = Fin 105 \<and> prev_low_1 (df' ! 2) = Fin 100 \<and> prev_high_2 (df' ! 1) = NaN"
proof -
  have n: "normalized ''Body '' = ''body''" by code_simp
  then obtain df' where df': "apply_breakout_levels [demo_signal 0, demo_signal 5, demo_signal 9] ''Body '' = Inr df'"
    by (simp add: apply_breakout_levels_def)
  have r: "row_max (Fin 100) (Fin 105) = Fin 105" "row_min (Fin 100) (Fin 105) = Fin 100" by code_simp+
  show ?thesis
    using breakout_levels_look_back [OF df'] df' n r
    by (auto simp: demo_signal_def dest: spec [of _ 1] spec [of _ 2])
qed

end
