(* ===== verification/Stops.thy ===== *)
theory Stops
  imports Invariants
begin

text \<open>
  What the simulators of positions share: the order of stop prices seen from the side of a position, and
  the loop of a grid search, which keeps the first parameters with the best score.
\<close>

section \<open>Stop prices\<close>

text \<open>\<open>b\<close> is no worse a stop than \<open>a\<close>: the same, or strictly nearer to the profit.\<close>

definition no_worse :: "string \<Rightarrow> pyfloat \<Rightarrow> pyfloat \<Rightarrow> bool" where
  "no_worse side a b \<longleftrightarrow> b = a \<or> (if side = ''long'' then flt a b else flt b a)"

lemma flt_trans: "flt a b \<Longrightarrow> flt b c \<Longrightarrow> flt a c"
  unfolding flt_def using fle_trans by blast

lemma flt_fle_trans: "flt a b \<Longrightarrow> fle b c \<Longrightarrow> flt a c"
  unfolding flt_def using fle_trans by blast

lemma fle_flt_trans: "fle a b \<Longrightarrow> flt b c \<Longrightarrow> flt a c"
  unfolding flt_def using fle_trans by blast

lemma flt_not_fle: "flt a b \<Longrightarrow> \<not> fle b a"
  by (simp add: flt_def)

lemma no_worse_refl [simp]: "no_worse s a a"
  by (simp add: no_worse_def)

lemma no_worse_trans: "no_worse s a b \<Longrightarrow> no_worse s b c \<Longrightarrow> no_worse s a c"
  by (auto simp: no_worse_def intro: flt_trans)

section \<open>Searching for the best parameters\<close>

text \<open>
  \<open>if score > best_score: best_score, best = score, candidate\<close>, over candidates and their scores: a later
  candidate wins only if it is strictly better, and nan never is.
\<close>

locale first_best =
  fixes search :: "pyfloat \<Rightarrow> 'p \<Rightarrow> ('p \<times> pyfloat) list \<Rightarrow> 'p"
  assumes search_Nil: "search b d [] = d"
    and search_better: "flt b s \<Longrightarrow> search b d ((p, s) # xs) = search s p xs"
    and search_worse: "\<not> flt b s \<Longrightarrow> search b d ((p, s) # xs) = search b d xs"
begin

lemma none_better: "\<forall>u \<in> snd ` set xs. \<not> flt b u \<Longrightarrow> search b d (xs @ ys) = search b d ys"
  by (induction xs) (auto simp: search_worse)

lemma picks_best:
  assumes "\<exists>u \<in> snd ` set xs. flt b u"
  shows "\<exists>ys p s zs. xs = ys @ (p, s) # zs \<and> search b d xs = p \<and> flt b s
    \<and> (\<forall>u \<in> snd ` set ys. \<not> fle s u) \<and> (\<forall>u \<in> snd ` set zs. \<not> flt s u)"
  using assms
proof (induction xs arbitrary: b d)
  case (Cons x xs)
  obtain p0 s0 where x: "x = (p0, s0)" by force
  show ?case
  proof (cases "flt b s0")
    case better: True
    show ?thesis
    proof (cases "\<exists>u \<in> snd ` set xs. flt s0 u")
      case True
      from Cons.IH [OF this, of p0] obtain ys p s zs where r: "xs = ys @ (p, s) # zs" "search s0 p0 xs = p" "flt s0 s"
          "\<forall>u \<in> snd ` set ys. \<not> fle s u" "\<forall>u \<in> snd ` set zs. \<not> flt s u"
        by blast
      have "flt b s" using better r(3) flt_trans by blast
      then show ?thesis using r x better flt_not_fle by (intro exI [of _ "x # ys"] exI [of _ p] exI [of _ s] exI [of _ zs]) (auto simp: search_better)
    next
      case False
      then have "search s0 p0 xs = p0" using none_better [of xs s0 p0 "[]"] by (simp add: search_Nil)
      then show ?thesis using x better False by (intro exI [of _ "[]"] exI [of _ p0] exI [of _ s0] exI [of _ xs]) (auto simp: search_better)
    qed
  next
    case worse: False
    then have "\<exists>u \<in> snd ` set xs. flt b u" using Cons.prems x by auto
    from Cons.IH [OF this, of d] obtain ys p s zs where r: "xs = ys @ (p, s) # zs" "search b d xs = p" "flt b s"
        "\<forall>u \<in> snd ` set ys. \<not> fle s u" "\<forall>u \<in> snd ` set zs. \<not> flt s u"
      by blast
    have "\<not> fle s s0" using worse r(3) flt_fle_trans by blast
    then show ?thesis using r x worse by (intro exI [of _ "x # ys"] exI [of _ p] exI [of _ s] exI [of _ zs]) (auto simp: search_worse)
  qed
qed simp

text \<open>Candidates that are no better than an earlier one change nothing.\<close>

lemma dominated:
  assumes "\<forall>u \<in> snd ` set ys. \<not> flt b u \<or> (\<exists>s \<in> snd ` set xs. fle u s)"
  shows "search b d (xs @ ys @ zs) = search b d (xs @ zs)"
  using assms
proof (induction xs arbitrary: b d)
  case Nil
  then show ?case using none_better by simp
next
  case (Cons x xs)
  obtain p s where x: "x = (p, s)" by force
  show ?case
  proof (cases "flt b s")
    case True
    have "\<not> flt s u \<or> (\<exists>s \<in> snd ` set xs. fle u s)" if u: "u \<in> snd ` set ys" for u
      using Cons.prems u x True flt_trans flt_not_fle by fastforce
    then show ?thesis using Cons.IH [of s p] x True by (simp add: search_better)
  next
    case False
    have "\<not> flt b u \<or> (\<exists>s \<in> snd ` set xs. fle u s)" if u: "u \<in> snd ` set ys" for u
      using Cons.prems u x False flt_fle_trans by fastforce
    then show ?thesis using Cons.IH [of b d] x False by (simp add: search_worse)
  qed
qed

lemma repeated_scores: "snd ` set ys \<subseteq> snd ` set xs \<Longrightarrow> search b d (xs @ ys @ zs) = search b d (xs @ zs)"
proof (rule dominated, rule ballI)
  fix u
  assume "snd ` set ys \<subseteq> snd ` set xs" and "u \<in> snd ` set ys"
  then have "u \<in> snd ` set xs" by blast
  moreover have "\<not> flt b NaN" using fle_not_NaN by (auto simp: flt_def)
  moreover have "fle u u" if "u \<noteq> NaN" using that by (simp add: fle_refl_iff)
  ultimately show "\<not> flt b u \<or> (\<exists>s \<in> snd ` set xs. fle u s)" by (cases "u = NaN") auto
qed

lemma repeated_blocks:
  "\<forall>ys \<in> set yss. snd ` set ys \<subseteq> snd ` set xs \<Longrightarrow> search b d (xs @ concat yss @ zs) = search b d (xs @ zs)"
proof (induction yss)
  case (Cons ys yss)
  then show ?case using repeated_scores [of ys xs b d "concat yss @ zs"] by simp
qed simp

text \<open>Along an axis that leaves the scores as they are, only its first value can be picked.\<close>

lemma repeated_axis:
  assumes "\<forall>m \<in> set ms. \<forall>s \<in> set ss. snd ` set (F m s) \<subseteq> snd ` set (F m s0)"
  shows "search b d (xs @ concat (map (\<lambda>m. F m s0 @ concat (map (F m) ss)) ms)) = search b d (xs @ concat (map (\<lambda>m. F m s0) ms))"
  using assms
proof (induction ms arbitrary: xs)
  case (Cons m ms)
  let ?rest = "concat (map (\<lambda>m. F m s0 @ concat (map (F m) ss)) ms)"
  have "search b d ((xs @ F m s0) @ concat (map (F m) ss) @ ?rest) = search b d ((xs @ F m s0) @ ?rest)"
    using Cons.prems by (intro repeated_blocks) (simp add: image_Un, blast)
  also have "\<dots> = search b d ((xs @ F m s0) @ concat (map (\<lambda>m. F m s0) ms))" using Cons.prems by (intro Cons.IH) simp
  finally show ?case by simp
qed simp

lemma pick_in: "search b d xs = d \<or> search b d xs \<in> fst ` set xs"
proof (cases "\<exists>u \<in> snd ` set xs. flt b u")
  case True
  from picks_best [OF this, of d] obtain ys p s zs where "xs = ys @ (p, s) # zs" "search b d xs = p" by blast
  then show ?thesis by force
next
  case False
  then show ?thesis using none_better [of xs b d "[]"] by (simp add: search_Nil)
qed

lemma pick_if_better: "if \<exists>u \<in> snd ` set xs. flt b u then search b d xs \<in> fst ` set xs else search b d xs = d"
proof (cases "\<exists>u \<in> snd ` set xs. flt b u")
  case True
  from picks_best [OF this, of d] obtain ys p s zs where "xs = ys @ (p, s) # zs" "search b d xs = p" by blast
  then show ?thesis using True by force
next
  case False
  then show ?thesis using none_better [of xs b d "[]"] by (simp add: search_Nil)
qed

text \<open>Along an axis that repeats the scores of its first value the search picks among the first value, if it picks at all.\<close>

lemma repeated_axis_pick:
  assumes "\<forall>m \<in> set ms. \<forall>s \<in> set ss. snd ` set (F m s) \<subseteq> snd ` set (F m s0)"
    and xs: "xs = concat (map (\<lambda>m. F m s0 @ concat (map (F m) ss)) ms)"
  shows "if \<exists>u \<in> snd ` set xs. flt b u then search b d xs \<in> fst ` set (concat (map (\<lambda>m. F m s0) ms)) else search b d xs = d"
proof -
  let ?first = "concat (map (\<lambda>m. F m s0) ms)"
  have eq: "search b d xs = search b d ?first"
    using repeated_axis [OF assms(1), of b d "[]"] by (simp add: xs)
  have "snd ` set xs \<subseteq> snd ` set ?first"
  proof
    fix u
    assume "u \<in> snd ` set xs"
    then obtain m where "m \<in> set ms" "u \<in> snd ` set (F m s0) \<or> (\<exists>s \<in> set ss. u \<in> snd ` set (F m s))"
      unfolding xs by auto
    then have "u \<in> snd ` set (F m s0)" "m \<in> set ms" using assms(1) by blast+
    then show "u \<in> snd ` set ?first" by force
  qed
  moreover have "set ?first \<subseteq> set xs" unfolding xs by auto
  then have "snd ` set ?first \<subseteq> snd ` set xs" by (rule image_mono)
  ultimately have "snd ` set xs = snd ` set ?first" by blast
  then show ?thesis using pick_if_better [of ?first b d] unfolding eq by (simp only:)
qed

lemma repeated_blocks_pick:
  assumes "\<forall>ys \<in> set yss. snd ` set ys \<subseteq> snd ` set xs" and zs: "zs = xs @ concat yss"
  shows "if \<exists>u \<in> snd ` set zs. flt b u then search b d zs \<in> fst ` set xs else search b d zs = d"
proof -
  have eq: "search b d zs = search b d xs" using repeated_blocks [OF assms(1), of b d "[]"] by (simp add: zs)
  have "set zs = set xs \<union> (\<Union>ys \<in> set yss. set ys)" by (simp add: zs)
  then have "snd ` set zs = snd ` set xs" using assms(1) by (simp add: image_Un image_UN) blast
  then show ?thesis using pick_if_better [of xs b d] unfolding eq by (simp only:)
qed

end

text \<open>The loop itself\<close>

fun best_of :: "pyfloat \<Rightarrow> 'p \<Rightarrow> ('p \<times> pyfloat) list \<Rightarrow> 'p" where
  "best_of best_score best [] = best"
| "best_of best_score best ((p, s) # xs) = (if flt best_score s then best_of s p xs else best_of best_score best xs)"

interpretation grid: first_best best_of
  by unfold_locales auto

end
