(* ===== verification/Enhanced.thy ===== *)
theory Enhanced
  imports Backtest Stops
begin

text \<open>
  \<open>run_backtest_enhanced\<close> of \<open>research/backTest.py\<close>: the minute engine with a trailing stop, tiers of profit
  protection, a drawdown breaker and a window for entries after a breakout that is not traded. The helpers,
  the frames and the accounting are those of \<open>Backtest\<close>. The high or low water mark of a position is one
  field, since a position has the one of its side.
\<close>

section \<open>State\<close>

record e_position = position +
  po_mark :: pyfloat

record e_params = bt_params +
  ep_zero_mode :: string
  ep_trailing :: "pyfloat option"
  ep_delayed :: "pyfloat option"
  ep_tiered :: bool
  ep_max_dd :: "pyfloat option"
  ep_cooldown :: int

record e_state =
  es_balance :: pyfloat
  es_peak :: pyfloat
  es_position :: "e_position option"
  es_log :: "log_row list"
  es_last_exit_bar :: int
  es_last_exit_reason :: "string option"
  es_last_exit_side :: "string option"
  es_pending_side :: "string option"
  es_pending_bar :: int
  es_breaker_until :: int
  es_trades_in_bar :: int

section \<open>Entries\<close>

definition e_open ::
  "e_params \<Rightarrow> signal_bar \<Rightarrow> string \<Rightarrow> pyfloat \<Rightarrow> pyfloat \<Rightarrow> string \<Rightarrow> bool \<Rightarrow> datetime \<Rightarrow> e_state \<Rightarrow> e_state res" where
  "e_open p sig side price usage reason protected' time st =
     (let notional_value = fmul (es_balance st) usage
      in res_bind (resolve_stop_price side price sig (bp_stop_mode p) (bp_stop_loss_atr p)) (\<lambda>sl.
           let balance = fsub (es_balance st) (fmul notional_value COMMISSION)
           in Inr (st\<lparr>es_position := Some \<lparr>po_side = side, po_entry_p = price, po_sl = sl, po_protected = protected',
                                          po_notional = notional_value, po_mark = price\<rparr>,
                      es_balance := balance,
                      es_log := es_log st @ [\<lparr>lr_time = time, lr_type = entry_type side, lr_price = price,
                                              lr_reason = reason, lr_notional = notional_value, lr_bal = balance\<rparr>],
                      es_trades_in_bar := es_trades_in_bar st + 1\<rparr>)))"

definition window_mode :: "e_params \<Rightarrow> bool" where
  "window_mode p \<longleftrightarrow> bp_zero_initial p \<and> ep_zero_mode p = ''reentry_window''"

text \<open>The initial breakout: traded, or remembered as a window for a later entry\<close>

definition e_initial :: "e_params \<Rightarrow> int \<Rightarrow> signal_bar \<Rightarrow> string \<Rightarrow> minute_bar \<Rightarrow> e_state \<Rightarrow> e_state res" where
  "e_initial p i sig side bar st =
     (if es_trades_in_bar st = 0 \<and> breakout_armed side sig \<and> breakout_hit side sig bar
      then if window_mode p then Inr (st\<lparr>es_pending_side := Some side, es_pending_bar := i\<rparr>)
           else e_open p sig side (entry_price (bp_slippage p) side (breakout_price side sig bar))
                  (cash_usage_initial (bp_zero_initial p)) ''Initial'' False (mb_time bar) st
      else Inr st)"

definition exit_window :: "int \<Rightarrow> string \<Rightarrow> e_state \<Rightarrow> bool" where
  "exit_window i side st \<longleftrightarrow> es_last_exit_side st = Some side \<and> i - es_last_exit_bar st \<le> REENTRY_TIMEOUT"

definition zero_window :: "int \<Rightarrow> string \<Rightarrow> e_state \<Rightarrow> bool" where
  "zero_window i side st \<longleftrightarrow> es_pending_side st = Some side \<and> i - es_pending_bar st \<le> REENTRY_TIMEOUT"

definition e_reentry_size :: "e_params \<Rightarrow> bool \<Rightarrow> bool \<Rightarrow> int \<Rightarrow> pyfloat res" where
  "e_reentry_size p has_exit has_zero trades_in_bar =
     (if has_zero \<and> \<not> has_exit then if bp_schedule p = [] then Inl IndexError else Inr (hd (bp_schedule p))
      else if window_mode p then get_reentry_window_real_order_size trades_in_bar (bp_schedule p)
      else get_reentry_size trades_in_bar (bp_schedule p))"

definition e_reentry ::
  "e_params \<Rightarrow> int \<Rightarrow> signal_bar \<Rightarrow> string \<Rightarrow> pyfloat option \<Rightarrow> minute_bar \<Rightarrow> pyfloat \<Rightarrow> e_state \<Rightarrow> e_state res" where
  "e_reentry p i sig side prev_close bar re_p st =
     (let has_exit = exit_window i side st; has_zero = zero_window i side st
      in if has_exit \<or> has_zero
         then res_bind (reentry_triggered side (bp_trigger_mode p) (mb_high bar) (mb_low bar) (mb_close bar) prev_close re_p
                          (bp_confirm p)) (\<lambda>(is_triggered, entry_p_raw).
              if is_triggered
              then let reason = (if has_exit then if es_last_exit_reason st = Some ''SL'' then ''SL-Reentry'' else ''PT-Reentry''
                                 else ''Zero-Initial-Reentry'')
                   in res_bind
                        (if es_trades_in_bar st < bp_max_trades p
                         then res_bind (e_reentry_size p has_exit has_zero (es_trades_in_bar st)) (\<lambda>usage.
                              e_open p sig side (entry_price (bp_slippage p) side entry_p_raw) usage reason
                                (reason = ''PT-Reentry'') (mb_time bar) st)
                         else Inr st) (\<lambda>st'.
                      Inr (st'\<lparr>es_last_exit_side := if has_exit then None else es_last_exit_side st',
                               es_pending_side := if has_zero then None else es_pending_side st'\<rparr>))
              else Inr st)
         else Inr st)"

definition e_enter ::
  "e_params \<Rightarrow> int \<Rightarrow> signal_bar \<Rightarrow> string \<Rightarrow> pyfloat option \<Rightarrow> minute_bar \<Rightarrow> e_state \<Rightarrow> e_state res" where
  "e_enter p i sig side prev_close bar st =
     res_bind (resolve_reentry_price sig side (bp_anchor_levels p) (reentry_atr_of (bt_params.truncate p) side)) (\<lambda>re_p.
     res_bind (e_initial p i sig side bar st) (e_reentry p i sig side prev_close bar re_p))"

definition breaker_active :: "e_params \<Rightarrow> int \<Rightarrow> e_state \<Rightarrow> bool" where
  "breaker_active p i st \<longleftrightarrow> ep_max_dd p \<noteq> None \<and> i < es_breaker_until st"

section \<open>Holding a position\<close>

definition profit_atr :: "numpy_ops \<Rightarrow> signal_bar \<Rightarrow> e_position \<Rightarrow> pyfloat" where
  "profit_atr ops sig pos =
     (if flt (Fin 0) (sg_atr sig)
      then np_div ops (if po_side pos = ''long'' then fsub (po_mark pos) (po_entry_p pos)
                       else fsub (po_entry_p pos) (po_mark pos)) (sg_atr sig)
      else Fin 0)"

definition trailing_stop :: "numpy_ops \<Rightarrow> e_params \<Rightarrow> signal_bar \<Rightarrow> e_position \<Rightarrow> e_position" where
  "trailing_stop ops p sig pos =
     (case ep_trailing p of
        None \<Rightarrow> pos
      | Some t \<Rightarrow>
          if (case ep_delayed p of None \<Rightarrow> True | Some d \<Rightarrow> \<not> flt (profit_atr ops sig pos) d)
          then pos\<lparr>po_sl := if po_side pos = ''long'' then py_max (po_sl pos) (fsub (po_mark pos) (fmul t (sg_atr sig)))
                            else py_min (po_sl pos) [fadd (po_mark pos) (fmul t (sg_atr sig))]\<rparr>
          else pos)"

text \<open>Has the bar reached a level that closes the position\<close>

definition at_level :: "string \<Rightarrow> minute_bar \<Rightarrow> pyfloat \<Rightarrow> bool" where
  "at_level side bar level = (if side = ''long'' then fle (mb_low bar) level else fle level (mb_high bar))"

definition structure_level :: "string \<Rightarrow> signal_bar \<Rightarrow> pyfloat" where
  "structure_level side sig = (if side = ''long'' then prev_low_1 sig else prev_high_1 sig)"

definition tier3_level :: "signal_bar \<Rightarrow> e_position \<Rightarrow> pyfloat" where
  "tier3_level sig pos =
     (if po_side pos = ''long'' then py_max (prev_low_1 sig) (fsub (po_mark pos) (fmul (fl (15 / 10)) (sg_atr sig)))
      else py_min (prev_high_1 sig) [fadd (po_mark pos) (fmul (fl (15 / 10)) (sg_atr sig))])"

definition tier2_level :: "signal_bar \<Rightarrow> e_position \<Rightarrow> pyfloat" where
  "tier2_level sig pos =
     (if po_side pos = ''long'' then py_max (prev_low_1 sig) (fadd (po_entry_p pos) (fmul (fl (5 / 10)) (sg_atr sig)))
      else py_min (prev_high_1 sig) [fsub (po_entry_p pos) (fmul (fl (5 / 10)) (sg_atr sig))])"

definition e_exit_signal :: "numpy_ops \<Rightarrow> e_params \<Rightarrow> signal_bar \<Rightarrow> minute_bar \<Rightarrow> e_position \<Rightarrow> (pyfloat \<times> string) option" where
  "e_exit_signal ops p sig bar pos =
     (let side = po_side pos;
          leave = (\<lambda>level reason. if at_level side bar level then Some (level, reason) else None)
      in if at_level side bar (po_sl pos) then Some (po_sl pos, ''SL'')
         else if ep_tiered p \<and> po_protected pos \<and> fle (Fin 3) (profit_atr ops sig pos) then leave (tier3_level sig pos) ''PT-T3''
         else if ep_tiered p \<and> po_protected pos \<and> fle (Fin 2) (profit_atr ops sig pos) then leave (tier2_level sig pos) ''PT-T2''
         else if po_protected pos then leave (structure_level side sig) ''PT''
         else None)"

text \<open>The end of a bar that did not close the position: water mark, protection, trailing stop\<close>

definition move_mark :: "minute_bar \<Rightarrow> e_position \<Rightarrow> e_position" where
  "move_mark bar pos =
     pos\<lparr>po_mark := if po_side pos = ''long'' then py_max (po_mark pos) (mb_high bar) else py_min (po_mark pos) [mb_low bar]\<rparr>"

definition protect :: "numpy_ops \<Rightarrow> e_params \<Rightarrow> signal_bar \<Rightarrow> minute_bar \<Rightarrow> e_position \<Rightarrow> e_position" where
  "protect ops p sig bar pos =
     (let reached =
            (if ep_tiered p then fle (bp_profit_protect p) (profit_atr ops sig pos)
             else if po_side pos = ''long''
             then fle (fadd (po_entry_p pos) (fmul (bp_profit_protect p) (sg_atr sig))) (mb_high bar)
             else fle (mb_low bar) (fsub (po_entry_p pos) (fmul (bp_profit_protect p) (sg_atr sig))))
      in if reached \<and> \<not> po_protected pos then pos\<lparr>po_protected := True\<rparr> else pos)"

definition e_close ::
  "numpy_ops \<Rightarrow> e_params \<Rightarrow> e_position \<Rightarrow> pyfloat \<Rightarrow> string \<Rightarrow> datetime \<Rightarrow> e_state \<Rightarrow> e_state" where
  "e_close ops p pos raw_p reason time st =
     (let exit_p = exit_price (bp_slippage p) (po_side pos) raw_p;
          balance = settle ops (po_side pos) (po_entry_p pos) (po_notional pos) exit_p (es_balance st)
      in st\<lparr>es_balance := balance,
            es_log := es_log st @ [\<lparr>lr_time = time, lr_type = ''EXIT'', lr_price = exit_p, lr_reason = reason,
                                    lr_notional = po_notional pos, lr_bal = balance\<rparr>]\<rparr>)"

text \<open>\<open>f'{x:.2%}'\<close>: the number times hundred with two places\<close>

definition percent2 :: "pyfloat \<Rightarrow> string" where
  "percent2 x = fixed_str 2 (fmul x (Fin 100)) @ ''%''"

definition check_breaker :: "numpy_ops \<Rightarrow> e_params \<Rightarrow> int \<Rightarrow> datetime \<Rightarrow> e_state \<Rightarrow> e_state" where
  "check_breaker ops p i time st0 =
     (let st = (if flt (es_peak st0) (es_balance st0) then st0\<lparr>es_peak := es_balance st0\<rparr> else st0)
      in case ep_max_dd p of
           None \<Rightarrow> st
         | Some limit \<Rightarrow>
             if flt (Fin 0) (es_peak st)
             then let current_dd = np_div ops (fsub (es_peak st) (es_balance st)) (es_peak st)
                  in if flt limit current_dd
                     then st\<lparr>es_breaker_until := i + ep_cooldown p,
                             es_log := es_log st @ [\<lparr>lr_time = time, lr_type = ''CIRCUIT_BREAKER'', lr_price = Fin 0,
                                                     lr_reason = ''DD:'' @ percent2 current_dd, lr_notional = Fin 0,
                                                     lr_bal = es_balance st\<rparr>]\<rparr>
                     else st
             else st)"

definition e_hold :: "numpy_ops \<Rightarrow> e_params \<Rightarrow> int \<Rightarrow> signal_bar \<Rightarrow> minute_bar \<Rightarrow> e_position \<Rightarrow> e_state \<Rightarrow> e_state" where
  "e_hold ops p i sig bar pos st =
     (let pos1 = trailing_stop ops p sig pos
      in case e_exit_signal ops p sig bar pos1 of
           None \<Rightarrow> st\<lparr>es_position := Some (trailing_stop ops p sig (protect ops p sig bar (move_mark bar pos1)))\<rparr>
         | Some (raw_p, reason) \<Rightarrow>
             check_breaker ops p i (mb_time bar)
               ((e_close ops p pos1 raw_p reason (mb_time bar) st)
                  \<lparr>es_last_exit_reason := Some reason, es_last_exit_side := Some (po_side pos1),
                   es_last_exit_bar := i, es_position := None\<rparr>))"

section \<open>The loops\<close>

definition e_step ::
  "numpy_ops \<Rightarrow> e_params \<Rightarrow> int \<Rightarrow> signal_bar \<Rightarrow> pyfloat option \<Rightarrow> minute_bar \<Rightarrow> e_state \<Rightarrow> e_state res" where
  "e_step ops p i sig prev_close bar st =
     (case es_position st of
        None \<Rightarrow>
          if breaker_active p i st then Inr st
          else if fst (resolve_regime_ready sig) then e_enter p i sig ''long'' prev_close bar st
          else if snd (resolve_regime_ready sig) then e_enter p i sig ''short'' prev_close bar st
          else Inr st
      | Some pos \<Rightarrow> Inr (e_hold ops p i sig bar pos st))"

fun e_window ::
  "numpy_ops \<Rightarrow> e_params \<Rightarrow> int \<Rightarrow> signal_bar \<Rightarrow> pyfloat option \<Rightarrow> minute_bar list \<Rightarrow> e_state \<Rightarrow> e_state res" where
  "e_window ops p i sig prev_close [] st = Inr st"
| "e_window ops p i sig prev_close (bar # bars) st =
     res_bind (e_step ops p i sig prev_close bar st) (e_window ops p i sig (Some (mb_close bar)) bars)"

definition e_signal_bar :: "int \<Rightarrow> e_state \<Rightarrow> e_state" where
  "e_signal_bar i st =
     (let st1 = st\<lparr>es_trades_in_bar := 0\<rparr>;
          st2 = (if REENTRY_TIMEOUT < i - es_last_exit_bar st1 then st1\<lparr>es_last_exit_side := None\<rparr> else st1)
      in if REENTRY_TIMEOUT < i - es_pending_bar st2 then st2\<lparr>es_pending_side := None\<rparr> else st2)"

fun e_signals ::
  "numpy_ops \<Rightarrow> e_params \<Rightarrow> minute_bar list \<Rightarrow> int \<Rightarrow> signal_bar list \<Rightarrow> e_state \<Rightarrow> e_state res" where
  "e_signals ops p df_1min i (sig # nxt # df_4h) st =
     res_bind
       (let window = window_of (sg_time sig) (sg_time nxt) df_1min
        in if window = [] \<or> sg_atr sig = NaN then Inr st
           else e_window ops p i sig None window (e_signal_bar i st))
       (e_signals ops p df_1min (i + 1) (nxt # df_4h))"
| "e_signals ops p df_1min i df_4h st = Inr st"

definition e_mark_to_market :: "numpy_ops \<Rightarrow> e_params \<Rightarrow> minute_bar list \<Rightarrow> e_state \<Rightarrow> e_state" where
  "e_mark_to_market ops p df_1min st =
     (case es_position st of
        None \<Rightarrow> st
      | Some pos \<Rightarrow>
          if df_1min = [] then st
          else e_close ops p pos (mb_close (last df_1min)) ''FinalMarkToMarket'' (mb_time (last df_1min)) st)"

definition e_initial_state :: "pyfloat \<Rightarrow> e_state" where
  "e_initial_state initial_balance =
     \<lparr>es_balance = initial_balance, es_peak = initial_balance, es_position = None, es_log = [], es_last_exit_bar = - 999,
      es_last_exit_reason = None, es_last_exit_side = None, es_pending_side = None, es_pending_bar = - 999,
      es_breaker_until = - 999, es_trades_in_bar = 0\<rparr>"

record e_args = bt_args +
  ea_trailing_stop_atr :: "pyfloat option"
  ea_delayed_trailing_activation :: "pyfloat option"
  ea_tiered_protection :: bool
  ea_max_drawdown_pct :: "pyfloat option"
  ea_cooldown_bars :: int
  ea_reentry_mode :: string
  ea_zero_initial_mode :: string

text \<open>\<open>reentry_mode\<close> rewrites the schedule of sizes, which is not empty.\<close>

definition schedule_for :: "string \<Rightarrow> pyfloat list \<Rightarrow> pyfloat list" where
  "schedule_for reentry_mode sizes =
     (let base = hd sizes; n = max (length sizes) 3
      in if reentry_mode = ''fixed'' then replicate n base
         else if reentry_mode = ''decreasing'' then map (\<lambda>i. fmul base (fl ((1 / 2) ^ i))) [0..<n]
         else sizes)"

definition e_params_of :: "e_args \<Rightarrow> e_params res" where
  "e_params_of a =
     res_bind (bt_params_of (bt_args.truncate a)) (\<lambda>p.
     res_bind (normalize_zero_initial_mode (ea_zero_initial_mode a)) (\<lambda>zero_initial_mode.
       Inr (bt_params.extend (p\<lparr>bp_schedule := schedule_for (ea_reentry_mode a) (bp_schedule p)\<rparr>)
              (e_params.fields zero_initial_mode (ea_trailing_stop_atr a) (ea_delayed_trailing_activation a)
                 (ea_tiered_protection a) (ea_max_drawdown_pct a) (ea_cooldown_bars a)))))"

definition run_backtest_enhanced ::
  "numpy_ops \<Rightarrow> minute_bar list \<Rightarrow> signal_bar list \<Rightarrow> pyfloat \<Rightarrow> e_args \<Rightarrow> log_row list res" where
  "run_backtest_enhanced ops df_1min df_4h initial_balance args =
     res_bind (apply_reentry_anchor_levels df_4h (ba_reentry_anchor_levels args)) (\<lambda>signals.
     res_bind (e_params_of args) (\<lambda>p.
     res_bind (e_signals ops p df_1min 0 signals (e_initial_state initial_balance)) (\<lambda>st.
       Inr (es_log (e_mark_to_market ops p df_1min st)))))"

section \<open>One bar\<close>

text \<open>
  A property of the state holds after a bar without a position if opening a position keeps it, and so does
  forgetting or remembering a side. A position is opened only while the bar has trades left.
\<close>

lemma e_enter_keeps:
  assumes "e_enter p i sig side prev_close bar st = Inr st'" and "P st"
    and open': "\<And>st st1 price usage reason prot. e_open p sig side price usage reason prot (mb_time bar) st = Inr st1 \<Longrightarrow>
      es_trades_in_bar st < max 1 (bp_max_trades p) \<Longrightarrow> P st \<Longrightarrow> P st1"
    and frame: "\<And>st a b c. P st \<Longrightarrow> P (st\<lparr>es_last_exit_side := a, es_pending_side := b, es_pending_bar := c\<rparr>)"
  shows "P st'"
proof -
  have frame1: "P (st\<lparr>es_pending_side := b, es_pending_bar := c\<rparr>)" "P (st\<lparr>es_last_exit_side := a, es_pending_side := b\<rparr>)" if "P st"
    for st a b c using frame [of st, where a = "es_last_exit_side st" and b = b and c = c]
      frame [of st, where a = a and b = b and c = "es_pending_bar st"] that by simp_all
  obtain re_p st1 where st1: "e_initial p i sig side bar st = Inr st1" "e_reentry p i sig side prev_close bar re_p st1 = Inr st'"
    using assms(1) by (auto simp: e_enter_def res_bind_eq_Inr_iff)
  have "P st1"
    using st1(1) assms(2) frame1(1) open' by (auto simp: e_initial_def split: if_splits)
  show ?thesis
  proof (cases "exit_window i side st1 \<or> zero_window i side st1")
    case False
    then show ?thesis using st1(2) \<open>P st1\<close> by (simp add: e_reentry_def)
  next
    case True
    then obtain trig raw where trig: "reentry_triggered side (bp_trigger_mode p) (mb_high bar) (mb_low bar) (mb_close bar)
        prev_close re_p (bp_confirm p) = Inr (trig, raw)"
      using st1(2) by (auto simp: e_reentry_def Let_def res_bind_eq_Inr_iff)
    show ?thesis
    proof (cases trig)
      case False
      then show ?thesis using True trig st1(2) \<open>P st1\<close> by (simp add: e_reentry_def Let_def)
    next
      case True
      then obtain reason size st2 a b where st2: "(if es_trades_in_bar st1 < bp_max_trades p
          then res_bind size (\<lambda>usage. e_open p sig side (entry_price (bp_slippage p) side raw) usage reason
                 (reason = ''PT-Reentry'') (mb_time bar) st1) else Inr st1) = Inr st2"
          "st' = st2\<lparr>es_last_exit_side := a, es_pending_side := b\<rparr>"
        using \<open>exit_window i side st1 \<or> zero_window i side st1\<close> trig st1(2)
        unfolding e_reentry_def Let_def if_P [OF \<open>exit_window i side st1 \<or> zero_window i side st1\<close>]
        by (simp only: trig res_bind_Inr prod.case if_True) (auto simp only: res_bind_eq_Inr_iff)
      have "P st2" using st2(1) \<open>P st1\<close> open' by (auto simp: res_bind_eq_Inr_iff split: if_splits)
      then show ?thesis using frame1(2) st2(2) by blast
    qed
  qed
qed

lemma e_open_eq:
  assumes "e_open p sig side price usage reason prot t st = Inr st'"
  obtains sl where "es_position st' = Some \<lparr>po_side = side, po_entry_p = price, po_sl = sl, po_protected = prot,
        po_notional = fmul (es_balance st) usage, po_mark = price\<rparr>"
      "es_balance st' = fsub (es_balance st) (fmul (fmul (es_balance st) usage) COMMISSION)"
      "es_log st' = es_log st @ [\<lparr>lr_time = t, lr_type = entry_type side, lr_price = price, lr_reason = reason,
         lr_notional = fmul (es_balance st) usage, lr_bal = es_balance st'\<rparr>]"
      "es_trades_in_bar st' = es_trades_in_bar st + 1"
  using assms that by (auto simp: e_open_def Let_def res_bind_eq_Inr_iff)

lemma e_step_cases:
  assumes "e_step ops p i sig prev_close bar st = Inr st'"
  obtains (idle) "st' = st"
  | (enter) side where "es_position st = None" "e_enter p i sig side prev_close bar st = Inr st'"
  | (hold) pos where "es_position st = Some pos" "st' = e_hold ops p i sig bar pos st"
proof (cases "es_position st")
  case None
  then consider "st' = st" | "e_enter p i sig ''long'' prev_close bar st = Inr st'" | "e_enter p i sig ''short'' prev_close bar st = Inr st'"
    using assms unfolding e_step_def None option.case by (metis Inr_inject)
  then show thesis using idle enter None by cases blast+
next
  case (Some pos)
  then show thesis using assms hold by (simp add: e_step_def)
qed

section \<open>The trailing stop only tightens\<close>

definition tightened :: "e_position \<Rightarrow> e_position \<Rightarrow> bool" where
  "tightened pos pos' \<longleftrightarrow> po_side pos' = po_side pos \<and> po_entry_p pos' = po_entry_p pos \<and> po_notional pos' = po_notional pos
     \<and> (po_protected pos \<longrightarrow> po_protected pos') \<and> no_worse (po_side pos) (po_sl pos) (po_sl pos')
     \<and> no_worse (po_side pos) (po_mark pos) (po_mark pos')"

lemma tightened_refl [simp]: "tightened pos pos"
  by (simp add: tightened_def no_worse_def)

lemma tightened_trans: "tightened a b \<Longrightarrow> tightened b c \<Longrightarrow> tightened a c"
  by (auto simp: tightened_def intro: no_worse_trans)

lemma tightened_trailing: "tightened pos (trailing_stop ops p sig pos)"
  by (auto simp: trailing_stop_def tightened_def no_worse_def py_max_def split: option.split)

lemma tightened_mark: "tightened pos (move_mark bar pos)"
  by (auto simp: move_mark_def tightened_def no_worse_def py_max_def)

lemma tightened_protect: "tightened pos (protect ops p sig bar pos)"
  by (simp add: protect_def tightened_def no_worse_def Let_def)

lemma tightened_bar:
  "tightened pos (trailing_stop ops p sig (protect ops p sig bar (move_mark bar (trailing_stop ops p sig pos))))"
  by (rule tightened_trans [OF tightened_trans [OF tightened_trans [OF tightened_trailing tightened_mark] tightened_protect]
        tightened_trailing])

lemma check_breaker_log: "\<exists>rows. es_log (check_breaker ops p i t st) = es_log st @ rows"
  by (cases "ep_max_dd p") (simp_all add: check_breaker_def Let_def)

lemma hold_exit_log:
  assumes "e_exit_signal ops p sig bar (trailing_stop ops p sig pos) = Some (raw, reason)"
  shows "\<exists>r rows. es_log (e_hold ops p i sig bar pos st) = es_log st @ r # rows"
proof -
  define closed where "closed = (e_close ops p (trailing_stop ops p sig pos) raw reason (mb_time bar) st)
      \<lparr>es_last_exit_reason := Some reason, es_last_exit_side := Some (po_side (trailing_stop ops p sig pos)),
       es_last_exit_bar := i, es_position := None\<rparr>"
  have "e_hold ops p i sig bar pos st = check_breaker ops p i (mb_time bar) closed"
    using assms by (simp add: e_hold_def Let_def closed_def)
  moreover obtain rows where "es_log (check_breaker ops p i (mb_time bar) closed) = es_log closed @ rows"
    using check_breaker_log by blast
  ultimately show ?thesis by (simp add: closed_def e_close_def Let_def)
qed

lemma hold_keeps_log:
  assumes "es_log (e_hold ops p i sig bar pos st) = es_log st"
  shows "\<exists>pos'. e_hold ops p i sig bar pos st = st\<lparr>es_position := Some pos'\<rparr> \<and> tightened pos pos'"
proof (cases "e_exit_signal ops p sig bar (trailing_stop ops p sig pos)")
  case None
  then show ?thesis
    by (auto simp: e_hold_def Let_def intro: tightened_bar)
next
  case (Some a)
  then obtain r rows where "es_log (e_hold ops p i sig bar pos st) = es_log st @ r # rows"
    using hold_exit_log by (cases a) blast
  then show ?thesis using assms by simp
qed

lemma log_grows_enter:
  assumes "e_enter p i sig side prev_close bar st = Inr st'"
  shows "\<exists>rows. es_log st' = es_log st @ rows \<and> (rows = [] \<longrightarrow> es_position st' = es_position st)"
  using assms
proof (rule e_enter_keeps [where P = "\<lambda>s. \<exists>rows. es_log s = es_log st @ rows \<and> (rows = [] \<longrightarrow> es_position s = es_position st)"])
  fix s s1 price usage reason prot
  assume "e_open p sig side price usage reason prot (mb_time bar) s = Inr s1"
    "\<exists>rows. es_log s = es_log st @ rows \<and> (rows = [] \<longrightarrow> es_position s = es_position st)"
  then show "\<exists>rows. es_log s1 = es_log st @ rows \<and> (rows = [] \<longrightarrow> es_position s1 = es_position st)"
    by (auto elim!: e_open_eq)
qed auto

lemma log_grows_hold: "\<exists>rows. es_log (e_hold ops p i sig bar pos st) = es_log st @ rows"
proof (cases "e_exit_signal ops p sig bar (trailing_stop ops p sig pos)")
  case (Some a)
  then show ?thesis using hold_exit_log by (cases a) blast
qed (simp add: e_hold_def Let_def)

lemma log_grows_step:
  assumes "e_step ops p i sig prev_close bar st = Inr st'"
  shows "\<exists>rows. es_log st' = es_log st @ rows"
  using assms
proof (cases rule: e_step_cases)
  case (enter side)
  then show ?thesis using log_grows_enter [OF enter(2)] by blast
next
  case (hold pos)
  then show ?thesis using log_grows_hold by simp
qed simp

lemma log_grows_window:
  "e_window ops p i sig prev_close bars st = Inr st' \<Longrightarrow> \<exists>rows. es_log st' = es_log st @ rows"
proof (induction bars arbitrary: prev_close st)
  case (Cons bar bars)
  then obtain st1 where "e_step ops p i sig prev_close bar st = Inr st1"
    "e_window ops p i sig (Some (mb_close bar)) bars st1 = Inr st'" by (auto simp: res_bind_eq_Inr_iff)
  then show ?case using log_grows_step Cons.IH by (metis append.assoc)
qed simp

text \<open>
  C18. While a position stays open its stop never moves against it: over any run of bars that adds nothing to the
  log, the stop and the water mark of a long position only rise and those of a short one only fall, a
  position once protected stays so, and side, entry price and size are fixed. This holds for every
  setting of the trailing stop, its delayed activation and the tiers, also where levels are nan.
\<close>

theorem stop_only_tightens:
  assumes "e_window ops p i sig prev_close bars st = Inr st'" and "es_log st' = es_log st" and "es_position st = Some pos"
  shows "\<exists>pos'. es_position st' = Some pos' \<and> tightened pos pos'"
  using assms
proof (induction bars arbitrary: prev_close st pos)
  case (Cons bar bars)
  then obtain st1 where st1: "e_step ops p i sig prev_close bar st = Inr st1"
    "e_window ops p i sig (Some (mb_close bar)) bars st1 = Inr st'" by (auto simp: res_bind_eq_Inr_iff)
  then have eq: "st1 = e_hold ops p i sig bar pos st" using Cons.prems(3) by (simp add: e_step_def)
  obtain r1 r2 where "es_log st1 = es_log st @ r1" "es_log st' = es_log st1 @ r2"
    using log_grows_step [OF st1(1)] log_grows_window [OF st1(2)] by blast
  then have same: "es_log st1 = es_log st" "es_log st' = es_log st1" using Cons.prems(2) by simp_all
  then obtain pos1 where "es_position st1 = Some pos1" "tightened pos pos1" using hold_keeps_log eq by fastforce
  then show ?case using Cons.IH [OF st1(2) same(2)] tightened_trans by blast
qed simp

section \<open>The breaker\<close>

lemma breaker_window:
  "es_position st = None \<Longrightarrow> breaker_active p i st \<Longrightarrow> e_window ops p i sig prev_close bars st = Inr st"
  by (induction bars arbitrary: prev_close) (simp_all add: e_step_def)

text \<open>
  What a pause before the signal bar with index \<open>stop\<close> does to a state: the counter of the bar is reset, and the
  sides remembered for a re-entry are dropped where the last bar is past their time.
\<close>

definition paused :: "int \<Rightarrow> e_state \<Rightarrow> e_state \<Rightarrow> bool" where
  "paused stop st st' \<longleftrightarrow>
     (\<exists>n side pending. st' = st\<lparr>es_trades_in_bar := n, es_last_exit_side := side, es_pending_side := pending\<rparr>
        \<and> (n = es_trades_in_bar st \<or> n = 0)
        \<and> (side = es_last_exit_side st \<or> side = None \<and> REENTRY_TIMEOUT < stop - 1 - es_last_exit_bar st)
        \<and> (pending = es_pending_side st \<or> pending = None \<and> REENTRY_TIMEOUT < stop - 1 - es_pending_bar st))"

lemma paused_refl: "paused stop st st"
  unfolding paused_def
  by (rule exI [of _ "es_trades_in_bar st"], rule exI [of _ "es_last_exit_side st"], rule exI [of _ "es_pending_side st"]) simp

lemma paused_signal_bar: "i < stop \<Longrightarrow> paused stop st (e_signal_bar i st)"
  unfolding paused_def
  by (rule exI [of _ 0], rule exI [of _ "es_last_exit_side (e_signal_bar i st)"],
      rule exI [of _ "es_pending_side (e_signal_bar i st)"]) (simp add: e_signal_bar_def Let_def)

lemma paused_trans:
  assumes "paused stop st st1" and "paused stop st1 st2"
  shows "paused stop st st2"
proof -
  obtain n side pending where 1: "st1 = st\<lparr>es_trades_in_bar := n, es_last_exit_side := side, es_pending_side := pending\<rparr>"
    "n = es_trades_in_bar st \<or> n = 0" "side = es_last_exit_side st \<or> side = None \<and> REENTRY_TIMEOUT < stop - 1 - es_last_exit_bar st"
    "pending = es_pending_side st \<or> pending = None \<and> REENTRY_TIMEOUT < stop - 1 - es_pending_bar st"
    using assms(1) unfolding paused_def by blast
  obtain n' side' pending' where 2: "st2 = st1\<lparr>es_trades_in_bar := n', es_last_exit_side := side', es_pending_side := pending'\<rparr>"
    "n' = es_trades_in_bar st1 \<or> n' = 0" "side' = es_last_exit_side st1 \<or> side' = None \<and> REENTRY_TIMEOUT < stop - 1 - es_last_exit_bar st1"
    "pending' = es_pending_side st1 \<or> pending' = None \<and> REENTRY_TIMEOUT < stop - 1 - es_pending_bar st1"
    using assms(2) unfolding paused_def by blast
  show ?thesis
    unfolding paused_def
    by (rule exI [of _ n'], rule exI [of _ side'], rule exI [of _ pending']) (use 1 2 in auto)
qed

text \<open>
  C35. The breaker pauses trading: with a drawdown limit set and no position open, a run over signal bars
  that all lie before \<open>circuit_breaker_until\<close> succeeds whatever the prices and leaves balance, peak, position, log, breaker and the bar and
  reason of the last exit as they are. Only three fields may change: the counter of trades in the bar, which is reset,
  and the sides remembered for a re-entry after an exit or after an untraded breakout, each of which is
  dropped only once the last signal bar is more than \<open>REENTRY_TIMEOUT\<close> bars past the bar that set it.
\<close>

theorem breaker_pauses_trading:
  assumes "ep_max_dd p \<noteq> None" and "es_position st = None" and "i + int (length df_4h) - 1 \<le> es_breaker_until st"
  shows "\<exists>st'. e_signals ops p df_1min i df_4h st = Inr st'
     \<and> (\<exists>n side pending. st' = st\<lparr>es_trades_in_bar := n, es_last_exit_side := side, es_pending_side := pending\<rparr>
          \<and> (n = es_trades_in_bar st \<or> n = 0)
          \<and> (side = es_last_exit_side st
               \<or> side = None \<and> REENTRY_TIMEOUT < i + int (length df_4h) - 2 - es_last_exit_bar st)
          \<and> (pending = es_pending_side st
               \<or> pending = None \<and> REENTRY_TIMEOUT < i + int (length df_4h) - 2 - es_pending_bar st))"
proof -
  have "\<exists>st'. e_signals ops p df_1min i df_4h st = Inr st' \<and> paused (i + int (length df_4h) - 1) st st'"
    using assms
  proof (induction ops p df_1min i df_4h st rule: e_signals.induct)
    case (1 ops p df i sig nxt sigs st)
    let ?stop = "i + int (length (sig # nxt # sigs)) - 1"
    define w where "w = window_of (sg_time sig) (sg_time nxt) df"
    define st1 where "st1 = (if w = [] \<or> sg_atr sig = NaN then st else e_signal_bar i st)"
    have p1: "paused ?stop st st1" by (simp add: st1_def paused_refl paused_signal_bar)
    have fields: "es_position st1 = None" "es_breaker_until st1 = es_breaker_until st"
      using "1.prems"(2) by (simp_all add: st1_def e_signal_bar_def Let_def)
    have "breaker_active p i (e_signal_bar i st)" "es_position (e_signal_bar i st) = None"
      using "1.prems" by (simp_all add: breaker_active_def e_signal_bar_def Let_def)
    then have run: "(let window = window_of (sg_time sig) (sg_time nxt) df in if window = [] \<or> sg_atr sig = NaN then Inr st
        else e_window ops p i sig None window (e_signal_bar i st)) = Inr st1"
      using breaker_window by (simp add: st1_def w_def Let_def)
    obtain st2 where "e_signals ops p df (i + 1) (nxt # sigs) st1 = Inr st2" "paused ?stop st1 st2"
      using "1.IH" [OF run] "1.prems" fields by (auto simp: algebra_simps)
    then show ?case using paused_trans [OF p1] run by (simp add: Let_def)
  qed (simp_all add: paused_refl)
  then show ?thesis unfolding paused_def by (simp add: algebra_simps)
qed

section \<open>Invariants of a run\<close>

text \<open>
  What a property of the state has to satisfy to hold throughout a run: a bar keeps it at the time of the
  bar, the start of a signal bar keeps it, and it does not expire.
\<close>

locale timed_invariant =
  fixes ops :: numpy_ops and p :: e_params and I :: "datetime \<Rightarrow> e_state \<Rightarrow> bool"
  assumes later: "I t st \<Longrightarrow> t \<le> t' \<Longrightarrow> I t' st"
    and step: "e_step ops p i sig prev_close bar st = Inr st' \<Longrightarrow> I (mb_time bar) st \<Longrightarrow> I (mb_time bar) st'"
    and signal: "I t st \<Longrightarrow> I t (e_signal_bar i st)"
begin

lemma over_window:
  assumes "e_window ops p i sig prev_close bars st = Inr st'" and "I t st" and "sorted (t # map mb_time bars)"
  shows "I (last (t # map mb_time bars)) st'"
  using assms
proof (induction bars arbitrary: prev_close st t)
  case (Cons bar bars)
  obtain st1 where st1: "e_step ops p i sig prev_close bar st = Inr st1"
      "e_window ops p i sig (Some (mb_close bar)) bars st1 = Inr st'"
    using Cons.prems(1) by (auto simp: res_bind_eq_Inr_iff)
  have "I (mb_time bar) st1" using step [OF st1(1)] later [OF Cons.prems(2)] Cons.prems(3) by simp
  then show ?case using Cons.IH [OF st1(2)] Cons.prems(3) by simp
qed simp

lemma over_signals:
  assumes "e_signals ops p df i sigs st = Inr st'" and "I t st" and "t \<le> T" and "sigs \<noteq> [] \<Longrightarrow> t \<le> sg_time (hd sigs)"
    and "sorted (map sg_time sigs)" and "sorted (map mb_time df)" and "\<forall>b \<in> set df. mb_time b \<le> T"
  shows "I T st'"
  using assms
proof (induction sigs arbitrary: t i st)
  case Nil
  then show ?case using later by auto
next
  case (Cons sig sigs)
  show ?case
  proof (cases sigs)
    case Nil
    then show ?thesis using Cons.prems later by auto
  next
    case (Cons nxt rest)
    define w where "w = window_of (sg_time sig) (sg_time nxt) df"
    obtain st1 where bind: "(if w = [] \<or> sg_atr sig = NaN then Inr st else e_window ops p i sig None w (e_signal_bar i st)) = Inr st1"
        "e_signals ops p df (i + 1) (nxt # rest) st1 = Inr st'"
      using Cons.prems(1) unfolding Cons e_signals.simps res_bind_eq_Inr_iff Let_def w_def [symmetric] by blast
    have srt: "sorted (t # map mb_time w)" using sorted_window Cons.prems by (simp add: w_def)
    have in_w: "mb_time b \<le> sg_time nxt \<and> mb_time b \<le> T" if "b \<in> set w" for b
      using that Cons.prems(7) by (auto simp: w_def window_of_def)
    have "\<exists>t'. I t' st1 \<and> t' \<le> sg_time nxt \<and> t' \<le> T"
    proof (cases "w = [] \<or> sg_atr sig = NaN")
      case True
      then show ?thesis using bind(1) Cons.prems(2-5) Cons by (intro exI [of _ t]) auto
    next
      case False
      then have "I (last (t # map mb_time w)) st1" using over_window [OF _ signal [OF Cons.prems(2)] srt] bind(1) by simp
      moreover have "last (t # map mb_time w) = mb_time (last w)" using False by (simp add: last_map)
      ultimately show ?thesis using in_w [of "last w"] False by auto
    qed
    then obtain t' where t': "I t' st1" "t' \<le> sg_time nxt" "t' \<le> T" by blast
    show ?thesis using Cons.IH [of "i + 1" st1 t'] bind(2) t' Cons.prems Cons by simp
  qed
qed

end

section \<open>The log explains the balance\<close>

text \<open>
  Booking a log from a starting balance: an entry pays the commission on its notional and becomes the current
  one, an exit settles the current entry, and a breaker row changes nothing. The result is the balance
  at the end and the entry still open; \<open>None\<close> is a row that does not fit.
\<close>

definition side_of :: "log_row \<Rightarrow> string" where
  "side_of e = (if lr_type e = ''BUY'' then ''long'' else ''short'')"

fun book :: "numpy_ops \<Rightarrow> pyfloat \<Rightarrow> log_row option \<Rightarrow> log_row list \<Rightarrow> (pyfloat \<times> log_row option) option" where
  "book ops bal cur [] = Some (bal, cur)"
| "book ops bal cur (r # rs) =
     (if lr_type r = ''BUY'' \<or> lr_type r = ''SHORT''
      then if lr_bal r = fsub bal (fmul (lr_notional r) COMMISSION) then book ops (lr_bal r) (Some r) rs else None
      else if lr_type r = ''EXIT''
      then case cur of
             None \<Rightarrow> None
           | Some e \<Rightarrow>
               if lr_notional r = lr_notional e
                 \<and> lr_bal r = settle ops (side_of e) (lr_price e) (lr_notional e) (lr_price r) bal
               then book ops (lr_bal r) None rs else None
      else if lr_type r = ''CIRCUIT_BREAKER'' \<and> cur = None \<and> lr_bal r = bal then book ops bal None rs else None)"

lemma book_append: "book ops bal cur (xs @ ys) = Option.bind (book ops bal cur xs) (\<lambda>(b, c). book ops b c ys)"
  by (induction ops bal cur xs rule: book.induct) (auto split: option.split)

definition holds :: "e_position option \<Rightarrow> log_row option \<Rightarrow> bool" where
  "holds pos cur = (case pos of
     None \<Rightarrow> cur = None
   | Some q \<Rightarrow> (case cur of None \<Rightarrow> False | Some e \<Rightarrow>
       lr_type e = entry_type (po_side q) \<and> lr_price e = po_entry_p q \<and> lr_notional e = po_notional q))"

definition booked :: "numpy_ops \<Rightarrow> pyfloat \<Rightarrow> datetime \<Rightarrow> e_state \<Rightarrow> bool" where
  "booked ops b0 t st \<longleftrightarrow> sorted (map lr_time (es_log st)) \<and> (\<forall>r \<in> set (es_log st). lr_time r \<le> t)
     \<and> (\<exists>cur. book ops b0 None (es_log st) = Some (es_balance st, cur) \<and> holds (es_position st) cur)"

lemma booked_frame:
  assumes "es_log st' = es_log st" and "es_balance st' = es_balance st" and "es_position st' = es_position st"
  shows "booked ops b0 t st' = booked ops b0 t st"
  unfolding booked_def assms ..

lemma booked_open:
  assumes "e_open p sig side price usage reason prot t st = Inr st'" and "booked ops b0 t st"
  shows "booked ops b0 t st'"
  using assms
  by (auto elim!: e_open_eq simp: booked_def sorted_append book_append entry_type_def holds_def)

lemma settle_side_of: "lr_type e = entry_type side \<Longrightarrow> settle ops (side_of e) = settle ops side"
  by (auto simp: fun_eq_iff settle_def side_of_def entry_type_def split: if_splits)

lemma booked_close:
  assumes "booked ops b0 t st" and "es_position st = Some pos'"
    and "po_side pos' = po_side pos" "po_entry_p pos' = po_entry_p pos" "po_notional pos' = po_notional pos"
  shows "booked ops b0 t ((e_close ops p pos raw reason t st)
      \<lparr>es_last_exit_reason := x, es_last_exit_side := y, es_last_exit_bar := i, es_position := None\<rparr>)"
proof -
  obtain e where e: "book ops b0 None (es_log st) = Some (es_balance st, Some e)" "lr_type e = entry_type (po_side pos)"
      "lr_price e = po_entry_p pos" "lr_notional e = po_notional pos"
    using assms by (auto simp: booked_def holds_def split: option.splits)
  show ?thesis using assms(1) e settle_side_of [OF e(2)]
    by (simp add: booked_def e_close_def Let_def sorted_append book_append holds_def)
qed

lemma booked_breaker:
  assumes "booked ops b0 t st" and "es_position st = None"
  shows "booked ops b0 t (check_breaker ops p i t st)"
proof (cases "ep_max_dd p")
  case None
  then show ?thesis using assms(1) booked_frame [of "st\<lparr>es_peak := es_balance st\<rparr>" st ops b0 t] by (simp add: check_breaker_def Let_def)
next
  case (Some limit)
  define st1 where "st1 = (if flt (es_peak st) (es_balance st) then st\<lparr>es_peak := es_balance st\<rparr> else st)"
  have st1: "booked ops b0 t st1" "es_position st1 = None"
    using assms booked_frame [of st1 st ops b0 t] by (simp_all add: st1_def)
  then have "booked ops b0 t (st1\<lparr>es_breaker_until := u, es_log := es_log st1 @ [\<lparr>lr_time = t, lr_type = ''CIRCUIT_BREAKER'',
      lr_price = Fin 0, lr_reason = x, lr_notional = Fin 0, lr_bal = es_balance st1\<rparr>]\<rparr>)" for u x
    by (auto simp: booked_def sorted_append book_append holds_def)
  then show ?thesis using Some st1(1) by (simp add: check_breaker_def Let_def st1_def [symmetric])
qed

lemma booked_hold:
  assumes "booked ops b0 (mb_time bar) st" and "es_position st = Some pos"
  shows "booked ops b0 (mb_time bar) (e_hold ops p i sig bar pos st)"
proof (cases "e_exit_signal ops p sig bar (trailing_stop ops p sig pos)")
  case None
  have "tightened pos (trailing_stop ops p sig (protect ops p sig bar (move_mark bar (trailing_stop ops p sig pos))))"
    by (rule tightened_bar)
  then show ?thesis using assms None
    by (auto simp: e_hold_def Let_def booked_def holds_def tightened_def split: option.splits)
next
  case (Some a)
  have "tightened pos (trailing_stop ops p sig pos)" by (rule tightened_trailing)
  then have "booked ops b0 (mb_time bar) ((e_close ops p (trailing_stop ops p sig pos) raw reason (mb_time bar) st)
      \<lparr>es_last_exit_reason := x, es_last_exit_side := y, es_last_exit_bar := i, es_position := None\<rparr>)" for raw reason x y
    using booked_close [OF assms] by (simp add: tightened_def)
  then show ?thesis using Some booked_breaker by (cases a) (simp add: e_hold_def Let_def)
qed

interpretation books: timed_invariant ops p "booked ops b0" for ops p b0
proof (standard, goal_cases)
  case (1 t st t')
  then show ?case by (force simp: booked_def)
next
  case (2 i sig prev_close bar st st')
  from 2(1) show ?case
  proof (cases rule: e_step_cases)
    case (enter side)
    from enter(2) 2(2) show ?thesis
    proof (rule e_enter_keeps)
      show "booked ops b0 (mb_time bar) (s\<lparr>es_last_exit_side := a, es_pending_side := b, es_pending_bar := c\<rparr>)"
        if "booked ops b0 (mb_time bar) s" for s a b c
        using that by (subst booked_frame [of _ s]) simp_all
    qed (rule booked_open)
  next
    case (hold pos)
    then show ?thesis using booked_hold 2(2) by simp
  qed (use 2(2) in simp)
next
  case (3 t st i)
  then show ?case using booked_frame [of "e_signal_bar i st" st] by (simp add: e_signal_bar_def Let_def)
qed

lemma book_last: "book ops bal cur out = Some (b, c) \<Longrightarrow> out \<noteq> [] \<Longrightarrow> lr_bal (last out) = b"
proof (induction ops bal cur out rule: book.induct)
  case (2 ops bal cur r rs)
  then show ?case by (cases "rs = []") (auto split: if_splits option.splits)
qed simp

lemma e_signals_no_minutes: "e_signals ops p [] i sigs st = Inr st' \<Longrightarrow> st' = st"
  by (induction ops p "[] :: minute_bar list" i sigs st rule: e_signals.induct)
     (auto simp: window_of_def res_bind_eq_Inr_iff)

lemma booked_mark:
  assumes "booked ops b0 t st" and "df \<noteq> [] \<Longrightarrow> t = mb_time (last df)" and "df = [] \<Longrightarrow> es_position st = None"
  shows "sorted (map lr_time (es_log (e_mark_to_market ops p df st)))
     \<and> (\<exists>b. book ops b0 None (es_log (e_mark_to_market ops p df st)) = Some (b, None))"
proof (cases "es_position st")
  case None
  then show ?thesis using assms(1) by (auto simp: e_mark_to_market_def booked_def holds_def)
next
  case (Some pos)
  then have df: "df \<noteq> []" "t = mb_time (last df)" using assms by auto
  show ?thesis
    using booked_close [OF assms(1) Some, where pos = pos and p = p and raw = "mb_close (last df)" and reason = "''FinalMarkToMarket''"] Some df
    by (auto simp: e_mark_to_market_def booked_def holds_def)
qed

text \<open>
  C10. The log of the enhanced engine explains its balance: for minutes and signals in order of time the
  rows are in order, and booking them from the starting balance succeeds with nothing left open. So each
  row carries the balance that its entry or exit leads to, every exit settles the entry logged last before
  it, no exit is logged without one, and the position open at the end of the data is closed by exactly one
  row.
\<close>

theorem log_explains_balance:
  assumes "run_backtest_enhanced ops df_1min df_4h initial_balance args = Inr out"
    and "sorted (map mb_time df_1min)" and "sorted (map sg_time df_4h)"
  shows "sorted (map lr_time out) \<and> (\<exists>balance. book ops initial_balance None out = Some (balance, None)
     \<and> (out \<noteq> [] \<longrightarrow> lr_bal (last out) = balance))"
proof -
  obtain sigs p st where run: "apply_reentry_anchor_levels df_4h (ba_reentry_anchor_levels args) = Inr sigs"
      "e_signals ops p df_1min 0 sigs (e_initial_state initial_balance) = Inr st"
      "out = es_log (e_mark_to_market ops p df_1min st)"
    using assms(1) by (auto simp: run_backtest_enhanced_def res_bind_eq_Inr_iff)
  define T where "T = (if df_1min = [] then sg_time (hd sigs) else mb_time (last df_1min))"
  define t where "t = (if sigs = [] then T else min T (sg_time (hd sigs)))"
  have "booked ops initial_balance t (e_initial_state initial_balance)"
    by (simp add: booked_def e_initial_state_def holds_def)
  moreover have "\<forall>b \<in> set df_1min. mb_time b \<le> T"
    using assms(2) by (auto simp: T_def sorted_iff_nth_mono in_set_conv_nth last_conv_nth)
  moreover have "sorted (map sg_time sigs)" using anchor_times [OF run(1)] assms(3) by simp
  ultimately have "booked ops initial_balance T st"
    using books.over_signals [OF run(2), of initial_balance t T] assms(2) by (auto simp: t_def)
  moreover have "es_position st = None" if "df_1min = []"
    using e_signals_no_minutes [of ops p 0 sigs "e_initial_state initial_balance" st] run(2) that
    by (simp add: e_initial_state_def)
  ultimately show ?thesis
    using booked_mark [of ops initial_balance T st df_1min p] book_last unfolding run(3) by (auto simp: T_def)
qed

section \<open>Entries per signal bar\<close>

definition entries :: "log_row list \<Rightarrow> nat" where
  "entries rows = length (filter (\<lambda>r. lr_type r = ''BUY'' \<or> lr_type r = ''SHORT'') rows)"

lemma entries_append [simp]: "entries (xs @ ys) = entries xs + entries ys"
  by (simp add: entries_def)

definition entries_inv :: "e_params \<Rightarrow> log_row list \<Rightarrow> e_state \<Rightarrow> bool" where
  "entries_inv p old st \<longleftrightarrow> (\<exists>rows. es_log st = old @ rows \<and> es_trades_in_bar st = int (entries rows))
     \<and> es_trades_in_bar st \<le> max 1 (bp_max_trades p)"

lemma entries_inv_extend:
  assumes "entries_inv p old st" and "es_log st' = es_log st @ rows" and "es_trades_in_bar st' = es_trades_in_bar st + int (entries rows)"
    and "es_trades_in_bar st' \<le> max 1 (bp_max_trades p)"
  shows "entries_inv p old st'"
proof -
  obtain rows0 where "es_log st = old @ rows0" "es_trades_in_bar st = int (entries rows0)" using assms(1) by (auto simp: entries_inv_def)
  then show ?thesis using assms(2-4) unfolding entries_inv_def by (intro conjI exI [of _ "rows0 @ rows"]) auto
qed

lemma entries_inv_enter:
  assumes "e_enter p i sig side prev_close bar st = Inr st'" and "entries_inv p old st"
  shows "entries_inv p old st'"
  using assms
proof (rule e_enter_keeps)
  fix s s1 price usage reason prot
  assume op: "e_open p sig side price usage reason prot (mb_time bar) s = Inr s1" and "entries_inv p old s"
    and "es_trades_in_bar s < max 1 (bp_max_trades p)"
  then show "entries_inv p old s1"
    by (auto elim!: e_open_eq intro!: entries_inv_extend [of p old s s1] simp: entries_def entry_type_def)
qed (simp add: entries_inv_def)

lemma hold_adds_no_entry:
  "\<exists>rows. es_log (e_hold ops p i sig bar pos st) = es_log st @ rows \<and> entries rows = 0"
  "es_trades_in_bar (e_hold ops p i sig bar pos st) = es_trades_in_bar st"
proof -
  have breaker: "\<exists>rows. es_log (check_breaker ops p i t s) = es_log s @ rows \<and> entries rows = 0"
    "es_trades_in_bar (check_breaker ops p i t s) = es_trades_in_bar s" for t s
    by (cases "ep_max_dd p"; simp add: check_breaker_def Let_def entries_def)+
  show "\<exists>rows. es_log (e_hold ops p i sig bar pos st) = es_log st @ rows \<and> entries rows = 0"
  proof (cases "e_exit_signal ops p sig bar (trailing_stop ops p sig pos)")
    case (Some a)
    define closed where "closed = (e_close ops p (trailing_stop ops p sig pos) (fst a) (snd a) (mb_time bar) st)
        \<lparr>es_last_exit_reason := Some (snd a), es_last_exit_side := Some (po_side (trailing_stop ops p sig pos)),
         es_last_exit_bar := i, es_position := None\<rparr>"
    have "e_hold ops p i sig bar pos st = check_breaker ops p i (mb_time bar) closed"
      using Some by (cases a) (simp add: e_hold_def Let_def closed_def)
    moreover obtain r where "es_log closed = es_log st @ [r]" "entries [r] = 0"
      by (simp add: closed_def e_close_def Let_def entries_def)
    ultimately show ?thesis using breaker(1) [of "mb_time bar" closed] by (auto simp: entries_def)
  qed (simp add: e_hold_def Let_def entries_def)
  show "es_trades_in_bar (e_hold ops p i sig bar pos st) = es_trades_in_bar st"
    by (simp add: e_hold_def Let_def breaker(2) e_close_def split: option.split prod.split)
qed

lemma entries_inv_window:
  "e_window ops p i sig prev_close bars st = Inr st' \<Longrightarrow> entries_inv p old st \<Longrightarrow> entries_inv p old st'"
proof (induction bars arbitrary: prev_close st)
  case (Cons bar bars)
  obtain st1 where st1: "e_step ops p i sig prev_close bar st = Inr st1"
      "e_window ops p i sig (Some (mb_close bar)) bars st1 = Inr st'"
    using Cons.prems(1) by (auto simp: res_bind_eq_Inr_iff)
  from st1(1) have "entries_inv p old st1"
  proof (cases rule: e_step_cases)
    case (enter side)
    then show ?thesis using entries_inv_enter Cons.prems(2) by blast
  next
    case (hold pos)
    obtain rows where rows: "es_log st1 = es_log st @ rows" "entries rows = 0" using hold_adds_no_entry(1) hold(2) by blast
    show ?thesis
      by (rule entries_inv_extend [OF Cons.prems(2) rows(1)])
         (use rows(2) Cons.prems(2) hold(2) hold_adds_no_entry(2) in \<open>simp_all add: entries_inv_def\<close>)
  qed (use Cons.prems(2) in simp)
  then show ?case using Cons.IH [OF st1(2)] by simp
qed simp

text \<open>
  C20. Every entry of the enhanced engine counts: within a signal bar it opens at most
  \<open>max_trades_per_bar\<close> positions, at least one being possible, re-entries after a target and entries of the window
  after an untraded breakout included, and the counter of the bar is the number of entry rows it logged.
\<close>

theorem entries_per_bar_bounded:
  assumes "e_window ops p i sig None window (e_signal_bar i st) = Inr st'"
  shows "\<exists>rows. es_log st' = es_log st @ rows \<and> es_trades_in_bar st' = int (entries rows)
     \<and> int (entries rows) \<le> max 1 (bp_max_trades p)"
proof -
  have "entries_inv p (es_log st) (e_signal_bar i st)" by (simp add: entries_inv_def e_signal_bar_def Let_def entries_def)
  from entries_inv_window [OF assms this] show ?thesis by (auto simp: entries_inv_def)
qed

section \<open>Two entries on one bar\<close>

lemma e_open_total:
  assumes "bp_stop_mode p \<in> {''structural'', ''atr'', ''hybrid_tighter'', ''hybrid_wider''}"
  shows "\<exists>st'. e_open p sig side price usage reason prot t st = Inr st'"
proof -
  obtain sl where "resolve_stop_price side price sig (bp_stop_mode p) (bp_stop_loss_atr p) = Inr sl"
    using assms by (auto simp: resolve_stop_price_def Let_def)
  then show ?thesis by (simp add: e_open_def Let_def)
qed

text \<open>
  C36. A breakout and a re-entry on the same bar open two positions. The re-entry is checked after the
  breakout and not instead of it: suppose that breakouts are traded at once (not the window mode), that the
  signal bar has no trade yet and allows more than one, that it is armed and the bar breaks out, that the last
  position of this side was stopped within the re-entry time, with no window of an untraded breakout open, and that the
  same bar triggers the re-entry; the stop mode is known and the schedule not empty. Then the bar
  logs two entries, \<open>Initial\<close> and \<open>SL-Reentry\<close>, and no exit; the balance is the one before
  less the commission on the first entry and less the commission on the second; and the one position the state holds is the second, with its
  price and its size, so that nothing is left from which the first could be settled.
\<close>

theorem breakout_and_reentry_together:
  assumes no_window: "\<not> window_mode p" and free: "es_trades_in_bar st = 0" "1 < bp_max_trades p"
    and breakout: "breakout_armed side sig" "breakout_hit side sig bar"
    and after_stop: "exit_window i side st" "es_last_exit_reason st = Some ''SL''" "\<not> zero_window i side st"
    and touch: "resolve_reentry_price sig side (bp_anchor_levels p) (reentry_atr_of (bt_params.truncate p) side) = Inr re_p"
      "reentry_triggered side (bp_trigger_mode p) (mb_high bar) (mb_low bar) (mb_close bar) prev_close re_p (bp_confirm p) = Inr (True, raw)"
    and stop: "bp_stop_mode p \<in> {''structural'', ''atr'', ''hybrid_tighter'', ''hybrid_wider''}" and size': "bp_schedule p \<noteq> []"
  shows "\<exists>st' x y sl. e_enter p i sig side prev_close bar st = Inr st' \<and> es_log st' = es_log st @ [x, y]
     \<and> lr_type x = entry_type side \<and> lr_reason x = ''Initial''
     \<and> lr_price x = entry_price (bp_slippage p) side (breakout_price side sig bar)
     \<and> lr_notional x = fmul (es_balance st) (cash_usage_initial (bp_zero_initial p))
     \<and> lr_bal x = fsub (es_balance st) (fmul (lr_notional x) COMMISSION)
     \<and> lr_type y = entry_type side \<and> lr_reason y = ''SL-Reentry''
     \<and> lr_price y = entry_price (bp_slippage p) side raw
     \<and> lr_notional y = fmul (lr_bal x) (hd (bp_schedule p))
     \<and> lr_bal y = fsub (lr_bal x) (fmul (lr_notional y) COMMISSION)
     \<and> es_balance st' = lr_bal y
     \<and> es_position st' = Some \<lparr>po_side = side, po_entry_p = lr_price y, po_sl = sl, po_protected = False,
                              po_notional = lr_notional y, po_mark = lr_price y\<rparr>"
proof -
  obtain s1 where s1: "e_open p sig side (entry_price (bp_slippage p) side (breakout_price side sig bar))
      (cash_usage_initial (bp_zero_initial p)) ''Initial'' False (mb_time bar) st = Inr s1"
    using e_open_total [OF stop] by blast
  obtain s2 where s2: "e_open p sig side (entry_price (bp_slippage p) side raw) (hd (bp_schedule p)) ''SL-Reentry'' False
      (mb_time bar) s1 = Inr s2" using e_open_total [OF stop] by blast
  have init: "e_initial p i sig side bar st = Inr s1" using no_window free(1) breakout s1 by (simp add: e_initial_def)
  have keep: "es_last_exit_side s1 = es_last_exit_side st" "es_last_exit_bar s1 = es_last_exit_bar st" "es_trades_in_bar s1 = 1"
    "es_last_exit_reason s1 = es_last_exit_reason st" "es_pending_side s1 = es_pending_side st" "es_pending_bar s1 = es_pending_bar st"
    using s1 free(1) by (auto simp: e_open_def Let_def res_bind_eq_Inr_iff)
  have "exit_window i side s1" "\<not> zero_window i side s1" using after_stop keep by (simp_all add: exit_window_def zero_window_def)
  moreover have "e_reentry_size p True False 1 = Inr (hd (bp_schedule p))"
    using no_window size' by (simp add: e_reentry_size_def get_reentry_size_def hd_conv_nth)
  ultimately have "e_reentry p i sig side prev_close bar re_p s1 = Inr (s2\<lparr>es_last_exit_side := None, es_pending_side := es_pending_side s2\<rparr>)"
    using after_stop(2) touch(2) keep free(2) s2 by (simp add: e_reentry_def Let_def)
  then have "e_enter p i sig side prev_close bar st = Inr (s2\<lparr>es_last_exit_side := None, es_pending_side := es_pending_side s2\<rparr>)"
    using touch(1) init by (simp add: e_enter_def)
  then show ?thesis using s1 s2 by (auto elim!: e_open_eq)
qed

section \<open>Instances\<close>

definition demo_e_args :: e_args where
  "demo_e_args = bt_args.extend demo_args (e_args.fields (Some (Fin 1)) None False None 6 ''default'' ''position'')"

definition demo_e_params :: e_params where
  "demo_e_params = bt_params.extend demo_params (e_params.fields ''position'' (Some (Fin 1)) None False None 6)"

definition demo_e_open :: e_state where
  "demo_e_open = (e_initial_state (fl (9999 / 10)))
     \<lparr>es_peak := Fin 1000, es_trades_in_bar := 1,
      es_position := Some \<lparr>po_side = ''long'', po_entry_p = Fin 120, po_sl = Fin 90, po_protected = False,
                           po_notional = Fin 100, po_mark = Fin 120\<rparr>,
      es_log := [\<lparr>lr_time = 0, lr_type = ''BUY'', lr_price = Fin 120, lr_reason = ''Initial'', lr_notional = Fin 100,
                  lr_bal = fl (9999 / 10)\<rparr>]\<rparr>"

definition demo_e_held :: e_state where
  "demo_e_held = demo_e_open
     \<lparr>es_position := Some \<lparr>po_side = ''long'', po_entry_p = Fin 120, po_sl = Fin 230, po_protected = True,
                           po_notional = Fin 100, po_mark = Fin 240\<rparr>\<rparr>"

lemma demo_e_first:
  "e_step ref_numpy demo_e_params 0 (demo_signal 0) None (flat_bar 0 120) (e_initial_state (Fin 1000)) = Inr demo_e_open"
  by code_simp

lemma demo_e_second: "e_step ref_numpy demo_e_params 0 (demo_signal 0) (Some (Fin 120)) (flat_bar 1 240) demo_e_open = Inr demo_e_held"
  by code_simp

lemma demo_e_window: "e_window ref_numpy demo_e_params 0 (demo_signal 0) None demo_minutes (e_signal_bar 0 (e_initial_state (Fin 1000)))
    = Inr demo_e_held"
proof -
  have "e_signal_bar 0 (e_initial_state (Fin 1000)) = e_initial_state (Fin 1000)"
    by (simp add: e_signal_bar_def e_initial_state_def Let_def)
  moreover have "mb_close (flat_bar 0 120) = Fin 120" by (simp add: flat_bar_def)
  ultimately show ?thesis by (simp add: demo_minutes_def demo_e_first demo_e_second)
qed

lemma demo_e_run:
  "\<exists>out. run_backtest_enhanced ref_numpy demo_minutes [demo_signal 0, demo_signal 5] (Fin 1000) demo_e_args = Inr out
     \<and> map lr_bal out = [fl (9999 / 10), fl (5499 / 5)]"
proof -
  have n: "normalized ''wick'' = ''wick''" "normalized ''position'' = ''position''" by code_simp+
  have p: "e_params_of demo_e_args = Inr demo_e_params"
    using demo_params_eq n(2)
    by (simp add: e_params_of_def demo_e_args_def demo_e_params_def demo_args_def demo_params_def bt_args.defs bt_params.defs
        e_args.defs e_params.defs normalize_zero_initial_mode_def schedule_for_def Let_def)
  have "window_of 0 5 demo_minutes = demo_minutes" "demo_minutes \<noteq> []" by (simp_all add: window_of_def demo_minutes_def flat_bar_def)
  moreover have "sg_time (demo_signal t) = t" "sg_atr (demo_signal t) \<noteq> NaN" for t by (simp_all add: demo_signal_def)
  ultimately have "e_signals ref_numpy demo_e_params demo_minutes 0 [demo_signal 0, demo_signal 5] (e_initial_state (Fin 1000))
      = Inr demo_e_held" using demo_e_window by simp
  moreover have "apply_reentry_anchor_levels [demo_signal 0, demo_signal 5] (ba_reentry_anchor_levels demo_e_args)
      = Inr [demo_signal 0, demo_signal 5]"
    using n(1) by (simp add: apply_reentry_anchor_levels_def demo_e_args_def demo_args_def bt_args.defs e_args.defs)
  ultimately have "run_backtest_enhanced ref_numpy demo_minutes [demo_signal 0, demo_signal 5] (Fin 1000) demo_e_args
      = Inr (es_log (e_mark_to_market ref_numpy demo_e_params demo_minutes demo_e_held))"
    by (simp add: run_backtest_enhanced_def p del: e_signals.simps)
  then show ?thesis
    by (simp add: e_mark_to_market_def e_close_def Let_def demo_minutes_def flat_bar_def demo_e_open_def demo_e_held_def demo_settle
        demo_e_params_def demo_params_def bt_params.defs e_params.defs e_initial_state_def)
qed

theorem stop_only_tightens_witness:
  "\<exists>pos'. es_position demo_e_held = Some pos' \<and> tightened (the (es_position demo_e_open)) pos' \<and> po_sl pos' = Fin 230"
proof -
  have "e_window ref_numpy demo_e_params 0 (demo_signal 0) (Some (Fin 120)) [flat_bar 1 240] demo_e_open = Inr demo_e_held"
    by (simp add: demo_e_second)
  moreover have "es_log demo_e_held = es_log demo_e_open" "\<exists>pos. es_position demo_e_open = Some pos"
    by (simp_all add: demo_e_held_def demo_e_open_def)
  ultimately show ?thesis
    using stop_only_tightens by (fastforce simp: demo_e_held_def)
qed

theorem breaker_pauses_trading_witness:
  "\<exists>st'. e_signals ref_numpy (demo_e_params\<lparr>ep_max_dd := Some (Fin (1 / 20))\<rparr>) demo_minutes 0 [demo_signal 0, demo_signal 5]
       ((e_initial_state (Fin 1000))\<lparr>es_breaker_until := 6\<rparr>) = Inr st' \<and> es_log st' = [] \<and> es_balance st' = Fin 1000"
  using breaker_pauses_trading [of "demo_e_params\<lparr>ep_max_dd := Some (Fin (1 / 20))\<rparr>" "(e_initial_state (Fin 1000))\<lparr>es_breaker_until := 6\<rparr>"
      0 "[demo_signal 0, demo_signal 5]" ref_numpy demo_minutes]
  by (auto simp: e_initial_state_def)

theorem log_explains_balance_witness:
  "\<exists>out balance. run_backtest_enhanced ref_numpy demo_minutes [demo_signal 0, demo_signal 5] (Fin 1000) demo_e_args = Inr out
     \<and> length out = 2 \<and> book ref_numpy (Fin 1000) None out = Some (balance, None) \<and> balance = fl (5499 / 5)"
proof -
  obtain out where out: "run_backtest_enhanced ref_numpy demo_minutes [demo_signal 0, demo_signal 5] (Fin 1000) demo_e_args = Inr out"
    "map lr_bal out = [fl (9999 / 10), fl (5499 / 5)]" using demo_e_run by (elim exE conjE)
  obtain a b where ab: "out = [a, b]" "lr_bal b = fl (5499 / 5)" using out(2) by (auto simp: map_eq_Cons_conv)
  have srt: "sorted (map mb_time demo_minutes)" "sorted (map sg_time [demo_signal 0, demo_signal 5])"
    by (simp_all add: demo_minutes_def flat_bar_def demo_signal_def)
  show ?thesis using log_explains_balance [OF out(1) srt] out(1) ab by auto
qed

theorem entries_per_bar_bounded_witness:
  "\<exists>rows. es_log demo_e_held = rows \<and> es_trades_in_bar demo_e_held = int (entries rows) \<and> int (entries rows) \<le> 3"
  using entries_per_bar_bounded [OF demo_e_window]
  by (simp add: e_initial_state_def demo_e_params_def demo_params_def bt_params.defs e_params.defs)

theorem breakout_and_reentry_together_witness:
  "\<exists>st' x y. e_enter demo_e_params 1 (demo_signal 0) ''long'' None (flat_bar 0 120)
       ((e_initial_state (Fin 1000))\<lparr>es_last_exit_side := Some ''long'', es_last_exit_bar := 0, es_last_exit_reason := Some ''SL''\<rparr>)
     = Inr st' \<and> es_log st' = [x, y] \<and> lr_type x = ''BUY'' \<and> lr_type y = ''BUY''"
proof -
  let ?st = "(e_initial_state (Fin 1000))\<lparr>es_last_exit_side := Some ''long'', es_last_exit_bar := 0, es_last_exit_reason := Some ''SL''\<rparr>"
  have "\<not> window_mode demo_e_params" "es_trades_in_bar ?st = 0" "1 < bp_max_trades demo_e_params"
    "breakout_armed ''long'' (demo_signal 0)" "breakout_hit ''long'' (demo_signal 0) (flat_bar 0 120)"
    "exit_window 1 ''long'' ?st" "es_last_exit_reason ?st = Some ''SL''" "\<not> zero_window 1 ''long'' ?st"
    "resolve_reentry_price (demo_signal 0) ''long'' (bp_anchor_levels demo_e_params)
       (reentry_atr_of (bt_params.truncate demo_e_params) ''long'') = Inr (Fin 90)"
    "reentry_triggered ''long'' (bp_trigger_mode demo_e_params) (mb_high (flat_bar 0 120)) (mb_low (flat_bar 0 120))
       (mb_close (flat_bar 0 120)) None (Fin 90) (bp_confirm demo_e_params) = Inr (True, Fin 90)"
    "bp_stop_mode demo_e_params \<in> {''structural'', ''atr'', ''hybrid_tighter'', ''hybrid_wider''}" "bp_schedule demo_e_params \<noteq> []"
    by code_simp+
  from breakout_and_reentry_together [OF this] show ?thesis
    by (auto simp: e_initial_state_def entry_type_def)
qed

end
