(* ===== verification/TickStream.thy ===== *)
theory TickStream
  imports Backtest
begin

text \<open>
  The tick events of \<open>research/backTest.py\<close>: \<open>_summarize_complete_tick_chunk\<close> and \<open>_build_tick_event_stream\<close>
  condense a file of trades into at most four events a minute. The file is the list of the chunks the CSV
  reader yields, each a list of trades with a time in milliseconds and a finite price; opening the file and
  telling its header apart is left to the reader.
\<close>

section \<open>Minutes\<close>

record raw_tick =
  rt_price :: rat
  rt_timestamp :: int

record minute_summary =
  ms_minute :: int
  ms_open :: rat
  ms_high :: rat
  ms_low :: rat
  ms_close :: rat
  ms_first_ts :: int
  ms_last_ts :: int
  ms_high_ts :: int
  ms_low_ts :: int

definition minute_ms :: "raw_tick \<Rightarrow> int" where
  "minute_ms t = (rt_timestamp t div 60000) * 60000"

text \<open>\<open>idxmax\<close> and \<open>idxmin\<close>: the first row with the largest or smallest price\<close>

fun first_max :: "raw_tick \<Rightarrow> raw_tick list \<Rightarrow> raw_tick" where
  "first_max m [] = m"
| "first_max m (t # ts) = first_max (if rt_price m < rt_price t then t else m) ts"

fun first_min :: "raw_tick \<Rightarrow> raw_tick list \<Rightarrow> raw_tick" where
  "first_min m [] = m"
| "first_min m (t # ts) = first_min (if rt_price t < rt_price m then t else m) ts"

definition summarize_minute :: "int \<Rightarrow> raw_tick list \<Rightarrow> minute_summary" where
  "summarize_minute minute grp =
     (let hi = first_max (hd grp) (tl grp); lo = first_min (hd grp) (tl grp)
      in \<lparr>ms_minute = minute, ms_open = rt_price (hd grp), ms_high = rt_price hi, ms_low = rt_price lo,
          ms_close = rt_price (last grp), ms_first_ts = rt_timestamp (hd grp), ms_last_ts = rt_timestamp (last grp),
          ms_high_ts = rt_timestamp hi, ms_low_ts = rt_timestamp lo\<rparr>)"

text \<open>\<open>groupby('minute_ms', sort=False)\<close>: the groups in the order their minutes appear\<close>

fun minutes_of :: "raw_tick list \<Rightarrow> int list" where
  "minutes_of [] = []"
| "minutes_of (t # ts) = minute_ms t # filter (\<lambda>m. m \<noteq> minute_ms t) (minutes_of ts)"

definition summarize_complete_tick_chunk :: "raw_tick list \<Rightarrow> minute_summary list" where
  "summarize_complete_tick_chunk df_ticks =
     map (\<lambda>m. summarize_minute m (filter (\<lambda>t. minute_ms t = m) df_ticks)) (minutes_of df_ticks)"

section \<open>Reading the chunks\<close>

definition after_end :: "int option \<Rightarrow> int \<Rightarrow> bool" where
  "after_end end_ms t = (case end_ms of None \<Rightarrow> False | Some e \<Rightarrow> e < t)"

definition before_start :: "int option \<Rightarrow> int \<Rightarrow> bool" where
  "before_start start_ms t = (case start_ms of None \<Rightarrow> False | Some s \<Rightarrow> t < s)"

definition trim :: "int option \<Rightarrow> int option \<Rightarrow> raw_tick list \<Rightarrow> raw_tick list" where
  "trim start_ms end_ms ts = filter (\<lambda>t. \<not> after_end end_ms (rt_timestamp t) \<and> \<not> before_start start_ms (rt_timestamp t)) ts"

definition last_minute_of :: "raw_tick list \<Rightarrow> raw_tick list" where
  "last_minute_of chunk = filter (\<lambda>t. minute_ms t = minute_ms (last chunk)) chunk"

definition complete_of :: "raw_tick list \<Rightarrow> raw_tick list" where
  "complete_of chunk = filter (\<lambda>t. minute_ms t \<noteq> minute_ms (last chunk)) chunk"

text \<open>The loop over the chunks: the summaries so far and the minute that may go on in the next chunk\<close>

fun read_chunks ::
  "int option \<Rightarrow> int option \<Rightarrow> raw_tick list list \<Rightarrow> minute_summary list \<times> raw_tick list
     \<Rightarrow> minute_summary list \<times> raw_tick list" where
  "read_chunks start_ms end_ms [] (summaries, pending) = (summaries, pending)"
| "read_chunks start_ms end_ms (chunk # chunks) (summaries, pending) =
     (if chunk \<noteq> [] \<and> after_end end_ms (rt_timestamp (hd chunk)) then (summaries, pending)
      else if chunk \<noteq> [] \<and> before_start start_ms (rt_timestamp (last chunk))
      then read_chunks start_ms end_ms chunks (summaries, pending)
      else let reached_end = (chunk \<noteq> [] \<and> after_end end_ms (rt_timestamp (last chunk)));
               chunk1 = (if reached_end then filter (\<lambda>t. \<not> after_end end_ms (rt_timestamp t)) chunk else chunk);
               chunk2 = filter (\<lambda>t. \<not> before_start start_ms (rt_timestamp t)) chunk1
           in if chunk2 = []
              then if reached_end then (summaries, pending) else read_chunks start_ms end_ms chunks (summaries, pending)
              else let chunk3 = pending @ chunk2;
                       st = (summaries @ summarize_complete_tick_chunk (complete_of chunk3), last_minute_of chunk3)
                   in if reached_end then st else read_chunks start_ms end_ms chunks st)"

definition minute_frame :: "int option \<Rightarrow> int option \<Rightarrow> raw_tick list list \<Rightarrow> minute_summary list" where
  "minute_frame start_ms end_ms chunks =
     (let (summaries, pending) = read_chunks start_ms end_ms chunks ([], [])
      in summaries @ summarize_complete_tick_chunk pending)"

section \<open>Events\<close>

record tick_event =
  ev_ts :: int
  ev_seq :: nat
  ev_price :: pyfloat
  ev_event :: string
  ev_minute :: int

definition ordered_events :: "minute_summary \<Rightarrow> (string \<times> int \<times> rat) list" where
  "ordered_events row =
     (''open'', ms_first_ts row, ms_open row)
     # (if ms_high_ts row \<le> ms_low_ts row
        then [(''high'', ms_high_ts row, ms_high row), (''low'', ms_low_ts row, ms_low row)]
        else [(''low'', ms_low_ts row, ms_low row), (''high'', ms_high_ts row, ms_high row)])
     @ [(''close'', ms_last_ts row, ms_close row)]"

fun dedup :: "(string \<times> int \<times> rat) list \<Rightarrow> (string \<times> int \<times> rat) list \<Rightarrow> (string \<times> int \<times> rat) list" where
  "dedup acc [] = acc"
| "dedup acc (e # es) = (if acc \<noteq> [] \<and> snd (last acc) = snd e then dedup acc es else dedup (acc @ [e]) es)"

definition minute_events :: "minute_summary \<Rightarrow> tick_event list" where
  "minute_events row =
     map (\<lambda>(seq, label, ts, price). \<lparr>ev_ts = ts, ev_seq = seq, ev_price = Fin price, ev_event = label, ev_minute = ms_minute row\<rparr>)
       (enumerate 0 (dedup [] (ordered_events row)))"

definition build_tick_event_stream :: "int option \<Rightarrow> int option \<Rightarrow> raw_tick list list \<Rightarrow> tick_event list" where
  "build_tick_event_stream start_ms end_ms chunks =
     sort_key ev_ts (sort_key ev_seq (concat (map minute_events (minute_frame start_ms end_ms chunks))))"

section \<open>The chunks do not matter\<close>

lemma minutes_of_append:
  "minutes_of (xs @ ys) = minutes_of xs @ filter (\<lambda>m. m \<notin> minute_ms ` set xs) (minutes_of ys)"
  by (induction xs) (auto intro: filter_cong)

lemma set_minutes_of [simp]: "set (minutes_of xs) = minute_ms ` set xs"
  by (induction xs) auto

lemma summarize_append:
  assumes "minute_ms ` set xs \<inter> minute_ms ` set ys = {}"
  shows "summarize_complete_tick_chunk (xs @ ys) = summarize_complete_tick_chunk xs @ summarize_complete_tick_chunk ys"
proof -
  have "filter (\<lambda>m. m \<notin> minute_ms ` set xs) (minutes_of ys) = minutes_of ys"
    using assms by (auto simp: filter_id_conv)
  moreover have "filter (\<lambda>t. minute_ms t = m) ys = []" if "m \<in> minute_ms ` set xs" for m
    using that assms by (auto simp: filter_empty_conv)
  moreover have "filter (\<lambda>t. minute_ms t = m) xs = []" if "m \<in> minute_ms ` set ys" for m
    using that assms by (auto simp: filter_empty_conv)
  ultimately show ?thesis
    by (simp add: summarize_complete_tick_chunk_def minutes_of_append)
qed

lemma minute_ms_mono: "rt_timestamp a \<le> rt_timestamp b \<Longrightarrow> minute_ms a \<le> minute_ms b"
  by (simp add: minute_ms_def zdiv_mono1)

lemma sorted_hd_last:
  assumes "sorted (map rt_timestamp xs)" and "t \<in> set xs"
  shows "rt_timestamp (hd xs) \<le> rt_timestamp t" and "rt_timestamp t \<le> rt_timestamp (last xs)"
  using assms by (induction xs) auto

lemma sorted_middle:
  assumes "sorted (map f (xs @ ys @ zs))" and "set ms \<subseteq> set ys" and "sorted (map f ms)"
  shows "sorted (map f (xs @ ms @ zs))"
proof -
  have "\<forall>x \<in> set xs. \<forall>m \<in> set ms. f x \<le> f m" "\<forall>m \<in> set ms. \<forall>z \<in> set zs. f m \<le> f z"
    using assms(1,2) by (auto simp: sorted_append)
  then show ?thesis using assms(1,3) by (auto simp: sorted_append)
qed

text \<open>Trades in order of time: the last minute of a prefix is its end.\<close>

lemma split_last_minute:
  assumes "sorted (map rt_timestamp xs)"
  shows "complete_of xs @ last_minute_of xs = xs"
  using assms
proof (induction xs)
  case (Cons x xs)
  show ?case
  proof (cases "xs = [] \<or> minute_ms x \<noteq> minute_ms (last xs)")
    case True
    have "complete_of xs @ last_minute_of xs = xs" using Cons by simp
    moreover have "complete_of (x # xs) = x # complete_of xs" "last_minute_of (x # xs) = last_minute_of xs" if "xs \<noteq> []"
      using that True by (simp_all add: complete_of_def last_minute_of_def)
    ultimately show ?thesis by (cases "xs = []") (simp_all add: complete_of_def last_minute_of_def)
  next
    case False
    define m where "m = minute_ms (last xs)"
    have same: "minute_ms t = m" if "t \<in> set xs" for t
    proof -
      have "rt_timestamp x \<le> rt_timestamp t" "rt_timestamp t \<le> rt_timestamp (last xs)"
        using that Cons.prems sorted_hd_last(2) [of xs t] by simp_all
      then show ?thesis using minute_ms_mono [of x t] minute_ms_mono [of t "last xs"] False by (simp add: m_def)
    qed
    have "minute_ms x = m" using False by (simp add: m_def)
    then have "filter (\<lambda>t. minute_ms t = m) (x # xs) = x # xs" "filter (\<lambda>t. minute_ms t \<noteq> m) (x # xs) = []"
      using same by (simp_all add: filter_empty_conv)
    then show ?thesis using False by (simp add: complete_of_def last_minute_of_def m_def)
  qed
qed (simp add: complete_of_def last_minute_of_def)

lemma complete_disjoint:
  assumes "sorted (map rt_timestamp (xs @ ys))"
  shows "minute_ms ` set (complete_of xs) \<inter> minute_ms ` set (last_minute_of xs @ ys) = {}"
proof -
  have "minute_ms a \<noteq> minute_ms b" if a: "a \<in> set (complete_of xs)" and b: "b \<in> set (last_minute_of xs @ ys)" for a b
  proof (cases "b \<in> set ys")
    case True
    have x: "a \<in> set xs" "minute_ms a \<noteq> minute_ms (last xs)" using a by (auto simp: complete_of_def)
    have "last xs \<in> set xs" using x(1) by (auto intro: last_in_set)
    then have "rt_timestamp a \<le> rt_timestamp (last xs)" "rt_timestamp (last xs) \<le> rt_timestamp b"
      using sorted_hd_last(2) [of xs a] x(1) True assms by (simp_all add: sorted_append)
    then show ?thesis using minute_ms_mono [of a "last xs"] minute_ms_mono [of "last xs" b] x(2) by simp
  next
    case False
    then show ?thesis using a b by (auto simp: complete_of_def last_minute_of_def)
  qed
  then show ?thesis by auto
qed

lemma after_end_mono: "after_end e a \<Longrightarrow> a \<le> b \<Longrightarrow> after_end e b"
  by (auto simp: after_end_def split: option.splits)

lemma before_start_mono: "before_start s b \<Longrightarrow> a \<le> b \<Longrightarrow> before_start s a"
  by (auto simp: before_start_def split: option.splits)

lemma trim_append [simp]: "trim s e (xs @ ys) = trim s e xs @ trim s e ys"
  by (simp add: trim_def)

lemma set_trim: "set (trim s e xs) \<subseteq> set xs"
  by (auto simp: trim_def)

lemma sorted_trim: "sorted (map rt_timestamp xs) \<Longrightarrow> sorted (map rt_timestamp (trim s e xs))"
  by (simp add: trim_def sorted_filter)

lemma trim_after: "sorted (map rt_timestamp xs) \<Longrightarrow> xs = [] \<or> after_end e (rt_timestamp (hd xs)) \<Longrightarrow> trim s e xs = []"
  using sorted_hd_last(1) after_end_mono by (force simp: trim_def filter_empty_conv)

lemma trim_before: "sorted (map rt_timestamp xs) \<Longrightarrow> before_start s (rt_timestamp (last xs)) \<Longrightarrow> trim s e xs = []"
  using sorted_hd_last(2) before_start_mono by (force simp: trim_def filter_empty_conv)

text \<open>What the loop keeps of a chunk is what lies between start and end.\<close>

lemma chunk_trimmed:
  assumes "sorted (map rt_timestamp chunk)"
  shows "filter (\<lambda>t. \<not> before_start s (rt_timestamp t))
      (if chunk \<noteq> [] \<and> after_end e (rt_timestamp (last chunk)) then filter (\<lambda>t. \<not> after_end e (rt_timestamp t)) chunk else chunk)
    = trim s e chunk"
proof (cases "chunk \<noteq> [] \<and> after_end e (rt_timestamp (last chunk))")
  case False
  then have "\<not> after_end e (rt_timestamp t)" if "t \<in> set chunk" for t
    using sorted_hd_last(2) [OF assms that] that after_end_mono by fastforce
  then show ?thesis using False by (auto simp: trim_def intro: filter_cong)
qed (simp add: trim_def conj_commute)

lemma read_chunks_summary:
  assumes "sorted (map rt_timestamp (pending @ concat chunks))" and "read_chunks s e chunks (summaries, pending) = (out, rest)"
  shows "out @ summarize_complete_tick_chunk rest = summaries @ summarize_complete_tick_chunk (pending @ trim s e (concat chunks))"
  using assms
proof (induction chunks arbitrary: summaries pending)
  case (Cons chunk chunks)
  let ?next = "pending @ trim s e chunk"
  have all: "sorted (map rt_timestamp (pending @ chunk @ concat chunks))" using Cons.prems(1) by simp
  have srt: "sorted (map rt_timestamp chunk)" "sorted (map rt_timestamp (concat chunks))" using all by (simp_all add: sorted_append)
  have srt3: "sorted (map rt_timestamp (pending @ concat chunks))" using sorted_middle [OF all, of "[]"] by simp
  have srt': "sorted (map rt_timestamp (?next @ concat chunks))"
    using sorted_middle [OF all set_trim sorted_trim [OF srt(1)]] by simp
  have later: "trim s e (concat chunks) = []" if "chunk \<noteq> []" "after_end e (rt_timestamp (last chunk))"
  proof -
    have "rt_timestamp (last chunk) \<le> rt_timestamp (hd (concat chunks))" if "concat chunks \<noteq> []"
      using \<open>chunk \<noteq> []\<close> that all last_in_set [of chunk] hd_in_set [of "concat chunks"]
      by (simp add: sorted_append del: set_concat)
    then show ?thesis using trim_after [OF srt(2)] after_end_mono that by blast
  qed
  consider (past) "chunk \<noteq> []" "after_end e (rt_timestamp (hd chunk))"
    | (early) "\<not> (chunk \<noteq> [] \<and> after_end e (rt_timestamp (hd chunk)))" "chunk \<noteq> []" "before_start s (rt_timestamp (last chunk))"
    | (none) "\<not> (chunk \<noteq> [] \<and> after_end e (rt_timestamp (hd chunk)))" "\<not> (chunk \<noteq> [] \<and> before_start s (rt_timestamp (last chunk)))"
        "trim s e chunk = []"
    | (some) "\<not> (chunk \<noteq> [] \<and> after_end e (rt_timestamp (hd chunk)))" "\<not> (chunk \<noteq> [] \<and> before_start s (rt_timestamp (last chunk)))"
        "trim s e chunk \<noteq> []" by blast
  then show ?case
  proof cases
    case past
    then have "after_end e (rt_timestamp (last chunk))" using sorted_hd_last(1) [OF srt(1), of "last chunk"] after_end_mono by auto
    then show ?thesis using past later trim_after [OF srt(1)] Cons.prems(2) by simp
  next
    case early
    then show ?thesis using trim_before [OF srt(1)] Cons.prems(2) Cons.IH [OF srt3] by simp
  next
    case none
    then show ?thesis using Cons.prems(2) Cons.IH [OF srt3] later
      by (auto simp: chunk_trimmed [OF srt(1)] Let_def split: if_splits)
  next
    case some
    have join: "summarize_complete_tick_chunk (?next @ ys) =
        summarize_complete_tick_chunk (complete_of ?next) @ summarize_complete_tick_chunk (last_minute_of ?next @ ys)"
      if "sorted (map rt_timestamp (?next @ ys))" for ys
      using summarize_append [OF complete_disjoint [OF that]] split_last_minute [of ?next] that
      by (simp add: sorted_append flip: append_assoc)
    have "sorted (map rt_timestamp (last_minute_of ?next @ concat chunks))"
    proof -
      have "sorted (map rt_timestamp ?next)" using srt' unfolding map_append [of _ ?next] sorted_append [of "map rt_timestamp ?next"] by blast
      then have "sorted (map rt_timestamp (last_minute_of ?next))" unfolding last_minute_of_def by (rule sorted_filter)
      moreover have "set (last_minute_of ?next) \<subseteq> set ?next" by (auto simp: last_minute_of_def)
      ultimately show ?thesis using sorted_middle [of rt_timestamp "[]" ?next "concat chunks" "last_minute_of ?next"] srt' by simp
    qed
    note IH = Cons.IH [OF this]
    have srt'': "sorted (map rt_timestamp (?next @ trim s e (concat chunks)))"
      using sorted_middle [of rt_timestamp ?next "concat chunks" "[]", OF _ set_trim sorted_trim [OF srt(2)]] srt' by simp
    show ?thesis
    proof (cases "chunk \<noteq> [] \<and> after_end e (rt_timestamp (last chunk))")
      case True
      then show ?thesis using some Cons.prems(2) join [OF srt''] later
        by (auto simp: Let_def trim_def [symmetric] split: if_splits)
    next
      case False
      then have "read_chunks s e chunks (summaries @ summarize_complete_tick_chunk (complete_of ?next), last_minute_of ?next) = (out, rest)"
        using some Cons.prems(2) by (auto simp: chunk_trimmed [OF srt(1)] Let_def split: if_splits)
      then show ?thesis using IH join [OF srt''] by simp
    qed
  qed
qed (simp add: trim_def)

lemma minute_frame_eq:
  assumes "sorted (map rt_timestamp (concat chunks))"
  shows "minute_frame start_ms end_ms chunks = summarize_complete_tick_chunk (trim start_ms end_ms (concat chunks))"
proof -
  obtain out rest where out: "read_chunks start_ms end_ms chunks ([], []) = (out, rest)" by fastforce
  show ?thesis using read_chunks_summary [of "[]", OF _ out] assms by (simp add: minute_frame_def out)
qed

text \<open>
  C19. The event stream does not depend on how the reader cuts the file: for trades in order of time it is the one
  of the trades between start and end, grouped by minute in one piece. A minute that spans chunks is put
  together before it is summarised, and reading stops at the end without losing the last minute.
\<close>

theorem stream_independent_of_chunks:
  assumes "sorted (map rt_timestamp (concat chunks))"
  shows "build_tick_event_stream start_ms end_ms chunks =
     sort_key ev_ts (sort_key ev_seq (concat (map minute_events
       (summarize_complete_tick_chunk (trim start_ms end_ms (concat chunks))))))"
  using assms by (simp add: build_tick_event_stream_def minute_frame_eq)

section \<open>The events span the trades\<close>

lemma first_max_props:
  "first_max m ts \<in> insert m (set ts) \<and> (\<forall>t \<in> insert m (set ts). rt_price t \<le> rt_price (first_max m ts))"
proof (induction m ts rule: first_max.induct)
  case (2 m t ts)
  then show ?case by (cases "rt_price m < rt_price t") (auto simp: not_less intro: order_trans less_imp_le)
qed simp

lemma first_min_props:
  "first_min m ts \<in> insert m (set ts) \<and> (\<forall>t \<in> insert m (set ts). rt_price (first_min m ts) \<le> rt_price t)"
proof (induction m ts rule: first_min.induct)
  case (2 m t ts)
  then show ?case by (cases "rt_price t < rt_price m") (auto simp: not_less intro: order_trans less_imp_le)
qed simp

lemma set_hd_tl: "xs \<noteq> [] \<Longrightarrow> insert (hd xs) (set (tl xs)) = set xs"
  by (cases xs) auto

lemma snd_dedup: "snd ` set (dedup acc es) = snd ` set acc \<union> snd ` set es"
proof (induction acc es rule: dedup.induct)
  case (2 acc e es)
  show ?case
  proof (cases "acc \<noteq> [] \<and> snd (last acc) = snd e")
    case True
    then have "snd e \<in> snd ` set acc" using imageI [OF last_in_set, of acc snd] by simp
    then show ?thesis using 2(1) [OF True] True by (simp add: insert_absorb)
  next
    case False
    then have "dedup acc (e # es) = dedup (acc @ [e]) es" by auto
    then show ?thesis using 2(2) [OF False] by simp
  qed
qed simp

text \<open>The times and prices of the events of a minute are those of its opening, extreme and closing trades.\<close>

lemma minute_event_prices:
  "(\<lambda>e. (ev_ts e, ev_price e)) ` set (minute_events row) = (\<lambda>(t, x). (t, Fin x)) `
     {(ms_first_ts row, ms_open row), (ms_high_ts row, ms_high row), (ms_low_ts row, ms_low row), (ms_last_ts row, ms_close row)}"
proof -
  have "(\<lambda>e. (ev_ts e, ev_price e)) ` set (minute_events row)
      = (\<lambda>(t, x). (t, Fin x)) ` snd ` set (dedup [] (ordered_events row))"
  proof -
    have "set (dedup [] (ordered_events row)) = snd ` set (enumerate 0 (dedup [] (ordered_events row)))"
      by (simp flip: set_map)
    then show ?thesis by (simp add: minute_events_def image_image case_prod_beta)
  qed
  then show ?thesis by (simp add: snd_dedup) (auto simp: ordered_events_def)
qed

lemma minute_events_minute: "e \<in> set (minute_events row) \<Longrightarrow> ev_minute e = ms_minute row"
  by (auto simp: minute_events_def)

lemma summary_rows:
  "set (summarize_complete_tick_chunk ts) = (\<lambda>t. summarize_minute (minute_ms t) (filter (\<lambda>u. minute_ms u = minute_ms t) ts)) ` set ts"
  by (auto simp: summarize_complete_tick_chunk_def)

lemma minute_events_span:
  assumes "t \<in> set grp"
  shows "\<exists>lo \<in> set (minute_events (summarize_minute m grp)). \<exists>hi \<in> set (minute_events (summarize_minute m grp)).
    fle (ev_price lo) (Fin (rt_price t)) \<and> fle (Fin (rt_price t)) (ev_price hi)"
proof -
  let ?row = "summarize_minute m grp"
  have t: "t \<in> insert (hd grp) (set (tl grp))" using assms by (cases grp) auto
  have "ms_low ?row \<le> rt_price t" "rt_price t \<le> ms_high ?row"
    using first_min_props [of "hd grp" "tl grp"] first_max_props [of "hd grp" "tl grp"] t by (auto simp: summarize_minute_def Let_def)
  moreover have "(ms_low_ts ?row, Fin (ms_low ?row)) \<in> (\<lambda>e. (ev_ts e, ev_price e)) ` set (minute_events ?row)"
    "(ms_high_ts ?row, Fin (ms_high ?row)) \<in> (\<lambda>e. (ev_ts e, ev_price e)) ` set (minute_events ?row)"
    unfolding minute_event_prices by simp_all
  then obtain lo hi where "lo \<in> set (minute_events ?row)" "ev_price lo = Fin (ms_low ?row)"
    "hi \<in> set (minute_events ?row)" "ev_price hi = Fin (ms_high ?row)" by auto
  ultimately show ?thesis by (metis fle.simps(7))
qed

lemma minute_events_trades:
  assumes "grp \<noteq> []" and "e \<in> set (minute_events (summarize_minute m grp))"
  shows "\<exists>t \<in> set grp. ev_ts e = rt_timestamp t \<and> ev_price e = Fin (rt_price t)"
proof -
  have "(ev_ts e, ev_price e) \<in> (\<lambda>e. (ev_ts e, ev_price e)) ` set (minute_events (summarize_minute m grp))" using assms(2) by blast
  then have "\<exists>t \<in> {hd grp, first_max (hd grp) (tl grp), first_min (hd grp) (tl grp), last grp}.
      ev_ts e = rt_timestamp t \<and> ev_price e = Fin (rt_price t)"
    unfolding minute_event_prices by (auto simp: summarize_minute_def Let_def)
  moreover have "{hd grp, first_max (hd grp) (tl grp), first_min (hd grp) (tl grp), last grp} \<subseteq> set grp"
    using first_max_props [of "hd grp" "tl grp"] first_min_props [of "hd grp" "tl grp"] set_hd_tl [OF assms(1)] assms(1) by auto
  ultimately show ?thesis by blast
qed

text \<open>
  The event stream spans the trades: every trade between start and end lies between two events of its minute,
  the lowest and the highest, and every event is the time and price of such a trade of its minute. So no
  level a trade reached is lost and none is made up.
\<close>

theorem events_span_trades:
  fixes start_ms end_ms :: "int option"
  assumes "sorted (map rt_timestamp (concat chunks))"
  defines "stream \<equiv> build_tick_event_stream start_ms end_ms chunks" and "trades \<equiv> trim start_ms end_ms (concat chunks)"
  shows "(\<forall>t \<in> set trades. \<exists>lo \<in> set stream. \<exists>hi \<in> set stream. ev_minute lo = minute_ms t \<and> ev_minute hi = minute_ms t
       \<and> fle (ev_price lo) (Fin (rt_price t)) \<and> fle (Fin (rt_price t)) (ev_price hi))
     \<and> (\<forall>e \<in> set stream. \<exists>t \<in> set trades. ev_ts e = rt_timestamp t \<and> ev_price e = Fin (rt_price t) \<and> ev_minute e = minute_ms t)"
proof (intro conjI ballI)
  define rows where "rows = (\<lambda>t. summarize_minute (minute_ms t) (filter (\<lambda>u. minute_ms u = minute_ms t) trades))"
  have set_stream: "set stream = (\<Union>t \<in> set trades. set (minute_events (rows t)))"
    by (simp add: stream_def trades_def rows_def build_tick_event_stream_def minute_frame_eq [OF assms(1)] summary_rows)
  have minute: "ev_minute e = minute_ms t" if "e \<in> set (minute_events (rows t))" for e t
    using minute_events_minute [OF that] by (simp add: rows_def summarize_minute_def Let_def)
  show "\<exists>lo \<in> set stream. \<exists>hi \<in> set stream. ev_minute lo = minute_ms t \<and> ev_minute hi = minute_ms t
      \<and> fle (ev_price lo) (Fin (rt_price t)) \<and> fle (Fin (rt_price t)) (ev_price hi)" if "t \<in> set trades" for t
    using minute_events_span [of t "filter (\<lambda>u. minute_ms u = minute_ms t) trades" "minute_ms t"] that minute [of _ t]
    unfolding set_stream by (fastforce simp: rows_def)
  show "\<exists>t \<in> set trades. ev_ts e = rt_timestamp t \<and> ev_price e = Fin (rt_price t) \<and> ev_minute e = minute_ms t" if "e \<in> set stream" for e
  proof -
    obtain t where t: "t \<in> set trades" "e \<in> set (minute_events (rows t))" using \<open>e \<in> set stream\<close> by (auto simp: set_stream)
    then have "filter (\<lambda>u. minute_ms u = minute_ms t) trades \<noteq> []" by (auto simp: filter_empty_conv)
    from minute_events_trades [OF this t(2) [unfolded rows_def]] minute [OF t(2)] show ?thesis by auto
  qed
qed


definition demo_chunks :: "raw_tick list list" where
  "demo_chunks = [[\<lparr>rt_price = 5, rt_timestamp = 1\<rparr>, \<lparr>rt_price = 9, rt_timestamp = 2\<rparr>],
     [\<lparr>rt_price = 7, rt_timestamp = 3\<rparr>, \<lparr>rt_price = 8, rt_timestamp = 60001\<rparr>]]"

theorem stream_independent_of_chunks_witness:
  "build_tick_event_stream None None demo_chunks = build_tick_event_stream None None [concat demo_chunks]"
proof -
  have "sorted (map rt_timestamp (concat demo_chunks))" "sorted (map rt_timestamp (concat [concat demo_chunks]))"
    by (simp_all add: demo_chunks_def)
  from this [THEN stream_independent_of_chunks, of None None] show ?thesis by simp
qed

theorem events_span_trades_witness:
  "\<exists>hi \<in> set (build_tick_event_stream None None demo_chunks). ev_minute hi = 0 \<and> fle (Fin 9) (ev_price hi)"
proof -
  have "sorted (map rt_timestamp (concat demo_chunks))" by (simp add: demo_chunks_def)
  moreover have "\<lparr>rt_price = 9, rt_timestamp = 2\<rparr> \<in> set (trim None None (concat demo_chunks))"
    by (simp add: demo_chunks_def trim_def after_end_def before_start_def)
  ultimately show ?thesis using events_span_trades [of demo_chunks None None] by (fastforce simp: minute_ms_def)
qed

end
