(* ===== verification/TickEngine.thy ===== *)
theory TickEngine
  imports Enhanced TickStream
begin

text \<open>
  \<open>run_tick_full_scan_dual\<close> of \<open>research/backTest.py\<close>: the rules of the enhanced engine replayed on single
  prices. The source writes them out a second time; the definitions here follow that text, and the first
  result is that both texts agree. Opening, closing, the trailing stop and the breaker are the statements that are
  the same in both, and are shared.
\<close>

section \<open>One tick\<close>

record tick =
  tk_time :: datetime
  tk_price :: pyfloat

definition tick_initial :: "e_params \<Rightarrow> int \<Rightarrow> signal_bar \<Rightarrow> string \<Rightarrow> tick \<Rightarrow> e_state \<Rightarrow> (e_state \<times> bool) res" where
  "tick_initial p i sig side t st =
     (if es_trades_in_bar st = 0
         \<and> (if side = ''long'' then flt (prev_high_1 sig) (prev_high_2 sig) \<and> fle (prev_high_2 sig) (tk_price t)
            else flt (prev_low_2 sig) (prev_low_1 sig) \<and> fle (tk_price t) (prev_low_2 sig))
      then if window_mode p then Inr (st\<lparr>es_pending_side := Some side, es_pending_bar := i\<rparr>, False)
           else let entry_raw = (if side = ''long'' then py_max (tk_price t) (prev_high_2 sig)
                                 else py_min (tk_price t) [prev_low_2 sig])
                in res_bind (e_open p sig side (entry_price (bp_slippage p) side entry_raw)
                               (cash_usage_initial (bp_zero_initial p)) ''Initial'' False (tk_time t) st) (\<lambda>st'. Inr (st', True))
      else Inr (st, False))"

definition tick_reentry ::
  "e_params \<Rightarrow> int \<Rightarrow> signal_bar \<Rightarrow> string \<Rightarrow> pyfloat \<Rightarrow> tick \<Rightarrow> pyfloat \<Rightarrow> e_state \<times> bool \<Rightarrow> (e_state \<times> bool) res" where
  "tick_reentry p i sig side prev_p t re_p = (\<lambda>(st, executed).
     let has_exit = exit_window i side st; has_zero = zero_window i side st
     in if has_exit \<or> has_zero
        then res_bind (reentry_triggered side (bp_trigger_mode p) (tk_price t) (tk_price t) (tk_price t) (Some prev_p) re_p
                         (bp_confirm p)) (\<lambda>(is_triggered, entry_p_raw).
             if is_triggered
             then let reason = (if has_exit then if es_last_exit_reason st = Some ''SL'' then ''SL-Reentry'' else ''PT-Reentry''
                                else ''Zero-Initial-Reentry'')
                  in res_bind
                       (if es_trades_in_bar st < bp_max_trades p
                        then res_bind (e_reentry_size p has_exit has_zero (es_trades_in_bar st)) (\<lambda>usage.
                             res_bind (e_open p sig side (entry_price (bp_slippage p) side entry_p_raw) usage reason
                                         (reason = ''PT-Reentry'') (tk_time t) st) (\<lambda>st'. Inr (st', True)))
                        else Inr (st, executed)) (\<lambda>(st', executed').
                     Inr (st'\<lparr>es_last_exit_side := if has_exit then None else es_last_exit_side st',
                              es_pending_side := if has_zero then None else es_pending_side st'\<rparr>, executed'))
             else Inr (st, executed))
        else Inr (st, executed))"

definition tick_enter ::
  "e_params \<Rightarrow> int \<Rightarrow> signal_bar \<Rightarrow> string \<Rightarrow> pyfloat \<Rightarrow> tick \<Rightarrow> e_state \<Rightarrow> (e_state \<times> bool) res" where
  "tick_enter p i sig side prev_p t st =
     res_bind (resolve_reentry_price sig side (bp_anchor_levels p) (reentry_atr_of (bt_params.truncate p) side)) (\<lambda>re_p.
     res_bind (tick_initial p i sig side t st) (tick_reentry p i sig side prev_p t re_p))"

definition tick_exit_signal :: "numpy_ops \<Rightarrow> e_params \<Rightarrow> signal_bar \<Rightarrow> pyfloat \<Rightarrow> e_position \<Rightarrow> (pyfloat \<times> string) option" where
  "tick_exit_signal ops p sig current_p pos =
     (let hit = (\<lambda>level. if po_side pos = ''long'' then fle current_p level else fle level current_p);
          structure = (if po_side pos = ''long'' then prev_low_1 sig else prev_high_1 sig)
      in if hit (po_sl pos) then Some (po_sl pos, ''SL'')
         else if ep_tiered p
         then if po_protected pos \<and> fle (Fin 3) (profit_atr ops sig pos)
              then if hit (tier3_level sig pos) then Some (tier3_level sig pos, ''PT-T3'') else None
              else if po_protected pos \<and> fle (Fin 2) (profit_atr ops sig pos)
              then if hit (tier2_level sig pos) then Some (tier2_level sig pos, ''PT-T2'') else None
              else if po_protected pos \<and> hit structure then Some (structure, ''PT'') else None
         else if po_protected pos \<and> hit structure then Some (structure, ''PT'') else None)"

definition tick_mark :: "pyfloat \<Rightarrow> e_position \<Rightarrow> e_position" where
  "tick_mark current_p pos =
     pos\<lparr>po_mark := if po_side pos = ''long'' then py_max (po_mark pos) current_p else py_min (po_mark pos) [current_p]\<rparr>"

definition tick_protect :: "numpy_ops \<Rightarrow> e_params \<Rightarrow> signal_bar \<Rightarrow> pyfloat \<Rightarrow> e_position \<Rightarrow> e_position" where
  "tick_protect ops p sig current_p pos =
     (if \<not> po_protected pos
         \<and> (if ep_tiered p then fle (bp_profit_protect p) (profit_atr ops sig pos)
            else if po_side pos = ''long''
            then fle (fadd (po_entry_p pos) (fmul (bp_profit_protect p) (sg_atr sig))) current_p
            else fle current_p (fsub (po_entry_p pos) (fmul (bp_profit_protect p) (sg_atr sig))))
      then pos\<lparr>po_protected := True\<rparr> else pos)"

definition tick_hold :: "numpy_ops \<Rightarrow> e_params \<Rightarrow> int \<Rightarrow> signal_bar \<Rightarrow> tick \<Rightarrow> e_position \<Rightarrow> e_state \<Rightarrow> e_state \<times> bool" where
  "tick_hold ops p i sig t pos st =
     (let pos1 = trailing_stop ops p sig pos
      in case tick_exit_signal ops p sig (tk_price t) pos1 of
           None \<Rightarrow>
             (st\<lparr>es_position := Some (trailing_stop ops p sig (tick_protect ops p sig (tk_price t) (tick_mark (tk_price t) pos1)))\<rparr>,
              False)
         | Some (raw_p, reason) \<Rightarrow>
             (check_breaker ops p i (tk_time t)
                ((e_close ops p pos1 raw_p reason (tk_time t) st)
                   \<lparr>es_last_exit_reason := Some reason, es_last_exit_side := Some (po_side pos1),
                    es_last_exit_bar := i, es_position := None\<rparr>),
              True))"

definition tick_step ::
  "numpy_ops \<Rightarrow> e_params \<Rightarrow> int \<Rightarrow> signal_bar \<Rightarrow> pyfloat \<Rightarrow> tick \<Rightarrow> e_state \<Rightarrow> (e_state \<times> bool) res" where
  "tick_step ops p i sig prev_p t st =
     (case es_position st of
        None \<Rightarrow>
          if breaker_active p i st then Inr (st, False)
          else if fst (resolve_regime_ready sig) then tick_enter p i sig ''long'' prev_p t st
          else if snd (resolve_regime_ready sig) then tick_enter p i sig ''short'' prev_p t st
          else Inr (st, False)
      | Some pos \<Rightarrow> Inr (tick_hold ops p i sig t pos st))"

section \<open>The loops\<close>

text \<open>
  After an entry or an exit the loop goes on at \<open>searchsorted(current_time, side='right')\<close>, past every tick
  of the same time; the price before the next tick is that of the last one skipped.
\<close>

function tick_window ::
  "numpy_ops \<Rightarrow> e_params \<Rightarrow> int \<Rightarrow> signal_bar \<Rightarrow> pyfloat \<Rightarrow> tick list \<Rightarrow> e_state \<Rightarrow> e_state res" where
  "tick_window ops p i sig prev_p [] st = Inr st"
| "tick_window ops p i sig prev_p (t # ts) st =
     (case tick_step ops p i sig prev_p t st of
        Inl e \<Rightarrow> Inl e
      | Inr (st', acted) \<Rightarrow>
          if acted
          then tick_window ops p i sig (tk_price (last (t # takeWhile (\<lambda>u. tk_time u \<le> tk_time t) ts)))
                 (dropWhile (\<lambda>u. tk_time u \<le> tk_time t) ts) st'
          else tick_window ops p i sig (tk_price t) ts st')"
  by pat_completeness auto
termination
  by (relation "measure (\<lambda>(ops, p, i, sig, prev_p, ts, st). length ts)")
     (auto intro: le_imp_less_Suc length_dropWhile_le)

definition ticks_between :: "datetime \<Rightarrow> datetime \<Rightarrow> tick list \<Rightarrow> tick list" where
  "ticks_between start_t end_t ts = filter (\<lambda>t. start_t \<le> tk_time t \<and> tk_time t \<le> end_t) ts"

fun tick_signals ::
  "numpy_ops \<Rightarrow> e_params \<Rightarrow> tick list \<Rightarrow> int \<Rightarrow> signal_bar list \<Rightarrow> e_state \<Rightarrow> e_state res" where
  "tick_signals ops p df_tick i (sig # nxt # df_4h) st =
     res_bind
       (let window_ticks = ticks_between (sg_time sig) (sg_time nxt) df_tick
        in if window_ticks = [] \<or> sg_atr sig = NaN then Inr st
           else tick_window ops p i sig NaN window_ticks (e_signal_bar i st))
       (tick_signals ops p df_tick (i + 1) (nxt # df_4h))"
| "tick_signals ops p df_tick i df_4h st = Inr st"

text \<open>
  The last price is a Python float. If the entry price is one too, a division by it raises where numpy
  would not: that is so after an initial entry, taken at the price of a tick, and after a confirmed
  re-entry; a re-entry at its own level has the numpy number of the signal frame.
\<close>

definition python_entry :: "e_params \<Rightarrow> e_state \<Rightarrow> bool" where
  "python_entry p st \<longleftrightarrow>
     lr_reason (last (filter (\<lambda>r. lr_type r \<in> {''BUY'', ''SHORT''}) (es_log st))) = ''Initial''
     \<or> bp_confirm p \<and> normalized (bp_trigger_mode p) = ''reclaim''"

definition tick_mark_to_market :: "numpy_ops \<Rightarrow> e_params \<Rightarrow> tick list \<Rightarrow> e_state \<Rightarrow> e_state res" where
  "tick_mark_to_market ops p df_tick st =
     (case es_position st of
        None \<Rightarrow> Inr st
      | Some pos \<Rightarrow>
          if df_tick = [] then Inr st
          else if python_entry p st \<and> feq (po_entry_p pos) (Fin 0) \<and> flt (Fin 0) (po_notional pos) then Inl ZeroDivisionError
          else Inr (e_close ops p pos (tk_price (last df_tick)) ''FinalMarkToMarket'' (tk_time (last df_tick)) st))"

text \<open>The argument \<open>tick_file\<close>: a frame of events built before, or a file\<close>

datatype tick_source = Prebuilt "tick list" | TickFile "raw_tick list list"

text \<open>\<open>int(pd.Timestamp(ts).timestamp() * 1000)\<close>\<close>

definition to_ms :: "datetime \<Rightarrow> int" where
  "to_ms ts = (case fmul (fl (of_int ts / 10 ^ 6)) (Fin 1000) of
     Fin x \<Rightarrow> (if 0 \<le> x then \<lfloor>x\<rfloor> else \<lceil>x\<rceil>)
   | _ \<Rightarrow> 0)"

fun load_ticks :: "tick_source \<Rightarrow> datetime \<Rightarrow> datetime \<Rightarrow> tick list" where
  "load_ticks (Prebuilt ts) replay_start replay_end = ticks_between replay_start replay_end ts"
| "load_ticks (TickFile chunks) replay_start replay_end =
     map (\<lambda>e. \<lparr>tk_time = ev_ts e * 1000, tk_price = ev_price e\<rparr>)
       (build_tick_event_stream (Some (to_ms replay_start)) (Some (to_ms replay_end)) chunks)"

definition run_tick_full_scan_dual ::
  "numpy_ops \<Rightarrow> signal_bar list \<Rightarrow> tick_source \<Rightarrow> pyfloat \<Rightarrow> e_args \<Rightarrow> (log_row list \<times> pyfloat) res" where
  "run_tick_full_scan_dual ops df_4h tick_file current_bal args =
     res_bind (apply_reentry_anchor_levels df_4h (ba_reentry_anchor_levels args)) (\<lambda>signals.
     if signals = [] then Inl IndexError
     else let df_tick = load_ticks tick_file (sg_time (hd signals)) (sg_time (last signals))
          in res_bind (e_params_of args) (\<lambda>p.
             res_bind (tick_signals ops p df_tick 0 signals (e_initial_state current_bal)) (\<lambda>st.
             res_bind (tick_mark_to_market ops p df_tick st) (\<lambda>st'.
               Inr (es_log st', es_balance st')))))"

section \<open>The tick engine is the bar engine on flat bars\<close>

definition tick_bar :: "tick \<Rightarrow> minute_bar" where
  "tick_bar t = \<lparr>mb_time = tk_time t, mb_open = tk_price t, mb_high = tk_price t, mb_low = tk_price t, mb_close = tk_price t\<rparr>"

lemma tick_bar_simps [simp]:
  "mb_time (tick_bar t) = tk_time t" "mb_open (tick_bar t) = tk_price t" "mb_high (tick_bar t) = tk_price t"
  "mb_low (tick_bar t) = tk_price t" "mb_close (tick_bar t) = tk_price t"
  by (simp_all add: tick_bar_def)

lemma tick_initial_bar:
  "map_sum id fst (tick_initial p i sig side t st) = e_initial p i sig side (tick_bar t) st"
  by (auto simp: tick_initial_def e_initial_def breakout_armed_def breakout_hit_def breakout_price_def Let_def res_bind_def
      split: sum.split)

lemma map_sum_bind: "map_sum id f (res_bind m g) = res_bind m (\<lambda>x. map_sum id f (g x))"
  by (cases m) simp_all

text \<open>No price before, or a price that is nan: the confirmed re-entry treats both alike.\<close>

definition same_prev :: "pyfloat \<Rightarrow> pyfloat option \<Rightarrow> bool" where
  "same_prev prev_p prev_close \<longleftrightarrow> prev_close = Some prev_p \<or> prev_close = None \<and> prev_p = NaN"

lemma reentry_triggered_prev:
  "same_prev prev_p prev_close \<Longrightarrow>
   reentry_triggered side mode h l c prev_close re_p conf = reentry_triggered side mode h l c (Some prev_p) re_p conf"
  by (cases "normalize_reentry_trigger_mode mode") (auto simp: reentry_triggered_def known_def same_prev_def)

lemma tick_reentry_bar:
  assumes "same_prev prev_p prev_close"
  shows "map_sum id fst (tick_reentry p i sig side prev_p t re_p (st, ex)) = e_reentry p i sig side prev_close (tick_bar t) re_p st"
  by (simp add: tick_reentry_def e_reentry_def Let_def reentry_triggered_prev [OF assms] map_sum_bind res_bind_def
      split: sum.split)

lemma tick_enter_bar:
  assumes "same_prev prev_p prev_close"
  shows "map_sum id fst (tick_enter p i sig side prev_p t st) = e_enter p i sig side prev_close (tick_bar t) st"
proof -
  have "map_sum id fst (res_bind (tick_initial p i sig side t st) (tick_reentry p i sig side prev_p t re_p))
      = res_bind (e_initial p i sig side (tick_bar t) st) (e_reentry p i sig side prev_close (tick_bar t) re_p)" for re_p
    unfolding tick_initial_bar [symmetric] using tick_reentry_bar [OF assms]
    by (cases "tick_initial p i sig side t st") (auto split: prod.split)
  then show ?thesis by (simp add: tick_enter_def e_enter_def map_sum_bind)
qed

lemma tick_exit_bar: "tick_exit_signal ops p sig (tk_price t) pos = e_exit_signal ops p sig (tick_bar t) pos"
  by (simp add: tick_exit_signal_def e_exit_signal_def Let_def at_level_def structure_level_def)

lemma tick_hold_bar: "fst (tick_hold ops p i sig t pos st) = e_hold ops p i sig (tick_bar t) pos st"
  by (simp add: tick_hold_def e_hold_def Let_def tick_exit_bar tick_mark_def move_mark_def tick_protect_def protect_def
      split: option.split prod.split)

lemma tick_step_bar:
  assumes "same_prev prev_p prev_close"
  shows "map_sum id fst (tick_step ops p i sig prev_p t st) = e_step ops p i sig prev_close (tick_bar t) st"
  by (simp add: tick_step_def e_step_def tick_hold_bar tick_enter_bar [OF assms] split: option.split)

lemma skip_nothing:
  assumes "sorted_wrt (<) (map tk_time (t # ts))"
  shows "takeWhile (\<lambda>u. tk_time u \<le> tk_time t) ts = []" "dropWhile (\<lambda>u. tk_time u \<le> tk_time t) ts = ts"
  using assms by (cases ts; auto)+

lemma tick_window_bars:
  assumes "sorted_wrt (<) (map tk_time ts)" and "same_prev prev_p prev_close"
  shows "tick_window ops p i sig prev_p ts st = e_window ops p i sig prev_close (map tick_bar ts) st"
  using assms
proof (induction ts arbitrary: prev_p prev_close st)
  case (Cons t ts)
  have IH: "tick_window ops p i sig (tk_price t) ts s = e_window ops p i sig (Some (tk_price t)) (map tick_bar ts) s" for s
    using Cons by (simp add: same_prev_def)
  show ?case
    using tick_step_bar [OF Cons.prems(2), of ops p i sig t st, symmetric] skip_nothing [OF Cons.prems(1)]
    by (auto simp: IH split: sum.split prod.split)
qed simp

lemma ticks_between_bars: "map tick_bar (ticks_between a b ts) = window_of a b (map tick_bar ts)"
  by (simp add: ticks_between_def window_of_def filter_map o_def)

lemma tick_signals_bars:
  assumes "sorted_wrt (<) (map tk_time ts)"
  shows "tick_signals ops p ts i sigs st = e_signals ops p (map tick_bar ts) i sigs st"
  using assms
proof (induction ops p ts i sigs st rule: tick_signals.induct)
  case (1 ops p ts i sig nxt sigs st)
  have "sorted_wrt (<) (map tk_time (ticks_between (sg_time sig) (sg_time nxt) ts))"
    using "1.prems" by (simp add: ticks_between_def sorted_wrt_map sorted_wrt_filter)
  from tick_window_bars [OF this, of NaN None] 1 show ?case
    by (simp add: same_prev_def Let_def ticks_between_bars [symmetric] res_bind_def split: sum.split)
qed simp_all

text \<open>
  The run of the enhanced engine, up to its final valuation, leaves a position open that was entered at price zero with
  a Python float (\<open>python_entry\<close>) and has a positive notional.
\<close>

definition ends_open_at_zero ::
  "numpy_ops \<Rightarrow> minute_bar list \<Rightarrow> signal_bar list \<Rightarrow> pyfloat \<Rightarrow> e_args \<Rightarrow> bool" where
  "ends_open_at_zero ops bars df_4h current_bal args \<longleftrightarrow>
     bars \<noteq> [] \<and>
     (case res_bind (apply_reentry_anchor_levels df_4h (ba_reentry_anchor_levels args)) (\<lambda>signals.
           res_bind (e_params_of args) (\<lambda>p.
           res_bind (e_signals ops p bars 0 signals (e_initial_state current_bal)) (\<lambda>st. Inr (p, st)))) of
        Inl e \<Rightarrow> False
      | Inr (p, st) \<Rightarrow>
          (case es_position st of
             None \<Rightarrow> False
           | Some pos \<Rightarrow> python_entry p st \<and> feq (po_entry_p pos) (Fin 0) \<and> flt (Fin 0) (po_notional pos)))"

lemma tick_mark_to_market_eq:
  "tick_mark_to_market ops p ts st =
     (if ts \<noteq> [] \<and> (case es_position st of
             None \<Rightarrow> False
           | Some pos \<Rightarrow> python_entry p st \<and> feq (po_entry_p pos) (Fin 0) \<and> flt (Fin 0) (po_notional pos))
      then Inl ZeroDivisionError else Inr (e_mark_to_market ops p (map tick_bar ts) st))"
  by (auto simp: tick_mark_to_market_def e_mark_to_market_def last_map split: option.split)

text \<open>
  C11. The two engines implement the same rules: on ticks of strictly increasing times the tick replay returns the log
  of the enhanced engine run on one flat bar per tick, with the same error where that one fails. The one difference is the final valuation:
  it raises \<open>ZeroDivisionError\<close> exactly if the position that is open at the end was entered at price zero, as a Python float, with a
  positive notional; in every other case, an open position at another price included, logs and errors are the same.
\<close>

theorem tick_engine_is_bar_engine:
  assumes "df_4h \<noteq> []" and "df_tick = load_ticks tick_file (sg_time (hd df_4h)) (sg_time (last df_4h))"
    and "sorted_wrt (<) (map tk_time df_tick)"
  shows "map_sum id fst (run_tick_full_scan_dual ops df_4h tick_file current_bal args)
     = (if ends_open_at_zero ops (map tick_bar df_tick) df_4h current_bal args then Inl ZeroDivisionError
        else run_backtest_enhanced ops (map tick_bar df_tick) df_4h current_bal args)"
proof (cases "apply_reentry_anchor_levels df_4h (ba_reentry_anchor_levels args)")
  case (Inl e)
  then show ?thesis by (simp add: run_tick_full_scan_dual_def run_backtest_enhanced_def ends_open_at_zero_def)
next
  case (Inr sigs)
  have times: "map sg_time sigs = map sg_time df_4h" by (rule anchor_times [OF Inr])
  then have ne: "sigs \<noteq> []" using assms(1) by auto
  then have ends: "sg_time (hd sigs) = sg_time (hd df_4h)" "sg_time (last sigs) = sg_time (last df_4h)"
    using arg_cong [OF times, of hd] arg_cong [OF times, of last] assms(1) by (simp_all add: hd_map last_map)
  note runs = run_tick_full_scan_dual_def run_backtest_enhanced_def ends_open_at_zero_def
  show ?thesis
  proof (cases "e_params_of args")
    case (Inl e)
    then show ?thesis by (simp add: runs Inr ne Let_def)
  next
    case p: (Inr p)
    show ?thesis
    proof (cases "e_signals ops p (map tick_bar df_tick) 0 sigs (e_initial_state current_bal)")
      case (Inl e)
      then show ?thesis
        by (simp add: runs Inr ne Let_def p ends assms(2) [symmetric] tick_signals_bars [OF assms(3)])
    next
      case st: (Inr st)
      then show ?thesis
        by (simp add: runs Inr ne Let_def p ends assms(2) [symmetric] tick_signals_bars [OF assms(3)]
            tick_mark_to_market_eq split: option.split)
    qed
  qed
qed

text \<open>A run that is still in a position at the end: its valuation is logged, nothing is raised.\<close>

theorem tick_engine_is_bar_engine_witness:
  "map_sum id fst (run_tick_full_scan_dual ref_numpy [demo_signal 0, demo_signal 5]
         (Prebuilt [\<lparr>tk_time = 0, tk_price = Fin 120\<rparr>, \<lparr>tk_time = 1, tk_price = Fin 240\<rparr>]) (Fin 1000) demo_e_args)
     = run_backtest_enhanced ref_numpy demo_minutes [demo_signal 0, demo_signal 5] (Fin 1000) demo_e_args
   \<and> \<not> isl (run_backtest_enhanced ref_numpy demo_minutes [demo_signal 0, demo_signal 5] (Fin 1000) demo_e_args)"
proof -
  have bars: "map tick_bar [\<lparr>tk_time = 0, tk_price = Fin 120\<rparr>, \<lparr>tk_time = 1, tk_price = Fin 240\<rparr>] = demo_minutes"
    by (simp add: tick_bar_def demo_minutes_def flat_bar_def)
  have "\<not> ends_open_at_zero ref_numpy demo_minutes [demo_signal 0, demo_signal 5] (Fin 1000) demo_e_args"
    and "\<not> isl (run_backtest_enhanced ref_numpy demo_minutes [demo_signal 0, demo_signal 5] (Fin 1000) demo_e_args)"
    by code_simp+
  then show ?thesis
    using tick_engine_is_bar_engine [of "[demo_signal 0, demo_signal 5]" "[\<lparr>tk_time = 0, tk_price = Fin 120\<rparr>, \<lparr>tk_time = 1, tk_price = Fin 240\<rparr>]"
        "Prebuilt [\<lparr>tk_time = 0, tk_price = Fin 120\<rparr>, \<lparr>tk_time = 1, tk_price = Fin 240\<rparr>]" ref_numpy "Fin 1000" demo_e_args, unfolded bars]
    by (simp add: ticks_between_def demo_signal_def)
qed

end
