(* ===== verification/BacktestStats.thy ===== *)
theory BacktestStats
  imports Enhanced
begin

text \<open>
  \<open>_compute_backtest_stats\<close> of \<open>research/backTest.py\<close>: the figures of a backtest log. The sample deviation of
  pandas and numpy's square root are parameters; the dictionary of reasons is the list of its pairs, in the
  order the reasons appear, while pandas orders them by count.
\<close>

section \<open>Columns\<close>

text \<open>\<open>cummax()\<close> and \<open>min()\<close> of a column: both pass over nan\<close>

fun pd_cummax :: "pyfloat option \<Rightarrow> pyfloat list \<Rightarrow> pyfloat list" where
  "pd_cummax m [] = []"
| "pd_cummax m (x # xs) =
     (if x = NaN then NaN # pd_cummax m xs
      else let m' = (case m of None \<Rightarrow> x | Some y \<Rightarrow> py_max y x) in m' # pd_cummax (Some m') xs)"

definition pd_min :: "pyfloat list \<Rightarrow> pyfloat" where
  "pd_min xs = (case filter (\<lambda>x. x \<noteq> NaN) xs of [] \<Rightarrow> NaN | y # ys \<Rightarrow> py_min y ys)"

definition trade_rows :: "log_row list \<Rightarrow> log_row list" where
  "trade_rows ledger = filter (\<lambda>r. lr_type r \<in> {''BUY'', ''SHORT'', ''EXIT''}) ledger"

definition log_drawdowns :: "numpy_ops \<Rightarrow> log_row list \<Rightarrow> pyfloat list" where
  "log_drawdowns ops rows =
     map2 (\<lambda>bal m. fsub (np_div ops bal m) (Fin 1)) (map lr_bal rows) (pd_cummax None (map lr_bal rows))"

section \<open>Round trips\<close>

record stat_trade =
  stt_pnl_val :: pyfloat
  stt_pnl_pct :: pyfloat
  stt_side :: string
  stt_reason :: string

definition normalize_exit_reason :: "string \<Rightarrow> string" where
  "normalize_exit_reason reason = (if startswith reason ''PT-'' then ''PT'' else reason)"

fun pair_trades :: "numpy_ops \<Rightarrow> log_row option \<Rightarrow> log_row list \<Rightarrow> stat_trade list" where
  "pair_trades ops temp [] = []"
| "pair_trades ops temp (row # rows) =
     (if lr_type row = ''BUY'' \<or> lr_type row = ''SHORT''
      then if fle (lr_notional row) (Fin 0) then pair_trades ops temp rows else pair_trades ops (Some row) rows
      else case temp of
             Some e \<Rightarrow>
               if lr_type row = ''EXIT''
               then let pct = np_div ops (fsub (lr_price row) (lr_price e)) (lr_price e)
                    in \<lparr>stt_pnl_val = fsub (lr_bal row) (lr_bal e),
                        stt_pnl_pct = (if lr_type e = ''SHORT'' then fneg pct else pct),
                        stt_side = (if lr_type e = ''BUY'' then ''Long'' else ''Short''),
                        stt_reason = normalize_exit_reason (lr_reason row)\<rparr> # pair_trades ops None rows
               else pair_trades ops temp rows
           | None \<Rightarrow> pair_trades ops temp rows)"

fun value_counts :: "string list \<Rightarrow> (string \<times> nat) list" where
  "value_counts [] = []"
| "value_counts (x # xs) =
     (x, 1 + length (filter (\<lambda>y. y = x) xs)) # filter (\<lambda>(k, n). k \<noteq> x) (value_counts xs)"

section \<open>The figures\<close>

record bt_stats =
  bst_return :: pyfloat
  bst_max_dd :: pyfloat
  bst_trades :: nat
  bst_win_rate :: pyfloat
  bst_avg_pnl_pct :: pyfloat
  bst_sharpe :: pyfloat
  bst_calmar :: pyfloat
  bst_final_bal :: pyfloat
  bst_reason_counts :: "(string \<times> nat) list option"

definition compute_backtest_stats ::
  "numpy_ops \<Rightarrow> (pyfloat list \<Rightarrow> pyfloat) \<Rightarrow> (pyfloat \<Rightarrow> pyfloat) \<Rightarrow> log_row list \<Rightarrow> pyfloat \<Rightarrow> bt_stats" where
  "compute_backtest_stats ops pd_std np_sqrt ledger initial_balance =
     (if ledger = []
      then \<lparr>bst_return = Fin 0, bst_max_dd = Fin 0, bst_trades = 0, bst_win_rate = Fin 0, bst_avg_pnl_pct = Fin 0,
            bst_sharpe = Fin 0, bst_calmar = Fin 0, bst_final_bal = initial_balance, bst_reason_counts = None\<rparr>
      else let final_bal = lr_bal (last ledger);
               total_return = fsub (np_div ops final_bal initial_balance) (Fin 1);
               max_dd = pd_min (log_drawdowns ops (trade_rows ledger));
               trades = pair_trades ops None (trade_rows ledger);
               n_trades = length trades
           in if n_trades = 0
              then \<lparr>bst_return = total_return, bst_max_dd = max_dd, bst_trades = 0, bst_win_rate = Fin 0,
                    bst_avg_pnl_pct = Fin 0, bst_sharpe = Fin 0, bst_calmar = Fin 0, bst_final_bal = final_bal,
                    bst_reason_counts = None\<rparr>
              else let win_rate = np_div ops (Fin (of_nat (length (filter (\<lambda>t. flt (Fin 0) (stt_pnl_val t)) trades))))
                                    (Fin (of_nat n_trades));
                       avg_pnl = pd_mean ops (map stt_pnl_pct trades);
                       std = pd_std (map stt_pnl_pct trades);
                       sharpe = (if flt (Fin 0) std then fmul (np_div ops avg_pnl std) (np_sqrt (Fin 252)) else Fin 0);
                       calmar = (if feq max_dd (Fin 0) then Fin 0 else np_div ops total_return (fabs max_dd))
                   in \<lparr>bst_return = total_return, bst_max_dd = max_dd, bst_trades = n_trades, bst_win_rate = win_rate,
                       bst_avg_pnl_pct = avg_pnl, bst_sharpe = sharpe, bst_calmar = calmar, bst_final_bal = final_bal,
                       bst_reason_counts = Some (value_counts (map stt_reason trades))\<rparr>)"

section \<open>What the figures count\<close>

lemma pair_trades_replay:
  assumes "replay cur rows = Some c" and "temp = (case cur of None \<Rightarrow> None | Some e \<Rightarrow> if fle (lr_notional e) (Fin 0) then None else Some e)"
  shows "length (pair_trades ops temp rows) = length (filter (\<lambda>r. lr_type r = ''EXIT'' \<and> \<not> fle (lr_notional r) (Fin 0)) rows)"
  using assms
proof (induction cur rows arbitrary: temp rule: replay.induct)
  case (2 r rs)
  then show ?case by (cases "lr_type r = ''BUY''"; cases "lr_type r = ''SHORT''") auto
next
  case (3 e r rs)
  then show ?case by (auto simp: Let_def split: if_splits)
qed simp

lemma replay_trade_rows: "replay cur rows = Some c \<Longrightarrow> trade_rows rows = rows"
  by (induction cur rows rule: replay.induct) (auto simp: trade_rows_def split: if_splits)

lemma value_counts_filter:
  "sum_list (map snd (filter (\<lambda>(k, n). P k) (value_counts xs))) = length (filter P xs)"
proof (induction xs arbitrary: P)
  case (Cons x xs)
  have "length (filter P xs) = (if P x then length (filter (\<lambda>y. y = x) xs) else 0) + length (filter (\<lambda>y. P y \<and> y \<noteq> x) xs)"
    by (induction xs) auto
  moreover have "sum_list (map snd (filter (\<lambda>(k, n). P k) (filter (\<lambda>(k, n). k \<noteq> x) (value_counts xs)))) = length (filter (\<lambda>y. P y \<and> y \<noteq> x) xs)"
    using Cons.IH [of "\<lambda>y. P y \<and> y \<noteq> x"] by (simp add: case_prod_beta conj_commute)
  ultimately show ?case by simp
qed simp

lemma value_counts_sum: "sum_list (map snd (value_counts xs)) = length xs"
  using value_counts_filter [of "\<lambda>x. True" xs] by (simp add: case_prod_beta)

text \<open>
  On a log in which entries and exits alternate, the number of trades of the statistics is the number of
  exits of positions with money in them: entries of size zero and their exits are passed over, and nothing
  else is. The last balance is that of the last row, and the counts of the reasons add up to the trades.
\<close>

theorem stats_count_round_trips:
  fixes pd_std :: "pyfloat list \<Rightarrow> pyfloat" and np_sqrt :: "pyfloat \<Rightarrow> pyfloat" and ops :: numpy_ops and initial_balance :: pyfloat
  assumes "replay None ledger = Some cur" and "ledger \<noteq> []"
  defines "stats \<equiv> compute_backtest_stats ops pd_std np_sqrt ledger initial_balance"
  shows "bst_trades stats = length (filter (\<lambda>r. lr_type r = ''EXIT'' \<and> \<not> fle (lr_notional r) (Fin 0)) ledger)
     \<and> bst_final_bal stats = lr_bal (last ledger)
     \<and> sum_list (map snd (case bst_reason_counts stats of None \<Rightarrow> [] | Some cs \<Rightarrow> cs)) = bst_trades stats"
proof -
  have n: "length (pair_trades ops None ledger) = length (filter (\<lambda>r. lr_type r = ''EXIT'' \<and> \<not> fle (lr_notional r) (Fin 0)) ledger)"
    using pair_trades_replay [OF assms(1)] by simp
  have "bst_trades stats = length (pair_trades ops None ledger)" "bst_final_bal stats = lr_bal (last ledger)"
    "sum_list (map snd (case bst_reason_counts stats of None \<Rightarrow> [] | Some cs \<Rightarrow> cs)) = length (pair_trades ops None ledger)"
    using assms(2)
    by (simp_all add: stats_def compute_backtest_stats_def Let_def replay_trade_rows [OF assms(1)] value_counts_sum)
  then show ?thesis using n by simp
qed

section \<open>Bounds of the figures\<close>

lemma fl_unit: "fl 1 = Fin 1" "fl (- 1) = Fin (- 1)"
  by code_simp+

text \<open>The share of a positive balance in a larger one, less one\<close>

lemma drawdown_bounds:
  assumes div_plain: "\<And>x y q. fdiv x y = Some q \<Longrightarrow> np_div ops x y = q" and "0 < b" "b \<le> m"
  shows "fle (Fin (- 1)) (fsub (np_div ops (Fin b) (Fin m)) (Fin 1)) \<and> fle (fsub (np_div ops (Fin b) (Fin m)) (Fin 1)) (Fin 0)"
proof -
  have q: "np_div ops (Fin b) (Fin m) = fl (b / m)" using assms by (intro div_plain) simp
  have "0 \<le> b / m" "b / m \<le> 1" using assms by (simp_all add: divide_le_eq)
  then obtain r where r: "fl (b / m) = Fin r" "0 \<le> r" "r \<le> 1"
    using fl_mono [of 0 "b / m"] fl_mono [of "b / m" 1] by (cases "fl (b / m)") (auto simp: fl_unit)
  have "fle (fl (- 1)) (fl (r - 1))" "fle (fl (r - 1)) (fl 0)" using r(2,3) by (intro fl_mono; simp)+
  then show ?thesis by (simp add: q r(1) fl_unit fsub_def)
qed

lemma drawdowns_bounded:
  assumes div_plain: "\<And>x y q. fdiv x y = Some q \<Longrightarrow> np_div ops x y = q" and "\<forall>x \<in> set xs. \<exists>b > 0. x = Fin b"
    and "m = None \<or> (\<exists>b > 0. m = Some (Fin b))"
  shows "\<forall>d \<in> set (map2 (\<lambda>bal m. fsub (np_div ops bal m) (Fin 1)) xs (pd_cummax m xs)). fle (Fin (- 1)) d \<and> fle d (Fin 0)"
  using assms(2,3)
proof (induction xs arbitrary: m)
  case (Cons x xs)
  then obtain b where b: "0 < b" "x = Fin b" by auto
  define m' where "m' = (case m of None \<Rightarrow> x | Some y \<Rightarrow> py_max y x)"
  obtain c where c: "m' = Fin c" "b \<le> c" using Cons.prems(2) b by (auto simp: m'_def py_max_Fin)
  have "\<forall>d \<in> set (map2 (\<lambda>bal m. fsub (np_div ops bal m) (Fin 1)) xs (pd_cummax (Some m') xs)). fle (Fin (- 1)) d \<and> fle d (Fin 0)"
    using Cons.IH [of "Some m'"] Cons.prems(1) b c by (auto intro: order.strict_trans2)
  moreover have "fle (Fin (- 1)) (fsub (np_div ops x m') (Fin 1)) \<and> fle (fsub (np_div ops x m') (Fin 1)) (Fin 0)"
    using drawdown_bounds [OF div_plain b(1) c(2)] b c by simp
  moreover have "pd_cummax m (x # xs) = m' # pd_cummax (Some m') xs" unfolding m'_def using b(2) by (simp only: pd_cummax.simps) (simp add: Let_def)
  ultimately show ?case by simp
qed simp

lemma py_min_in: "py_min y ys \<in> insert y (set ys)"
  by (induction y ys rule: py_min.induct) auto

lemma pd_min_in: "xs \<noteq> [] \<Longrightarrow> NaN \<notin> set xs \<Longrightarrow> pd_min xs \<in> set xs"
proof (cases xs)
  case (Cons y ys)
  assume "NaN \<notin> set xs"
  then have "filter (\<lambda>x. x \<noteq> NaN) xs = xs" by (auto simp: filter_id_conv)
  then show ?thesis using Cons py_min_in [of y ys] by (simp add: pd_min_def)
qed simp

lemma pd_cummax_Nil: "pd_cummax m xs = [] \<longleftrightarrow> xs = []"
  by (cases xs) (simp_all add: Let_def)

lemma pair_trades_le: "length (pair_trades ops temp rows) \<le> length (filter (\<lambda>r. lr_type r = ''EXIT'') rows)"
  by (induction ops temp rows rule: pair_trades.induct) (auto simp: Let_def split: option.split)

text \<open>
  With positive balances the drawdown lies between minus one and zero and the win rate between zero and
  one, and there are no more trades than exits. What numpy promises of its division is its agreement with
  the float division wherever that is defined.
\<close>

theorem stats_bounded:
  fixes pd_std :: "pyfloat list \<Rightarrow> pyfloat" and np_sqrt :: "pyfloat \<Rightarrow> pyfloat" and initial_balance :: pyfloat
  assumes div_plain: "\<And>x y q. fdiv x y = Some q \<Longrightarrow> np_div ops x y = q"
    and rows: "trade_rows ledger \<noteq> []" "\<forall>r \<in> set (trade_rows ledger). \<exists>b > 0. lr_bal r = Fin b"
  defines "stats \<equiv> compute_backtest_stats ops pd_std np_sqrt ledger initial_balance"
  shows "fle (Fin (- 1)) (bst_max_dd stats) \<and> fle (bst_max_dd stats) (Fin 0)
     \<and> fle (Fin 0) (bst_win_rate stats) \<and> fle (bst_win_rate stats) (Fin 1)
     \<and> bst_trades stats \<le> length (filter (\<lambda>r. lr_type r = ''EXIT'') ledger)"
proof -
  define trades where "trades = pair_trades ops None (trade_rows ledger)"
  define wins where "wins = length (filter (\<lambda>t. flt (Fin 0) (stt_pnl_val t)) trades)"
  have "ledger \<noteq> []" using rows(1) by (auto simp: trade_rows_def)
  then have stats: "bst_max_dd stats = pd_min (log_drawdowns ops (trade_rows ledger))" "bst_trades stats = length trades"
    "bst_win_rate stats = (if trades = [] then Fin 0 else np_div ops (Fin (of_nat wins)) (Fin (of_nat (length trades))))"
    by (simp_all add: stats_def compute_backtest_stats_def Let_def trades_def wins_def)
  have dd: "\<forall>d \<in> set (log_drawdowns ops (trade_rows ledger)). fle (Fin (- 1)) d \<and> fle d (Fin 0)"
    using drawdowns_bounded [OF div_plain, of "map lr_bal (trade_rows ledger)" None] rows(2) by (simp add: log_drawdowns_def)
  have "log_drawdowns ops (trade_rows ledger) \<noteq> []" using rows(1) by (simp add: log_drawdowns_def pd_cummax_Nil)
  then have "pd_min (log_drawdowns ops (trade_rows ledger)) \<in> set (log_drawdowns ops (trade_rows ledger))"
    using dd by (intro pd_min_in) auto
  moreover have "fle (Fin 0) (bst_win_rate stats) \<and> fle (bst_win_rate stats) (Fin 1)"
  proof (cases "trades = []")
    case False
    have "of_nat wins \<le> (of_nat (length trades) :: rat)" by (simp add: wins_def)
    then have "of_nat wins / of_nat (length trades) \<le> (1 :: rat)" using False by (simp add: divide_le_eq)
    moreover have "np_div ops (Fin (of_nat wins)) (Fin (of_nat (length trades))) = fl (of_nat wins / of_nat (length trades))"
      using False by (intro div_plain) simp
    ultimately show ?thesis using False fl_mono [of "of_nat wins / of_nat (length trades)" 1] fl_nonneg
      by (simp add: stats(3) fl_unit)
  qed (simp add: stats(3))
  moreover have "length trades \<le> length (filter (\<lambda>r. lr_type r = ''EXIT'') (trade_rows ledger))"
    unfolding trades_def by (rule pair_trades_le)
  moreover have "filter (\<lambda>r. lr_type r = ''EXIT'') (trade_rows ledger) = filter (\<lambda>r. lr_type r = ''EXIT'') ledger"
    by (simp add: trade_rows_def) (rule filter_cong, auto)
  ultimately show ?thesis using dd by (simp add: stats(1,2))
qed


definition demo_trip :: "log_row list" where
  "demo_trip =
     [\<lparr>lr_time = 0, lr_type = ''BUY'', lr_price = Fin 120, lr_reason = ''Initial'', lr_notional = Fin 100, lr_bal = Fin 999\<rparr>,
      \<lparr>lr_time = 1, lr_type = ''EXIT'', lr_price = Fin 240, lr_reason = ''PT-T2'', lr_notional = Fin 100, lr_bal = Fin 1098\<rparr>]"

theorem stats_count_round_trips_witness:
  "bst_trades (compute_backtest_stats ref_numpy (\<lambda>xs. NaN) id demo_trip (Fin 1000)) = 1"
proof -
  have "replay None demo_trip = Some None" "demo_trip \<noteq> []" by (simp_all add: demo_trip_def)
  from stats_count_round_trips [OF this, of ref_numpy "\<lambda>xs. NaN" id "Fin 1000"] show ?thesis by (simp add: demo_trip_def)
qed

theorem stats_bounded_witness:
  "fle (bst_max_dd (compute_backtest_stats ref_numpy (\<lambda>xs. NaN) id demo_trip (Fin 1000))) (Fin 0)"
proof -
  have "np_div ref_numpy x y = q" if "fdiv x y = Some q" for x y q using that by (simp add: ref_numpy_def ref_div_def)
  moreover have "trade_rows demo_trip \<noteq> []" "\<forall>r \<in> set (trade_rows demo_trip). \<exists>b > 0. lr_bal r = Fin b"
    by (simp_all add: trade_rows_def demo_trip_def)
  ultimately show ?thesis using stats_bounded [of ref_numpy demo_trip "\<lambda>xs. NaN" id "Fin 1000"] by blast
qed

end
