(* ===== verification/DailySignals.thy ===== *)
theory DailySignals
  imports BacktestStats
begin

text \<open>
  \<open>generate_1d_signals\<close> of \<open>research/backTest.py\<close>: daily signal bars from minute bars. The rolling mean of
  pandas is a parameter, and the laws the result rests on are the locale \<open>rolling\<close>; the volume column, which
  nothing reads, is left out.
\<close>

section \<open>Daily bars\<close>

text \<open>The reductions of \<open>agg\<close>: they pass over nan, and a day without a value has nan\<close>

definition pd_first :: "pyfloat list \<Rightarrow> pyfloat" where
  "pd_first xs = (case filter (\<lambda>x. x \<noteq> NaN) xs of [] \<Rightarrow> NaN | y # ys \<Rightarrow> y)"

definition pd_last :: "pyfloat list \<Rightarrow> pyfloat" where
  "pd_last xs = (case filter (\<lambda>x. x \<noteq> NaN) xs of [] \<Rightarrow> NaN | y # ys \<Rightarrow> last (y # ys))"

definition pd_max :: "pyfloat list \<Rightarrow> pyfloat" where
  "pd_max xs = (case filter (\<lambda>x. x \<noteq> NaN) xs of [] \<Rightarrow> NaN | y # ys \<Rightarrow> fold (\<lambda>x m. py_max m x) ys y)"

definition day_of :: "datetime \<Rightarrow> int" where
  "day_of t = t div us_per_day"

definition minutes_of_day :: "int \<Rightarrow> minute_bar list \<Rightarrow> minute_bar list" where
  "minutes_of_day d df = filter (\<lambda>b. day_of (mb_time b) = d) df"

record day_bar =
  db_day :: int
  db_open :: pyfloat
  db_high :: pyfloat
  db_low :: pyfloat
  db_close :: pyfloat

definition aggregate_day :: "int \<Rightarrow> minute_bar list \<Rightarrow> day_bar" where
  "aggregate_day d bars =
     \<lparr>db_day = d, db_open = pd_first (map mb_open bars), db_high = pd_max (map mb_high bars),
      db_low = pd_min (map mb_low bars), db_close = pd_last (map mb_close bars)\<rparr>"

text \<open>\<open>resample('1D')\<close> makes a row for every day from the first to the last; \<open>dropna\<close> removes those without a close.\<close>

definition resample_days :: "minute_bar list \<Rightarrow> day_bar list" where
  "resample_days df =
     (if df = [] then []
      else let days = map (\<lambda>b. day_of (mb_time b)) df
           in filter (\<lambda>r. db_close r \<noteq> NaN)
                (map (\<lambda>d. aggregate_day d (minutes_of_day d df)) [fold min days (hd days)..fold max days (hd days)]))"

section \<open>Indicators\<close>

text \<open>\<open>np.max(ranges, axis=1)\<close> of the three ranges of a day\<close>

definition true_ranges :: "day_bar list \<Rightarrow> pyfloat list" where
  "true_ranges rows =
     map2 (\<lambda>r prev_close. pd_max [fsub (db_high r) (db_low r), fabs (fsub (db_high r) prev_close), fabs (fsub (db_low r) prev_close)])
       rows (shift 1 (map db_close rows))"

definition daily_rows :: "(nat \<Rightarrow> pyfloat list \<Rightarrow> pyfloat list) \<Rightarrow> nat \<Rightarrow> day_bar list \<Rightarrow> signal_bar list" where
  "daily_rows rolling_mean atr_period rows =
     (let ma5 = rolling_mean 5 (map db_close rows);
          ma20 = rolling_mean 20 (map db_close rows);
          atr = rolling_mean atr_period (true_ranges rows)
      in map (\<lambda>i. let r = rows ! i
                  in \<lparr>sg_time = db_day r * us_per_day, sg_open = db_open r, sg_high = db_high r, sg_low = db_low r,
                      sg_close = db_close r, sg_atr = atr ! i, sg_ma5 = Some (ma5 ! i), sg_ma20 = ma20 ! i,
                      prev_high_1 = NaN, prev_high_2 = NaN, prev_low_1 = NaN, prev_low_2 = NaN,
                      prev_body_high_1 = NaN, prev_body_high_2 = NaN, prev_body_low_1 = NaN, prev_body_low_2 = NaN\<rparr>)
           [0..<length rows])"

definition generate_1d_signals ::
  "(nat \<Rightarrow> pyfloat list \<Rightarrow> pyfloat list) \<Rightarrow> minute_bar list \<Rightarrow> nat \<Rightarrow> string \<Rightarrow> signal_bar list res" where
  "generate_1d_signals rolling_mean df_1min atr_period breakout_levels =
     apply_breakout_levels (daily_rows rolling_mean atr_period (resample_days df_1min)) breakout_levels"

section \<open>What a daily bar knows\<close>

lemma length_true_ranges [simp]: "length (true_ranges rows) = length rows"
  by (simp add: true_ranges_def)

lemma length_daily_rows [simp]: "length (daily_rows rm n rows) = length rows"
  by (simp add: daily_rows_def Let_def)





lemma breakout_levels_keep:
  assumes "apply_breakout_levels df levels = Inr df'"
  shows "length df' = length df" and "i < length df \<Longrightarrow> sg_time (df' ! i) = sg_time (df ! i)"
    and "i < length df \<Longrightarrow> sg_close (df' ! i) = sg_close (df ! i)" and "i < length df \<Longrightarrow> sg_atr (df' ! i) = sg_atr (df ! i)"
proof -
  have eq: "df' = apply_wick_breakout_levels df \<or> df' = apply_body_breakout_levels df"
    using assms by (auto simp: apply_breakout_levels_def split: if_splits)
  then show "length df' = length df"
    by (auto simp: apply_wick_breakout_levels_def apply_body_breakout_levels_def Let_def set_levels_def)
  have "sg_time (df' ! i) = sg_time (df ! i) \<and> sg_close (df' ! i) = sg_close (df ! i) \<and> sg_atr (df' ! i) = sg_atr (df ! i)" if "i < length df"
    using eq that by (auto simp: apply_wick_breakout_levels_def apply_body_breakout_levels_def Let_def nth_set_levels nth_attach)
  then show "i < length df \<Longrightarrow> sg_time (df' ! i) = sg_time (df ! i)" "i < length df \<Longrightarrow> sg_close (df' ! i) = sg_close (df ! i)"
    "i < length df \<Longrightarrow> sg_atr (df' ! i) = sg_atr (df ! i)" by blast+
qed



text \<open>
  The rolling mean as pandas documents it: one value for each row, and nan while a row has fewer than
  \<open>min_periods\<close> predecessors, which is the length of the window unless it is given.
\<close>

locale rolling =
  fixes rolling_mean :: "nat \<Rightarrow> pyfloat list \<Rightarrow> pyfloat list"
  assumes rolling_length: "length (rolling_mean n xs) = length xs"
    and rolling_start: "i < length xs \<Longrightarrow> i + 1 < n \<Longrightarrow> rolling_mean n xs ! i = NaN"
begin

lemma daily_atr_start: "i < length rows \<Longrightarrow> i + 1 < n \<Longrightarrow> sg_atr (daily_rows rolling_mean n rows ! i) = NaN"
  by (simp add: daily_rows_def Let_def rolling_start)

end

text \<open>The mean of the last rows, added from left to right\<close>

definition ref_rolling :: "nat \<Rightarrow> pyfloat list \<Rightarrow> pyfloat list" where
  "ref_rolling n xs =
     map (\<lambda>i. if i + 1 < n then NaN else ref_div (py_sum (drop (i + 1 - n) (take (i + 1) xs))) (Fin (of_nat n))) [0..<length xs]"

interpretation ref_roll: rolling ref_rolling
  by standard (simp_all add: ref_rolling_def)




section \<open>Warm-up\<close>

lemma e_signals_skip:
  assumes "\<forall>s \<in> set pre. sg_atr s = NaN" and "rest \<noteq> []"
  shows "e_signals ops p df i (pre @ rest) st = e_signals ops p df (i + int (length pre)) rest st"
  using assms
proof (induction pre arbitrary: i)
  case (Cons s pre)
  obtain nxt more' where next': "pre @ rest = nxt # more'" using Cons.prems(2) by (cases "pre @ rest") auto
  have "e_signals ops p df i ((s # pre) @ rest) st = e_signals ops p df (i + 1) (pre @ rest) st"
    using Cons.prems(1) next' by (simp add: Let_def)
  then show ?case using Cons.IH [of "i + 1"] Cons.prems by (simp add: algebra_simps)
qed simp

text \<open>
  Nothing is traded before the average true range exists: on daily bars the enhanced engine behaves as if the
  first \<open>atr_period - 1\<close> rows were not there, whatever the minutes of these days are.
\<close>

theorem warm_up_never_trades:
  assumes "rolling rolling_mean" and "generate_1d_signals rolling_mean df_1min atr_period levels = Inr sigs"
    and "atr_period \<le> length sigs" and "0 < atr_period"
  shows "e_signals ops p df i sigs st = e_signals ops p df (i + int (atr_period - 1)) (drop (atr_period - 1) sigs) st"
proof -
  have app: "apply_breakout_levels (daily_rows rolling_mean atr_period (resample_days df_1min)) levels = Inr sigs"
    using assms(2) by (simp add: generate_1d_signals_def)
  have warm: "sg_atr s = NaN" if s: "s \<in> set (take (atr_period - 1) sigs)" for s
  proof -
    obtain k where k: "k < atr_period - 1" "k < length sigs" "s = sigs ! k" using s assms(3) by (auto simp: in_set_conv_nth)
    then show ?thesis using breakout_levels_keep [OF app] rolling.daily_atr_start [OF assms(1)] by simp
  qed
  have "e_signals ops p df i (take (atr_period - 1) sigs @ drop (atr_period - 1) sigs) st =
      e_signals ops p df (i + int (length (take (atr_period - 1) sigs))) (drop (atr_period - 1) sigs) st"
  proof (rule e_signals_skip)
    show "\<forall>s \<in> set (take (atr_period - 1) sigs). sg_atr s = NaN" using warm by blast
    show "drop (atr_period - 1) sigs \<noteq> []" using assms(3,4) by simp
  qed
  moreover have "length (take (atr_period - 1) sigs) = atr_period - 1" using assms(3) by simp
  ultimately show ?thesis by (simp only: append_take_drop_id)
qed

text \<open>Two days of one minute each\<close>

lemma demo_days: "\<exists>sigs. generate_1d_signals ref_rolling [flat_bar 0 100, flat_bar us_per_day 120] 2 ''wick'' = Inr sigs \<and> length sigs = 2"
proof -
  have "normalized ''wick'' = ''wick''" by code_simp
  moreover have "length (resample_days [flat_bar 0 100, flat_bar us_per_day 120]) = 2" by code_simp
  ultimately show ?thesis
    by (simp add: generate_1d_signals_def apply_breakout_levels_def apply_wick_breakout_levels_def Let_def set_levels_def)
qed


theorem warm_up_never_trades_witness:
  "\<exists>sigs. generate_1d_signals ref_rolling [flat_bar 0 100, flat_bar us_per_day 120] 2 ''wick'' = Inr sigs
     \<and> e_signals ref_numpy demo_e_params demo_minutes 0 sigs (e_initial_state (Fin 1000))
       = e_signals ref_numpy demo_e_params demo_minutes 1 (drop 1 sigs) (e_initial_state (Fin 1000))"
proof -
  obtain sigs where sigs: "generate_1d_signals ref_rolling [flat_bar 0 100, flat_bar us_per_day 120] 2 ''wick'' = Inr sigs"
    "length sigs = 2" using demo_days by blast
  show ?thesis
    using warm_up_never_trades [OF ref_roll.rolling_axioms sigs(1), of ref_numpy demo_e_params demo_minutes 0] sigs by auto
qed

end
