(* ===== verification/ScopeCheck.thy ===== *)
theory ScopeCheck
  imports Reports Substring
begin

text \<open>
  \<open>scope_check/*.py\<close>: the checks a change of the repository has to pass. \<open>OutOfScopePathsScanner\<close> looks for
  protected paths in a diff, \<open>ApprovalLiteralChecker\<close> for the approval line in its description,
  \<open>ForbiddenWordsScanner\<close> for forbidden words in files, with ripgrep where it is installed. The regular
  expressions are terms of a small datatype, matched as Python does: leftmost, alternatives in order,
  repetitions as long as possible first. ripgrep is a parameter. Text is ASCII, with the non-ASCII
  constants as their UTF-8 bytes.
\<close>

section \<open>Regular expressions\<close>

datatype re =
    Eps
  | Cls "char \<Rightarrow> bool"
  | Rep nat "nat option" "char \<Rightarrow> bool"
  | Seq re re
  | Alt re re
  | EndOf

text \<open>What is left of a text after a match at its start: every way to match, the preferred one first\<close>

primrec rests :: "re \<Rightarrow> string \<Rightarrow> string list" where
  "rests Eps s = [s]"
| "rests (Cls p) s = (case s of [] \<Rightarrow> [] | c # cs \<Rightarrow> if p c then [cs] else [])"
| "rests (Rep m n p) s =
     (let k = length (takeWhile p s); k' = (case n of None \<Rightarrow> k | Some b \<Rightarrow> min b k)
      in map (\<lambda>j. drop j s) (rev [m..<Suc k']))"
| "rests (Seq a b) s = concat (map (rests b) (rests a s))"
| "rests (Alt a b) s = rests a s @ rests b s"
| "rests EndOf s = (if s = [] \<or> s = [CHR 0x0A] then [s] else [])"

definition matched :: "string \<Rightarrow> string \<Rightarrow> string" where
  "matched s rest = take (length s - length rest) s"

text \<open>\<open>pattern.search(s)\<close>: the whole match\<close>

fun search :: "re \<Rightarrow> string \<Rightarrow> string option" where
  "search r [] = (case rests r [] of [] \<Rightarrow> None | t # ts \<Rightarrow> Some [])"
| "search r (c # cs) = (case rests r (c # cs) of [] \<Rightarrow> search r cs | t # ts \<Rightarrow> Some (matched (c # cs) t))"

fun lit :: "string \<Rightarrow> re" where
  "lit [] = Eps"
| "lit (c # cs) = Seq (Cls (\<lambda>d. d = c)) (lit cs)"

definition ilit :: "string \<Rightarrow> re" where
  "ilit s = fold (\<lambda>c r. Seq r (Cls (\<lambda>d. lower_char d = lower_char c))) s Eps"

definition alts :: "re list \<Rightarrow> re" where
  "alts rs = foldr Alt (butlast rs) (last rs)"

definition spaces1 :: re where
  "spaces1 = Rep 1 None is_space"

definition digits1 :: re where
  "digits1 = Rep 1 None is_digit"

definition space1 :: re where
  "space1 = Cls is_space"

section \<open>Protected paths\<close>

record path_violation =
  pv_file_path :: string
  pv_pattern_matched :: string
  pv_line_in_diff :: nat

definition FORBIDDEN_PATH_PATTERNS :: "(re \<times> string) list" where
  "FORBIDDEN_PATH_PATTERNS =
     [(Seq (lit ''internal/service/live'') (Seq (Rep 0 None (\<lambda>c. c \<noteq> CHR ''/'')) (lit ''.go'')), ''internal/service/live*.go''),
      (lit ''internal/service/execution_strategy.go'', ''internal/service/execution_strategy.go''),
      (lit ''deployments/'', ''deployments/''),
      (lit ''.github/workflows/'', ''.github/workflows/''),
      (lit ''cmd/'', ''cmd/''),
      (lit ''web/'', ''web/'')]"

text \<open>\<open>^(?:\+\+\+|---)\s+[ab]/(.+)$\<close>, with the text of its group\<close>

definition header_prefix :: re where
  "header_prefix =
     Seq (Alt (lit ''+++'') (lit ''---'')) (Seq spaces1 (Seq (Cls (\<lambda>c. c = CHR ''a'' \<or> c = CHR ''b'')) (lit ''/'')))"

definition header_match :: "string \<Rightarrow> string option" where
  "header_match line =
     (case concat (map (\<lambda>r. map (matched r) (rests (Seq (Rep 1 None (\<lambda>c. c \<noteq> CHR 0x0A)) EndOf) r)) (rests header_prefix line)) of
        [] \<Rightarrow> None
      | g # gs \<Rightarrow> Some g)"

definition BACKTICK_LITERAL_RE :: re where
  "BACKTICK_LITERAL_RE = Seq (lit ''`'') (Seq (Rep 1 (Some 120) (\<lambda>c. c \<noteq> CHR ''`'')) (lit ''`''))"

definition CODE_SNIPPET_RE :: re where
  "CODE_SNIPPET_RE =
     alts [Seq (lit ''func'') space1, Seq (lit ''if'') space1, Seq (lit ''for'') space1, Seq (lit ''return'') space1,
           lit '':='', lit ''->'', Seq (lit ''import'') space1, Seq (lit ''package'') space1,
           Seq (lit ''class'') space1, Seq (lit ''def'') space1, Seq (lit ''var'') space1, Seq (lit ''const'') space1,
           Seq (lit ''let'') space1, Seq (lit ''struct'') space1, lit ''{'', lit ''}'',
           Seq (lit '';'') (Seq (Rep 0 None is_space) EndOf)]"

definition LINE_NUMBER_RE :: re where
  "LINE_NUMBER_RE = alts [Seq (lit '':'') digits1, Seq (ilit ''L'') digits1, Seq (ilit ''line'') (Seq spaces1 digits1)]"

lemma rests_shorter: "t \<in> set (rests r s) \<Longrightarrow> length t \<le> length s"
  by (induction r arbitrary: s t) (fastforce simp: Let_def split: list.splits if_splits)+

lemma rests_lit: "rests (lit w) s = (if startswith s w then [drop (length w) s] else [])"
  by (induction w arbitrary: s) (auto simp: startswith_def split: list.split)

text \<open>\<open>_is_exempt\<close>: what a literal in backticks is replaced by\<close>

definition is_exempt :: "string \<Rightarrow> string" where
  "is_exempt group0 =
     (let content = butlast (tl group0)
      in if search CODE_SNIPPET_RE content \<noteq> None then group0
         else if search LINE_NUMBER_RE content \<noteq> None then group0
         else [])"

text \<open>\<open>_BACKTICK_LITERAL_RE.sub(_is_exempt, line)\<close>\<close>

function remove_exempt_backtick_literals :: "string \<Rightarrow> string" where
  "remove_exempt_backtick_literals [] = []"
| "remove_exempt_backtick_literals (c # cs) =
     (case rests BACKTICK_LITERAL_RE (c # cs) of
        [] \<Rightarrow> c # remove_exempt_backtick_literals cs
      | t # ts \<Rightarrow> is_exempt (matched (c # cs) t) @ remove_exempt_backtick_literals t)"
  by pat_completeness auto
termination
proof (relation "measure length")
  fix c cs t ts
  assume "rests BACKTICK_LITERAL_RE (c # cs) = t # ts"
  then have "t \<in> set (rests BACKTICK_LITERAL_RE (c # cs))" by simp
  then obtain u where "u = cs" "t \<in> set (rests (Seq (Rep 1 (Some 120) (\<lambda>c. c \<noteq> CHR ''`'')) (lit ''`'')) u)"
    by (auto simp: BACKTICK_LITERAL_RE_def split: if_splits)
  then show "(t, c # cs) \<in> measure length" using rests_shorter by fastforce
qed simp_all

definition extract_path_from_line :: "string \<Rightarrow> re \<Rightarrow> string" where
  "extract_path_from_line line pattern = (case search pattern line of None \<Rightarrow> [] | Some g \<Rightarrow> g)"

text \<open>The first pattern found in a text\<close>

fun first_pattern :: "(re \<times> string) list \<Rightarrow> string \<Rightarrow> (re \<times> string) option" where
  "first_pattern [] s = None"
| "first_pattern ((r, d) # ps) s = (if search r s \<noteq> None then Some (r, d) else first_pattern ps s)"

definition scan_line :: "(re \<times> string) list \<Rightarrow> nat \<Rightarrow> string \<Rightarrow> path_violation list" where
  "scan_line patterns line_idx line =
     (case header_match line of
        Some file_path \<Rightarrow>
          (case first_pattern patterns file_path of
             None \<Rightarrow> []
           | Some (r, d) \<Rightarrow> [\<lparr>pv_file_path = file_path, pv_pattern_matched = d, pv_line_in_diff = line_idx\<rparr>])
      | None \<Rightarrow>
          (case first_pattern patterns (remove_exempt_backtick_literals line) of
             None \<Rightarrow> []
           | Some (r, d) \<Rightarrow>
               [\<lparr>pv_file_path = extract_path_from_line line r, pv_pattern_matched = d, pv_line_in_diff = line_idx\<rparr>]))"

text \<open>\<open>splitlines()\<close>\<close>

definition is_break :: "char \<Rightarrow> bool" where
  "is_break c \<longleftrightarrow> (let n = of_char c :: int in (10 \<le> n \<and> n \<le> 13) \<or> (28 \<le> n \<and> n \<le> 30))"

fun splitlines_from :: "string \<Rightarrow> string \<Rightarrow> string list" where
  "splitlines_from cur [] = (if cur = [] then [] else [cur])"
| "splitlines_from cur (c # cs) =
     (if c = CHR 0x0D \<and> cs \<noteq> [] \<and> hd cs = CHR 0x0A then cur # splitlines_from [] (tl cs)
      else if is_break c then cur # splitlines_from [] cs
      else splitlines_from (cur @ [c]) cs)"

definition splitlines :: "string \<Rightarrow> string list" where
  "splitlines s = splitlines_from [] s"

definition scan_diff :: "string \<Rightarrow> path_violation list" where
  "scan_diff diff_text =
     concat (map (\<lambda>(i, line). scan_line FORBIDDEN_PATH_PATTERNS i line) (enumerate 1 (splitlines diff_text)))"

section \<open>Approval\<close>

definition HIGH_RISK_PATH_PATTERNS :: "re list" where
  "HIGH_RISK_PATH_PATTERNS =
     [Seq (lit ''internal/service/live'') (Seq (Rep 0 None (\<lambda>c. c \<noteq> CHR ''/'')) (lit ''.go'')),
      lit ''internal/service/execution_strategy.go'', lit ''deployments/'', lit ''.github/workflows/'']"

definition digits :: "nat \<Rightarrow> re" where
  "digits n = Rep n (Some n) is_digit"

definition date_re :: re where
  "date_re = Seq (digits 4) (Seq (lit ''-'') (Seq (digits 2) (Seq (lit ''-'') (digits 2))))"

definition approval_words :: string where
  "approval_words = ''AGENTS '' @ utf8 [194, 167] @ ''3 high-risk approval: ''"

definition APPROVAL_PATTERN :: re where
  "APPROVAL_PATTERN = Seq (lit approval_words) (Seq (Rep 1 None (\<lambda>c. \<not> is_space c)) (Seq (lit '' '') date_re))"

definition DATE_PATTERN :: re where
  "DATE_PATTERN = Seq date_re EndOf"

record approval_check_result =
  approved :: bool
  missing_approval :: bool
  approval_text :: "string option"

definition extract_approval :: "string \<Rightarrow> string option" where
  "extract_approval s =
     (case search APPROVAL_PATTERN s of
        None \<Rightarrow> None
      | Some group0 \<Rightarrow>
          let date_str = drop (length group0 - 10) group0
          in if rests DATE_PATTERN date_str = [] then None else Some group0)"

definition check_approval :: "string \<Rightarrow> bool \<Rightarrow> approval_check_result" where
  "check_approval pr_description has_scope_violations =
     (let t = extract_approval pr_description
      in if \<not> has_scope_violations then \<lparr>approved = True, missing_approval = (t = None), approval_text = t\<rparr>
         else if t = None then \<lparr>approved = False, missing_approval = True, approval_text = None\<rparr>
         else \<lparr>approved = True, missing_approval = False, approval_text = t\<rparr>)"

definition has_high_risk_path_hits :: "string \<Rightarrow> bool" where
  "has_high_risk_path_hits pr_diff = list_ex (\<lambda>r. search r pr_diff \<noteq> None) HIGH_RISK_PATH_PATTERNS"

section \<open>Forbidden words\<close>

record scan_hit =
  sh_file_path :: string
  sh_line_number :: int
  sh_matched_word :: string
  sh_line_content :: string

definition REQ_1_4_FORBIDDEN :: "string list" where
  "REQ_1_4_FORBIDDEN =
     [utf8 [233, 151, 173, 229, 144, 136] @ '' signal bar '' @ utf8 [230, 148, 182, 231, 155, 152, 231, 161, 174, 232, 174, 164],
      ''1h close confirm'',
      ''close > prev_high_2 '' @ utf8 [229, 144, 142, 229, 133, 165, 229, 156, 186],
      ''1h K '' @ utf8 [231, 186, 191, 230, 148, 182, 231, 155, 152, 231, 161, 174, 232, 174, 164, 231, 170, 129, 231, 160, 180]]"

definition REQ_1_5_FORBIDDEN :: "string list" where
  "REQ_1_5_FORBIDDEN =
     [''go-live-replay'',
      ''live_aligned_replay'',
      ''LiveAlignedReplay'',
      ''GoLiveAlignedReplay'']"

definition REQ_5_4_FORBIDDEN :: "string list" where
  "REQ_5_4_FORBIDDEN =
     [''live_migration'',
      ''live-migration'',
      ''live migration'',
      ''livemigration'',
      ''control_reset'',
      ''control-reset'',
      ''control reset'',
      ''controlreset'',
      ''auto_dispatch'',
      ''auto-dispatch'',
      ''auto dispatch'',
      ''autodispatch'',
      ''sleeve_multiplier'',
      ''sleeve-multiplier'',
      ''sleeve multiplier'',
      ''sleevemultiplier'',
      ''dispatchMode'',
      ''session.config'',
      ''gate_'' @ utf8 [230, 148, 185, 233, 128, 160],
      ''gate-'' @ utf8 [230, 148, 185, 233, 128, 160],
      ''gate '' @ utf8 [230, 148, 185, 233, 128, 160],
      ''gate'' @ utf8 [230, 148, 185, 233, 128, 160],
      ''event_source_'' @ utf8 [230, 155, 191, 230, 141, 162],
      ''event-source-'' @ utf8 [230, 155, 191, 230, 141, 162],
      ''event source '' @ utf8 [230, 155, 191, 230, 141, 162],
      ''eventsource'' @ utf8 [230, 155, 191, 230, 141, 162],
      ''event_source'' @ utf8 [230, 155, 191, 230, 141, 162],
      ''event-source'' @ utf8 [230, 155, 191, 230, 141, 162]]"

definition REQ_7_2_FORBIDDEN :: "string list" where
  "REQ_7_2_FORBIDDEN =
     [''candidate_001 gate '' @ utf8 [233, 152, 136, 229, 128, 188, 232, 176, 131, 230, 149, 180],
      ''rolling regime augment'',
      ''gate_sensitivity_grid '' @ utf8 [229, 134, 141, 232, 174, 190, 232, 174, 161],
      ''candidate_002'']"

definition REQ_7_3_FORBIDDEN :: "string list" where
  "REQ_7_3_FORBIDDEN =
     [''GRU model training'',
      ''Transformer entry filter'',
      ''sequence_model_training'',
      ''LSTM entry model'']"

definition REQ_7_5_FORBIDDEN :: "string list" where
  "REQ_7_5_FORBIDDEN =
     [''prev_high_8 entry'',
      ''prev_low_8 entry'',
      ''donchian_confirm entry'',
      ''custom breakout shape replacing original_t2'']"

definition REQ_7_6_FORBIDDEN :: "string list" where
  "REQ_7_6_FORBIDDEN =
     [''tick-level order flow features'',
      ''L2 orderbook reconstruction'',
      ''news sentiment features'',
      ''on-chain flow features'']"

definition REQ_7_8_FORBIDDEN :: "string list" where
  "REQ_7_8_FORBIDDEN =
     [''go-live-replay'',
      ''live_aligned_replay'',
      ''LiveAlignedReplay'',
      ''GoLiveAlignedReplay'']"

definition REQ_7_9_FORBIDDEN :: "string list" where
  "REQ_7_9_FORBIDDEN =
     [''WS '' @ utf8 [233, 135, 141, 232, 191, 158, 232, 167, 166, 229, 143, 145],
      ''REST '' @ utf8 [229, 175, 185, 232, 180, 166, 232, 167, 166, 229, 143, 145],
      ''auto_resume'',
      ''auto-resume'']"

text \<open>\<open>list(dict.fromkeys(xs))\<close>: the first occurrence of each word\<close>

fun fromkeys :: "string list \<Rightarrow> string list" where
  "fromkeys [] = []"
| "fromkeys (w # ws) = w # filter (\<lambda>v. v \<noteq> w) (fromkeys ws)"

definition FORBIDDEN_WORDS :: "string list" where
  "FORBIDDEN_WORDS =
     fromkeys (REQ_1_4_FORBIDDEN @ REQ_1_5_FORBIDDEN @ REQ_5_4_FORBIDDEN @ REQ_7_2_FORBIDDEN @ REQ_7_3_FORBIDDEN
       @ REQ_7_5_FORBIDDEN @ REQ_7_6_FORBIDDEN @ REQ_7_8_FORBIDDEN @ REQ_7_9_FORBIDDEN)"

text \<open>The lines of a file opened as text, with their ends: every line end is read as a line feed.\<close>

fun universal_newlines :: "string \<Rightarrow> string" where
  "universal_newlines [] = []"
| "universal_newlines (c # cs) =
     (if c = CHR 0x0D
      then CHR 0x0A # universal_newlines (if cs \<noteq> [] \<and> hd cs = CHR 0x0A then tl cs else cs)
      else c # universal_newlines cs)"

fun keep_lines :: "string \<Rightarrow> string \<Rightarrow> string list" where
  "keep_lines cur [] = (if cur = [] then [] else [cur])"
| "keep_lines cur (c # cs) =
     (if c = CHR 0x0A then (cur @ [c]) # keep_lines [] cs else keep_lines (cur @ [c]) cs)"

definition file_lines :: "string \<Rightarrow> string list" where
  "file_lines content = keep_lines [] (universal_newlines content)"

definition rstrip_newlines :: "string \<Rightarrow> string" where
  "rstrip_newlines s = rev (dropWhile (\<lambda>c. c = CHR 0x0A \<or> c = CHR 0x0D) (rev s))"

definition scan_word_in_file :: "fs \<Rightarrow> string \<Rightarrow> string \<Rightarrow> scan_hit list" where
  "scan_word_in_file fs word file_path =
     (case fs file_path of
        None \<Rightarrow> []
      | Some content \<Rightarrow>
          map (\<lambda>(n, line). \<lparr>sh_file_path = file_path, sh_line_number = int n, sh_matched_word = word,
                            sh_line_content = rstrip_newlines line\<rparr>)
            (filter (\<lambda>(n, line). contains (str_lower word) (str_lower line)) (enumerate 1 (file_lines content))))"

definition scan_word_pure_python :: "fs \<Rightarrow> string list \<Rightarrow> string \<Rightarrow> scan_hit list" where
  "scan_word_pure_python fs file_paths word = concat (map (scan_word_in_file fs word) file_paths)"

definition scan_pure_python :: "fs \<Rightarrow> string list \<Rightarrow> string list \<Rightarrow> scan_hit list" where
  "scan_pure_python fs words file_paths = concat (map (scan_word_pure_python fs file_paths) words)"

text \<open>\<open>line.split(":", 2)\<close>\<close>

definition split_colon2 :: "string \<Rightarrow> string list" where
  "split_colon2 line =
     (case str_split (CHR '':'') line of
        a # b # c # ds \<Rightarrow> [a, b, str_join '':'' (c # ds)]
      | ps \<Rightarrow> ps)"

definition parse_rg_line :: "string \<Rightarrow> string \<Rightarrow> scan_hit list" where
  "parse_rg_line matched_word line =
     (case split_colon2 line of
        [file_path, number, line_content] \<Rightarrow>
          (case py_int number of
             Inl e \<Rightarrow> []
           | Inr n \<Rightarrow> [\<lparr>sh_file_path = file_path, sh_line_number = n, sh_matched_word = matched_word,
                       sh_line_content = rstrip_newlines line_content\<rparr>])
      | _ \<Rightarrow> [])"

definition parse_rg_output :: "string \<Rightarrow> string \<Rightarrow> scan_hit list" where
  "parse_rg_output out matched_word = concat (map (parse_rg_line matched_word) (splitlines (str_strip out)))"

text \<open>A run of ripgrep: its exit code and output, or a timeout or error of the operating system\<close>

datatype rg_run = RgFailed | RgDone int string

fun scan_with_ripgrep :: "(string \<Rightarrow> string list \<Rightarrow> rg_run) \<Rightarrow> fs \<Rightarrow> string list \<Rightarrow> string list \<Rightarrow> scan_hit list" where
  "scan_with_ripgrep rg fs [] file_paths = []"
| "scan_with_ripgrep rg fs (word # words) file_paths =
     (case rg word file_paths of
        RgFailed \<Rightarrow> scan_word_pure_python fs file_paths word
      | RgDone returncode stdout \<Rightarrow>
          if returncode = 0 \<and> str_strip stdout \<noteq> [] then parse_rg_output stdout word else [])
     @ scan_with_ripgrep rg fs words file_paths"

definition scanner_words :: "string list option \<Rightarrow> string list" where
  "scanner_words forbidden_words =
     (case forbidden_words of None \<Rightarrow> FORBIDDEN_WORDS | Some ws \<Rightarrow> if ws = [] then FORBIDDEN_WORDS else ws)"

definition existing :: "fs \<Rightarrow> string list \<Rightarrow> string list" where
  "existing fs file_paths = filter (\<lambda>p. fs p \<noteq> None) file_paths"

definition scan ::
  "(string \<Rightarrow> string list \<Rightarrow> rg_run) option \<Rightarrow> string list option \<Rightarrow> fs \<Rightarrow> string list \<Rightarrow> scan_hit list" where
  "scan rg forbidden_words fs file_paths =
     (let existing_paths = existing fs file_paths
      in if existing_paths = [] then []
         else case rg of
                Some run \<Rightarrow> scan_with_ripgrep run fs (scanner_words forbidden_words) existing_paths
              | None \<Rightarrow> scan_pure_python fs (scanner_words forbidden_words) existing_paths)"

section \<open>The Python scanner finds every occurrence\<close>

definition hit_at :: "string \<Rightarrow> string \<Rightarrow> string \<Rightarrow> nat \<Rightarrow> scan_hit" where
  "hit_at content w p i =
     \<lparr>sh_file_path = p, sh_line_number = int (Suc i), sh_matched_word = w,
      sh_line_content = rstrip_newlines (file_lines content ! i)\<rparr>"

lemma set_scan_word_in_file:
  "hit \<in> set (scan_word_in_file fs w p) \<longleftrightarrow>
     (\<exists>content i. fs p = Some content \<and> i < length (file_lines content)
        \<and> contains (str_lower w) (str_lower (file_lines content ! i)) \<and> hit = hit_at content w p i)"
proof (cases "fs p")
  case (Some content)
  have "x \<in> set (enumerate 1 (file_lines content)) \<longleftrightarrow> (\<exists>i < length (file_lines content). x = (Suc i, file_lines content ! i))" for x
    by (cases x; cases "fst x") (auto simp: in_set_enumerate_eq)
  note line = this
  show ?thesis unfolding scan_word_in_file_def Some option.case set_map set_filter image_iff Bex_def mem_Collect_eq line
    by (auto simp: hit_at_def) (metis of_nat_Suc)
qed (simp add: scan_word_in_file_def)

lemma set_scan_pure:
  "set (scan None forbidden_words fs file_paths) =
     (\<Union>w \<in> set (scanner_words forbidden_words). \<Union>p \<in> set file_paths. set (scan_word_in_file fs w p))"
proof -
  have "scan_word_in_file fs w p = []" if "fs p = None" for w p using that by (simp add: scan_word_in_file_def)
  then have "(\<Union>p \<in> {p \<in> set file_paths. fs p \<noteq> None}. set (scan_word_in_file fs w p)) = (\<Union>p \<in> set file_paths. set (scan_word_in_file fs w p))" for w
    by fastforce
  moreover have "scan_pure_python fs ws [] = []" for ws by (induction ws) (simp_all add: scan_pure_python_def scan_word_pure_python_def)
  then have "scan None forbidden_words fs file_paths = scan_pure_python fs (scanner_words forbidden_words) (existing fs file_paths)"
    by (simp add: scan_def Let_def)
  ultimately show ?thesis by (simp add: existing_def scan_pure_python_def scan_word_pure_python_def)
qed

text \<open>
  Without ripgrep the scan is exact: a hit is reported for a file, a line and a word just when the
  file is among those asked for and exists, the word is among those searched, and the line contains it up
  to the case of letters; the hit shows the line without its end.
\<close>

theorem scan_reports_every_occurrence:
  "hit \<in> set (scan None forbidden_words fs file_paths) \<longleftrightarrow>
     (\<exists>content line i a b. sh_file_path hit \<in> set file_paths \<and> fs (sh_file_path hit) = Some content
        \<and> sh_matched_word hit \<in> set (scanner_words forbidden_words)
        \<and> i < length (file_lines content) \<and> sh_line_number hit = int i + 1
        \<and> line = file_lines content ! i \<and> sh_line_content hit = rstrip_newlines line
        \<and> str_lower line = a @ str_lower (sh_matched_word hit) @ b)"
proof -
  have eq: "hit = hit_at content w p i \<longleftrightarrow> sh_file_path hit = p \<and> sh_matched_word hit = w \<and> sh_line_number hit = int i + 1
      \<and> sh_line_content hit = rstrip_newlines (file_lines content ! i)" for content w p i
    by (cases hit) (auto simp: hit_at_def)
  show ?thesis unfolding set_scan_pure UN_iff set_scan_word_in_file contains_iff eq by blast
qed

section \<open>What the expressions match\<close>

text \<open>\<open>den r m t\<close>: the text \<open>m\<close>, when \<open>t\<close> follows it, is an instance of \<open>r\<close>.\<close>

primrec den :: "re \<Rightarrow> string \<Rightarrow> string \<Rightarrow> bool" where
  "den Eps m t \<longleftrightarrow> m = []"
| "den (Cls p) m t \<longleftrightarrow> (\<exists>c. m = [c] \<and> p c)"
| "den (Rep a n p) m t \<longleftrightarrow> a \<le> length m \<and> (\<forall>b. n = Some b \<longrightarrow> length m \<le> b) \<and> list_all p m"
| "den (Seq a b) m t \<longleftrightarrow> (\<exists>u v. m = u @ v \<and> den a u (v @ t) \<and> den b v t)"
| "den (Alt a b) m t \<longleftrightarrow> den a m t \<or> den b m t"
| "den EndOf m t \<longleftrightarrow> m = [] \<and> (t = [] \<or> t = [CHR 0x0A])"

lemma list_all_prefix: "list_all p m \<longleftrightarrow> length m \<le> length (takeWhile p (m @ t))"
  by (induction m) auto

lemma rests_den: "t \<in> set (rests r s) \<longleftrightarrow> (\<exists>m. s = m @ t \<and> den r m t)"
proof (induction r arbitrary: s t)
  case (Rep a n p)
  let ?k = "length (takeWhile p s)"
  let ?k' = "case n of None \<Rightarrow> ?k | Some b \<Rightarrow> min b ?k"
  have "t \<in> set (rests (Rep a n p) s) \<longleftrightarrow> (\<exists>j. a \<le> j \<and> j \<le> ?k' \<and> t = drop j s)"
    by (auto simp: Let_def less_Suc_eq_le)
  also have "\<dots> \<longleftrightarrow> (\<exists>m. s = m @ t \<and> a \<le> length m \<and> length m \<le> ?k')"
  proof
    assume "\<exists>j. a \<le> j \<and> j \<le> ?k' \<and> t = drop j s"
    then obtain j where j: "a \<le> j" "j \<le> ?k'" "t = drop j s" by blast
    moreover have "?k' \<le> length s" using length_takeWhile_le [of p s] by (auto split: option.split)
    ultimately show "\<exists>m. s = m @ t \<and> a \<le> length m \<and> length m \<le> ?k'" by (intro exI [of _ "take j s"]) simp
  qed auto
  also have "\<dots> \<longleftrightarrow> (\<exists>m. s = m @ t \<and> den (Rep a n p) m t)"
    using list_all_prefix [of p _ t] by (auto split: option.splits)
  finally show ?case .
next
  case (Seq a b)
  have "t \<in> set (rests (Seq a b) s) \<longleftrightarrow> (\<exists>s'. s' \<in> set (rests a s) \<and> t \<in> set (rests b s'))" by auto
  also have "\<dots> \<longleftrightarrow> (\<exists>u v. s = u @ v @ t \<and> den a u (v @ t) \<and> den b v t)" unfolding Seq.IH by blast
  finally show ?case unfolding den.simps by (metis append_assoc)
next
  case (Cls p)
  then show ?case by (cases s) auto
next
  case (Alt a b)
  then show ?case by simp blast
qed auto

lemma search_iff: "search r s \<noteq> None \<longleftrightarrow> (\<exists>a m b. s = a @ m @ b \<and> den r m b)"
proof (induction s)
  case Nil
  have "rests r [] \<noteq> [] \<longleftrightarrow> (\<exists>t. t \<in> set (rests r []))" by (cases "rests r []") auto
  then show ?case by (auto simp: rests_den split: list.splits)
next
  case (Cons c cs)
  have "rests r (c # cs) \<noteq> [] \<longleftrightarrow> (\<exists>t. t \<in> set (rests r (c # cs)))" by (cases "rests r (c # cs)") auto
  then have "search r (c # cs) \<noteq> None \<longleftrightarrow> (\<exists>m b. c # cs = m @ b \<and> den r m b) \<or> search r cs \<noteq> None"
    by (auto simp: rests_den split: list.splits)
  also have "\<dots> \<longleftrightarrow> (\<exists>a m b. c # cs = a @ m @ b \<and> den r m b)"
    unfolding Cons.IH by (metis append_Cons append_Nil list.inject neq_Nil_conv)
  finally show ?case .
qed

lemma search_matches: "search r s = Some g \<Longrightarrow> \<exists>a b. s = a @ g @ b \<and> den r g b"
proof (induction s)
  case Nil
  then obtain t ts where "rests r [] = t # ts" "g = []" by (auto split: list.splits)
  then show ?case using rests_den [of t r "[]"] by auto
next
  case (Cons c cs)
  show ?case
  proof (cases "rests r (c # cs)")
    case Nil
    then show ?thesis using Cons by simp (metis append_Cons)
  next
    case (Cons t ts)
    then have "t \<in> set (rests r (c # cs))" by simp
    then obtain m where m: "c # cs = m @ t" "den r m t" by (auto simp: rests_den)
    then have "matched (c # cs) t = m" by (simp add: matched_def)
    then have "g = m" using Cons.prems \<open>rests r (c # cs) = t # ts\<close> by simp
    then show ?thesis using m by (intro exI [of _ "[]"] exI [of _ t]) simp
  qed
qed

lemma den_lit [simp]: "den (lit w) m t \<longleftrightarrow> m = w"
  by (induction w arbitrary: m) (auto simp: Cons_eq_append_conv)

lemma search_lit: "search (lit w) s \<noteq> None \<longleftrightarrow> contains w s"
  by (simp add: search_iff contains_iff del: not_None_eq)

section \<open>What the diff scan flags\<close>

definition names_protected_path :: "string \<Rightarrow> bool" where
  "names_protected_path s \<longleftrightarrow>
     (\<exists>m. CHR ''/'' \<notin> set m \<and> contains (''internal/service/live'' @ m @ ''.go'') s)
     \<or> (\<exists>w \<in> {''internal/service/execution_strategy.go'', ''deployments/'', ''.github/workflows/'', ''cmd/'', ''web/''}. contains w s)"

definition scanned_text :: "string \<Rightarrow> string" where
  "scanned_text line = (case header_match line of Some p \<Rightarrow> p | None \<Rightarrow> remove_exempt_backtick_literals line)"

lemma first_pattern_found: "first_pattern ps s \<noteq> None \<longleftrightarrow> list_ex (\<lambda>(r, d). search r s \<noteq> None) ps"
  by (induction ps s rule: first_pattern.induct) auto

lemma search_live:
  "search (Seq (lit p) (Seq (Rep 0 None (\<lambda>c. c \<noteq> CHR ''/'')) (lit q))) s \<noteq> None \<longleftrightarrow>
     (\<exists>m. CHR ''/'' \<notin> set m \<and> contains (p @ m @ q) s)"
proof -
  have "list_all (\<lambda>c. c \<noteq> CHR ''/'') m \<longleftrightarrow> CHR ''/'' \<notin> set m" for m by (induction m) auto
  then have "den (Seq (lit p) (Seq (Rep 0 None (\<lambda>c. c \<noteq> CHR ''/'')) (lit q))) x t \<longleftrightarrow> (\<exists>m. CHR ''/'' \<notin> set m \<and> x = p @ m @ q)" for x t
    unfolding den.simps den_lit by auto
  then show ?thesis unfolding search_iff contains_iff by blast
qed

lemma first_pattern_iff: "first_pattern FORBIDDEN_PATH_PATTERNS s \<noteq> None \<longleftrightarrow> names_protected_path s"
  unfolding first_pattern_found FORBIDDEN_PATH_PATTERNS_def names_protected_path_def
  by (simp only: list_ex_Nil_iff list_ex_Cons_iff prod.case search_live search_lit bex_simps bex_empty simp_thms)

lemma scan_line_length:
  "map pv_line_in_diff (scan_line FORBIDDEN_PATH_PATTERNS i line) = (if names_protected_path (scanned_text line) then [i] else [])"
  using first_pattern_iff [of "scanned_text line"]
  by (auto simp: scan_line_def scanned_text_def split: option.splits)

text \<open>
  The diff scan reports exactly the lines that name a protected path, once each and in order: in the
  path of a file header, or elsewhere in the text that is left when exempt literals are taken out.
\<close>

theorem diff_scan_flags_protected_lines:
  "map pv_line_in_diff (scan_diff diff_text) =
     filter (\<lambda>i. names_protected_path (scanned_text (splitlines diff_text ! (i - 1)))) [1..<Suc (length (splitlines diff_text))]"
proof -
  have "map pv_line_in_diff (concat (map (\<lambda>(i, line). scan_line FORBIDDEN_PATH_PATTERNS i line) (enumerate k ls))) =
      filter (\<lambda>i. names_protected_path (scanned_text (ls ! (i - k)))) [k..<k + length ls]" for k ls
  proof (induction ls arbitrary: k)
    case (Cons l ls)
    have "filter (\<lambda>i. names_protected_path (scanned_text ((l # ls) ! (i - k)))) [Suc k..<Suc k + length ls] =
        filter (\<lambda>i. names_protected_path (scanned_text (ls ! (i - Suc k)))) [Suc k..<Suc k + length ls]"
      by (rule filter_cong) (auto simp: nth_Cons' Suc_le_eq)
    then show ?case using Cons.IH [of "Suc k"] by (simp add: scan_line_length upt_conv_Cons del: upt_Suc)
  qed simp
  from this [of 1] show ?thesis by (simp add: scan_diff_def)
qed

text \<open>Outside of backticks a line is scanned as it is; a literal of 1 to 120 characters is judged by \<open>_is_exempt\<close>.\<close>

lemma rests_no_backtick: "c \<noteq> CHR ''`'' \<Longrightarrow> rests BACKTICK_LITERAL_RE (c # cs) = []"
  by (simp add: BACKTICK_LITERAL_RE_def)

lemma remove_plain: "CHR ''`'' \<notin> set a \<Longrightarrow> remove_exempt_backtick_literals (a @ s) = a @ remove_exempt_backtick_literals s"
  by (induction a) (auto simp: rests_no_backtick)

lemma rests_backtick:
  assumes "CHR ''`'' \<notin> set c" and "1 \<le> length c" and "length c \<le> 120"
  shows "\<exists>ts. rests BACKTICK_LITERAL_RE (''`'' @ c @ ''`'' @ b) = b # ts"
proof -
  let ?s = "c @ ''`'' @ b" and ?p = "\<lambda>c. c \<noteq> CHR ''`''"
  have "takeWhile ?p ?s = c" using assms(1) by (simp add: takeWhile_before)
  then have "rests (Rep 1 (Some 120) ?p) ?s = map (\<lambda>j. drop j ?s) (rev [1..<Suc (length c)])" using assms(3) by (simp add: Let_def)
  also have "rev [1..<Suc (length c)] = length c # rev [1..<length c]" using assms(2) by simp
  finally have "\<exists>us. rests (Rep 1 (Some 120) ?p) ?s = (''`'' @ b) # us" by simp
  then show ?thesis by (auto simp: BACKTICK_LITERAL_RE_def)
qed

theorem backtick_literals_judged:
  assumes "CHR ''`'' \<notin> set a" and "CHR ''`'' \<notin> set c" and "1 \<le> length c" and "length c \<le> 120"
  shows "remove_exempt_backtick_literals (a @ ''`'' @ c @ ''`'' @ b) =
    a @ (if search CODE_SNIPPET_RE c = None \<and> search LINE_NUMBER_RE c = None then [] else ''`'' @ c @ ''`'')
      @ remove_exempt_backtick_literals b"
proof -
  obtain ts where ts: "rests BACKTICK_LITERAL_RE (CHR ''`'' # c @ CHR ''`'' # b) = b # ts"
    using rests_backtick [OF assms(2-4), of b] by auto
  have m: "matched (CHR ''`'' # c @ CHR ''`'' # b) b = CHR ''`'' # c @ ''`''" by (simp add: matched_def)
  have "remove_exempt_backtick_literals (CHR ''`'' # c @ CHR ''`'' # b) = is_exempt (CHR ''`'' # c @ ''`'') @ remove_exempt_backtick_literals b"
    by (simp add: ts m)
  then show ?thesis using remove_plain [OF assms(1), of "CHR ''`'' # c @ CHR ''`'' # b"] by (auto simp: is_exempt_def butlast_append)
qed

section \<open>When a change is approved\<close>

definition is_date :: "string \<Rightarrow> bool" where
  "is_date x \<longleftrightarrow> (\<exists>y m d. x = y @ ''-'' @ m @ ''-'' @ d \<and> length y = 4 \<and> length m = 2 \<and> length d = 2 \<and> list_all is_digit (y @ m @ d))"

definition names_approval :: "string \<Rightarrow> bool" where
  "names_approval g \<longleftrightarrow>
     (\<exists>user x. g = approval_words @ user @ '' '' @ x \<and> user \<noteq> [] \<and> list_all (\<lambda>c. \<not> is_space c) user \<and> is_date x)"

lemma den_lit_seq: "den (Seq (lit w) r) m t \<longleftrightarrow> (\<exists>v. m = w @ v \<and> den r v t)"
  by simp

lemma den_date: "den date_re x t \<longleftrightarrow> is_date x"
proof -
  have n: "den (digits n) m t \<longleftrightarrow> length m = n \<and> list_all is_digit m" for n m t
    by (auto simp: digits_def)
  have seq: "den (Seq (digits n) r) m t \<longleftrightarrow> (\<exists>u v. m = u @ v \<and> length u = n \<and> list_all is_digit u \<and> den r v t)" for n r m t
    unfolding den.simps n by blast
  show ?thesis unfolding date_re_def is_date_def seq den_lit_seq n list_all_append by blast
qed

lemma den_approval: "den APPROVAL_PATTERN g t \<longleftrightarrow> names_approval g"
proof -
  have rep: "den (Seq (Rep 1 None p) r) m t \<longleftrightarrow> (\<exists>u v. m = u @ v \<and> u \<noteq> [] \<and> list_all p u \<and> den r v t)" for p r m t
    by (auto simp: Suc_le_eq)
  show ?thesis unfolding APPROVAL_PATTERN_def names_approval_def den_lit_seq rep den_date by blast
qed

lemma extract_approval_iff:
  "extract_approval s \<noteq> None \<longleftrightarrow> (\<exists>a g b. s = a @ g @ b \<and> names_approval g)"
  "extract_approval s = Some g \<Longrightarrow> names_approval g \<and> (\<exists>a b. s = a @ g @ b)"
proof -
  have date: "rests DATE_PATTERN (drop (length g - 10) g) \<noteq> []" if g0: "names_approval g" for g
  proof -
    obtain u x where g: "g = (approval_words @ u @ '' '') @ x" "is_date x"
      using g0 unfolding names_approval_def append_assoc by blast
    then have "length x = 10" by (auto simp: is_date_def)
    then have "drop (length g - 10) g = x" unfolding g(1) length_append by simp
    moreover have "[] \<in> set (rests DATE_PATTERN x)"
      unfolding rests_den DATE_PATTERN_def den.simps den_date using g by (intro exI [of _ x]) auto
    ultimately show ?thesis by auto
  qed
  have eq: "extract_approval s = search APPROVAL_PATTERN s"
    using search_matches [of APPROVAL_PATTERN s] date by (auto simp: extract_approval_def den_approval split: option.split)
  show "extract_approval s \<noteq> None \<longleftrightarrow> (\<exists>a g b. s = a @ g @ b \<and> names_approval g)"
    unfolding eq search_iff den_approval ..
  show "extract_approval s = Some g \<Longrightarrow> names_approval g \<and> (\<exists>a b. s = a @ g @ b)"
    using search_matches [of APPROVAL_PATTERN s g] by (auto simp: eq den_approval)
qed

text \<open>
  A change that violates the scope is approved just when its description contains
  the approval line with a user and a date; the result shows that line, whether it was needed or not.
\<close>

theorem approval_opens_protected_changes:
  "approved (check_approval pr_description has_scope_violations) =
     (if has_scope_violations then \<exists>a g b. pr_description = a @ g @ b \<and> names_approval g else True)
   \<and> missing_approval (check_approval pr_description has_scope_violations) =
     (\<nexists>a g b. pr_description = a @ g @ b \<and> names_approval g)
   \<and> (case approval_text (check_approval pr_description has_scope_violations) of
        None \<Rightarrow> \<nexists>a g b. pr_description = a @ g @ b \<and> names_approval g
      | Some g \<Rightarrow> names_approval g \<and> (\<exists>a b. pr_description = a @ g @ b))"
proof (cases "extract_approval pr_description")
  case None
  then have "\<nexists>a g b. pr_description = a @ g @ b \<and> names_approval g" using extract_approval_iff(1) [of pr_description] by blast
  then show ?thesis by (simp add: check_approval_def None)
next
  case (Some g)
  then have "names_approval g" "\<exists>a b. pr_description = a @ g @ b" using extract_approval_iff(2) [OF Some] by blast+
  moreover from this have "\<exists>a g b. pr_description = a @ g @ b \<and> names_approval g" by blast
  ultimately show ?thesis by (simp add: check_approval_def Some)
qed

section \<open>The scan through ripgrep\<close>

text \<open>A line ripgrep prints: with the name of the file when it is given several, without it when it is given one\<close>

definition rg_line :: "bool \<Rightarrow> scan_hit \<Rightarrow> string" where
  "rg_line with_filename h =
     (if with_filename then sh_file_path h @ '':'' else []) @ str_dec (sh_line_number h) @ '':'' @ sh_line_content h"

definition rg_output :: "bool \<Rightarrow> scan_hit list \<Rightarrow> string" where
  "rg_output with_filename hs = concat (map (\<lambda>h. rg_line with_filename h @ [CHR 0x0A]) hs)"

lemma digits_no_colon: "\<forall>c \<in> set w. is_digit c \<Longrightarrow> CHR '':'' \<notin> set w"
  by (auto simp: is_digit_def)

lemma digit_not_space: "is_digit c \<Longrightarrow> \<not> is_space c"
  by (auto simp: is_digit_def is_space_def Let_def)




lemma str_join_split: "str_join [c] (str_split c s) = s"
proof (induction s)
  case (Cons x xs)
  then show ?case by (cases "str_split c xs") (auto, (metis (no_types) append_Cons str_join.simps(2,3) list.exhaust)+)
qed simp

lemma split_colon2_three: "CHR '':'' \<notin> set a \<Longrightarrow> CHR '':'' \<notin> set b \<Longrightarrow> split_colon2 (a @ '':'' @ b @ '':'' @ c) = [a, b, c]"
  using str_join_split [of "CHR '':''" c] by (cases "str_split (CHR '':'') c") (auto simp: split_colon2_def str_split_append)


theorem rg_line_without_path_dropped:
  assumes "CHR '':'' \<notin> set (sh_line_content h)" and "0 \<le> sh_line_number h"
  shows "parse_rg_line w (rg_line False h) = []"
proof -
  have "split_colon2 (rg_line False h) = [str_dec (sh_line_number h), sh_line_content h]"
    using digits_no_colon [OF str_dec_digits [OF assms(2)]] assms(1)
    by (simp add: rg_line_def split_colon2_def str_split_append str_split_plain)
  then show ?thesis by (simp add: parse_rg_line_def)
qed

lemma splitlines_from_line:
  "list_all (\<lambda>c. \<not> is_break c) l \<Longrightarrow> splitlines_from cur (l @ CHR 0x0A # s) = (cur @ l) # splitlines_from [] s"
  "list_all (\<lambda>c. \<not> is_break c) l \<Longrightarrow> cur @ l \<noteq> [] \<Longrightarrow> splitlines_from cur l = [cur @ l]"
  by (induction l arbitrary: cur) (auto simp: is_break_def)

lemma splitlines_output:
  "list_all (\<lambda>l. l \<noteq> [] \<and> list_all (\<lambda>c. \<not> is_break c) l) (l # ls) \<Longrightarrow>
     splitlines (str_join [CHR 0x0A] (l # ls)) = l # ls"
  unfolding splitlines_def by (induction ls arbitrary: l) (simp_all add: splitlines_from_line)

lemma rg_output_join: "rg_output b (h # hs) = str_join [CHR 0x0A] (map (rg_line b) (h # hs)) @ [CHR 0x0A]"
  unfolding rg_output_def by (induction hs arbitrary: h) simp_all

text \<open>
  Hits that ripgrep's output can carry: no line break in the path or in the line, no colon and no
  leading blank in the path, and no blank at the end of the line (the output is stripped as a whole).
\<close>

definition printable_hit :: "scan_hit \<Rightarrow> bool" where
  "printable_hit h \<longleftrightarrow>
     0 \<le> sh_line_number h
     \<and> sh_file_path h \<noteq> [] \<and> \<not> is_space (hd (sh_file_path h)) \<and> CHR '':'' \<notin> set (sh_file_path h)
     \<and> list_all (\<lambda>c. \<not> is_break c) (sh_file_path h)
     \<and> sh_line_content h \<noteq> [] \<and> \<not> is_space (last (sh_line_content h)) \<and> list_all (\<lambda>c. \<not> is_break c) (sh_line_content h)"

lemma digit_no_break: "is_digit c \<Longrightarrow> \<not> is_break c"
  by (auto simp: is_digit_def is_break_def Let_def)

lemma rg_line_printable:
  assumes "printable_hit h"
  shows "rg_line b h \<noteq> []" and "\<not> is_space (hd (rg_line b h))" and "\<not> is_space (last (rg_line b h))"
    and "list_all (\<lambda>c. \<not> is_break c) (rg_line b h)"
proof -
  have n: "0 \<le> sh_line_number h" using assms by (simp add: printable_hit_def)
  note d = str_dec_digits [OF n]
  obtain c cs where c: "str_dec (sh_line_number h) = c # cs" "is_digit c" using first_digit [OF n] by blast
  have "list_all (\<lambda>c. \<not> is_break c) (str_dec (sh_line_number h))" using d by (auto simp: list_all_iff digit_no_break)
  moreover have "\<not> is_break (CHR '':'')" by (simp add: is_break_def)
  ultimately show "list_all (\<lambda>c. \<not> is_break c) (rg_line b h)" using assms by (simp add: rg_line_def printable_hit_def)
  show "rg_line b h \<noteq> []" by (simp add: rg_line_def)
  show "\<not> is_space (hd (rg_line b h))" using assms c by (auto simp: rg_line_def printable_hit_def digit_not_space)
  show "\<not> is_space (last (rg_line b h))" using assms by (simp add: rg_line_def printable_hit_def)
qed

lemma str_join_ends:
  "list_all (\<lambda>l. l \<noteq> []) (l # ls) \<Longrightarrow>
     str_join sep (l # ls) \<noteq> [] \<and> hd (str_join sep (l # ls)) = hd l \<and> last (str_join sep (l # ls)) = last (last (l # ls))"
proof (induction ls arbitrary: l)
  case (Cons k ls)
  then show ?case using Cons.IH [of k] by simp
qed simp

lemma str_strip_snoc: "s \<noteq> [] \<Longrightarrow> \<not> is_space (hd s) \<Longrightarrow> \<not> is_space (last s) \<Longrightarrow> str_strip (s @ [CHR 0x0A]) = s"
proof -
  assume s: "s \<noteq> []" "\<not> is_space (hd s)" "\<not> is_space (last s)"
  have "dropWhile is_space (s @ [CHR 0x0A]) = s @ [CHR 0x0A]" using s by (cases s) auto
  moreover have "is_space (CHR 0x0A)" by (simp add: is_space_def)
  moreover have "dropWhile is_space (rev s) = rev s" using s by (cases s rule: rev_cases) auto
  ultimately show ?thesis by (simp add: str_strip_def)
qed

lemma rg_output_lines:
  assumes "list_all printable_hit hs" and "hs \<noteq> []"
  shows "str_strip (rg_output b hs) \<noteq> []" and "splitlines (str_strip (rg_output b hs)) = map (rg_line b) hs"
proof -
  obtain h t where hs: "hs = h # t" using assms(2) by (cases hs) auto
  let ?ls = "map (rg_line b) hs"
  have ls: "list_all (\<lambda>l. l \<noteq> [] \<and> list_all (\<lambda>c. \<not> is_break c) l) ?ls" "list_all (\<lambda>l. l \<noteq> []) ?ls"
    using assms(1) rg_line_printable(1,4) by (auto simp: list_all_iff)
  have "printable_hit (hd hs)" "printable_hit (last hs)" using assms by (auto simp: list_all_iff)
  then have "str_join [CHR 0x0A] ?ls \<noteq> []" "\<not> is_space (hd (str_join [CHR 0x0A] ?ls))" "\<not> is_space (last (str_join [CHR 0x0A] ?ls))"
    using str_join_ends [of "rg_line b h" "map (rg_line b) t" "[CHR 0x0A]"] ls(2) rg_line_printable(2,3)
      last_map [OF assms(2), of "rg_line b"]
    by (auto simp: hs)
  then have eq: "str_strip (rg_output b hs) = str_join [CHR 0x0A] ?ls"
    using rg_output_join [of b h t] str_strip_snoc by (simp add: hs)
  then show "str_strip (rg_output b hs) \<noteq> []" using \<open>str_join [CHR 0x0A] ?ls \<noteq> []\<close> by simp
  show "splitlines (str_strip (rg_output b hs)) = ?ls" unfolding eq using splitlines_output ls(1) by (simp add: hs)
qed

text \<open>
  ripgrep by its manual, for the options \<open>-F -i -n --no-heading --color=never\<close>: a line is what lies between line feeds, it is selected when it
  contains the word up to the case of letters, and is printed after its number and, if several files are
  searched, after the path. The lines of a file come in their order, the files in any order. The exit code is 0 if
  something was selected and 1 otherwise. This is promised for ASCII text without NUL (which makes a file
  binary) and, since Python reads the output with universal newlines, without carriage returns; a word with a line feed is an error.
\<close>

definition line_feed_lines :: "string \<Rightarrow> string list" where
  "line_feed_lines content =
     (let ls = str_split (CHR 0x0A) content in if last ls = [] then butlast ls else ls)"

definition selects :: "string \<Rightarrow> string \<Rightarrow> bool" where
  "selects word line \<longleftrightarrow> (\<exists>a m b. line = a @ m @ b \<and> map lower_char m = map lower_char word)"

definition rg_prints :: "bool \<Rightarrow> string \<Rightarrow> string \<Rightarrow> string \<Rightarrow> string" where
  "rg_prints several word path content =
     concat (map (\<lambda>(n, line). (if several then path @ '':'' else []) @ str_dec (int n) @ '':'' @ line @ [CHR 0x0A])
       (filter (\<lambda>(n, line). selects word line) (enumerate 1 (line_feed_lines content))))"

definition plain_text :: "string \<Rightarrow> bool" where
  "plain_text s \<longleftrightarrow> (\<forall>c \<in> set s. of_char c < (128 :: int) \<and> c \<noteq> CHR 0x00 \<and> c \<noteq> CHR 0x0D)"

definition plain_search :: "fs \<Rightarrow> string list \<Rightarrow> string \<Rightarrow> bool" where
  "plain_search fs paths word \<longleftrightarrow>
     CHR 0x0A \<notin> set word \<and> (\<forall>p \<in> set paths. \<exists>content. fs p = Some content \<and> plain_text content)"

definition rg_documented :: "(string \<Rightarrow> string list \<Rightarrow> rg_run) \<Rightarrow> fs \<Rightarrow> string list \<Rightarrow> string \<Rightarrow> bool" where
  "rg_documented rg fs paths word \<longleftrightarrow>
     (plain_search fs paths word \<longrightarrow>
       (\<exists>ps stdout. mset ps = mset paths
          \<and> stdout = concat (map (\<lambda>p. rg_prints (1 < length paths) word p (the (fs p))) ps)
          \<and> rg word paths = RgDone (if stdout = [] then 1 else 0) stdout))"

text \<open>Why Python's own search selects and numbers the same lines\<close>

lemma lower_is_feed: "lower_char c = CHR 0x0A \<longleftrightarrow> c = CHR 0x0A"
proof -
  have "of_char (lower_char c) = (if 65 \<le> (of_char c :: int) \<and> (of_char c :: int) \<le> 90 then of_char c + 32 else of_char c :: int)"
    by (simp add: lower_char_def Let_def of_char_of)
  then have "of_char (lower_char c) = (10 :: int) \<longleftrightarrow> of_char c = (10 :: int)" by (simp split: if_splits)
  moreover have "x = CHR 0x0A \<longleftrightarrow> of_char x = (10 :: int)" for x
    using of_char_eq_iff [of x "CHR 0x0A", where 'a = int] by simp
  ultimately show ?thesis by simp
qed

lemma selects_iff: "selects word line \<longleftrightarrow> contains (str_lower word) (str_lower line)"
proof
  assume "contains (str_lower word) (str_lower line)"
  then obtain x y where "map lower_char line = x @ map lower_char word @ y" by (auto simp: contains_iff str_lower_def)
  then obtain a r where ar: "line = a @ r" "map lower_char word @ y = map lower_char r" unfolding map_eq_append_conv by blast
  from ar(2) [symmetric] obtain m b where "r = m @ b" "map lower_char word = map lower_char m" unfolding map_eq_append_conv by blast
  then have "r = m @ b" "map lower_char m = map lower_char word" by simp_all
  then show "selects word line" using ar(1) unfolding selects_def by blast
next
  assume "selects word line"
  then show "contains (str_lower word) (str_lower line)" by (fastforce simp: selects_def contains_iff str_lower_def)
qed

lemma contains_before_feed:
  assumes "CHR 0x0A \<notin> set w"
  shows "contains w (l @ [CHR 0x0A]) \<longleftrightarrow> contains w l"
proof
  assume "contains w (l @ [CHR 0x0A])"
  then obtain a b where ab: "l @ [CHR 0x0A] = a @ w @ b" by (auto simp: contains_iff)
  show "contains w l"
  proof (cases b rule: rev_cases)
    case Nil
    then have "w = []" using ab assms by (cases w rule: rev_cases) auto
    then show ?thesis by (auto simp: contains_iff)
  next
    case (snoc b' c)
    then show ?thesis using ab by (auto simp: contains_iff)
  qed
next
  assume "contains w l"
  then obtain a b where "l = a @ w @ b" by (auto simp: contains_iff)
  then show "contains w (l @ [CHR 0x0A])" by (auto simp: contains_iff)
qed

lemma selects_python_line:
  assumes "CHR 0x0A \<notin> set word"
  shows "contains (str_lower word) (str_lower (line @ [CHR 0x0A])) \<longleftrightarrow> selects word line"
proof -
  have "CHR 0x0A \<notin> set (str_lower word)"
  proof
    assume "CHR 0x0A \<in> set (str_lower word)"
    then obtain c where "c \<in> set word" "lower_char c = CHR 0x0A" unfolding str_lower_def set_map image_iff by metis
    then show False using assms lower_is_feed by simp
  qed
  moreover have "str_lower (line @ [CHR 0x0A]) = str_lower line @ [CHR 0x0A]"
    using lower_is_feed [of "CHR 0x0A"] by (simp add: str_lower_def)
  ultimately show ?thesis by (simp add: contains_before_feed selects_iff)
qed

lemma universal_newlines_plain: "CHR 0x0D \<notin> set s \<Longrightarrow> universal_newlines s = s"
  by (induction s) auto

lemma str_split_Cons: "\<exists>w ws. str_split c s = w # ws"
  by (induction s) (auto split: list.split)

lemma keep_lines_split:
  "keep_lines cur s =
     (let ls = (cur @ hd (str_split (CHR 0x0A) s)) # tl (str_split (CHR 0x0A) s)
      in map (\<lambda>l. l @ [CHR 0x0A]) (butlast ls) @ (if last ls = [] then [] else [last ls]))"
proof (induction s arbitrary: cur)
  case (Cons c s)
  obtain w ws where s: "str_split (CHR 0x0A) s = w # ws" using str_split_Cons by blast
  show ?case using Cons [of "[]"] Cons [of "cur @ [c]"] by (simp add: s Let_def)
qed simp

definition python_line :: "string \<Rightarrow> string \<Rightarrow> bool" where
  "python_line kept line \<longleftrightarrow> (kept = line @ [CHR 0x0A] \<or> kept = line) \<and> CHR 0x0A \<notin> set line \<and> CHR 0x0D \<notin> set line"

lemma python_line_facts:
  assumes "python_line kept line" and "CHR 0x0A \<notin> set word"
  shows "contains (str_lower word) (str_lower kept) \<longleftrightarrow> selects word line" and "rstrip_newlines kept = line"
proof -
  show "contains (str_lower word) (str_lower kept) \<longleftrightarrow> selects word line"
    using assms selects_python_line selects_iff unfolding python_line_def by blast
  have "dropWhile (\<lambda>c. c = CHR 0x0A \<or> c = CHR 0x0D) (rev line) = rev line"
    using assms(1) by (cases line rule: rev_cases) (auto simp: python_line_def)
  then show "rstrip_newlines kept = line" using assms(1) by (auto simp: python_line_def rstrip_newlines_def)
qed

lemma split_parts: "l \<in> set (str_split c s) \<Longrightarrow> c \<notin> set l \<and> set l \<subseteq> set s"
proof (induction s arbitrary: l)
  case (Cons x s)
  obtain w ws where w: "str_split c s = w # ws" using str_split_Cons by blast
  have "c \<notin> set k \<and> set k \<subseteq> set s" if "k \<in> {w} \<union> set ws" for k using Cons.IH [of k] that by (simp add: w)
  then have "c \<notin> set w \<and> set w \<subseteq> set s" "\<forall>k \<in> set ws. c \<notin> set k \<and> set k \<subseteq> set s" by simp_all
  then show ?case using Cons.prems by (auto simp: w split: if_splits)
qed simp

lemma file_lines_plain:
  assumes "CHR 0x0D \<notin> set content"
  shows "list_all2 python_line (file_lines content) (line_feed_lines content)"
proof -
  let ?ls = "str_split (CHR 0x0A) content"
  obtain w ws where ne: "?ls = w # ws" using str_split_Cons by blast
  have part: "CHR 0x0A \<notin> set l \<and> CHR 0x0D \<notin> set l" if "l \<in> set ?ls" for l using split_parts [OF that] assms by blast
  have kept: "file_lines content = map (\<lambda>l. l @ [CHR 0x0A]) (butlast ?ls) @ (if last ?ls = [] then [] else [last ?ls])"
    by (simp add: file_lines_def universal_newlines_plain assms keep_lines_split ne Let_def)
  have nonempty: "?ls \<noteq> []" by (simp add: ne)
  have feed: "line_feed_lines content = butlast ?ls @ (if last ?ls = [] then [] else [last ?ls])"
    by (simp add: line_feed_lines_def Let_def nonempty)
  have "list_all2 python_line (map (\<lambda>l. l @ [CHR 0x0A]) (butlast ?ls)) (butlast ?ls)"
    unfolding list.rel_map by (rule list.rel_refl_strong) (simp add: python_line_def part [OF in_set_butlastD])
  moreover have "python_line (last ?ls) (last ?ls)" using part [OF last_in_set [OF nonempty]] by (simp add: python_line_def)
  ultimately show ?thesis unfolding kept feed by (simp add: list_all2_appendI)
qed

lemma rg_prints_hits:
  assumes "fs p = Some content" and "plain_text content" and "CHR 0x0A \<notin> set word"
  shows "rg_prints several word p content = rg_output several (scan_word_in_file fs word p)"
proof -
  have lines: "concat (map (\<lambda>(n, line). (if several then p @ '':'' else []) @ str_dec (int n) @ '':'' @ line @ [CHR 0x0A])
          (filter (\<lambda>(n, line). selects word line) (enumerate k feed)))
      = rg_output several (map (\<lambda>(n, line). \<lparr>sh_file_path = p, sh_line_number = int n, sh_matched_word = word,
            sh_line_content = rstrip_newlines line\<rparr>)
          (filter (\<lambda>(n, line). contains (str_lower word) (str_lower line)) (enumerate k kept)))"
    if "list_all2 python_line kept feed" for kept feed k
    using that
  proof (induction arbitrary: k rule: list_all2_induct)
    case (Cons kept feed l ls)
    then show ?case using python_line_facts [OF Cons.hyps(1) assms(3)] by (simp add: rg_output_def rg_line_def)
  qed (simp add: rg_output_def)
  have "CHR 0x0D \<notin> set content" using assms(2) by (auto simp: plain_text_def)
  then show ?thesis using lines [OF file_lines_plain] assms(1) by (simp add: rg_prints_def scan_word_in_file_def)
qed

lemma rg_output_concat: "rg_output b (concat hss) = concat (map (rg_output b) hss)"
  by (induction hss) (simp_all add: rg_output_def)

lemma rg_output_Nil: "rg_output b hs = [] \<longleftrightarrow> hs = []"
  by (cases hs) (simp_all add: rg_output_def)

lemma rg_hits:
  assumes "rg_documented rg fs paths w" and plain: "plain_search fs paths w"
  obtains hs where "set hs = set (scan_word_pure_python fs paths w)"
    and "rg w paths = (if hs = [] then RgDone 1 [] else RgDone 0 (rg_output (1 < length paths) hs))"
proof -
  obtain ps where ps: "mset ps = mset paths"
      "rg w paths = (let stdout = concat (map (\<lambda>p. rg_prints (1 < length paths) w p (the (fs p))) ps)
         in RgDone (if stdout = [] then 1 else 0) stdout)"
    using assms unfolding rg_documented_def Let_def by blast
  have paths: "set ps = set paths" using ps(1) by (rule mset_eq_setD)
  let ?hs = "concat (map (scan_word_in_file fs w) ps)"
  have "map (\<lambda>p. rg_prints (1 < length paths) w p (the (fs p))) ps = map (rg_output (1 < length paths)) (map (scan_word_in_file fs w) ps)"
  proof -
    have "rg_prints (1 < length paths) w p (the (fs p)) = rg_output (1 < length paths) (scan_word_in_file fs w p)" if p: "p \<in> set ps" for p
    proof -
      obtain content where c: "fs p = Some content" "plain_text content" using plain p unfolding plain_search_def paths by blast
      have "CHR 0x0A \<notin> set w" using plain by (simp add: plain_search_def)
      from rg_prints_hits [where fs = fs and p = p, OF c(1) c(2) this] show ?thesis by (simp add: c(1))
    qed
    then show ?thesis by simp
  qed
  then have out: "concat (map (\<lambda>p. rg_prints (1 < length paths) w p (the (fs p))) ps) = rg_output (1 < length paths) ?hs"
    by (simp only: rg_output_concat)
  have "set ?hs = set (scan_word_pure_python fs paths w)" by (simp add: scan_word_pure_python_def paths)
  moreover have "rg w paths = (if ?hs = [] then RgDone 1 [] else RgDone 0 (rg_output (1 < length paths) ?hs))"
    unfolding ps(2) out Let_def rg_output_Nil by (cases "?hs = []") (simp_all add: rg_output_def)
  ultimately show thesis using that by blast
qed

lemma rg_word:
  assumes "rg_documented rg fs paths w" and "plain_search fs paths w"
    and "\<forall>h \<in> set (scan_word_pure_python fs paths w). printable_hit h"
  obtains hs where "set hs = set (scan_word_pure_python fs paths w)" and "list_all printable_hit hs"
    and "scan_with_ripgrep rg fs [w] paths = concat (map (parse_rg_line w) (map (rg_line (1 < length paths)) hs))"
proof -
  obtain hs where hs: "set hs = set (scan_word_pure_python fs paths w)"
      "rg w paths = (if hs = [] then RgDone 1 [] else RgDone 0 (rg_output (1 < length paths) hs))"
    using rg_hits [OF assms(1,2)] by blast
  have "list_all printable_hit hs" using assms(3) hs(1) by (simp add: list_all_iff)
  moreover have "scan_with_ripgrep rg fs [w] paths = concat (map (parse_rg_line w) (map (rg_line (1 < length paths)) hs))"
    using rg_output_lines [OF calculation] by (cases "hs = []") (simp_all add: hs(2) parse_rg_output_def)
  ultimately show thesis using hs(1) that by blast
qed

lemma scan_with_ripgrep_Cons:
  "scan_with_ripgrep rg fs (w # ws) paths = scan_with_ripgrep rg fs [w] paths @ scan_with_ripgrep rg fs ws paths"
  by simp



lemma set_scan_ripgrep: "set (scan_with_ripgrep rg fs ws paths) = (\<Union>w \<in> set ws. set (scan_with_ripgrep rg fs [w] paths))"
proof (induction ws)
  case (Cons w ws)
  then show ?case by (subst scan_with_ripgrep_Cons) (simp del: scan_with_ripgrep.simps)
qed simp

lemma set_scan_existing:
  "set (scan None forbidden_words fs file_paths) =
     (\<Union>w \<in> set (scanner_words forbidden_words). set (scan_word_pure_python fs (existing fs file_paths) w))"
proof -
  have "scan_word_pure_python fs [] w = []" for w by (simp add: scan_word_pure_python_def)
  then show ?thesis by (simp add: scan_def scan_pure_python_def Let_def)
qed


lemma rg_prints_code:
  "rg_prints several word path content =
     concat (map (\<lambda>(n, line). (if several then path @ '':'' else []) @ str_dec (int n) @ '':'' @ line @ [CHR 0x0A])
       (filter (\<lambda>(n, line). contains (str_lower word) (str_lower line)) (enumerate 1 (line_feed_lines content))))"
  by (simp only: rg_prints_def selects_iff)


lemma rg_line_without_path:
  assumes "0 \<le> sh_line_number h" and "hit \<in> set (parse_rg_line w (rg_line False h))"
  shows "CHR '':'' \<in> set (sh_line_content h) \<and> sh_file_path hit = str_dec (sh_line_number h)"
proof -
  have colon: "CHR '':'' \<in> set (sh_line_content h)"
    using rg_line_without_path_dropped [OF _ assms(1), of w] assms(2) by (cases "CHR '':'' \<in> set (sh_line_content h)") simp_all
  then obtain u v where uv: "sh_line_content h = u @ '':'' @ v" "CHR '':'' \<notin> set u"
    using split_list_first [of "CHR '':''" "sh_line_content h"] by auto
  have "split_colon2 (rg_line False h) = [str_dec (sh_line_number h), u, v]"
    using split_colon2_three [OF digits_no_colon [OF str_dec_digits [OF assms(1)]] uv(2)] by (simp add: rg_line_def uv(1))
  then show ?thesis using assms(2) colon by (auto simp: parse_rg_line_def split: sum.splits)
qed

text \<open>
  C31. When a single file exists, ripgrep prints its lines without the path, and the parser, which expects
  three fields, is blind: under the same suppositions on text, words and ripgrep as for several files, the scan reports nothing for a matching line without a
  colon, and what it may report for a line with a colon has the line number where the path should be. If
  no matching line contains a colon the scan reports nothing at all, whatever forbidden words the file contains.
\<close>

theorem single_file_scan_is_blind:
  assumes one: "existing fs file_paths = [p]"
    and plain: "\<forall>w \<in> set (scanner_words forbidden_words). plain_search fs [p] w"
    and rg: "\<forall>w \<in> set (scanner_words forbidden_words). rg_documented rg fs [p] w"
    and printable: "\<forall>h \<in> set (scan None forbidden_words fs file_paths). printable_hit h"
  shows "(\<forall>hit \<in> set (scan (Some rg) forbidden_words fs file_paths). \<exists>h \<in> set (scan None forbidden_words fs file_paths).
        CHR '':'' \<in> set (sh_line_content h) \<and> sh_file_path hit = str_dec (sh_line_number h))
    \<and> ((\<forall>h \<in> set (scan None forbidden_words fs file_paths). CHR '':'' \<notin> set (sh_line_content h))
        \<longrightarrow> scan (Some rg) forbidden_words fs file_paths = [])"
proof -
  let ?ws = "scanner_words forbidden_words"
  have word: "\<exists>h \<in> set (scan_word_pure_python fs [p] w). CHR '':'' \<in> set (sh_line_content h) \<and> sh_file_path hit = str_dec (sh_line_number h)"
    if w: "w \<in> set ?ws" and hit: "hit \<in> set (scan_with_ripgrep rg fs [w] [p])" for w hit
  proof -
    have "\<forall>h \<in> set (scan_word_pure_python fs [p] w). printable_hit h" using printable w by (auto simp: set_scan_existing one)
    then obtain hs where hs: "set hs = set (scan_word_pure_python fs [p] w)" "list_all printable_hit hs"
        "scan_with_ripgrep rg fs [w] [p] = concat (map (parse_rg_line w) (map (rg_line (1 < length [p])) hs))"
      using rg_word [OF bspec [OF rg w] bspec [OF plain w]] by blast
    obtain h where h: "h \<in> set hs" "hit \<in> set (parse_rg_line w (rg_line False h))"
      using hit unfolding hs(3) by auto
    have "0 \<le> sh_line_number h" using hs(2) h(1) by (simp add: list_all_iff printable_hit_def)
    from rg_line_without_path [OF this h(2)] show ?thesis using h(1) hs(1) by blast
  qed
  have "set (scan (Some rg) forbidden_words fs file_paths) = (\<Union>w \<in> set ?ws. set (scan_with_ripgrep rg fs [w] [p]))"
    unfolding set_scan_ripgrep [of rg fs ?ws, symmetric] by (simp add: scan_def one)
  then have all: "\<exists>h \<in> set (scan None forbidden_words fs file_paths). CHR '':'' \<in> set (sh_line_content h) \<and> sh_file_path hit = str_dec (sh_line_number h)"
    if "hit \<in> set (scan (Some rg) forbidden_words fs file_paths)" for hit
    using word that unfolding set_scan_existing one by blast
  then have "scan (Some rg) forbidden_words fs file_paths = []"
    if "\<forall>h \<in> set (scan None forbidden_words fs file_paths). CHR '':'' \<notin> set (sh_line_content h)"
    using that by (metis list.set_intros(1) neq_Nil_conv)
  then show ?thesis using all by blast
qed

theorem single_file_scan_is_blind_witness:
  "scan (Some (\<lambda>w ps. RgDone 0 (''1:go-live-replay'' @ [CHR 0x0A]))) (Some [''go-live-replay'']) [''b.md'' \<mapsto> ''go-live-replay''] [''b.md''] = []
   \<and> length (scan None (Some [''go-live-replay'']) [''b.md'' \<mapsto> ''go-live-replay''] [''b.md'']) = 1"
proof -
  let ?rg = "\<lambda>w ps :: string list. RgDone 0 (''1:go-live-replay'' @ [CHR 0x0A])"
  let ?fs = "[''b.md'' \<mapsto> ''go-live-replay'']"
  let ?h = "\<lparr>sh_file_path = ''b.md'', sh_line_number = 1, sh_matched_word = ''go-live-replay'', sh_line_content = ''go-live-replay''\<rparr>"
  have ex: "existing ?fs [''b.md''] = [''b.md'']" by (simp add: existing_def)
  have py: "scan_word_pure_python ?fs [''b.md''] ''go-live-replay'' = [?h]" by code_simp
  have prints: "rg_prints False ''go-live-replay'' ''b.md'' ''go-live-replay'' = ''1:go-live-replay'' @ [CHR 0x0A]"
    unfolding rg_prints_code by code_simp
  have "rg_documented ?rg ?fs [''b.md''] ''go-live-replay''"
    unfolding rg_documented_def by (rule impI, rule exI [of _ "[''b.md'']"]) (simp add: prints)
  moreover have "plain_search ?fs [''b.md''] ''go-live-replay''" by (simp add: plain_search_def plain_text_def)
  moreover have sn: "scan None (Some [''go-live-replay'']) ?fs [''b.md''] = [?h]"
    by (simp add: scan_def ex scan_pure_python_def scanner_words_def py)
  moreover have "printable_hit ?h" "CHR '':'' \<notin> set (sh_line_content ?h)" by code_simp+
  ultimately show ?thesis
    using single_file_scan_is_blind [of ?fs "[''b.md'']" "''b.md''" "Some [''go-live-replay'']" ?rg]
    by (simp add: ex scanner_words_def)
qed

end
