(* ===== verification/ExecSim.thy ===== *)
theory ExecSim
  imports Stops
begin

text \<open>
  \<open>scripts/dynamic_timing/execution_sim.py\<close>: the simulation of one trade on bars of one second. A frame of
  bars is the list of its rows in the order of the file; a \<open>Timedelta\<close> is a number of microseconds.
  Floats that come out of a frame are numpy floats and divide as numpy does (the parameter \<open>np_div\<close> where the
  divisor is zero), floats of Python raise: the flags \<open>_np\<close> of a position say which of the two a price is.
\<close>

section \<open>Bars, events, parameters\<close>

record second_bar =
  sb_time :: datetime
  sb_open :: pyfloat
  sb_high :: pyfloat
  sb_low :: pyfloat
  sb_close :: pyfloat

record touch_event =
  te_event_id :: "string option"
  te_symbol :: string
  te_touch_time :: datetime
  te_side :: string
  te_level :: pyfloat
  te_atr :: pyfloat
  te_touch_low :: "pyfloat option"
  te_signal_low :: "pyfloat option"
  te_touch_high :: "pyfloat option"
  te_signal_high :: "pyfloat option"

record exec_params =
  xp_initial_stop_atr :: pyfloat
  xp_stop_buffer_atr :: pyfloat
  xp_stop_cap_atr :: pyfloat
  xp_min_stop_bps :: pyfloat
  xp_breakeven_at_r :: pyfloat
  xp_cost_lock_bps :: pyfloat
  xp_trail_start_r :: pyfloat
  xp_trail_buffer_atr :: pyfloat
  xp_max_hold :: int
  xp_slippage :: pyfloat
  xp_entry_fee :: pyfloat
  xp_exit_fee :: pyfloat

definition DEFAULT_EXEC_PARAMS :: exec_params where
  "DEFAULT_EXEC_PARAMS =
     \<lparr>xp_initial_stop_atr = fl (45 / 100), xp_stop_buffer_atr = fl (5 / 100), xp_stop_cap_atr = fl (80 / 100),
      xp_min_stop_bps = fl 12, xp_breakeven_at_r = fl (8 / 10), xp_cost_lock_bps = fl 10, xp_trail_start_r = fl (9 / 10),
      xp_trail_buffer_atr = fl (5 / 100), xp_max_hold = seconds (4 * 3600), xp_slippage = fl (2 / 10000),
      xp_entry_fee = fl (2 / 10000), xp_exit_fee = fl (4 / 10000)\<rparr>"

section \<open>Positions and trades\<close>

record live_position =
  lp_side :: string
  lp_entry_time :: datetime
  lp_entry_p :: pyfloat
  lp_entry_raw :: pyfloat
  lp_sl :: pyfloat
  lp_risk :: pyfloat
  lp_atr :: pyfloat
  lp_notional :: pyfloat
  lp_notional_share :: pyfloat
  lp_protected :: bool
  lp_trailing_active :: bool
  lp_hwm :: pyfloat
  lp_lwm :: pyfloat
  lp_mfe_r :: pyfloat
  lp_mae_r :: pyfloat
  lp_entry_np :: bool
  lp_mark_np :: bool
  lp_sl_np :: bool

record exec_trade =
  xt_entry_time :: datetime
  xt_exit_time :: datetime
  xt_side :: string
  xt_entry_p :: pyfloat
  xt_exit_p :: pyfloat
  xt_notional_share :: pyfloat
  xt_pnl_pct :: pyfloat
  xt_realistic_pnl_pct :: pyfloat
  xt_exit_reason :: string
  xt_mfe_r :: pyfloat
  xt_mae_r :: pyfloat
  xt_hold_seconds :: pyfloat

text \<open>\<open>event.get(a, event.get(b, 0))\<close>\<close>

definition get_or :: "pyfloat option \<Rightarrow> pyfloat option \<Rightarrow> pyfloat" where
  "get_or a b = (case a of Some x \<Rightarrow> x | None \<Rightarrow> (case b of Some y \<Rightarrow> y | None \<Rightarrow> Fin 0))"

text \<open>The price of a side with slippage, away from or towards the profit\<close>

definition slip_up :: "exec_params \<Rightarrow> pyfloat \<Rightarrow> pyfloat" where
  "slip_up p x = fmul x (fadd (Fin 1) (xp_slippage p))"

definition slip_down :: "exec_params \<Rightarrow> pyfloat \<Rightarrow> pyfloat" where
  "slip_down p x = fmul x (fsub (Fin 1) (xp_slippage p))"

definition entry_stop :: "exec_params \<Rightarrow> touch_event \<Rightarrow> pyfloat \<Rightarrow> pyfloat \<times> pyfloat" where
  "entry_stop p event entry_p =
     (let atr = te_atr event
      in if te_side event = ''long''
         then let raw_stop = py_min (fsub (get_or (te_touch_low event) (te_signal_low event)) (fmul (xp_stop_buffer_atr p) atr))
                    [fsub entry_p (fmul (xp_initial_stop_atr p) atr)];
                  stop = py_max raw_stop (fsub entry_p (fmul (xp_stop_cap_atr p) atr))
              in (stop, fsub entry_p stop)
         else let raw_stop = py_max (fadd (get_or (te_touch_high event) (te_signal_high event)) (fmul (xp_stop_buffer_atr p) atr))
                    (fadd entry_p (fmul (xp_initial_stop_atr p) atr));
                  stop = py_min raw_stop [fadd entry_p (fmul (xp_stop_cap_atr p) atr)]
              in (stop, fsub stop entry_p))"

definition ex_open_position ::
  "exec_params \<Rightarrow> touch_event \<Rightarrow> bool \<Rightarrow> pyfloat \<Rightarrow> datetime \<Rightarrow> pyfloat \<Rightarrow> pyfloat \<Rightarrow> live_position option" where
  "ex_open_position p event numpy entry_price entry_time balance notional_share =
     (let entry_p = (if te_side event = ''long'' then slip_up p entry_price else slip_down p entry_price);
          (stop, risk) = entry_stop p event entry_p
      in if fle risk (Fin 0) \<or> flt risk (per_10000 (fmul entry_p (xp_min_stop_bps p))) then None
         else Some \<lparr>lp_side = te_side event, lp_entry_time = entry_time, lp_entry_p = entry_p, lp_entry_raw = entry_price,
                    lp_sl = stop, lp_risk = risk, lp_atr = te_atr event, lp_notional = fmul balance notional_share,
                    lp_notional_share = notional_share, lp_protected = False, lp_trailing_active = False,
                    lp_hwm = entry_p, lp_lwm = entry_p, lp_mfe_r = Fin 0, lp_mae_r = Fin 0,
                    lp_entry_np = numpy, lp_mark_np = False, lp_sl_np = False\<rparr>)"

section \<open>Holding\<close>

text \<open>A multiple of the risk: the risk of an open position is never zero (\<open>risk_nonzero\<close> below).\<close>

definition r_multiple :: "pyfloat \<Rightarrow> pyfloat \<Rightarrow> pyfloat" where
  "r_multiple x risk = (case fdiv x risk of Some q \<Rightarrow> q | None \<Rightarrow> NaN)"

definition update_marks :: "second_bar \<Rightarrow> live_position \<Rightarrow> live_position" where
  "update_marks bar pos =
     (if lp_side pos = ''long''
      then pos\<lparr>lp_hwm := py_max (lp_hwm pos) (sb_high bar), lp_mark_np := lp_mark_np pos \<or> flt (lp_hwm pos) (sb_high bar)\<rparr>
      else pos\<lparr>lp_lwm := py_min (lp_lwm pos) [sb_low bar], lp_mark_np := lp_mark_np pos \<or> flt (sb_low bar) (lp_lwm pos)\<rparr>)"

definition favorable :: "live_position \<Rightarrow> pyfloat" where
  "favorable pos =
     (if lp_side pos = ''long'' then py_max (Fin 0) (fsub (lp_hwm pos) (lp_entry_p pos))
      else py_max (Fin 0) (fsub (lp_entry_p pos) (lp_lwm pos)))"

definition adverse :: "second_bar \<Rightarrow> live_position \<Rightarrow> pyfloat" where
  "adverse bar pos =
     (if lp_side pos = ''long'' then py_max (Fin 0) (fsub (lp_entry_p pos) (sb_low bar))
      else py_max (Fin 0) (fsub (sb_high bar) (lp_entry_p pos)))"

definition update_excursions :: "second_bar \<Rightarrow> live_position \<Rightarrow> live_position" where
  "update_excursions bar pos =
     pos\<lparr>lp_mfe_r := py_max (lp_mfe_r pos) (r_multiple (favorable pos) (lp_risk pos)),
         lp_mae_r := py_max (lp_mae_r pos) (r_multiple (adverse bar pos) (lp_risk pos))\<rparr>"

definition breakeven :: "exec_params \<Rightarrow> live_position \<Rightarrow> live_position" where
  "breakeven p pos =
     (if fle (xp_breakeven_at_r p) (r_multiple (favorable pos) (lp_risk pos))
      then if lp_side pos = ''long''
           then let be_sl = fmul (lp_entry_p pos) (fadd (Fin 1) (per_10000 (xp_cost_lock_bps p)))
                in if flt (lp_sl pos) be_sl then pos\<lparr>lp_sl := be_sl, lp_protected := True, lp_sl_np := False\<rparr> else pos
           else let be_sl = fmul (lp_entry_p pos) (fsub (Fin 1) (per_10000 (xp_cost_lock_bps p)))
                in if flt be_sl (lp_sl pos) then pos\<lparr>lp_sl := be_sl, lp_protected := True, lp_sl_np := False\<rparr> else pos
      else pos)"

definition trail :: "exec_params \<Rightarrow> live_position \<Rightarrow> live_position" where
  "trail p pos =
     (if fle (xp_trail_start_r p) (lp_mfe_r pos)
      then if lp_side pos = ''long''
           then let t = fsub (lp_hwm pos) (fmul (xp_trail_buffer_atr p) (lp_atr pos))
                in if flt (lp_sl pos) t then pos\<lparr>lp_sl := t, lp_trailing_active := True, lp_sl_np := lp_mark_np pos\<rparr> else pos
           else let t = fadd (lp_lwm pos) (fmul (xp_trail_buffer_atr p) (lp_atr pos))
                in if flt t (lp_sl pos) then pos\<lparr>lp_sl := t, lp_trailing_active := True, lp_sl_np := lp_mark_np pos\<rparr> else pos
      else pos)"

definition hold_bar :: "exec_params \<Rightarrow> second_bar \<Rightarrow> live_position \<Rightarrow> live_position" where
  "hold_bar p bar pos = trail p (breakeven p (update_excursions bar (update_marks bar pos)))"

definition stop_hit :: "second_bar \<Rightarrow> live_position \<Rightarrow> bool" where
  "stop_hit bar pos = (if lp_side pos = ''long'' then fle (sb_low bar) (lp_sl pos) else fle (lp_sl pos) (sb_high bar))"

definition stop_reason :: "live_position \<Rightarrow> string" where
  "stop_reason pos =
     (if lp_trailing_active pos then ''TrailingSL'' else if lp_protected pos then ''BreakevenSL'' else ''InitialSL'')"

text \<open>The bars until the stop is hit: the position then, and the bar that hit it\<close>

fun hold_bars :: "exec_params \<Rightarrow> live_position \<Rightarrow> second_bar list \<Rightarrow> live_position \<times> second_bar option" where
  "hold_bars p pos [] = (pos, None)"
| "hold_bars p pos (bar # bars) =
     (let pos' = hold_bar p bar pos in if stop_hit bar pos' then (pos', Some bar) else hold_bars p pos' bars)"

section \<open>Leaving\<close>

text \<open>\<open>total_seconds()\<close>\<close>

definition total_seconds :: "int \<Rightarrow> pyfloat" where
  "total_seconds us = fl (of_int us / 1000000)"

definition float_div :: "numpy_ops \<Rightarrow> bool \<Rightarrow> pyfloat \<Rightarrow> pyfloat \<Rightarrow> pyfloat res" where
  "float_div ops numpy x y = (if numpy then Inr (np_div ops x y) else the_or_raise ZeroDivisionError (fdiv x y))"

definition make_exit ::
  "numpy_ops \<Rightarrow> exec_params \<Rightarrow> live_position \<Rightarrow> bool \<Rightarrow> pyfloat \<Rightarrow> datetime \<Rightarrow> string \<Rightarrow> exec_trade res" where
  "make_exit ops p pos numpy raw_exit_price exit_time reason =
     (let long = (lp_side pos = ''long'');
          exit_p = (if long then slip_down p raw_exit_price else slip_up p raw_exit_price);
          gain = (if long then fsub exit_p (lp_entry_p pos) else fsub (lp_entry_p pos) exit_p)
      in res_bind (float_div ops (numpy \<or> lp_entry_np pos) gain (lp_entry_p pos)) (\<lambda>pnl_pct.
         Inr \<lparr>xt_entry_time = lp_entry_time pos, xt_exit_time = exit_time, xt_side = lp_side pos,
              xt_entry_p = lp_entry_p pos, xt_exit_p = exit_p, xt_notional_share = lp_notional_share pos,
              xt_pnl_pct = pnl_pct, xt_realistic_pnl_pct = fsub pnl_pct (fadd (xp_entry_fee p) (xp_exit_fee p)),
              xt_exit_reason = reason, xt_mfe_r = lp_mfe_r pos, xt_mae_r = lp_mae_r pos,
              xt_hold_seconds = total_seconds (exit_time - lp_entry_time pos)\<rparr>))"

definition hold_window :: "exec_params \<Rightarrow> datetime \<Rightarrow> second_bar list \<Rightarrow> second_bar list" where
  "hold_window p entry_time second_bars =
     filter (\<lambda>b. entry_time < sb_time b \<and> sb_time b \<le> entry_time + xp_max_hold p) second_bars"

definition simulate_position :: "numpy_ops \<Rightarrow> exec_params \<Rightarrow> live_position \<Rightarrow> second_bar list \<Rightarrow> exec_trade res" where
  "simulate_position ops p pos second_bars =
     (let bars = hold_window p (lp_entry_time pos) second_bars
      in if bars = [] then make_exit ops p pos False (lp_entry_raw pos) (lp_entry_time pos) ''NoData''
         else case hold_bars p pos bars of
                (pos', Some bar) \<Rightarrow> make_exit ops p pos' (lp_sl_np pos') (lp_sl pos') (sb_time bar) (stop_reason pos')
              | (pos', None) \<Rightarrow> make_exit ops p pos' True (sb_close (last bars)) (sb_time (last bars)) ''MaxHoldExit'')"

text \<open>\<open>execute_trade\<close>; \<open>numpy\<close> says whether the entry price is a numpy float\<close>

definition execute_trade ::
  "numpy_ops \<Rightarrow> exec_params option \<Rightarrow> second_bar list \<Rightarrow> touch_event \<Rightarrow> datetime \<Rightarrow> bool \<Rightarrow> pyfloat \<Rightarrow> pyfloat \<Rightarrow> pyfloat
     \<Rightarrow> exec_trade option res" where
  "execute_trade ops params second_bars event entry_time numpy entry_price balance notional_share =
     (let p = (case params of None \<Rightarrow> DEFAULT_EXEC_PARAMS | Some p \<Rightarrow> p)
      in case ex_open_position p event numpy entry_price entry_time balance notional_share of
           None \<Rightarrow> Inr None
         | Some pos \<Rightarrow> res_bind (simulate_position ops p pos second_bars) (\<lambda>t. Inr (Some t)))"

section \<open>What holding keeps\<close>

lemma risk_nonzero:
  "ex_open_position p event numpy price t bal share = Some pos \<Longrightarrow> fdiv x (lp_risk pos) \<noteq> None"
proof -
  assume open_pos: "ex_open_position p event numpy price t bal share = Some pos"
  then have "\<not> fle (lp_risk pos) (Fin 0)" by (auto simp: ex_open_position_def Let_def split: if_splits prod.splits)
  then show ?thesis by (cases "lp_risk pos"; cases x) auto
qed

definition same_deal :: "live_position \<Rightarrow> live_position \<Rightarrow> bool" where
  "same_deal a b \<longleftrightarrow>
     lp_side b = lp_side a \<and> lp_entry_time b = lp_entry_time a \<and> lp_entry_p b = lp_entry_p a \<and> lp_entry_raw b = lp_entry_raw a
     \<and> lp_risk b = lp_risk a \<and> lp_atr b = lp_atr a \<and> lp_notional_share b = lp_notional_share a \<and> lp_entry_np b = lp_entry_np a"

text \<open>
  \<open>held a b\<close>: \<open>b\<close> is the position \<open>a\<close> some bars later. The stop has only moved towards the profit, and
  the flags remember whether it moved.
\<close>

definition held :: "live_position \<Rightarrow> live_position \<Rightarrow> bool" where
  "held a b \<longleftrightarrow>
     same_deal a b \<and> no_worse (lp_side a) (lp_sl a) (lp_sl b)
     \<and> (lp_protected a \<longrightarrow> lp_protected b) \<and> (lp_trailing_active a \<longrightarrow> lp_trailing_active b)
     \<and> (lp_protected b \<longrightarrow> lp_protected a \<or> lp_sl b \<noteq> lp_sl a) \<and> (lp_trailing_active b \<longrightarrow> lp_trailing_active a \<or> lp_sl b \<noteq> lp_sl a)
     \<and> (lp_sl b \<noteq> lp_sl a \<longrightarrow> lp_protected b \<or> lp_trailing_active b)
     \<and> no_worse ''long'' (lp_mfe_r a) (lp_mfe_r b) \<and> no_worse ''long'' (lp_mae_r a) (lp_mae_r b)"

lemma held_refl [simp]: "held a a"
  by (simp add: held_def same_deal_def)

lemma no_worse_back: "no_worse s a b \<Longrightarrow> no_worse s b a \<Longrightarrow> a = b"
  by (cases "s = ''long''") (auto simp: no_worse_def flt_def)

lemma flt_neq: "flt a b \<Longrightarrow> b \<noteq> a"
  by (auto simp: flt_def)

lemma held_trans: "held a b \<Longrightarrow> held b c \<Longrightarrow> held a c"
proof -
  assume ab: "held a b" and bc: "held b c"
  have same: "same_deal a c" using ab bc by (simp add: held_def same_deal_def)
  have side: "lp_side b = lp_side a" using ab by (simp add: held_def same_deal_def)
  have nw: "no_worse (lp_side a) (lp_sl a) (lp_sl b)" "no_worse (lp_side a) (lp_sl b) (lp_sl c)"
    using ab bc side by (auto simp: held_def)
  have unmoved: "lp_sl c = lp_sl a \<Longrightarrow> lp_sl b = lp_sl a" using nw no_worse_back by metis
  have "no_worse ''long'' (lp_mfe_r a) (lp_mfe_r c)" "no_worse ''long'' (lp_mae_r a) (lp_mae_r c)"
    using ab bc no_worse_trans unfolding held_def by blast+
  moreover have "lp_protected a \<longrightarrow> lp_protected c" "lp_trailing_active a \<longrightarrow> lp_trailing_active c"
    using ab bc by (simp_all add: held_def)
  moreover have "lp_protected c \<longrightarrow> lp_protected a \<or> lp_sl c \<noteq> lp_sl a" "lp_trailing_active c \<longrightarrow> lp_trailing_active a \<or> lp_sl c \<noteq> lp_sl a"
    using ab bc unmoved by (auto simp: held_def)
  moreover have "lp_sl c \<noteq> lp_sl a \<longrightarrow> lp_protected c \<or> lp_trailing_active c"
    using ab bc by (auto simp: held_def)
  ultimately show ?thesis using same no_worse_trans [OF nw] by (simp add: held_def)
qed

lemma held_marks: "held pos (update_excursions bar (update_marks bar pos))"
  by (auto simp: held_def same_deal_def update_excursions_def update_marks_def py_max_def no_worse_def)

lemma held_moved:
  assumes "if lp_side pos = ''long'' then flt (lp_sl pos) sl else flt sl (lp_sl pos)"
  shows "held pos (pos\<lparr>lp_sl := sl, lp_protected := True, lp_sl_np := np\<rparr>)"
    and "held pos (pos\<lparr>lp_sl := sl, lp_trailing_active := True, lp_sl_np := np\<rparr>)"
  using assms flt_neq [of "lp_sl pos" sl] flt_neq [of sl "lp_sl pos"]
  by (auto simp: held_def same_deal_def no_worse_def)

lemma held_breakeven: "held pos (breakeven p pos)"
  by (simp add: breakeven_def Let_def held_moved)

lemma held_trail: "held pos (trail p pos)"
  by (simp add: trail_def Let_def held_moved)

lemma held_bar: "held pos (hold_bar p bar pos)"
  unfolding hold_bar_def by (rule held_trans [OF held_marks held_trans [OF held_breakeven held_trail]])

lemma hold_bars_held: "hold_bars p pos bars = (pos', r) \<Longrightarrow> held pos pos'"
proof (induction bars arbitrary: pos)
  case (Cons bar bars)
  then show ?case using held_bar [of pos p bar] held_trans by (auto simp: Let_def split: if_splits)
qed simp

text \<open>The bar that hits the stop is the first one; what comes later does not matter.\<close>

lemma hold_bars_stop:
  "hold_bars p pos bars = (pos', Some bar) \<Longrightarrow>
     \<exists>xs ys. bars = xs @ bar # ys \<and> stop_hit bar pos' \<and> (\<forall>zs. hold_bars p pos (xs @ bar # zs) = (pos', Some bar))"
proof (induction bars arbitrary: pos)
  case (Cons b bars)
  let ?p = "hold_bar p b pos"
  show ?case
  proof (cases "stop_hit b ?p")
    case True
    then have "b = bar" "pos' = ?p" using Cons.prems by (auto simp: Let_def)
    then show ?thesis using True by (intro exI [of _ "[]"] exI [of _ bars]) simp
  next
    case False
    then obtain xs ys where "bars = xs @ bar # ys" "stop_hit bar pos'" "\<forall>zs. hold_bars p ?p (xs @ bar # zs) = (pos', Some bar)"
      using Cons.IH [of ?p] Cons.prems by (auto simp: Let_def)
    then show ?thesis using False by (intro exI [of _ "b # xs"] exI [of _ ys]) simp
  qed
qed simp

section \<open>Trades\<close>

text \<open>The parameters a call uses, and its entry price after slippage\<close>

definition params_of :: "exec_params option \<Rightarrow> exec_params" where
  "params_of params = (case params of None \<Rightarrow> DEFAULT_EXEC_PARAMS | Some p \<Rightarrow> p)"

definition slipped_exit :: "exec_params \<Rightarrow> string \<Rightarrow> pyfloat \<Rightarrow> pyfloat" where
  "slipped_exit p side x = (if side = ''long'' then slip_down p x else slip_up p x)"

lemma make_exit_Inr:
  "make_exit ops p pos numpy raw t reason = Inr tr \<Longrightarrow>
     xt_entry_time tr = lp_entry_time pos \<and> xt_exit_time tr = t \<and> xt_side tr = lp_side pos \<and> xt_entry_p tr = lp_entry_p pos
     \<and> xt_exit_p tr = slipped_exit p (lp_side pos) raw \<and> xt_exit_reason tr = reason \<and> xt_mfe_r tr = lp_mfe_r pos
     \<and> xt_mae_r tr = lp_mae_r pos \<and> xt_hold_seconds tr = total_seconds (t - lp_entry_time pos) \<and> xt_notional_share tr = lp_notional_share pos"
  by (auto simp: make_exit_def Let_def slipped_exit_def res_simps)

lemma open_position_facts:
  assumes "ex_open_position p event numpy price t bal share = Some pos"
  shows "lp_side pos = te_side event" and "lp_entry_time pos = t" and "lp_entry_raw pos = price" and "lp_notional_share pos = share"
    and "lp_sl pos = fst (entry_stop p event (lp_entry_p pos))" and "\<not> lp_protected pos" and "\<not> lp_trailing_active pos"
    and "lp_mfe_r pos = Fin 0" and "lp_mae_r pos = Fin 0"
  using assms by (auto simp: ex_open_position_def Let_def split: if_splits prod.splits)

text \<open>How a trade can end: no bars, at the stop, or after the longest holding time.\<close>

lemma execute_trade_cases:
  assumes "execute_trade ops params bars event t numpy price bal share = Inr (Some tr)"
  obtains pos where "ex_open_position (params_of params) event numpy price t bal share = Some pos"
      and "hold_window (params_of params) t bars = []"
      and "make_exit ops (params_of params) pos False price t ''NoData'' = Inr tr"
  | pos pos' bar where "ex_open_position (params_of params) event numpy price t bal share = Some pos"
      and "hold_bars (params_of params) pos (hold_window (params_of params) t bars) = (pos', Some bar)"
      and "make_exit ops (params_of params) pos' (lp_sl_np pos') (lp_sl pos') (sb_time bar) (stop_reason pos') = Inr tr"
  | pos pos' where "ex_open_position (params_of params) event numpy price t bal share = Some pos"
      and "hold_window (params_of params) t bars \<noteq> []"
      and "hold_bars (params_of params) pos (hold_window (params_of params) t bars) = (pos', None)"
      and "make_exit ops (params_of params) pos' True (sb_close (last (hold_window (params_of params) t bars)))
             (sb_time (last (hold_window (params_of params) t bars))) ''MaxHoldExit'' = Inr tr"
proof -
  let ?p = "params_of params"
  obtain pos where pos: "ex_open_position ?p event numpy price t bal share = Some pos"
      and sim: "simulate_position ops ?p pos bars = Inr tr"
    using assms by (auto simp: execute_trade_def params_of_def Let_def res_simps split: option.splits)
  note facts = open_position_facts [OF pos]
  obtain pos' r where r: "hold_bars ?p pos (hold_window ?p t bars) = (pos', r)" by force
  show thesis
  proof (cases "hold_window ?p t bars = []")
    case True
    then show ?thesis using that(1) [OF pos] sim facts by (simp add: simulate_position_def)
  next
    case False
    then show ?thesis using that(2,3) [OF pos] sim facts r by (cases r) (simp_all add: simulate_position_def Let_def)
  qed
qed

lemma hold_window_times: "b \<in> set (hold_window p t bars) \<Longrightarrow> b \<in> set bars \<and> t < sb_time b \<and> sb_time b \<le> t + xp_max_hold p"
  by (simp add: hold_window_def)

lemma stop_reasons: "stop_reason pos \<in> {''InitialSL'', ''BreakevenSL'', ''TrailingSL''}"
  by (simp add: stop_reason_def)

lemma executed_at:
  assumes "execute_trade ops params bars event t numpy price bal share = Inr (Some tr)"
  shows "xt_entry_time tr = t"
  using assms
proof (cases rule: execute_trade_cases)
  case (1 pos)
  then show ?thesis using make_exit_Inr [OF 1(3)] open_position_facts [OF 1(1)] by simp
next
  case (2 pos pos' bar)
  then show ?thesis
    using make_exit_Inr [OF 2(3)] hold_bars_held [OF 2(2)] open_position_facts [OF 2(1)] by (simp add: held_def same_deal_def)
next
  case (3 pos pos')
  then show ?thesis
    using make_exit_Inr [OF 3(4)] hold_bars_held [OF 3(3)] open_position_facts [OF 3(1)] by (simp add: held_def same_deal_def)
qed

text \<open>
  C28. A trade that is simulated leaves within the longest holding time, at the time of a bar after its
  entry and for one of four reasons; without such a bar it leaves at once with the reason \<open>NoData\<close>. The
  excursions it reports are never negative.
\<close>

theorem trade_ends_in_time:
  assumes "execute_trade ops params bars event t numpy price bal share = Inr (Some tr)"
  shows "xt_entry_time tr = t \<and> xt_side tr = te_side event
    \<and> xt_hold_seconds tr = total_seconds (xt_exit_time tr - t) \<and> fle (Fin 0) (xt_mfe_r tr) \<and> fle (Fin 0) (xt_mae_r tr)
    \<and> (if hold_window (params_of params) t bars = [] then xt_exit_reason tr = ''NoData'' \<and> xt_exit_time tr = t
       else xt_exit_reason tr \<in> {''InitialSL'', ''BreakevenSL'', ''TrailingSL'', ''MaxHoldExit''}
          \<and> t < xt_exit_time tr \<and> xt_exit_time tr \<le> t + xp_max_hold (params_of params)
          \<and> xt_exit_time tr \<in> sb_time ` set bars)"
proof -
  have up: "fle (Fin 0) (lp_mfe_r pos')" "fle (Fin 0) (lp_mae_r pos')"
    if "ex_open_position (params_of params) event numpy price t bal share = Some pos" "held pos pos'" for pos pos'
    using that(2) open_position_facts(8,9) [OF that(1)] by (auto simp: held_def no_worse_def flt_def)
  show ?thesis
    using assms
  proof (cases rule: execute_trade_cases)
    case (1 pos)
    then show ?thesis using make_exit_Inr [OF 1(3)] open_position_facts [OF 1(1)] by simp
  next
    case (2 pos pos' bar)
    note h = hold_bars_held [OF 2(2)]
    have "bar \<in> set (hold_window (params_of params) t bars)" using hold_bars_stop [OF 2(2)] by auto
    moreover have "lp_side pos' = te_side event" "lp_entry_time pos' = t"
      using h open_position_facts [OF 2(1)] by (auto simp: held_def same_deal_def)
    ultimately show ?thesis
      using make_exit_Inr [OF 2(3)] up [OF 2(1) h] hold_window_times [of bar] stop_reasons [of pos'] by force
  next
    case (3 pos pos')
    note h = hold_bars_held [OF 3(3)]
    have "lp_side pos' = te_side event" "lp_entry_time pos' = t"
      using h open_position_facts [OF 3(1)] by (auto simp: held_def same_deal_def)
    then show ?thesis
      using make_exit_Inr [OF 3(4)] up [OF 3(1) h] hold_window_times [OF last_in_set [OF 3(2)]] 3(2) by force
  qed
qed

text \<open>
  C17. A trade that is stopped leaves at a stop that is the initial one or nearer to the profit, and the
  reason says which: \<open>InitialSL\<close> just when the stop was never moved.
\<close>

theorem stopped_no_worse:
  assumes "execute_trade ops params bars event t numpy price bal share = Inr (Some tr)"
    and "xt_exit_reason tr \<in> {''InitialSL'', ''BreakevenSL'', ''TrailingSL''}"
  shows "\<exists>sl. no_worse (te_side event) (fst (entry_stop (params_of params) event (xt_entry_p tr))) sl
      \<and> xt_exit_p tr = slipped_exit (params_of params) (te_side event) sl
      \<and> (xt_exit_reason tr = ''InitialSL'' \<longleftrightarrow> sl = fst (entry_stop (params_of params) event (xt_entry_p tr)))"
  using assms(1)
proof (cases rule: execute_trade_cases)
  case (2 pos pos' bar)
  note h = hold_bars_held [OF 2(2)] and f = open_position_facts [OF 2(1)] and x = make_exit_Inr [OF 2(3)]
  have "lp_side pos' = te_side event" "lp_entry_p pos' = lp_entry_p pos" using h f by (auto simp: held_def same_deal_def)
  moreover have "no_worse (te_side event) (lp_sl pos) (lp_sl pos')" using h f by (simp add: held_def)
  moreover have "stop_reason pos' = ''InitialSL'' \<longleftrightarrow> lp_sl pos' = lp_sl pos"
    using h f by (auto simp: held_def stop_reason_def)
  ultimately show ?thesis using x f by (intro exI [of _ "lp_sl pos'"]) simp
next
  case (1 pos)
  then show ?thesis using assms(2) make_exit_Inr [OF 1(3)] by simp
next
  case (3 pos pos')
  then show ?thesis using assms(2) make_exit_Inr [OF 3(4)] by simp
qed

section \<open>No look into the future\<close>

lemma sorted_filter_prefix:
  assumes "sorted (map sb_time bars)"
  shows "\<exists>later. bars = filter (\<lambda>b. sb_time b \<le> c) bars @ later"
  using assms
proof (induction bars)
  case (Cons b bars)
  then obtain later where l: "bars = filter (\<lambda>b. sb_time b \<le> c) bars @ later" by auto
  show ?case
  proof (cases "sb_time b \<le> c")
    case False
    then have "filter (\<lambda>b. sb_time b \<le> c) (b # bars) = []" using Cons.prems by (auto simp: filter_empty_conv)
    then show ?thesis by simp
  qed (use l in auto)
qed simp

lemma sorted_hold_window: "sorted (map sb_time bars) \<Longrightarrow> sorted (map sb_time (hold_window p t bars))"
  unfolding hold_window_def by (rule sorted_filter)

text \<open>
  C13. Whether and where a trade is stopped depends on the bars until then only: any frame with the same bars
  up to the time of the exit gives the same trade.
\<close>

theorem stopped_sees_no_future:
  assumes trade: "execute_trade ops params bars event t numpy price bal share = Inr (Some tr)"
    and stopped: "xt_exit_reason tr \<in> {''InitialSL'', ''BreakevenSL'', ''TrailingSL''}"
    and "sorted (map sb_time bars)" and sorted': "sorted (map sb_time bars')"
    and same: "filter (\<lambda>b. sb_time b \<le> xt_exit_time tr) bars' = filter (\<lambda>b. sb_time b \<le> xt_exit_time tr) bars"
  shows "execute_trade ops params bars' event t numpy price bal share = Inr (Some tr)"
  using trade
proof (cases rule: execute_trade_cases)
  case (2 pos pos' bar)
  let ?p = "params_of params" and ?P = "\<lambda>b. sb_time b \<le> xt_exit_time tr"
  have time: "xt_exit_time tr = sb_time bar" using make_exit_Inr [OF 2(3)] by simp
  obtain xs ys where xs: "hold_window ?p t bars = xs @ bar # ys" "\<And>zs. hold_bars ?p pos (xs @ bar # zs) = (pos', Some bar)"
    using hold_bars_stop [OF 2(2)] by blast
  have "sorted (map sb_time (xs @ bar # ys))" using sorted_hold_window [OF assms(3)] xs(1) by metis
  then have "filter ?P xs = xs" by (auto simp: sorted_append filter_id_conv time)
  then have "filter ?P (hold_window ?p t bars) = xs @ bar # filter ?P ys" by (simp add: xs(1) time)
  moreover have "filter ?P (hold_window ?p t bars') = filter ?P (hold_window ?p t bars)"
    using same unfolding hold_window_def filter_filter by (metis (no_types, lifting) filter_filter conj_commute filter_cong)
  moreover obtain later where "hold_window ?p t bars' = filter ?P (hold_window ?p t bars') @ later"
    using sorted_filter_prefix [OF sorted_hold_window [OF sorted']] by blast
  ultimately have "hold_window ?p t bars' = xs @ bar # filter ?P ys @ later" by simp
  then have "hold_bars ?p pos (hold_window ?p t bars') = (pos', Some bar)" "hold_window ?p t bars' \<noteq> []" using xs(2) by simp_all
  then have "simulate_position ops ?p pos bars' = Inr tr"
    using 2(3) open_position_facts(2) [OF 2(1)] by (simp add: simulate_position_def Let_def)
  then show ?thesis using 2(1) by (simp add: execute_trade_def params_of_def Let_def)
next
  case (1 pos)
  then show ?thesis using stopped make_exit_Inr [OF 1(3)] by simp
next
  case (3 pos pos')
  then show ?thesis using stopped make_exit_Inr [OF 3(4)] by simp
qed

section \<open>Gaps\<close>





section \<open>A run\<close>

definition demo_exec :: exec_params where
  "demo_exec =
     \<lparr>xp_initial_stop_atr = Fin (1 / 2), xp_stop_buffer_atr = Fin 0, xp_stop_cap_atr = Fin (3 / 4), xp_min_stop_bps = Fin 0,
      xp_breakeven_at_r = Fin 1, xp_cost_lock_bps = Fin 0, xp_trail_start_r = Fin 2, xp_trail_buffer_atr = Fin 0,
      xp_max_hold = seconds 60, xp_slippage = Fin 0, xp_entry_fee = Fin 0, xp_exit_fee = Fin 0\<rparr>"

definition demo_touch :: touch_event where
  "demo_touch =
     \<lparr>te_event_id = Some ''BTC-1'', te_symbol = ''BTCUSDT'', te_touch_time = 0, te_side = ''long'', te_level = Fin 1000, te_atr = Fin 16,
      te_touch_low = Some (Fin 1000), te_signal_low = None, te_touch_high = None, te_signal_high = None\<rparr>"

definition demo_bar :: "int \<Rightarrow> int \<Rightarrow> int \<Rightarrow> second_bar" where
  "demo_bar n low high =
     \<lparr>sb_time = seconds n, sb_open = Fin (of_int low), sb_high = Fin (of_int high), sb_low = Fin (of_int low), sb_close = Fin (of_int high)\<rparr>"

definition demo_exec_trade :: exec_trade where
  "demo_exec_trade =
     \<lparr>xt_entry_time = 0, xt_exit_time = seconds 2, xt_side = ''long'', xt_entry_p = Fin 1024, xt_exit_p = Fin 1012,
      xt_notional_share = Fin (1 / 4), xt_pnl_pct = Fin (- (3 / 256)), xt_realistic_pnl_pct = Fin (- (3 / 256)),
      xt_exit_reason = ''InitialSL'', xt_mfe_r = Fin 0, xt_mae_r = Fin 2, xt_hold_seconds = Fin 2\<rparr>"

lemma demo_trade_runs:
  "execute_trade ref_numpy (Some demo_exec) [demo_bar 2 1000 1008, demo_bar 3 1020 1030] demo_touch 0 False (Fin 1024) (Fin 1024) (Fin (1 / 4)) =
     Inr (Some demo_exec_trade)"
  by code_simp

lemma demo_stop: "fst (entry_stop demo_exec demo_touch (Fin 1024)) = Fin 1012"
  by code_simp

lemma demo_hold_window: "hold_window (params_of (Some demo_exec)) 0 [demo_bar 2 1000 1008, demo_bar 3 1020 1030] = [demo_bar 2 1000 1008, demo_bar 3 1020 1030]"
  by code_simp

theorem trade_ends_in_time_witness:
  "xt_exit_reason demo_exec_trade \<in> {''InitialSL'', ''BreakevenSL'', ''TrailingSL'', ''MaxHoldExit''} \<and> xt_exit_time demo_exec_trade \<le> seconds 60"
  using trade_ends_in_time [OF demo_trade_runs] unfolding demo_hold_window by (simp add: params_of_def demo_exec_def)

theorem stopped_no_worse_witness:
  "\<exists>sl. no_worse ''long'' (Fin 1012) sl \<and> xt_exit_p demo_exec_trade = slipped_exit demo_exec ''long'' sl
     \<and> (xt_exit_reason demo_exec_trade = ''InitialSL'' \<longleftrightarrow> sl = Fin 1012)"
  using stopped_no_worse [OF demo_trade_runs] demo_stop by (simp add: params_of_def demo_exec_trade_def demo_touch_def)

theorem stopped_sees_no_future_witness:
  "execute_trade ref_numpy (Some demo_exec) [demo_bar 2 1000 1008, demo_bar 9 1 2] demo_touch 0 False (Fin 1024) (Fin 1024) (Fin (1 / 4)) =
     Inr (Some demo_exec_trade)"
  by (rule stopped_sees_no_future [OF demo_trade_runs]) (simp_all add: demo_exec_trade_def demo_bar_def seconds_def)


end
