(* ===== verification/DynTiming.thy ===== *)
theory DynTiming
  imports ExecSim
begin

text \<open>
  \<open>scripts/dynamic_timing/\<close>: the decision when to enter after a touch. \<open>feature_engine.py\<close> condenses the bars since
  the touch, \<open>regime_classifier.py\<close> decides on them, \<open>pullback_monitor.py\<close> waits for a better price, and
  \<open>run_dynamic_timing\<close> of \<open>dynamic_entry_timing_runner.py\<close> asks step by step until a decision is final. The
  baselines enter after a fixed delay.
\<close>

section \<open>Features\<close>

record step_features =
  sf_step_index :: int
  sf_extension_atr :: pyfloat
  sf_speed_cumulative_atr :: pyfloat
  sf_max_extension_atr :: pyfloat
  sf_pullback_from_max_atr :: pyfloat
  sf_flow_imbalance_cumulative :: pyfloat
  sf_flow_imbalance_last_step :: pyfloat
  sf_dwell_ratio :: pyfloat
  sf_speed_last_step_atr :: pyfloat
  sf_continuation_ratio :: pyfloat

text \<open>\<open>Series.max()\<close> and \<open>Series.min()\<close> leave out nan.\<close>

definition col_max :: "pyfloat list \<Rightarrow> pyfloat" where
  "col_max xs = (case filter (\<lambda>x. x \<noteq> NaN) xs of [] \<Rightarrow> NaN | y # ys \<Rightarrow> foldl py_max y ys)"

definition col_min :: "pyfloat list \<Rightarrow> pyfloat" where
  "col_min xs = (case filter (\<lambda>x. x \<noteq> NaN) xs of [] \<Rightarrow> NaN | y # ys \<Rightarrow> py_min y ys)"

text \<open>The share \<open>count / len(bars)\<close>\<close>

definition share_of :: "('a \<Rightarrow> bool) \<Rightarrow> 'a list \<Rightarrow> pyfloat" where
  "share_of P xs = fl (of_nat (length (filter P xs)) / of_nat (length xs))"

definition bars_between :: "datetime \<Rightarrow> datetime \<Rightarrow> second_bar list \<Rightarrow> second_bar list" where
  "bars_between a b bars = filter (\<lambda>x. a \<le> sb_time x \<and> sb_time x \<le> b) bars"

definition speed_last :: "pyfloat \<Rightarrow> pyfloat \<Rightarrow> second_bar list \<Rightarrow> pyfloat res" where
  "speed_last atr speed_cumulative_atr last_step_bars =
     (if 2 \<le> length last_step_bars
      then the_or_raise ZeroDivisionError (fdiv (fabs (fsub (sb_close (last last_step_bars)) (sb_close (hd last_step_bars)))) atr)
      else if length last_step_bars = 1 then Inr (Fin 0)
      else Inr speed_cumulative_atr)"

definition features_of :: "touch_event \<Rightarrow> int \<Rightarrow> second_bar list \<Rightarrow> second_bar list \<Rightarrow> step_features res" where
  "features_of event step_index bars last_step_bars =
     (let level = te_level event; atr = te_atr event; long = (te_side event = ''long'');
          price_at_step_k = sb_close (last bars); price_at_touch = sb_close (hd bars);
          per_atr = (\<lambda>x. the_or_raise ZeroDivisionError (fdiv x atr))
      in res_bind (per_atr (if long then fsub price_at_step_k level else fsub level price_at_step_k)) (\<lambda>extension_atr.
         res_bind (per_atr (fabs (fsub price_at_step_k price_at_touch))) (\<lambda>speed_cumulative_atr.
         res_bind (per_atr (col_max (map (\<lambda>b. if long then fsub (sb_high b) level else fsub level (sb_low b)) bars))) (\<lambda>max_extension_atr.
         res_bind (per_atr (if long then fsub (col_max (map sb_high bars)) price_at_step_k
                            else fsub price_at_step_k (col_min (map sb_low bars)))) (\<lambda>pullback_from_max_atr.
         res_bind (speed_last atr speed_cumulative_atr last_step_bars) (\<lambda>speed_last_step_atr.
         Inr \<lparr>sf_step_index = step_index, sf_extension_atr = extension_atr, sf_speed_cumulative_atr = speed_cumulative_atr,
              sf_max_extension_atr = max_extension_atr, sf_pullback_from_max_atr = pullback_from_max_atr,
              sf_flow_imbalance_cumulative = fl (1 / 2), sf_flow_imbalance_last_step = fl (1 / 2),
              sf_dwell_ratio = share_of (\<lambda>b. fle (fabs (fsub (sb_close b) level)) (fmul (fl (5 / 100)) atr)) bars,
              sf_speed_last_step_atr = speed_last_step_atr,
              sf_continuation_ratio = share_of (\<lambda>b. if long then flt (sb_open b) (sb_close b) else flt (sb_close b) (sb_open b)) bars\<rparr>))))))"

definition extract_step_features :: "second_bar list \<Rightarrow> touch_event \<Rightarrow> int \<Rightarrow> int \<Rightarrow> step_features option res" where
  "extract_step_features second_bars event step_index step_interval =
     (let touch_time = te_touch_time event;
          window_end = touch_time + seconds (step_index * step_interval);
          bars = bars_between touch_time window_end second_bars
      in if bars = [] then Inr None
         else res_bind (features_of event step_index bars (bars_between (window_end - seconds step_interval) window_end bars))
                (\<lambda>f. Inr (Some f)))"

section \<open>The classifier\<close>

datatype entry_decision = IMMEDIATE | WAIT_PULLBACK | CONTINUE_OBSERVE | SKIP

fun decision_value :: "entry_decision \<Rightarrow> string" where
  "decision_value IMMEDIATE = ''immediate''"
| "decision_value WAIT_PULLBACK = ''wait_pullback''"
| "decision_value CONTINUE_OBSERVE = ''continue_observe''"
| "decision_value SKIP = ''skip''"

record timing_params =
  tp_max_steps :: int
  tp_strong_momentum_threshold :: pyfloat
  tp_strong_flow_threshold :: pyfloat
  tp_moderate_momentum_threshold :: pyfloat
  tp_extension_threshold :: pyfloat
  tp_weak_flow_threshold :: pyfloat
  tp_fading_threshold :: pyfloat
  tp_min_steps_for_skip :: int
  tp_pullback_target_atr :: pyfloat
  tp_decision_window_seconds :: int
  tp_abandon_extension_atr :: pyfloat

definition default_timing :: timing_params where
  "default_timing =
     \<lparr>tp_max_steps = 4, tp_strong_momentum_threshold = fl (15 / 100), tp_strong_flow_threshold = fl (58 / 100),
      tp_moderate_momentum_threshold = fl (8 / 100), tp_extension_threshold = fl (15 / 100), tp_weak_flow_threshold = fl (48 / 100),
      tp_fading_threshold = fl (2 / 100), tp_min_steps_for_skip = 3, tp_pullback_target_atr = fl (5 / 100),
      tp_decision_window_seconds = 60, tp_abandon_extension_atr = fl (30 / 100)\<rparr>"

record decision_result =
  dr_decision :: entry_decision
  dr_regime :: string
  dr_step_index :: int
  dr_features :: step_features

definition decide :: "step_features \<Rightarrow> entry_decision \<Rightarrow> string \<Rightarrow> decision_result" where
  "decide f d regime = \<lparr>dr_decision = d, dr_regime = regime, dr_step_index = sf_step_index f, dr_features = f\<rparr>"

definition classify :: "step_features \<Rightarrow> timing_params \<Rightarrow> decision_result" where
  "classify f p =
     (if fle (tp_strong_momentum_threshold p) (sf_speed_cumulative_atr f) \<and> fle (tp_strong_flow_threshold p) (sf_flow_imbalance_cumulative f)
      then decide f IMMEDIATE ''Strong Momentum''
      else if flt (sf_flow_imbalance_cumulative f) (tp_weak_flow_threshold p) \<and> tp_min_steps_for_skip p \<le> sf_step_index f
      then decide f SKIP ''Weak Signal''
      else if fle (tp_extension_threshold p) (sf_extension_atr f) \<and> fle (sf_pullback_from_max_atr f) (fl (2 / 100))
      then decide f WAIT_PULLBACK ''Over-Extended''
      else if flt (sf_speed_last_step_atr f) (tp_fading_threshold p) \<and> 3 \<le> sf_step_index f \<and> flt (sf_flow_imbalance_last_step f) (fl (50 / 100))
      then decide f SKIP ''Fading Momentum''
      else if fle (tp_moderate_momentum_threshold p) (sf_speed_cumulative_atr f) \<and> fle (fl (6 / 10)) (sf_continuation_ratio f)
      then decide f IMMEDIATE ''Moderate Momentum''
      else if sf_step_index f < tp_max_steps p then decide f CONTINUE_OBSERVE ''Developing''
      else decide f IMMEDIATE ''Default'')"

section \<open>Waiting for a pull-back\<close>

record pullback_result =
  pb_triggered :: bool
  pb_entry_time :: "datetime option"
  pb_entry_price :: "pyfloat option"
  pb_wait_seconds :: pyfloat
  pb_reason :: string
  pb_price_improvement_bps :: pyfloat

definition pullback_levels :: "touch_event \<Rightarrow> timing_params \<Rightarrow> pyfloat \<Rightarrow> pyfloat \<times> pyfloat" where
  "pullback_levels event p decision_price =
     (let target = fmul (tp_pullback_target_atr p) (te_atr event); abandon = fmul (tp_abandon_extension_atr p) (te_atr event)
      in if te_side event = ''long'' then (fsub decision_price target, fadd decision_price abandon)
         else (fadd decision_price target, fsub decision_price abandon))"

definition at_target :: "string \<Rightarrow> pyfloat \<Rightarrow> second_bar \<Rightarrow> bool" where
  "at_target side target bar = (if side = ''long'' then fle (sb_low bar) target else fle target (sb_high bar))"

definition at_abandon :: "string \<Rightarrow> pyfloat \<Rightarrow> second_bar \<Rightarrow> bool" where
  "at_abandon side abandon bar = (if side = ''long'' then fle abandon (sb_high bar) else fle (sb_low bar) abandon)"

definition pullback_missed :: "pyfloat \<Rightarrow> string \<Rightarrow> pullback_result" where
  "pullback_missed wait reason =
     \<lparr>pb_triggered = False, pb_entry_time = None, pb_entry_price = None, pb_wait_seconds = wait, pb_reason = reason,
      pb_price_improvement_bps = Fin 0\<rparr>"

definition pullback_filled :: "numpy_ops \<Rightarrow> string \<Rightarrow> datetime \<Rightarrow> pyfloat \<Rightarrow> second_bar \<Rightarrow> pullback_result" where
  "pullback_filled ops side decision_time decision_price bar =
     (let entry_price = sb_close bar;
          improvement = (if side = ''long'' then fsub decision_price entry_price else fsub entry_price decision_price)
      in \<lparr>pb_triggered = True, pb_entry_time = Some (sb_time bar), pb_entry_price = Some entry_price,
          pb_wait_seconds = total_seconds (sb_time bar - decision_time), pb_reason = ''triggered'',
          pb_price_improvement_bps = fmul (np_div ops improvement decision_price) (Fin 10000)\<rparr>)"

fun pullback_scan ::
  "numpy_ops \<Rightarrow> string \<Rightarrow> pyfloat \<Rightarrow> pyfloat \<Rightarrow> datetime \<Rightarrow> pyfloat \<Rightarrow> second_bar list \<Rightarrow> pullback_result option" where
  "pullback_scan ops side target abandon decision_time decision_price [] = None"
| "pullback_scan ops side target abandon decision_time decision_price (bar # bars) =
     (if at_target side target bar then Some (pullback_filled ops side decision_time decision_price bar)
      else if at_abandon side abandon bar then Some (pullback_missed (total_seconds (sb_time bar - decision_time)) ''early_abandon'')
      else pullback_scan ops side target abandon decision_time decision_price bars)"

definition wait_for_pullback ::
  "numpy_ops \<Rightarrow> second_bar list \<Rightarrow> datetime \<Rightarrow> pyfloat \<Rightarrow> touch_event \<Rightarrow> timing_params \<Rightarrow> pullback_result" where
  "wait_for_pullback ops second_bars decision_time decision_price event p =
     (let (target, abandon) = pullback_levels event p decision_price;
          window_end = decision_time + seconds (tp_decision_window_seconds p);
          window_bars = filter (\<lambda>b. decision_time < sb_time b \<and> sb_time b \<le> window_end) second_bars
      in if window_bars = [] then pullback_missed (Fin (of_int (tp_decision_window_seconds p))) ''timeout''
         else case pullback_scan ops (te_side event) target abandon decision_time decision_price window_bars of
                Some r \<Rightarrow> r
              | None \<Rightarrow> pullback_missed (total_seconds (sb_time (last window_bars) - decision_time)) ''timeout'')"

section \<open>The decision loop\<close>

type_synonym bars_cache = "string \<Rightarrow> second_bar list option"

record timing_record =
  tm_event_id :: string
  tm_symbol :: string
  tm_side :: string
  tm_touch_time :: datetime
  tm_entry_decision :: string
  tm_regime :: string
  tm_decision_path :: "(int \<times> string \<times> string) list"
  tm_entry_time :: "datetime option"
  tm_entry_price :: "pyfloat option"
  tm_entry_delay_seconds :: "pyfloat option"
  tm_trade :: "exec_trade option"

text \<open>\<open>f"{symbol}_{touch_time.strftime('%Y%m')}"\<close>\<close>

definition month_key :: "string \<Rightarrow> datetime \<Rightarrow> string" where
  "month_key symbol ts = (let (y, m, d) = civil_from_days (ts div us_per_day) in symbol @ ''_'' @ zpad 4 y @ zpad 2 m)"

text \<open>
  \<open>index[mask][0]\<close> and \<open>float(second_bars.loc[idx, "close"])\<close>: the first bar at or after a time. A time that occurs
  twice selects a series, which \<open>float\<close> rejects.
\<close>

definition entry_bar :: "second_bar list \<Rightarrow> datetime \<Rightarrow> (datetime \<times> pyfloat) option res" where
  "entry_bar bars t =
     (case filter (\<lambda>b. t \<le> sb_time b) bars of
        [] \<Rightarrow> Inr None
      | b # _ \<Rightarrow> if length (filter (\<lambda>c. sb_time c = sb_time b) bars) = 1 then Inr (Some (sb_time b, sb_close b)) else Inl TypeError)"

text \<open>The default arguments \<open>balance\<close> and \<open>notional_share\<close> of \<open>execute_trade\<close>\<close>

definition default_trade ::
  "numpy_ops \<Rightarrow> exec_params \<Rightarrow> second_bar list \<Rightarrow> touch_event \<Rightarrow> datetime \<Rightarrow> bool \<Rightarrow> pyfloat \<Rightarrow> exec_trade option res" where
  "default_trade ops xp bars event t numpy price = execute_trade ops (Some xp) bars event t numpy price (Fin 100000) (fl (26 / 100))"

text \<open>What a final decision leaves: entry time, entry price and trade\<close>

type_synonym entry_result = "datetime option \<times> pyfloat option \<times> exec_trade option"

definition enter_immediate :: "numpy_ops \<Rightarrow> exec_params \<Rightarrow> second_bar list \<Rightarrow> touch_event \<Rightarrow> datetime \<Rightarrow> entry_result res" where
  "enter_immediate ops xp bars event step_end =
     res_bind (entry_bar bars step_end) (\<lambda>e. case e of
         None \<Rightarrow> Inr (None, None, None)
       | Some (t, price) \<Rightarrow> res_bind (default_trade ops xp bars event t False price) (\<lambda>trade. Inr (Some t, Some price, trade)))"

definition enter_pullback ::
  "numpy_ops \<Rightarrow> exec_params \<Rightarrow> timing_params \<Rightarrow> second_bar list \<Rightarrow> touch_event \<Rightarrow> datetime \<Rightarrow> entry_result res" where
  "enter_pullback ops xp tp bars event step_end =
     res_bind (entry_bar bars step_end) (\<lambda>e. case e of
         None \<Rightarrow> Inr (None, None, None)
       | Some (decision_idx, decision_price) \<Rightarrow>
           let r = wait_for_pullback ops bars decision_idx decision_price event tp
           in case (pb_entry_time r, pb_entry_price r) of
                (Some t, Some price) \<Rightarrow>
                  if pb_triggered r
                  then res_bind (default_trade ops xp bars event t True price) (\<lambda>trade. Inr (Some t, Some price, trade))
                  else Inr (None, None, None)
              | _ \<Rightarrow> Inr (None, None, None))"

text \<open>The \<open>for\<close> loop over the steps with its \<open>else\<close> branch: decision, regime, path and entry\<close>

fun timing_loop ::
  "numpy_ops \<Rightarrow> exec_params \<Rightarrow> timing_params \<Rightarrow> second_bar list \<Rightarrow> touch_event \<Rightarrow> (int \<times> string \<times> string) list \<Rightarrow> nat \<Rightarrow> int list
     \<Rightarrow> (string \<times> string \<times> (int \<times> string \<times> string) list \<times> entry_result) res" where
  "timing_loop ops xp tp bars event path missing [] =
     res_bind (enter_immediate ops xp bars event (te_touch_time event + seconds (tp_max_steps tp * 5))) (\<lambda>e.
       Inr (''immediate'', ''Default'', path @ [(tp_max_steps tp, ''immediate'', ''Default'')], e))"
| "timing_loop ops xp tp bars event path missing (step # steps) =
     res_bind (extract_step_features bars event step 5) (\<lambda>features. case features of
         None \<Rightarrow>
           let path' = path @ [(step, ''continue_observe'', ''DataMissing'')]
           in if 3 \<le> Suc missing then Inr (''skip'', ''ConsecutiveDataMissing'', path', (None, None, None))
              else timing_loop ops xp tp bars event path' (Suc missing) steps
       | Some f \<Rightarrow>
           let r = classify f tp; path' = path @ [(step, decision_value (dr_decision r), dr_regime r)];
               step_end = te_touch_time event + seconds (step * 5)
           in case dr_decision r of
                IMMEDIATE \<Rightarrow> res_bind (enter_immediate ops xp bars event step_end) (\<lambda>e. Inr (''immediate'', dr_regime r, path', e))
              | WAIT_PULLBACK \<Rightarrow> res_bind (enter_pullback ops xp tp bars event step_end) (\<lambda>e. Inr (''wait_pullback'', dr_regime r, path', e))
              | SKIP \<Rightarrow> Inr (''skip'', dr_regime r, path', (None, None, None))
              | CONTINUE_OBSERVE \<Rightarrow> timing_loop ops xp tp bars event path' 0 steps)"

definition record_of ::
  "touch_event \<Rightarrow> string \<Rightarrow> string \<Rightarrow> (int \<times> string \<times> string) list \<Rightarrow> entry_result \<Rightarrow> timing_record" where
  "record_of event decision regime path entry =
     (let (entry_time, entry_price, trade) = entry
      in \<lparr>tm_event_id = (case te_event_id event of None \<Rightarrow> [] | Some i \<Rightarrow> i), tm_symbol = te_symbol event, tm_side = te_side event,
          tm_touch_time = te_touch_time event, tm_entry_decision = decision, tm_regime = regime, tm_decision_path = path,
          tm_entry_time = entry_time, tm_entry_price = entry_price,
          tm_entry_delay_seconds = map_option (\<lambda>t. total_seconds (t - te_touch_time event)) entry_time, tm_trade = trade\<rparr>)"

text \<open>The bars of the month of an event, unless they are missing or empty\<close>

definition event_bars :: "bars_cache \<Rightarrow> touch_event \<Rightarrow> second_bar list" where
  "event_bars cache event = (case cache (month_key (te_symbol event) (te_touch_time event)) of None \<Rightarrow> [] | Some bars \<Rightarrow> bars)"

definition time_event ::
  "numpy_ops \<Rightarrow> exec_params \<Rightarrow> timing_params \<Rightarrow> bars_cache \<Rightarrow> touch_event \<Rightarrow> timing_record res" where
  "time_event ops xp tp cache event =
     (let second_bars = event_bars cache event
      in if second_bars = [] then Inr (record_of event ''skip'' ''NoData'' [] (None, None, None))
         else res_bind (timing_loop ops xp tp second_bars event [] 0 [1..tp_max_steps tp]) (\<lambda>(decision, regime, path, entry).
                Inr (record_of event decision regime path entry)))"

definition run_dynamic_timing ::
  "numpy_ops \<Rightarrow> exec_params option \<Rightarrow> timing_params \<Rightarrow> bars_cache \<Rightarrow> touch_event list \<Rightarrow> timing_record list res" where
  "run_dynamic_timing ops exec tp cache events = res_map (time_event ops (params_of exec) tp cache) events"

section \<open>Baselines\<close>

definition baseline_event ::
  "numpy_ops \<Rightarrow> exec_params \<Rightarrow> int \<Rightarrow> bars_cache \<Rightarrow> touch_event \<Rightarrow> timing_record res" where
  "baseline_event ops xp delay_seconds cache event =
     (let second_bars = event_bars cache event; regime = ''D='' @ str_int delay_seconds @ ''s''
      in if second_bars = [] then Inr (record_of event ''baseline'' regime [] (None, None, None))
         else res_bind (enter_immediate ops xp second_bars event (te_touch_time event + seconds delay_seconds)) (\<lambda>e.
                Inr (record_of event ''baseline'' regime [] e)))"

definition run_baseline ::
  "numpy_ops \<Rightarrow> exec_params option \<Rightarrow> int \<Rightarrow> bars_cache \<Rightarrow> touch_event list \<Rightarrow> timing_record list res" where
  "run_baseline ops exec delay_seconds cache events = res_map (baseline_event ops (params_of exec) delay_seconds cache) events"

definition run_all_baselines ::
  "numpy_ops \<Rightarrow> exec_params option \<Rightarrow> bars_cache \<Rightarrow> touch_event list \<Rightarrow> (string \<times> timing_record list) list res" where
  "run_all_baselines ops exec cache events =
     res_bind (run_baseline ops exec 5 cache events) (\<lambda>a.
     res_bind (run_baseline ops exec 60 cache events) (\<lambda>b.
     res_bind (run_baseline ops exec 0 cache events) (\<lambda>c.
     Inr [(''baseline_a'', a), (''baseline_b'', b), (''baseline_c'', c)])))"

section \<open>The pull-back\<close>

interpretation pullback: first_match
  "pullback_scan ops side target abandon decision_time decision_price"
  "\<lambda>bar. at_target side target bar \<or> at_abandon side abandon bar"
  "\<lambda>bar. if at_target side target bar then pullback_filled ops side decision_time decision_price bar
          else pullback_missed (total_seconds (sb_time bar - decision_time)) ''early_abandon''"
  for ops side target abandon decision_time decision_price
  by unfold_locales auto

definition pullback_window :: "second_bar list \<Rightarrow> datetime \<Rightarrow> timing_params \<Rightarrow> second_bar list" where
  "pullback_window bars t p = filter (\<lambda>b. t < sb_time b \<and> sb_time b \<le> t + seconds (tp_decision_window_seconds p)) bars"

lemma pullback_window_wait:
  "wait_for_pullback ops bars t price event p =
     (case pullback_scan ops (te_side event) (fst (pullback_levels event p price)) (snd (pullback_levels event p price)) t price (pullback_window bars t p) of
        Some r \<Rightarrow> r
      | None \<Rightarrow> pullback_missed (if pullback_window bars t p = [] then Fin (of_int (tp_decision_window_seconds p))
                               else total_seconds (sb_time (last (pullback_window bars t p)) - t)) ''timeout'')"
  unfolding wait_for_pullback_def pullback_window_def by (simp add: Let_def split: prod.split)

lemma pullback_flags [simp]:
  "pb_triggered (pullback_missed w r) = False" "pb_triggered (pullback_filled ops side t price bar) = True"
  "pb_entry_time (pullback_missed w r) = None" "pb_entry_price (pullback_missed w r) = None"
  "pb_entry_time (pullback_filled ops side t price bar) = Some (sb_time bar)"
  "pb_entry_price (pullback_filled ops side t price bar) = Some (sb_close bar)"
  by (simp_all add: pullback_missed_def pullback_filled_def Let_def)

text \<open>
  C27. Waiting for a pull-back fills at the close of a bar just when that bar is the first of the window that
  reaches the target, and no bar before it ran away beyond the limit; a bar that does both is filled.
\<close>

theorem pullback_fills_first_touch:
  fixes event p price bars t
  defines "target \<equiv> fst (pullback_levels event p price)" and "limit \<equiv> snd (pullback_levels event p price)"
    and "window \<equiv> pullback_window bars t p"
  shows "pb_triggered (wait_for_pullback ops bars t price event p) \<and> pb_entry_time (wait_for_pullback ops bars t price event p) = Some e
      \<and> pb_entry_price (wait_for_pullback ops bars t price event p) = Some x \<longleftrightarrow>
    (\<exists>i < length window. at_target (te_side event) target (window ! i) \<and> sb_time (window ! i) = e \<and> sb_close (window ! i) = x
       \<and> (\<forall>j < i. \<not> at_target (te_side event) target (window ! j) \<and> \<not> at_abandon (te_side event) limit (window ! j)))"
proof (cases "pullback_scan ops (te_side event) target limit t price window")
  case None
  then have "\<forall>b \<in> set window. \<not> (at_target (te_side event) target b \<or> at_abandon (te_side event) limit b)"
    unfolding pullback.none_iff .
  moreover have "\<not> pb_triggered (wait_for_pullback ops bars t price event p)"
    using None unfolding pullback_window_wait target_def limit_def window_def by simp
  ultimately show ?thesis using nth_mem by blast
next
  case (Some r)
  then obtain i where i: "i < length window" "at_target (te_side event) target (window ! i) \<or> at_abandon (te_side event) limit (window ! i)"
      "\<forall>j < i. \<not> (at_target (te_side event) target (window ! j) \<or> at_abandon (te_side event) limit (window ! j))"
      "r = (if at_target (te_side event) target (window ! i) then pullback_filled ops (te_side event) t price (window ! i)
            else pullback_missed (total_seconds (sb_time (window ! i) - t)) ''early_abandon'')"
    by (rule pullback.earliest)
  have r: "wait_for_pullback ops bars t price event p = r"
    using Some unfolding pullback_window_wait target_def limit_def window_def by simp
  have uniq: "k = i" if "k < length window" "at_target (te_side event) target (window ! k)"
      "\<forall>j < k. \<not> at_target (te_side event) target (window ! j) \<and> \<not> at_abandon (te_side event) limit (window ! j)" for k
    using that i(2,3) by (metis linorder_neqE_nat)
  show ?thesis
  proof (cases "at_target (te_side event) target (window ! i)")
    case True
    have "(\<exists>k < length window. at_target (te_side event) target (window ! k) \<and> sb_time (window ! k) = e \<and> sb_close (window ! k) = x
       \<and> (\<forall>j < k. \<not> at_target (te_side event) target (window ! j) \<and> \<not> at_abandon (te_side event) limit (window ! j)))
      \<longleftrightarrow> sb_time (window ! i) = e \<and> sb_close (window ! i) = x"
      using i(1,3) True uniq by blast
    then show ?thesis unfolding r i(4) using True by simp
  next
    case False
    then show ?thesis unfolding r i(4) using uniq by (simp add: i(4)) blast
  qed
qed

section \<open>Thresholds that never act\<close>

text \<open>The flow features are the constant one half, so these thresholds decide nothing.\<close>

definition flow_off :: "timing_params \<Rightarrow> bool" where
  "flow_off p \<longleftrightarrow> flt (fl (1 / 2)) (tp_strong_flow_threshold p) \<and> fle (tp_weak_flow_threshold p) (fl (1 / 2))"

definition same_live :: "timing_params \<Rightarrow> timing_params \<Rightarrow> bool" where
  "same_live p q \<longleftrightarrow>
     tp_max_steps p = tp_max_steps q \<and> tp_moderate_momentum_threshold p = tp_moderate_momentum_threshold q
     \<and> tp_extension_threshold p = tp_extension_threshold q \<and> tp_pullback_target_atr p = tp_pullback_target_atr q
     \<and> tp_decision_window_seconds p = tp_decision_window_seconds q \<and> tp_abandon_extension_atr p = tp_abandon_extension_atr q"

definition live_classify :: "step_features \<Rightarrow> timing_params \<Rightarrow> decision_result" where
  "live_classify f p =
     (if fle (tp_extension_threshold p) (sf_extension_atr f) \<and> fle (sf_pullback_from_max_atr f) (fl (2 / 100))
      then decide f WAIT_PULLBACK ''Over-Extended''
      else if fle (tp_moderate_momentum_threshold p) (sf_speed_cumulative_atr f) \<and> fle (fl (6 / 10)) (sf_continuation_ratio f)
      then decide f IMMEDIATE ''Moderate Momentum''
      else if sf_step_index f < tp_max_steps p then decide f CONTINUE_OBSERVE ''Developing''
      else decide f IMMEDIATE ''Default'')"

lemma extracted_flow:
  assumes "extract_step_features bars event step interval = Inr (Some f)"
  shows "sf_flow_imbalance_cumulative f = fl (1 / 2)" and "sf_flow_imbalance_last_step f = fl (1 / 2)"
    and "sf_step_index f = step"
  using assms by (auto simp: extract_step_features_def features_of_def Let_def res_simps split: if_splits)

lemma half_literal: "fl (50 / 100) = fl (1 / 2)"
  by simp

lemma classify_live:
  assumes "extract_step_features bars event step interval = Inr (Some f)" and "flow_off p"
  shows "classify f p = live_classify f p"
proof -
  note flow = extracted_flow [OF assms(1)]
  have strong: "\<not> fle (tp_strong_flow_threshold p) (fl (1 / 2))" and weak: "\<not> flt (fl (1 / 2)) (tp_weak_flow_threshold p)"
    using assms(2) by (auto simp: flow_off_def flt_def)
  have "\<not> flt (fl (1 / 2)) (fl (1 / 2))" by (simp add: flt_def)
  then show ?thesis unfolding classify_def live_classify_def flow half_literal using strong weak by simp
qed

lemma live_same: "same_live p q \<Longrightarrow> live_classify f p = live_classify f q"
  by (simp add: live_classify_def same_live_def)

lemma wait_same: "same_live p q \<Longrightarrow> wait_for_pullback ops bars t price event p = wait_for_pullback ops bars t price event q"
proof -
  assume pq: "same_live p q"
  then have "pullback_levels event p price = pullback_levels event q price" "pullback_window bars t p = pullback_window bars t q"
      "tp_decision_window_seconds p = tp_decision_window_seconds q"
    by (simp_all add: pullback_levels_def pullback_window_def same_live_def)
  then show ?thesis unfolding pullback_window_wait by presburger
qed

lemma loop_same:
  assumes "same_live p q" and "flow_off p" and "flow_off q"
  shows "timing_loop ops xp p bars event path missing steps = timing_loop ops xp q bars event path missing steps"
proof (induction steps arbitrary: path missing)
  case Nil
  then show ?case using assms(1) by (simp add: same_live_def)
next
  case (Cons step steps)
  have pull: "enter_pullback ops xp p bars event t = enter_pullback ops xp q bars event t" for t
    unfolding enter_pullback_def wait_same [OF assms(1)] ..
  show ?case
  proof (cases "extract_step_features bars event step 5")
    case (Inr fo)
    show ?thesis
    proof (cases fo)
      case (Some f)
      have "classify f p = classify f q"
        using classify_live [of bars event step 5 f] Inr Some assms live_same by metis
      then show ?thesis using Inr Some Cons.IH pull by (simp add: Let_def split: entry_decision.split)
    qed (simp add: Inr Cons.IH Let_def)
  qed simp
qed

lemma live_runs_agree:
  assumes "same_live p q" and "flow_off p" and "flow_off q"
  shows "run_dynamic_timing ops exec p cache events = run_dynamic_timing ops exec q cache events"
proof -
  have "time_event ops xp p cache event = time_event ops xp q cache event" for xp event
    using assms(1) unfolding time_event_def Let_def loop_same [OF assms] by (simp add: same_live_def)
  then have "time_event ops xp p cache = time_event ops xp q cache" for xp by (rule ext)
  then show ?thesis by (simp add: run_dynamic_timing_def)
qed

text \<open>
  C26. As long as the strong flow threshold is above one half and the weak one is not, the results of a run depend on
  six of the eleven parameters only: the strong momentum, flow, fading and skip thresholds are without effect.
\<close>

theorem dead_thresholds:
  assumes "same_live p q" and "flow_off p" and "flow_off q"
  shows "run_dynamic_timing ops exec p cache events = run_dynamic_timing ops exec q cache events"
  by (rule live_runs_agree [OF assms])

lemma loop_regimes:
  assumes "flow_off p"
  shows "timing_loop ops xp p bars event path missing steps = Inr (d, regime, path', e) \<Longrightarrow>
    (d = ''skip'' \<longrightarrow> regime = ''ConsecutiveDataMissing'')
    \<and> regime \<in> {''ConsecutiveDataMissing'', ''Over-Extended'', ''Moderate Momentum'', ''Default''}"
proof (induction steps arbitrary: path missing)
  case (Cons step steps)
  obtain fo where o: "extract_step_features bars event step 5 = Inr fo" using Cons.prems by (auto simp: res_simps)
  show ?case
  proof (cases fo)
    case None
    then show ?thesis using Cons o by (auto simp: Let_def split: if_splits)
  next
    case (Some f)
    then have "classify f p = live_classify f p" using classify_live o assms by blast
    then show ?thesis using Cons o Some by (auto simp: Let_def live_classify_def decide_def res_simps split: if_splits)
  qed
qed (auto simp: res_simps)

text \<open>
  Under the same condition no event is skipped for what its bars show: a skip means that there are no bars, and
  the regimes Strong Momentum, Weak Signal and Fading Momentum never occur.
\<close>

theorem skip_means_no_data:
  assumes "run_dynamic_timing ops exec p cache events = Inr rs" and "flow_off p" and "r \<in> set rs"
  shows "tm_regime r \<in> {''NoData'', ''ConsecutiveDataMissing'', ''Over-Extended'', ''Moderate Momentum'', ''Default''}
    \<and> (tm_entry_decision r = ''skip'' \<longrightarrow> tm_regime r \<in> {''NoData'', ''ConsecutiveDataMissing''})"
proof -
  obtain i where i: "i < length rs" "r = rs ! i" using assms(3) by (metis in_set_conv_nth)
  then have "time_event ops (params_of exec) p cache (events ! i) = Inr r"
    using assms(1) res_map_nth res_map_length unfolding run_dynamic_timing_def by metis
  then show ?thesis
    using loop_regimes [OF assms(2), of ops "params_of exec"]
    by (fastforce simp: time_event_def Let_def record_of_def res_simps split: if_splits)
qed

section \<open>Nothing is decided or entered ahead of time\<close>

lemma bars_between_upto: "b \<le> c \<Longrightarrow> bars_between a b (filter (\<lambda>x. sb_time x \<le> c) bars) = bars_between a b bars"
  unfolding bars_between_def filter_filter by (rule filter_cong) auto

lemma extract_upto:
  assumes "te_touch_time event + seconds (step * interval) \<le> c"
  shows "extract_step_features (filter (\<lambda>x. sb_time x \<le> c) bars) event step interval = extract_step_features bars event step interval"
  unfolding extract_step_features_def Let_def using bars_between_upto [OF assms] by simp

lemma extract_agree:
  assumes "filter (\<lambda>x. sb_time x \<le> c) bars = filter (\<lambda>x. sb_time x \<le> c) bars'" and "te_touch_time event + seconds (step * interval) \<le> c"
  shows "extract_step_features bars event step interval = extract_step_features bars' event step interval"
  using extract_upto [OF assms(2)] assms(1) by metis

lemma loop_agree:
  assumes "filter (\<lambda>x. sb_time x \<le> c) bars = filter (\<lambda>x. sb_time x \<le> c) bars'"
    and "\<forall>step \<in> set steps. te_touch_time event + seconds (step * 5) \<le> c"
    and "timing_loop ops xp p bars event path missing steps = Inr (d, regime, q, e)"
    and "timing_loop ops xp p bars' event path missing steps = Inr (d', regime', q', e')"
  shows "d' = d \<and> regime' = regime \<and> q' = q"
  using assms(2-)
proof (induction steps arbitrary: path missing)
  case (Cons step steps)
  obtain fo where fo: "extract_step_features bars event step 5 = Inr fo" "extract_step_features bars' event step 5 = Inr fo"
    using Cons.prems(1,2) extract_agree [OF assms(1), of event step 5] by (auto simp: res_simps)
  have later: "\<forall>step \<in> set steps. te_touch_time event + seconds (step * 5) \<le> c" using Cons.prems(1) by simp
  show ?case
  proof (cases fo)
    case None
    then show ?thesis using Cons.prems Cons.IH [OF later] fo by (simp add: Let_def split: if_splits)
  next
    case (Some f)
    show ?thesis
      using Cons.prems(2,3) Cons.IH [OF later] fo Some by (cases "dr_decision (classify f p)") (auto simp: Let_def res_simps)
  qed
qed (auto simp: res_simps)

text \<open>
  C16. The decision on an event, its regime and the path to it depend on the bars of its observation window only:
  two sets of bars that agree until the last step give the same decision.
\<close>

theorem decisions_point_in_time:
  assumes "filter (\<lambda>x. sb_time x \<le> te_touch_time event + seconds (tp_max_steps p * 5)) (event_bars cache event) =
           filter (\<lambda>x. sb_time x \<le> te_touch_time event + seconds (tp_max_steps p * 5)) (event_bars cache' event)"
    and "event_bars cache event \<noteq> []" and "event_bars cache' event \<noteq> []"
    and "time_event ops xp p cache event = Inr r" and "time_event ops xp p cache' event = Inr r'"
  shows "tm_entry_decision r' = tm_entry_decision r \<and> tm_regime r' = tm_regime r \<and> tm_decision_path r' = tm_decision_path r"
proof -
  have steps: "\<forall>step \<in> set [1..tp_max_steps p]. te_touch_time event + seconds (step * 5) \<le> te_touch_time event + seconds (tp_max_steps p * 5)"
    by (simp add: seconds_def)
  obtain d regime q e where 1: "timing_loop ops xp p (event_bars cache event) event [] 0 [1..tp_max_steps p] = Inr (d, regime, q, e)"
      "r = record_of event d regime q e"
    using assms(2,4) by (auto simp: time_event_def Let_def res_simps)
  obtain d' regime' q' e' where 2: "timing_loop ops xp p (event_bars cache' event) event [] 0 [1..tp_max_steps p] = Inr (d', regime', q', e')"
      "r' = record_of event d' regime' q' e'"
    using assms(3,5) by (auto simp: time_event_def Let_def res_simps)
  have "d' = d \<and> regime' = regime \<and> q' = q" by (rule loop_agree [OF assms(1) steps 1(1) 2(1)])
  then show ?thesis using 1(2) 2(2) by (simp add: record_of_def split: prod.splits)
qed

text \<open>When a final decision at the end of a step may enter\<close>

lemma entry_bar_after: "entry_bar bars t = Inr (Some (u, price)) \<Longrightarrow> t \<le> u"
proof -
  assume "entry_bar bars t = Inr (Some (u, price))"
  then obtain b bs where "filter (\<lambda>b. t \<le> sb_time b) bars = b # bs" "u = sb_time b"
    by (auto simp: entry_bar_def split: list.splits if_splits)
  then show ?thesis using filter_set [of "\<lambda>b. t \<le> sb_time b" bars] by (metis (mono_tags, lifting) filter_eq_ConsD)
qed

lemma default_trade_entry:
  "default_trade ops xp bars event t numpy price = Inr (Some tr) \<Longrightarrow> xt_entry_time tr = t"
  unfolding default_trade_def by (rule executed_at)

definition entered_from :: "datetime \<Rightarrow> entry_result \<Rightarrow> bool" where
  "entered_from t e \<longleftrightarrow>
     (case e of
        (None, price, trade) \<Rightarrow> price = None \<and> trade = None
      | (Some u, price, trade) \<Rightarrow> t \<le> u \<and> price \<noteq> None \<and> (\<forall>tr. trade = Some tr \<longrightarrow> xt_entry_time tr = u))"

lemma enter_immediate_from: "enter_immediate ops xp bars event t = Inr e \<Longrightarrow> entered_from t e"
  by (auto simp: enter_immediate_def entered_from_def res_simps entry_bar_after dest: default_trade_entry split: option.splits)

lemma pullback_triggered:
  assumes "pb_triggered (wait_for_pullback ops bars t price event p)"
  shows "\<exists>bar \<in> set (pullback_window bars t p). wait_for_pullback ops bars t price event p = pullback_filled ops (te_side event) t price bar"
proof (cases "pullback_scan ops (te_side event) (fst (pullback_levels event p price)) (snd (pullback_levels event p price)) t price
    (pullback_window bars t p)")
  case None
  then show ?thesis using assms by (simp add: pullback_window_wait)
next
  case (Some r)
  then have r: "wait_for_pullback ops bars t price event p = r" by (simp add: pullback_window_wait)
  obtain i where "i < length (pullback_window bars t p)"
      "r = (if at_target (te_side event) (fst (pullback_levels event p price)) (pullback_window bars t p ! i)
            then pullback_filled ops (te_side event) t price (pullback_window bars t p ! i)
            else pullback_missed (total_seconds (sb_time (pullback_window bars t p ! i) - t)) ''early_abandon'')"
    using Some by (rule pullback.earliest)
  then show ?thesis using assms r by (auto split: if_splits)
qed

lemma enter_pullback_from: "enter_pullback ops xp tp bars event t = Inr e \<Longrightarrow> entered_from t e"
proof -
  assume e: "enter_pullback ops xp tp bars event t = Inr e"
  then obtain x where x: "entry_bar bars t = Inr x" by (auto simp: enter_pullback_def res_simps)
  show ?thesis
  proof (cases x)
    case None
    then show ?thesis using e x by (auto simp: enter_pullback_def entered_from_def)
  next
    case (Some y)
    obtain u price where y: "y = (u, price)" by force
    let ?r = "wait_for_pullback ops bars u price event tp"
    have "t \<le> u" using entry_bar_after x Some y by blast
    show ?thesis
    proof (cases "pb_triggered ?r")
      case False
      then show ?thesis using e x Some y by (auto simp: enter_pullback_def entered_from_def Let_def split: option.splits)
    next
      case True
      then obtain bar where bar: "bar \<in> set (pullback_window bars u tp)" "?r = pullback_filled ops (te_side event) u price bar"
        using pullback_triggered by blast
      then have "u < sb_time bar" by (simp add: pullback_window_def)
      moreover obtain trade where "default_trade ops xp bars event (sb_time bar) True (sb_close bar) = Inr trade"
          "e = (Some (sb_time bar), Some (sb_close bar), trade)"
        using e x Some y bar(2) by (auto simp: enter_pullback_def res_simps)
      ultimately show ?thesis using \<open>t \<le> u\<close> default_trade_entry by (auto simp: entered_from_def)
    qed
  qed
qed

lemma loop_enters_late:
  assumes "timing_loop ops xp p bars event path missing steps = Inr (d, regime, q, e)"
  shows "\<exists>step what why. q \<noteq> [] \<and> last q = (step, what, why) \<and> (step \<in> set steps \<or> step = tp_max_steps p)
    \<and> entered_from (te_touch_time event + seconds (step * 5)) e \<and> (d = ''skip'' \<longrightarrow> e = (None, None, None))
    \<and> d \<in> {''immediate'', ''wait_pullback'', ''skip''}"
  using assms
proof (induction steps arbitrary: path missing)
  case Nil
  then show ?case using enter_immediate_from by (auto simp: res_simps)
next
  case (Cons step steps)
  obtain fo where fo: "extract_step_features bars event step 5 = Inr fo" using Cons.prems by (auto simp: res_simps)
  have empty: "entered_from t (None, None, None)" for t by (simp add: entered_from_def)
  show ?case
  proof (cases fo)
    case None
    then show ?thesis using Cons fo empty by (auto simp: Let_def split: if_splits) blast+
  next
    case (Some f)
    show ?thesis
    proof (cases "dr_decision (classify f p)")
      case CONTINUE_OBSERVE
      then show ?thesis using Cons fo Some by (auto simp: Let_def) blast+
    next
      case IMMEDIATE
      then show ?thesis using Cons.prems fo Some enter_immediate_from by (auto simp: Let_def res_simps)
    next
      case WAIT_PULLBACK
      then show ?thesis using Cons.prems fo Some enter_pullback_from by (auto simp: Let_def res_simps)
    next
      case SKIP
      then show ?thesis using Cons.prems fo Some empty by (auto simp: Let_def)
    qed
  qed
qed

text \<open>
  C25. Every event gets one record, in order. Where it was entered, the entry lies at or after the end of the step that
  decided it, the trade starts at that time, and the decision was not to skip.
\<close>

theorem entries_follow_decisions:
  assumes "run_dynamic_timing ops exec p cache events = Inr rs"
  shows "length rs = length events \<and> (\<forall>i < length events. tm_touch_time (rs ! i) = te_touch_time (events ! i)
      \<and> (case tm_entry_time (rs ! i) of
           None \<Rightarrow> tm_trade (rs ! i) = None
         | Some t \<Rightarrow> tm_decision_path (rs ! i) \<noteq> [] \<and> tm_entry_decision (rs ! i) \<in> {''immediate'', ''wait_pullback''}
             \<and> te_touch_time (events ! i) + seconds (fst (last (tm_decision_path (rs ! i))) * 5) \<le> t
             \<and> (case tm_trade (rs ! i) of None \<Rightarrow> True | Some tr \<Rightarrow> xt_entry_time tr = t)))"
proof -
  have one: "tm_touch_time r = te_touch_time event
      \<and> (case tm_entry_time r of
           None \<Rightarrow> tm_trade r = None
         | Some t \<Rightarrow> tm_decision_path r \<noteq> [] \<and> tm_entry_decision r \<in> {''immediate'', ''wait_pullback''}
             \<and> te_touch_time event + seconds (fst (last (tm_decision_path r)) * 5) \<le> t
             \<and> (case tm_trade r of None \<Rightarrow> True | Some tr \<Rightarrow> xt_entry_time tr = t))"
    if r: "time_event ops xp p cache event = Inr r" for xp event r
  proof (cases "event_bars cache event = []")
    case True
    then show ?thesis using r by (auto simp: time_event_def record_of_def)
  next
    case False
    then obtain d regime q e where "timing_loop ops xp p (event_bars cache event) event [] 0 [1..tp_max_steps p] = Inr (d, regime, q, e)"
        and rec: "r = record_of event d regime q e"
      using r by (auto simp: time_event_def Let_def res_simps)
    from loop_enters_late [OF this(1)] obtain step what why where l: "q \<noteq> []" "last q = (step, what, why)"
        "entered_from (te_touch_time event + seconds (step * 5)) e" "d = ''skip'' \<longrightarrow> e = (None, None, None)"
        "d \<in> {''immediate'', ''wait_pullback'', ''skip''}"
      by blast
    show ?thesis using l unfolding rec record_of_def entered_from_def by (auto split: prod.splits option.splits)
  qed
  show ?thesis
    using assms res_map_length [of "time_event ops (params_of exec) p cache" events rs]
      res_map_nth [of "time_event ops (params_of exec) p cache" events rs] one
    unfolding run_dynamic_timing_def by blast
qed

section \<open>A decision\<close>

definition demo_timing :: timing_params where
  "demo_timing =
     \<lparr>tp_max_steps = 2, tp_strong_momentum_threshold = Fin 1, tp_strong_flow_threshold = Fin 1, tp_moderate_momentum_threshold = Fin 1,
      tp_extension_threshold = Fin 4, tp_weak_flow_threshold = Fin 0, tp_fading_threshold = Fin 0, tp_min_steps_for_skip = 3,
      tp_pullback_target_atr = Fin (1 / 4), tp_decision_window_seconds = 60, tp_abandon_extension_atr = Fin 1\<rparr>"

definition demo_seconds :: "int \<Rightarrow> second_bar list" where
  "demo_seconds n = [demo_bar 0 1024 1024, demo_bar 10 1024 1024, demo_bar 12 n 1008]"

definition demo_cache :: "int \<Rightarrow> bars_cache" where
  "demo_cache n key = Some (demo_seconds n)"

definition entered_at :: "datetime \<Rightarrow> timing_record res \<Rightarrow> bool" where
  "entered_at t x =
     (case x of
        Inl e \<Rightarrow> False
      | Inr r \<Rightarrow> tm_regime r = ''Default'' \<and> tm_entry_decision r = ''immediate'' \<and> tm_entry_time r = Some t \<and> tm_trade r \<noteq> None)"

lemma demo_bars: "event_bars (demo_cache n) demo_touch = demo_seconds n"
  by (simp add: event_bars_def demo_cache_def)

definition demo_features :: "int \<Rightarrow> step_features" where
  "demo_features step =
     \<lparr>sf_step_index = step, sf_extension_atr = Fin (3 / 2), sf_speed_cumulative_atr = Fin 0, sf_max_extension_atr = Fin (3 / 2),
      sf_pullback_from_max_atr = Fin 0, sf_flow_imbalance_cumulative = Fin (1 / 2), sf_flow_imbalance_last_step = Fin (1 / 2),
      sf_dwell_ratio = Fin 0, sf_speed_last_step_atr = Fin 0, sf_continuation_ratio = Fin 0\<rparr>"

lemma demo_steps:
  "extract_step_features (demo_seconds 980) demo_touch 1 5 = Inr (Some (demo_features 1))"
  "extract_step_features (demo_seconds 980) demo_touch 2 5 = Inr (Some (demo_features 2))"
  "extract_step_features (demo_seconds 1004) demo_touch 1 5 = Inr (Some (demo_features 1))"
  "extract_step_features (demo_seconds 1004) demo_touch 2 5 = Inr (Some (demo_features 2))"
  by code_simp+

lemma demo_decisions:
  "classify (demo_features 1) demo_timing = decide (demo_features 1) CONTINUE_OBSERVE ''Developing''"
  "classify (demo_features 2) demo_timing = decide (demo_features 2) IMMEDIATE ''Default''"
  by code_simp+

lemma demo_entries:
  "entry_bar (demo_seconds 980) (seconds 10) = Inr (Some (seconds 10, Fin 1024))"
  "entry_bar (demo_seconds 1004) (seconds 10) = Inr (Some (seconds 10, Fin 1024))"
  by code_simp+

definition is_trade :: "exec_trade option res \<Rightarrow> bool" where
  "is_trade x = (case x of Inr (Some t) \<Rightarrow> True | _ \<Rightarrow> False)"

lemma demo_trades:
  "is_trade (default_trade ref_numpy demo_exec (demo_seconds 980) demo_touch (seconds 10) False (Fin 1024))"
  "is_trade (default_trade ref_numpy demo_exec (demo_seconds 1004) demo_touch (seconds 10) False (Fin 1024))"
  by code_simp+

lemma demo_decided:
  "entered_at (seconds 10) (time_event ref_numpy demo_exec demo_timing (demo_cache 980) demo_touch)"
  "entered_at (seconds 10) (time_event ref_numpy demo_exec demo_timing (demo_cache 1004) demo_touch)"
proof -
  have steps: "[1..tp_max_steps demo_timing] = [1, 2]" "te_touch_time demo_touch + seconds 10 = seconds 10" by code_simp+
  have bars: "demo_seconds n \<noteq> []" for n by (simp add: demo_seconds_def)
  have one: "entered_at (seconds 10) (time_event ref_numpy demo_exec demo_timing (demo_cache n) demo_touch)"
    if now: "extract_step_features (demo_seconds n) demo_touch 1 5 = Inr (Some (demo_features 1))"
      "extract_step_features (demo_seconds n) demo_touch 2 5 = Inr (Some (demo_features 2))"
      "entry_bar (demo_seconds n) (seconds 10) = Inr (Some (seconds 10, Fin 1024))"
      "is_trade (default_trade ref_numpy demo_exec (demo_seconds n) demo_touch (seconds 10) False (Fin 1024))" for n
  proof -
    obtain tr where "default_trade ref_numpy demo_exec (demo_seconds n) demo_touch (seconds 10) False (Fin 1024) = Inr (Some tr)"
      using now(4) by (auto simp: is_trade_def split: sum.splits option.splits)
    then show ?thesis
      by (simp add: time_event_def demo_bars bars steps now(1-3) demo_decisions decide_def enter_immediate_def entered_at_def record_of_def Let_def)
  qed
  show "entered_at (seconds 10) (time_event ref_numpy demo_exec demo_timing (demo_cache 980) demo_touch)"
    by (rule one) (rule demo_steps demo_entries demo_trades)+
  show "entered_at (seconds 10) (time_event ref_numpy demo_exec demo_timing (demo_cache 1004) demo_touch)"
    by (rule one) (rule demo_steps demo_entries demo_trades)+
qed

lemma demo_timing_run:
  obtains r where "time_event ref_numpy demo_exec demo_timing (demo_cache 980) demo_touch = Inr r"
    and "run_dynamic_timing ref_numpy (Some demo_exec) demo_timing (demo_cache 980) [demo_touch] = Inr [r]"
    and "tm_entry_time r = Some (seconds 10)" and "tm_trade r \<noteq> None" and "tm_regime r = ''Default''"
  using demo_decided(1)
  by (cases "time_event ref_numpy demo_exec demo_timing (demo_cache 980) demo_touch")
    (auto simp: entered_at_def run_dynamic_timing_def params_of_def)

lemma demo_flow_off: "flow_off demo_timing"
  by code_simp

theorem dead_thresholds_witness:
  "run_dynamic_timing ref_numpy (Some demo_exec) demo_timing (demo_cache 980) [demo_touch] =
   run_dynamic_timing ref_numpy (Some demo_exec) (demo_timing\<lparr>tp_fading_threshold := Fin 7, tp_min_steps_for_skip := 1\<rparr>) (demo_cache 980) [demo_touch]"
  by (rule dead_thresholds) (use demo_flow_off in \<open>auto simp: same_live_def flow_off_def\<close>)

theorem skip_means_no_data_witness:
  "\<exists>r. run_dynamic_timing ref_numpy (Some demo_exec) demo_timing (demo_cache 980) [demo_touch] = Inr [r]
     \<and> tm_regime r \<in> {''NoData'', ''ConsecutiveDataMissing'', ''Over-Extended'', ''Moderate Momentum'', ''Default''}"
proof -
  obtain r where r: "run_dynamic_timing ref_numpy (Some demo_exec) demo_timing (demo_cache 980) [demo_touch] = Inr [r]"
    using demo_timing_run by blast
  then show ?thesis using skip_means_no_data [OF r demo_flow_off, of r] by simp
qed

theorem decisions_point_in_time_witness:
  "\<exists>r r'. time_event ref_numpy demo_exec demo_timing (demo_cache 980) demo_touch = Inr r
     \<and> time_event ref_numpy demo_exec demo_timing (demo_cache 1004) demo_touch = Inr r'
     \<and> tm_entry_decision r' = tm_entry_decision r \<and> tm_regime r' = tm_regime r \<and> tm_decision_path r' = tm_decision_path r"
proof -
  obtain r where r: "time_event ref_numpy demo_exec demo_timing (demo_cache 980) demo_touch = Inr r"
    using demo_decided(1) by (auto simp: entered_at_def split: sum.splits)
  obtain r' where r': "time_event ref_numpy demo_exec demo_timing (demo_cache 1004) demo_touch = Inr r'"
    using demo_decided(2) by (auto simp: entered_at_def split: sum.splits)
  have "tm_entry_decision r' = tm_entry_decision r \<and> tm_regime r' = tm_regime r \<and> tm_decision_path r' = tm_decision_path r"
    by (rule decisions_point_in_time [OF _ _ _ r r'])
      (simp_all add: demo_bars, simp_all add: demo_seconds_def demo_bar_def demo_touch_def demo_timing_def seconds_def)
  then show ?thesis using r r' by blast
qed

theorem entries_follow_decisions_witness:
  "\<exists>r. run_dynamic_timing ref_numpy (Some demo_exec) demo_timing (demo_cache 980) [demo_touch] = Inr [r]
     \<and> tm_entry_time r = Some (seconds 10) \<and> seconds (fst (last (tm_decision_path r)) * 5) \<le> seconds 10"
proof -
  obtain r where r: "run_dynamic_timing ref_numpy (Some demo_exec) demo_timing (demo_cache 980) [demo_touch] = Inr [r]"
      "tm_entry_time r = Some (seconds 10)"
    using demo_timing_run by blast
  then show ?thesis using entries_follow_decisions [OF r(1)] by (simp add: demo_touch_def)
qed

lemma demo_pullback_window: "pullback_window (demo_seconds 980) 0 demo_timing = [demo_bar 10 1024 1024, demo_bar 12 980 1008]"
  by code_simp

lemma demo_pullback_levels: "pullback_levels demo_touch demo_timing (Fin 1024) = (Fin 1020, Fin 1040)"
  by code_simp

theorem pullback_fills_first_touch_witness:
  "pb_triggered (wait_for_pullback ref_numpy (demo_seconds 980) 0 (Fin 1024) demo_touch demo_timing)
   \<and> pb_entry_time (wait_for_pullback ref_numpy (demo_seconds 980) 0 (Fin 1024) demo_touch demo_timing) = Some (seconds 12)
   \<and> pb_entry_price (wait_for_pullback ref_numpy (demo_seconds 980) 0 (Fin 1024) demo_touch demo_timing) = Some (Fin 1008)"
  unfolding pullback_fills_first_touch demo_pullback_window demo_pullback_levels fst_conv snd_conv
  by (rule exI [of _ 1]) (simp add: at_target_def at_abandon_def demo_bar_def demo_touch_def)

end
