(* ===== verification/TimingSearch.thy ===== *)
theory TimingSearch
  imports DynTiming
begin

text \<open>
  The rest of \<open>scripts/dynamic_timing/\<close>: the split of the events in time and their matching (\<open>data_layer.py\<close>), and the
  evaluation of runs in \<open>dynamic_entry_timing_runner.py\<close>: calendar sum, the two layers of the grid search, the
  sensitivity of its parameters, the comparison on the test set and the stability of the regimes.
\<close>

section \<open>Events\<close>

record gate_entry =
  ge_symbol :: string
  ge_touch_time :: datetime
  ge_side :: string

text \<open>\<open>idxmin\<close>: the first candidate with the least distance\<close>

fun nearest :: "datetime \<Rightarrow> touch_event \<Rightarrow> touch_event list \<Rightarrow> touch_event" where
  "nearest touch best [] = best"
| "nearest touch best (e # es) =
     nearest touch (if \<bar>te_touch_time e - touch\<bar> < \<bar>te_touch_time best - touch\<bar> then e else best) es"

definition match_entry :: "touch_event list \<Rightarrow> gate_entry \<Rightarrow> touch_event option" where
  "match_entry all_events entry =
     (case filter (\<lambda>e. te_symbol e = ge_symbol entry \<and> te_side e = ge_side entry
              \<and> \<bar>te_touch_time e - ge_touch_time entry\<bar> \<le> seconds 2) all_events of
        [] \<Rightarrow> None
      | c # cs \<Rightarrow> Some (nearest (ge_touch_time entry) c cs))"

text \<open>\<open>drop_duplicates(subset=["event_id"])\<close>\<close>

fun drop_duplicate_ids :: "touch_event list \<Rightarrow> touch_event list" where
  "drop_duplicate_ids [] = []"
| "drop_duplicate_ids (e # es) = e # drop_duplicate_ids (filter (\<lambda>x. te_event_id x \<noteq> te_event_id e) es)"

definition match_events :: "gate_entry list \<Rightarrow> touch_event list \<Rightarrow> touch_event list" where
  "match_events gate_entries all_events = drop_duplicate_ids (List.map_filter (match_entry all_events) gate_entries)"

text \<open>\<open>int(len(events) * train_ratio)\<close> as a slice bound (a negative one counts from the end); the sort of pandas is a parameter, as it need not be stable.\<close>

definition split_index :: "pyfloat \<Rightarrow> nat \<Rightarrow> nat res" where
  "split_index train_ratio n =
     (case fmul (Fin (of_nat n)) train_ratio of
        Fin x \<Rightarrow> Inr (if 0 \<le> x then nat \<lfloor>x\<rfloor> else nat (int n + \<lceil>x\<rceil>))
      | NaN \<Rightarrow> Inl ValueError
      | _ \<Rightarrow> Inl OverflowError)"

definition time_split_events ::
  "(touch_event list \<Rightarrow> touch_event list) \<Rightarrow> pyfloat \<Rightarrow> touch_event list \<Rightarrow> (touch_event list \<times> touch_event list) res" where
  "time_split_events sort_values train_ratio events =
     (let sorted_events = sort_values events
      in res_bind (split_index train_ratio (length sorted_events)) (\<lambda>i. Inr (take i sorted_events, drop i sorted_events)))"

section \<open>Calendar sum\<close>

text \<open>A dict of lists: a new key is added at the end.\<close>

fun add_to_silo :: "string \<Rightarrow> 'a \<Rightarrow> (string \<times> 'a list) list \<Rightarrow> (string \<times> 'a list) list" where
  "add_to_silo k x [] = [(k, [x])]"
| "add_to_silo k x ((k', xs) # silos) = (if k' = k then (k', xs @ [x]) # silos else (k', xs) # add_to_silo k x silos)"

definition silos_of :: "('a \<Rightarrow> string) \<Rightarrow> 'a list \<Rightarrow> (string \<times> 'a list) list" where
  "silos_of key xs = foldl (\<lambda>silos x. add_to_silo (key x) x silos) [] xs"

definition silo_return :: "('a \<Rightarrow> pyfloat) \<Rightarrow> ('a \<Rightarrow> pyfloat) \<Rightarrow> 'a list \<Rightarrow> pyfloat" where
  "silo_return notional_share pnl trades =
     (let balance = foldl (\<lambda>balance t. fadd balance (fmul (fmul balance (notional_share t)) (pnl t))) (Fin 100000) trades
      in fmul (the (fdiv (fsub balance (Fin 100000)) (Fin 100000))) (Fin 100))"

definition compute_calendar_sum :: "timing_record list \<Rightarrow> pyfloat" where
  "compute_calendar_sum results =
     (let traded = List.map_filter (\<lambda>r. map_option (\<lambda>t. (r, t)) (tm_trade r)) results;
          silos = silos_of (\<lambda>(r, t). tm_symbol r @ ''_'' @ year_month_of (xt_entry_time t)) traded
      in foldl (\<lambda>total (k, trades). fadd total
             (silo_return (\<lambda>(r, t). xt_notional_share t) (\<lambda>(r, t). xt_realistic_pnl_pct t) (sort_key (\<lambda>(r, t). xt_entry_time t) trades)))
           (Fin 0) silos)"

section \<open>Grid search\<close>

record grid_row =
  gr_params :: timing_params
  gr_calendar_sum :: pyfloat
  gr_trade_count :: nat
  gr_skip_count :: nat

definition grid_evaluate ::
  "numpy_ops \<Rightarrow> exec_params option \<Rightarrow> bars_cache \<Rightarrow> touch_event list \<Rightarrow> timing_params \<Rightarrow> grid_row res" where
  "grid_evaluate ops exec cache events params =
     res_bind (run_dynamic_timing ops exec params cache events) (\<lambda>results.
       Inr \<lparr>gr_params = params, gr_calendar_sum = compute_calendar_sum results,
            gr_trade_count = length (filter (\<lambda>r. tm_trade r \<noteq> None) results),
            gr_skip_count = length (filter (\<lambda>r. tm_entry_decision r = ''skip'') results)\<rparr>)"

definition scored :: "grid_row list \<Rightarrow> (timing_params \<times> pyfloat) list" where
  "scored rows = map (\<lambda>r. (gr_params r, gr_calendar_sum r)) rows"

definition layer1_block :: "int \<Rightarrow> pyfloat \<Rightarrow> timing_params list" where
  "layer1_block max_steps strong =
     [default_timing\<lparr>tp_max_steps := max_steps, tp_strong_momentum_threshold := strong, tp_extension_threshold := ext,
        tp_moderate_momentum_threshold := mom\<rparr>.
        ext \<leftarrow> [fl (10 / 100), fl (15 / 100), fl (20 / 100), fl (30 / 100)], mom \<leftarrow> [fl (5 / 100), fl (10 / 100)]]"

definition layer1_candidates :: "timing_params list" where
  "layer1_candidates =
     concat [layer1_block max_steps strong.
        max_steps \<leftarrow> [2, 4, 6, 12], strong \<leftarrow> [fl (10 / 100), fl (15 / 100), fl (20 / 100), fl (30 / 100)]]"

definition run_grid_search_layer1 ::
  "numpy_ops \<Rightarrow> exec_params option \<Rightarrow> bars_cache \<Rightarrow> touch_event list \<Rightarrow> (timing_params \<times> grid_row list) res" where
  "run_grid_search_layer1 ops exec cache events =
     res_bind (res_map (grid_evaluate ops exec cache events) layer1_candidates) (\<lambda>rows.
       Inr (best_of NInf default_timing (scored rows), rows))"

definition layer2_block :: "timing_params \<Rightarrow> pyfloat \<Rightarrow> pyfloat \<Rightarrow> pyfloat \<Rightarrow> int \<Rightarrow> timing_params list" where
  "layer2_block layer1_best sf weak fad mss =
     [default_timing\<lparr>tp_max_steps := tp_max_steps layer1_best,
        tp_strong_momentum_threshold := tp_strong_momentum_threshold layer1_best,
        tp_extension_threshold := tp_extension_threshold layer1_best,
        tp_moderate_momentum_threshold := tp_moderate_momentum_threshold layer1_best,
        tp_strong_flow_threshold := sf, tp_weak_flow_threshold := weak, tp_fading_threshold := fad, tp_min_steps_for_skip := mss,
        tp_pullback_target_atr := pt, tp_decision_window_seconds := dw\<rparr>.
        pt \<leftarrow> [fl (2 / 100), fl (5 / 100), fl (10 / 100)], dw \<leftarrow> [60, 120, 300]]"

definition layer2_candidates :: "timing_params \<Rightarrow> timing_params list" where
  "layer2_candidates layer1_best =
     concat [layer2_block layer1_best sf weak fad mss.
        sf \<leftarrow> [fl (55 / 100), fl (58 / 100), fl (60 / 100), fl (65 / 100)], weak \<leftarrow> [fl (45 / 100), fl (48 / 100), fl (50 / 100)],
        fad \<leftarrow> [fl (1 / 100), fl (2 / 100), fl (3 / 100)], mss \<leftarrow> [2, 3, 4]]"

definition run_grid_search_layer2 ::
  "numpy_ops \<Rightarrow> exec_params option \<Rightarrow> bars_cache \<Rightarrow> timing_params \<Rightarrow> touch_event list \<Rightarrow> (timing_params \<times> grid_row list) res" where
  "run_grid_search_layer2 ops exec cache layer1_best events =
     res_bind (res_map (grid_evaluate ops exec cache events) (layer2_candidates layer1_best)) (\<lambda>rows.
       Inr (best_of NInf layer1_best (scored rows), rows))"

section \<open>Sensitivity\<close>

text \<open>Each parameter with the variants of the best parameters in which it alone is changed\<close>

definition sensitivity_axes :: "timing_params \<Rightarrow> (string \<times> timing_params list) list" where
  "sensitivity_axes p =
     [(''max_steps'', map (\<lambda>v. p\<lparr>tp_max_steps := v\<rparr>) [2, 4, 6, 12]),
      (''strong_momentum_threshold'', map (\<lambda>v. p\<lparr>tp_strong_momentum_threshold := v\<rparr>) [fl (10 / 100), fl (15 / 100), fl (20 / 100), fl (30 / 100)]),
      (''strong_flow_threshold'', map (\<lambda>v. p\<lparr>tp_strong_flow_threshold := v\<rparr>) [fl (55 / 100), fl (58 / 100), fl (60 / 100), fl (65 / 100)]),
      (''moderate_momentum_threshold'', map (\<lambda>v. p\<lparr>tp_moderate_momentum_threshold := v\<rparr>) [fl (5 / 100), fl (8 / 100), fl (10 / 100), fl (15 / 100)]),
      (''extension_threshold'', map (\<lambda>v. p\<lparr>tp_extension_threshold := v\<rparr>) [fl (10 / 100), fl (15 / 100), fl (20 / 100), fl (30 / 100)]),
      (''weak_flow_threshold'', map (\<lambda>v. p\<lparr>tp_weak_flow_threshold := v\<rparr>) [fl (45 / 100), fl (48 / 100), fl (50 / 100)]),
      (''fading_threshold'', map (\<lambda>v. p\<lparr>tp_fading_threshold := v\<rparr>) [fl (1 / 100), fl (2 / 100), fl (3 / 100)]),
      (''min_steps_for_skip'', map (\<lambda>v. p\<lparr>tp_min_steps_for_skip := v\<rparr>) [2, 3, 4]),
      (''pullback_target_atr'', map (\<lambda>v. p\<lparr>tp_pullback_target_atr := v\<rparr>) [fl (2 / 100), fl (5 / 100), fl (10 / 100)]),
      (''decision_window_seconds'', map (\<lambda>v. p\<lparr>tp_decision_window_seconds := v\<rparr>) [60, 120, 300])]"

definition calendar_sum_of ::
  "numpy_ops \<Rightarrow> exec_params option \<Rightarrow> bars_cache \<Rightarrow> touch_event list \<Rightarrow> timing_params \<Rightarrow> pyfloat res" where
  "calendar_sum_of ops exec cache events p = res_bind (run_dynamic_timing ops exec p cache events) (\<lambda>rs. Inr (compute_calendar_sum rs))"

definition high_sensitivity :: "pyfloat list \<Rightarrow> bool" where
  "high_sensitivity scores = flt (Fin 3) (fsub (col_max scores) (col_min scores))"

definition run_sensitivity_analysis ::
  "numpy_ops \<Rightarrow> exec_params option \<Rightarrow> bars_cache \<Rightarrow> timing_params \<Rightarrow> touch_event list \<Rightarrow> ((string \<times> pyfloat list) list \<times> string list) res" where
  "run_sensitivity_analysis ops exec cache best_params events =
     res_bind (res_map (\<lambda>(name, ps). res_bind (res_map (calendar_sum_of ops exec cache events) ps) (\<lambda>scores. Inr (name, scores)))
                 (sensitivity_axes best_params)) (\<lambda>sensitivities.
       Inr (sensitivities, map fst (filter (\<lambda>(name, scores). high_sensitivity scores) sensitivities)))"

section \<open>Comparison on the test set\<close>

record timing_metrics =
  mt_calendar_sum_pct :: pyfloat
  mt_trade_count :: nat
  mt_win_rate :: pyfloat
  mt_avg_win_pct :: pyfloat
  mt_avg_loss_pct :: pyfloat
  mt_payoff_ratio :: pyfloat
  mt_skip_rate :: pyfloat
  mt_pullback_fill_rate :: pyfloat
  mt_per_trade_quality_bps :: pyfloat

definition trades_of :: "timing_record list \<Rightarrow> exec_trade list" where
  "trades_of results = List.map_filter tm_trade results"

text \<open>\<open>sum(xs) / len(xs) * k\<close> of a non-empty list\<close>

definition mean_times :: "pyfloat list \<Rightarrow> pyfloat \<Rightarrow> pyfloat" where
  "mean_times xs k = fmul (the (fdiv (py_sum xs) (Fin (of_nat (length xs))))) k"

definition timing_compute_metrics :: "timing_record list \<Rightarrow> timing_metrics" where
  "timing_compute_metrics results =
     (let trades = trades_of results; trade_count = length trades
      in if trade_count = 0
         then \<lparr>mt_calendar_sum_pct = Fin 0, mt_trade_count = 0, mt_win_rate = Fin 0, mt_avg_win_pct = Fin 0, mt_avg_loss_pct = Fin 0,
               mt_payoff_ratio = Fin 0, mt_skip_rate = Fin 1, mt_pullback_fill_rate = Fin 0, mt_per_trade_quality_bps = Fin 0\<rparr>
         else let pnls = map xt_realistic_pnl_pct trades;
                  wins = filter (\<lambda>x. flt (Fin 0) x) pnls; losses = filter (\<lambda>x. fle x (Fin 0)) pnls;
                  avg_win_pct = (if wins = [] then Fin 0 else mean_times wins (Fin 100));
                  avg_loss_pct = (if losses = [] then Fin 0 else mean_times losses (Fin 100));
                  pullback_events = filter (\<lambda>r. tm_entry_decision r = ''wait_pullback'') results
              in \<lparr>mt_calendar_sum_pct = compute_calendar_sum results, mt_trade_count = trade_count,
                  mt_win_rate = ratio (length wins) trade_count, mt_avg_win_pct = avg_win_pct, mt_avg_loss_pct = avg_loss_pct,
                  mt_payoff_ratio = (case fdiv avg_win_pct avg_loss_pct of None \<Rightarrow> PInf | Some q \<Rightarrow> fabs q),
                  mt_skip_rate = ratio (length (filter (\<lambda>r. tm_entry_decision r = ''skip'') results)) (length results),
                  mt_pullback_fill_rate =
                    (if pullback_events = [] then Fin 0
                     else ratio (length (filter (\<lambda>r. tm_trade r \<noteq> None) pullback_events)) (length pullback_events)),
                  mt_per_trade_quality_bps = mean_times pnls (Fin 10000)\<rparr>)"

record symbol_metrics =
  sy_calendar_sum_pct :: pyfloat
  sy_win_rate :: pyfloat
  sy_trade_count :: nat
  sy_negative_flag :: bool

definition symbol_metrics_of :: "timing_record list \<Rightarrow> string \<Rightarrow> symbol_metrics" where
  "symbol_metrics_of dynamic_results symbol =
     (let sym_results = filter (\<lambda>r. tm_symbol r = symbol) dynamic_results; sym_cal_sum = compute_calendar_sum sym_results;
          sym_trades = trades_of sym_results
      in \<lparr>sy_calendar_sum_pct = sym_cal_sum,
          sy_win_rate = (if sym_trades = [] then Fin 0
                         else ratio (length (filter (\<lambda>t. flt (Fin 0) (xt_realistic_pnl_pct t)) sym_trades)) (length sym_trades)),
          sy_trade_count = length sym_trades, sy_negative_flag = flt sym_cal_sum (Fin 0)\<rparr>)"

definition overfitting :: "pyfloat \<Rightarrow> pyfloat \<Rightarrow> bool" where
  "overfitting train_calendar_sum test_cal_sum =
     (if flt (Fin 0) train_calendar_sum
      then flt (Fin 50) (fmul (the (fdiv (fsub train_calendar_sum test_cal_sum) train_calendar_sum)) (Fin 100))
      else False)"

record evaluation =
  ev_dynamic_results :: "timing_record list"
  ev_baselines :: "(string \<times> timing_record list) list"
  ev_metrics :: "(string \<times> timing_metrics) list"
  ev_overfitting_flag :: bool
  ev_train_calendar_sum :: pyfloat
  ev_test_calendar_sum :: pyfloat
  ev_symbol_metrics :: "(string \<times> symbol_metrics) list"

text \<open>\<open>unique()\<close>: the values in the order of their first occurrence\<close>

fun uniques :: "string list \<Rightarrow> string list" where
  "uniques [] = []"
| "uniques (x # xs) = x # uniques (filter (\<lambda>y. y \<noteq> x) xs)"

definition evaluate_on_test_set ::
  "numpy_ops \<Rightarrow> exec_params option \<Rightarrow> bars_cache \<Rightarrow> timing_params \<Rightarrow> pyfloat \<Rightarrow> touch_event list \<Rightarrow> evaluation res" where
  "evaluate_on_test_set ops exec cache best_params train_calendar_sum test_events =
     res_bind (run_dynamic_timing ops exec best_params cache test_events) (\<lambda>dynamic_results.
     res_bind (run_all_baselines ops exec cache test_events) (\<lambda>baselines.
       let metrics = (''dynamic'', timing_compute_metrics dynamic_results) # map (\<lambda>(n, rs). (n, timing_compute_metrics rs)) baselines;
           test_cal_sum = mt_calendar_sum_pct (timing_compute_metrics dynamic_results)
       in Inr \<lparr>ev_dynamic_results = dynamic_results, ev_baselines = baselines, ev_metrics = metrics,
               ev_overfitting_flag = overfitting train_calendar_sum test_cal_sum, ev_train_calendar_sum = train_calendar_sum,
               ev_test_calendar_sum = test_cal_sum,
               ev_symbol_metrics = map (\<lambda>s. (s, symbol_metrics_of dynamic_results s)) (uniques (map te_symbol test_events))\<rparr>))"

section \<open>Stability of the regimes\<close>

definition regime_distribution :: "timing_record list \<Rightarrow> (string \<times> pyfloat) list" where
  "regime_distribution results =
     map (\<lambda>k. (k, ratio (length (filter (\<lambda>r. tm_regime r = k) results)) (length results))) (uniques (map tm_regime results))"

record regime_stat =
  rg_count :: nat
  rg_trade_count :: nat
  rg_win_rate :: pyfloat
  rg_avg_pnl_pct :: pyfloat
  rg_calendar_contribution_pct :: pyfloat

definition regime_stat_of :: "timing_record list \<Rightarrow> regime_stat" where
  "regime_stat_of rows =
     (let trades = trades_of rows; pnls = map xt_realistic_pnl_pct trades
      in if trades = []
         then \<lparr>rg_count = length rows, rg_trade_count = 0, rg_win_rate = Fin 0, rg_avg_pnl_pct = Fin 0, rg_calendar_contribution_pct = Fin 0\<rparr>
         else \<lparr>rg_count = length rows, rg_trade_count = length trades,
               rg_win_rate = ratio (length (filter (\<lambda>x. flt (Fin 0) x) pnls)) (length trades),
               rg_avg_pnl_pct = mean_times pnls (Fin 100), rg_calendar_contribution_pct = compute_calendar_sum rows\<rparr>)"

definition regime_stats :: "timing_record list \<Rightarrow> (string \<times> regime_stat) list" where
  "regime_stats results = map (\<lambda>(k, rows). (k, regime_stat_of rows)) (silos_of tm_regime results)"

record stability =
  st_train_distribution :: "(string \<times> pyfloat) list"
  st_test_distribution :: "(string \<times> pyfloat) list"
  st_distribution_shift :: bool
  st_shifted_regimes :: "string list"
  st_regime_stats :: "(string \<times> regime_stat) list"

definition percent_of :: "(string \<times> pyfloat) list \<Rightarrow> string \<Rightarrow> pyfloat" where
  "percent_of d regime = fmul (case map_of d regime of None \<Rightarrow> Fin 0 | Some x \<Rightarrow> x) (Fin 100)"

text \<open>The regimes are visited in the order of a Python set, which is not fixed: the parameter \<open>set_order\<close>.\<close>

definition compute_regime_stability ::
  "(string list \<Rightarrow> string list) \<Rightarrow> timing_record list \<Rightarrow> timing_record list \<Rightarrow> stability" where
  "compute_regime_stability set_order train_results test_results =
     (let train_dist = regime_distribution train_results; test_dist = regime_distribution test_results;
          all_regimes = set_order (map fst train_dist @ map fst test_dist);
          shifted_regimes = filter (\<lambda>k. flt (Fin 20) (fabs (fsub (percent_of train_dist k) (percent_of test_dist k)))) all_regimes
      in \<lparr>st_train_distribution = train_dist, st_test_distribution = test_dist, st_distribution_shift = (shifted_regimes \<noteq> []),
          st_shifted_regimes = shifted_regimes, st_regime_stats = regime_stats (train_results @ test_results)\<rparr>)"

section \<open>What the grid search can find\<close>

lemma res_map_values: "res_map f xs = Inr ys \<Longrightarrow> ys = map (\<lambda>x. projr (f x)) xs \<and> (\<forall>x \<in> set xs. \<exists>y. f x = Inr y)"
  by (induction xs arbitrary: ys) (auto simp: res_simps)

definition score_of :: "numpy_ops \<Rightarrow> exec_params option \<Rightarrow> bars_cache \<Rightarrow> touch_event list \<Rightarrow> timing_params \<Rightarrow> pyfloat" where
  "score_of ops exec cache events p = compute_calendar_sum (projr (run_dynamic_timing ops exec p cache events))"

definition with_score :: "numpy_ops \<Rightarrow> exec_params option \<Rightarrow> bars_cache \<Rightarrow> touch_event list \<Rightarrow> timing_params list \<Rightarrow> (timing_params \<times> pyfloat) list" where
  "with_score ops exec cache events ps = map (\<lambda>p. (p, score_of ops exec cache events p)) ps"

lemma with_score_append [simp]: "with_score ops exec cache events (ps @ qs) = with_score ops exec cache events ps @ with_score ops exec cache events qs"
  by (simp add: with_score_def)

lemma with_score_concat: "with_score ops exec cache events (concat pss) = concat (map (with_score ops exec cache events) pss)"
  by (induction pss) (simp_all add: with_score_def)

lemma scored_rows:
  assumes "res_map (grid_evaluate ops exec cache events) ps = Inr rows"
  shows "scored rows = with_score ops exec cache events ps"
proof -
  have "(\<lambda>r. (gr_params r, gr_calendar_sum r)) (projr (grid_evaluate ops exec cache events p)) = (p, score_of ops exec cache events p)"
    if p: "p \<in> set ps" for p
  proof -
    obtain y where "grid_evaluate ops exec cache events p = Inr y" using res_map_values [OF assms] p by blast
    then show ?thesis by (cases "run_dynamic_timing ops exec p cache events") (auto simp: grid_evaluate_def score_of_def)
  qed
  then show ?thesis using res_map_values [OF assms] by (simp add: scored_def with_score_def)
qed

lemma score_same:
  "same_live p q \<Longrightarrow> flow_off p \<Longrightarrow> flow_off q \<Longrightarrow> score_of ops exec cache events p = score_of ops exec cache events q"
  unfolding score_of_def using live_runs_agree by metis

text \<open>Lists of parameters that agree in all that matters have the same scores.\<close>

lemma scores_subset:
  assumes "list_all2 same_live ps qs" and "\<forall>p \<in> set ps. flow_off p" and "\<forall>q \<in> set qs. flow_off q"
  shows "snd ` set (with_score ops exec cache events ps) \<subseteq> snd ` set (with_score ops exec cache events qs)"
proof -
  have "map (score_of ops exec cache events) ps = map (score_of ops exec cache events) qs"
    using assms by (induction rule: list_all2_induct) (auto intro: score_same)
  then have "score_of ops exec cache events ` set ps = score_of ops exec cache events ` set qs" by (metis set_map)
  then show ?thesis by (simp add: with_score_def image_image)
qed

lemma half_value: "fl (1 / 2) = Fin (1 / 2)"
  by code_simp

lemma flow_off_defaults: "flow_off default_timing"
  by code_simp

lemma flow_off_update [simp]:
  "flow_off (p\<lparr>tp_max_steps := a\<rparr>) = flow_off p" "flow_off (p\<lparr>tp_strong_momentum_threshold := x\<rparr>) = flow_off p"
  "flow_off (p\<lparr>tp_extension_threshold := x\<rparr>) = flow_off p" "flow_off (p\<lparr>tp_moderate_momentum_threshold := x\<rparr>) = flow_off p"
  "flow_off (p\<lparr>tp_fading_threshold := x\<rparr>) = flow_off p" "flow_off (p\<lparr>tp_min_steps_for_skip := a\<rparr>) = flow_off p"
  "flow_off (p\<lparr>tp_pullback_target_atr := x\<rparr>) = flow_off p" "flow_off (p\<lparr>tp_decision_window_seconds := a\<rparr>) = flow_off p"
  by (simp_all add: flow_off_def)

lemma layer1_blocks:
  "layer1_candidates =
     concat (map (\<lambda>ms. layer1_block ms (fl (10 / 100)) @ concat (map (layer1_block ms) [fl (15 / 100), fl (20 / 100), fl (30 / 100)])) [2, 4, 6, 12])"
  by (simp only: layer1_candidates_def list.map concat.simps concat_append append_assoc append_Nil2 append_Nil append_Cons)

lemma layer1_flow: "p \<in> set (layer1_block ms strong) \<Longrightarrow> flow_off p \<and> tp_strong_momentum_threshold p = strong"
  using flow_off_defaults by (auto simp: layer1_block_def)

lemma layer1_same: "list_all2 same_live (layer1_block ms s) (layer1_block ms s')"
  by (simp add: layer1_block_def same_live_def)

text \<open>The best parameters of some rows: those of a row with the highest calendar sum, if one counts\<close>

lemma scored_snds: "snd ` set (scored rows) = gr_calendar_sum ` set rows"
  by (force simp: scored_def)

lemma best_row:
  assumes "\<exists>r \<in> set rows. flt NInf (gr_calendar_sum r)"
  shows "\<exists>r \<in> set rows. gr_params r = best_of NInf start (scored rows)
    \<and> (\<forall>r' \<in> set rows. \<not> flt (gr_calendar_sum r) (gr_calendar_sum r'))"
proof -
  have "\<exists>u \<in> snd ` set (scored rows). flt NInf u" using assms by (simp add: scored_snds)
  from grid.picks_best [OF this, of start] obtain ys p s zs where
    r: "scored rows = ys @ (p, s) # zs" "best_of NInf start (scored rows) = p"
      "\<forall>u \<in> snd ` set ys. \<not> fle s u" "\<forall>u \<in> snd ` set zs. \<not> flt s u"
    by blast
  have "(p, s) \<in> set (scored rows)" by (simp add: r(1))
  then obtain row where row: "row \<in> set rows" "gr_params row = p" "gr_calendar_sum row = s" by (auto simp: scored_def)
  have "\<not> flt s u" if u: "u \<in> snd ` set (scored rows)" for u
  proof -
    have "u \<in> snd ` set ys \<or> u = s \<or> u \<in> snd ` set zs" using u by (auto simp: r(1))
    then show ?thesis using r(3,4) by (auto simp: flt_def)
  qed
  then show ?thesis using row r(2) scored_snds by auto
qed

lemma layer1_best:
  assumes "run_grid_search_layer1 ops exec cache events = Inr (best, rows)"
  shows "if \<exists>r \<in> set rows. flt NInf (gr_calendar_sum r)
    then tp_strong_momentum_threshold best = fl (10 / 100) else best = default_timing"
proof -
  let ?W = "with_score ops exec cache events"
  let ?F = "\<lambda>ms strong. ?W (layer1_block ms strong)"
  have rows: "res_map (grid_evaluate ops exec cache events) layer1_candidates = Inr rows"
    and best: "best = best_of NInf default_timing (scored rows)"
    using assms by (auto simp: run_grid_search_layer1_def res_simps)
  have blocks: "scored rows = concat (map (\<lambda>ms. ?F ms (fl (10 / 100))
      @ concat (map (?F ms) [fl (15 / 100), fl (20 / 100), fl (30 / 100)])) [2, 4, 6, 12])"
    unfolding scored_rows [OF rows] layer1_blocks with_score_concat map_map comp_def with_score_append by simp
  have "if \<exists>u \<in> snd ` set (scored rows). flt NInf u
      then best \<in> fst ` set (concat (map (\<lambda>ms. ?F ms (fl (10 / 100))) [2, 4, 6, 12])) else best = default_timing"
    unfolding best
    using scores_subset [OF layer1_same] layer1_flow
    by (intro grid.repeated_axis_pick [OF _ blocks] ballI) blast
  then show ?thesis using layer1_flow unfolding scored_snds by (auto simp: with_score_def split: if_splits)
qed

lemma layer2_blocks:
  "layer2_candidates best =
     layer2_block best (fl (55 / 100)) (fl (45 / 100)) (fl (1 / 100)) 2
     @ concat (tl [layer2_block best sf weak fad mss.
        sf \<leftarrow> [fl (55 / 100), fl (58 / 100), fl (60 / 100), fl (65 / 100)], weak \<leftarrow> [fl (45 / 100), fl (48 / 100), fl (50 / 100)],
        fad \<leftarrow> [fl (1 / 100), fl (2 / 100), fl (3 / 100)], mss \<leftarrow> [2, 3, 4]])"
  unfolding layer2_candidates_def by (simp only: list.map concat.simps append_Cons append_Nil list.sel)

lemma flow_thresholds:
  "sf \<in> {fl (55 / 100), fl (58 / 100), fl (60 / 100), fl (65 / 100)} \<Longrightarrow> flt (fl (1 / 2)) sf"
  "weak \<in> {fl (45 / 100), fl (48 / 100), fl (50 / 100)} \<Longrightarrow> fle weak (fl (1 / 2))"
proof -
  have "flt (fl (1 / 2)) (fl (55 / 100))" "flt (fl (1 / 2)) (fl (58 / 100))" "flt (fl (1 / 2)) (fl (60 / 100))" "flt (fl (1 / 2)) (fl (65 / 100))"
    by code_simp+
  then show "sf \<in> {fl (55 / 100), fl (58 / 100), fl (60 / 100), fl (65 / 100)} \<Longrightarrow> flt (fl (1 / 2)) sf" by blast
  have "fle (fl (45 / 100)) (fl (1 / 2))" "fle (fl (48 / 100)) (fl (1 / 2))" "fle (fl (50 / 100)) (fl (1 / 2))"
    by code_simp+
  then show "weak \<in> {fl (45 / 100), fl (48 / 100), fl (50 / 100)} \<Longrightarrow> fle weak (fl (1 / 2))" by blast
qed

lemma layer2_flow:
  assumes "p \<in> set (layer2_block best sf weak fad mss)"
  shows "tp_strong_flow_threshold p = sf" "tp_weak_flow_threshold p = weak" "tp_fading_threshold p = fad" "tp_min_steps_for_skip p = mss"
    "tp_strong_momentum_threshold p = tp_strong_momentum_threshold best"
  using assms by (auto simp: layer2_block_def)

lemma layer2_same: "list_all2 same_live (layer2_block best sf weak fad mss) (layer2_block best sf' weak' fad' mss')"
  by (simp add: layer2_block_def same_live_def)

lemma axis_block:
  "b \<in> set (tl [g sf weak fad mss. sf \<leftarrow> S, weak \<leftarrow> W, fad \<leftarrow> F, mss \<leftarrow> M]) \<Longrightarrow>
     \<exists>sf \<in> set S. \<exists>weak \<in> set W. \<exists>fad mss. b = g sf weak fad mss"
proof -
  have "set (tl xs) \<subseteq> set xs" for xs :: "'a list" by (cases xs) auto
  then show "b \<in> set (tl [g sf weak fad mss. sf \<leftarrow> S, weak \<leftarrow> W, fad \<leftarrow> F, mss \<leftarrow> M]) \<Longrightarrow> ?thesis" by fastforce
qed

lemma layer2_best:
  assumes "run_grid_search_layer2 ops exec cache start events = Inr (best, rows)"
  shows "tp_strong_momentum_threshold best = tp_strong_momentum_threshold start
    \<and> (if \<exists>r \<in> set rows. flt NInf (gr_calendar_sum r)
       then tp_strong_flow_threshold best = fl (55 / 100) \<and> tp_weak_flow_threshold best = fl (45 / 100)
         \<and> tp_fading_threshold best = fl (1 / 100) \<and> tp_min_steps_for_skip best = 2
       else best = start)"
proof -
  let ?W = "with_score ops exec cache events"
  let ?first = "layer2_block start (fl (55 / 100)) (fl (45 / 100)) (fl (1 / 100)) 2"
  define others where "others = tl [layer2_block start sf weak fad mss.
        sf \<leftarrow> [fl (55 / 100), fl (58 / 100), fl (60 / 100), fl (65 / 100)], weak \<leftarrow> [fl (45 / 100), fl (48 / 100), fl (50 / 100)],
        fad \<leftarrow> [fl (1 / 100), fl (2 / 100), fl (3 / 100)], mss \<leftarrow> [2, 3, 4 :: int]]"
  have block: "\<exists>sf weak fad mss. b = layer2_block start sf weak fad mss
      \<and> sf \<in> {fl (55 / 100), fl (58 / 100), fl (60 / 100), fl (65 / 100)} \<and> weak \<in> {fl (45 / 100), fl (48 / 100), fl (50 / 100)}"
    if b: "b \<in> set others" for b
    using axis_block [OF b [unfolded others_def]] by auto
  have off: "flow_off p" if "p \<in> set b" "b = layer2_block start sf weak fad mss" "sf \<in> {fl (55 / 100), fl (58 / 100), fl (60 / 100), fl (65 / 100)}"
      "weak \<in> {fl (45 / 100), fl (48 / 100), fl (50 / 100)}" for p b sf weak fad mss
    using layer2_flow(1,2) that flow_thresholds unfolding flow_off_def by metis
  have rows: "res_map (grid_evaluate ops exec cache events) (layer2_candidates start) = Inr rows"
    and best: "best = best_of NInf start (scored rows)"
    using assms by (auto simp: run_grid_search_layer2_def res_simps)
  have blocks: "scored rows = ?W ?first @ concat (map ?W others)"
    unfolding scored_rows [OF rows] layer2_blocks others_def with_score_append with_score_concat by simp
  have "\<forall>ys \<in> set (map ?W others). snd ` set ys \<subseteq> snd ` set (?W ?first)"
  proof
    fix ys
    assume "ys \<in> set (map ?W others)"
    then obtain b where b: "b \<in> set others" "ys = ?W b" by auto
    obtain sf weak fad mss where "b = layer2_block start sf weak fad mss" "sf \<in> {fl (55 / 100), fl (58 / 100), fl (60 / 100), fl (65 / 100)}"
        "weak \<in> {fl (45 / 100), fl (48 / 100), fl (50 / 100)}"
      using block [OF b(1)] by blast
    then show "snd ` set ys \<subseteq> snd ` set (?W ?first)"
      unfolding b(2) using scores_subset [OF layer2_same] off by blast
  qed
  from grid.repeated_blocks_pick [OF this blocks, of NInf start] show ?thesis
    using layer2_flow unfolding scored_snds best [symmetric] by (auto simp: with_score_def split: if_splits)
qed

text \<open>
  C15. The search over 128 and then 972 combinations cannot tell the values of five of its axes apart: whatever the
  events and bars, the first value in the list wins. Suppose both layers run without an error. If some row of
  the first layer has a calendar sum above minus infinity, its best parameters are those of a row that no row beats, and
  their strong momentum threshold is 0.10, the first of its list; if no row has, they are the default parameters. The
  second layer keeps that threshold. If some row of the second layer has a calendar sum above minus infinity, its best
  parameters are again those of an unbeaten row, and their flow, fading and skip thresholds are 0.55, 0.45, 0.01 and 2, the first of
  their lists; if no row has, the parameters of the first layer are returned.
\<close>

theorem grid_search_blind:
  assumes "run_grid_search_layer1 ops exec cache events = Inr (best1, rows1)"
    and "run_grid_search_layer2 ops exec cache best1 events = Inr (best2, rows2)"
  shows "(if \<exists>r \<in> set rows1. flt NInf (gr_calendar_sum r)
       then tp_strong_momentum_threshold best1 = fl (10 / 100)
         \<and> (\<exists>r \<in> set rows1. gr_params r = best1 \<and> (\<forall>r' \<in> set rows1. \<not> flt (gr_calendar_sum r) (gr_calendar_sum r')))
       else best1 = default_timing)
    \<and> tp_strong_momentum_threshold best2 = tp_strong_momentum_threshold best1
    \<and> (if \<exists>r \<in> set rows2. flt NInf (gr_calendar_sum r)
       then tp_strong_flow_threshold best2 = fl (55 / 100) \<and> tp_weak_flow_threshold best2 = fl (45 / 100)
         \<and> tp_fading_threshold best2 = fl (1 / 100) \<and> tp_min_steps_for_skip best2 = 2
         \<and> (\<exists>r \<in> set rows2. gr_params r = best2 \<and> (\<forall>r' \<in> set rows2. \<not> flt (gr_calendar_sum r) (gr_calendar_sum r')))
       else best2 = best1)"
proof -
  have both: "(if A then B else D) \<Longrightarrow> (A \<Longrightarrow> C) \<Longrightarrow> (if A then B \<and> C else D)" for A B C D :: bool by simp
  have best: "best1 = best_of NInf default_timing (scored rows1)" "best2 = best_of NInf best1 (scored rows2)"
    using assms by (auto simp: run_grid_search_layer1_def run_grid_search_layer2_def res_simps)
  note first = both [OF layer1_best [OF assms(1)] best_row [of rows1 default_timing, folded best(1)]]
  note second = both [OF conjunct2 [OF layer2_best [OF assms(2)]] best_row [of rows2 best1, folded best(2)]]
  show ?thesis
    by (intro conjI first second [unfolded conj_assoc] conjunct1 [OF layer2_best [OF assms(2)]])
qed

text \<open>
  The first layer evaluates all 128 combinations and returns one of the best: no row has a higher calendar sum than its row.
  If no calendar sum is a number above minus infinity the default parameters are returned.
\<close>

theorem grid_search_maximal:
  assumes "run_grid_search_layer1 ops exec cache events = Inr (best, rows)"
  shows "map gr_params rows = layer1_candidates \<and> length rows = 128
    \<and> (if \<exists>r \<in> set rows. flt NInf (gr_calendar_sum r)
       then \<exists>r \<in> set rows. gr_params r = best \<and> (\<forall>r' \<in> set rows. \<not> flt (gr_calendar_sum r) (gr_calendar_sum r'))
       else best = default_timing)"
proof -
  have rows: "res_map (grid_evaluate ops exec cache events) layer1_candidates = Inr rows"
    and best: "best = best_of NInf default_timing (scored rows)"
    using assms by (auto simp: run_grid_search_layer1_def res_simps)
  have "map gr_params rows = map fst (scored rows)" by (simp add: scored_def)
  also have "\<dots> = layer1_candidates" unfolding scored_rows [OF rows] by (simp add: with_score_def comp_def)
  finally have params: "map gr_params rows = layer1_candidates" .
  have "length layer1_candidates = 128" by (simp add: layer1_candidates_def layer1_block_def)
  then have len: "length rows = 128" using res_map_length [OF rows] by simp
  have "best = default_timing" if "\<not> (\<exists>r \<in> set rows. flt NInf (gr_calendar_sum r))"
    using grid.none_better [of "scored rows" NInf default_timing "[]"] that by (auto simp: best scored_snds)
  then show ?thesis using best_row [of rows default_timing] params len by (simp add: best)
qed

section \<open>Sensitivity of the dead axes\<close>

lemma constant_scores: "\<forall>x \<in> set xs. x = c \<Longrightarrow> \<not> high_sensitivity xs"
proof -
  assume xs: "\<forall>x \<in> set xs. x = c"
  show ?thesis
  proof (cases "filter (\<lambda>x. x \<noteq> NaN) xs")
    case Nil
    then show ?thesis by (simp add: high_sensitivity_def col_max_def col_min_def fsub_def flt_def)
  next
    case (Cons y ys)
    then have "set (y # ys) \<subseteq> set xs" by (metis filter_is_subset)
    then have y: "y = c" and ys: "\<forall>x \<in> set ys. x = c" using xs by auto
    have "foldl py_max c ys = c" using ys by (induction ys) (auto simp: py_max_def flt_def)
    moreover have "py_min c ys = c" using ys by (induction ys) (auto simp: flt_def)
    ultimately have "col_max xs = c" "col_min xs = c" using Cons y by (simp_all add: col_max_def col_min_def)
    moreover have "\<not> flt (Fin 3) (fsub c c)" by (cases c) (simp_all add: fsub_def flt_def)
    ultimately show ?thesis by (simp add: high_sensitivity_def)
  qed
qed

definition dead_axes :: "string list" where
  "dead_axes = [''strong_momentum_threshold'', ''strong_flow_threshold'', ''weak_flow_threshold'', ''fading_threshold'', ''min_steps_for_skip'']"

lemma dead_axis_cases:
  assumes "(name, ps) \<in> set (sensitivity_axes p)" and "name \<in> set dead_axes"
  shows "(\<exists>vs. ps = map (\<lambda>v. p\<lparr>tp_strong_momentum_threshold := v\<rparr>) vs)
    \<or> ps = map (\<lambda>v. p\<lparr>tp_strong_flow_threshold := v\<rparr>) [fl (55 / 100), fl (58 / 100), fl (60 / 100), fl (65 / 100)]
    \<or> ps = map (\<lambda>v. p\<lparr>tp_weak_flow_threshold := v\<rparr>) [fl (45 / 100), fl (48 / 100), fl (50 / 100)]
    \<or> (\<exists>vs. ps = map (\<lambda>v. p\<lparr>tp_fading_threshold := v\<rparr>) vs) \<or> (\<exists>vs. ps = map (\<lambda>v. p\<lparr>tp_min_steps_for_skip := v\<rparr>) vs)"
proof -
  have "name = ''strong_momentum_threshold'' \<or> name = ''strong_flow_threshold'' \<or> name = ''weak_flow_threshold''
      \<or> name = ''fading_threshold'' \<or> name = ''min_steps_for_skip''"
    using assms(2) by (simp add: dead_axes_def)
  moreover have "ps = the (map_of (sensitivity_axes p) name)"
    using assms(1) map_of_is_SomeI [of "sensitivity_axes p" name ps] by (simp add: sensitivity_axes_def)
  ultimately show ?thesis
    by (elim disjE) (simp_all only: sensitivity_axes_def map_of.simps fun_upd_apply fst_conv snd_conv list.inject char.inject
        list.distinct if_True if_False option.sel simp_thms, blast+)
qed

lemma dead_variants:
  assumes "(name, ps) \<in> set (sensitivity_axes p)" and "name \<in> set dead_axes" and "flow_off p" and "q \<in> set ps"
  shows "same_live q p \<and> flow_off q"
  using dead_axis_cases [OF assms(1,2)]
proof (elim disjE exE)
  assume "ps = map (\<lambda>v. p\<lparr>tp_strong_flow_threshold := v\<rparr>) [fl (55 / 100), fl (58 / 100), fl (60 / 100), fl (65 / 100)]"
  then obtain v where "v \<in> {fl (55 / 100), fl (58 / 100), fl (60 / 100), fl (65 / 100)}" "q = p\<lparr>tp_strong_flow_threshold := v\<rparr>"
    using assms(4) by auto
  then show ?thesis using flow_thresholds(1) assms(3) by (simp add: flow_off_def same_live_def)
next
  assume "ps = map (\<lambda>v. p\<lparr>tp_weak_flow_threshold := v\<rparr>) [fl (45 / 100), fl (48 / 100), fl (50 / 100)]"
  then obtain v where "v \<in> {fl (45 / 100), fl (48 / 100), fl (50 / 100)}" "q = p\<lparr>tp_weak_flow_threshold := v\<rparr>"
    using assms(4) by auto
  then show ?thesis using flow_thresholds(2) assms(3) by (simp add: flow_off_def same_live_def)
qed (use assms(3,4) in \<open>auto simp: same_live_def\<close>)

text \<open>
  The sensitivity analysis never reports one of the five axes without effect, whatever the events and bars.
\<close>

theorem dead_axes_insensitive:
  assumes "run_sensitivity_analysis ops exec cache p events = Inr (sensitivities, high)" and "flow_off p"
  shows "set high \<inter> set dead_axes = {}"
proof -
  let ?f = "\<lambda>(name, ps). res_bind (res_map (calendar_sum_of ops exec cache events) ps) (\<lambda>scores. Inr (name, scores))"
  have sens: "res_map ?f (sensitivity_axes p) = Inr sensitivities"
    and high: "high = map fst (filter (\<lambda>(name, scores). high_sensitivity scores) sensitivities)"
    using assms(1) by (auto simp: run_sensitivity_analysis_def res_simps)
  have "\<not> high_sensitivity scores" if s: "(name, scores) \<in> set sensitivities" and n: "name \<in> set dead_axes" for name scores
  proof -
    obtain i where i: "i < length sensitivities" "sensitivities ! i = (name, scores)" using s by (metis in_set_conv_nth)
    obtain ps where ps: "sensitivity_axes p ! i = (name, ps)" "res_map (calendar_sum_of ops exec cache events) ps = Inr scores"
      using res_map_nth [OF sens, of i] res_map_length [OF sens] i by (auto simp: res_simps split: prod.splits)
    have "(name, ps) \<in> set (sensitivity_axes p)" using ps(1) i(1) res_map_length [OF sens] by (metis nth_mem)
    note dead = dead_variants [OF this n assms(2)]
    have "calendar_sum_of ops exec cache events q = calendar_sum_of ops exec cache events p" if "q \<in> set ps" for q
      unfolding calendar_sum_of_def using live_runs_agree [OF conjunct1 [OF dead [OF that]] conjunct2 [OF dead [OF that]] assms(2)] by simp
    then have "\<forall>x \<in> set scores. x = projr (calendar_sum_of ops exec cache events p)" using res_map_values [OF ps(2)] by auto
    then show ?thesis by (rule constant_scores)
  qed
  then show ?thesis unfolding high by force
qed

section \<open>Splitting and matching\<close>

text \<open>
  Given a sort by touch time, the split loses and repeats no event, and no training event is later than a test event.
\<close>

theorem split_respects_time:
  assumes "time_split_events sort_values train_ratio events = Inr (train, test)"
    and "mset (sort_values events) = mset events" and "sorted (map te_touch_time (sort_values events))"
  shows "mset train + mset test = mset events \<and> (\<forall>a \<in> set train. \<forall>b \<in> set test. te_touch_time a \<le> te_touch_time b)"
proof -
  obtain i where i: "train = take i (sort_values events)" "test = drop i (sort_values events)"
    using assms(1) by (auto simp: time_split_events_def Let_def res_simps)
  have "sort_values events = train @ test" by (simp add: i)
  then show ?thesis using assms(2,3) by (auto simp: sorted_append simp flip: mset_append)
qed

lemma nearest_spec:
  "nearest touch best es \<in> set (best # es) \<and> (\<forall>e \<in> set (best # es). \<bar>te_touch_time (nearest touch best es) - touch\<bar> \<le> \<bar>te_touch_time e - touch\<bar>)"
proof (induction es arbitrary: best)
  case (Cons e es)
  let ?b = "if \<bar>te_touch_time e - touch\<bar> < \<bar>te_touch_time best - touch\<bar> then e else best"
  have "\<bar>te_touch_time ?b - touch\<bar> \<le> \<bar>te_touch_time e - touch\<bar>" "\<bar>te_touch_time ?b - touch\<bar> \<le> \<bar>te_touch_time best - touch\<bar>" by auto
  then show ?case using Cons [of ?b] by (auto intro: order_trans)
qed simp

lemma set_drop_duplicates: "set (drop_duplicate_ids es) \<subseteq> set es"
  by (induction es rule: drop_duplicate_ids.induct) auto

lemma distinct_ids: "distinct (map te_event_id (drop_duplicate_ids es))"
proof (induction es rule: drop_duplicate_ids.induct)
  case (2 e es)
  then show ?case using set_drop_duplicates [of "filter (\<lambda>x. te_event_id x \<noteq> te_event_id e) es"] by auto
qed simp

text \<open>
  Every matched event occurs once, and it is an event of the same symbol and side within two seconds of a gate entry to which
  no other such event is nearer.
\<close>

theorem matched_events_nearest:
  "distinct (map te_event_id (match_events gate_entries all_events))
   \<and> set (match_events gate_entries all_events) \<subseteq>
     {e \<in> set all_events. \<exists>g \<in> set gate_entries. te_symbol e = ge_symbol g \<and> te_side e = ge_side g
        \<and> \<bar>te_touch_time e - ge_touch_time g\<bar> \<le> seconds 2
        \<and> {e' \<in> set all_events. te_symbol e' = ge_symbol g \<and> te_side e' = ge_side g
             \<and> \<bar>te_touch_time e' - ge_touch_time g\<bar> < \<bar>te_touch_time e - ge_touch_time g\<bar>} = {}}"
proof -
  have one: "e \<in> set all_events \<and> te_symbol e = ge_symbol g \<and> te_side e = ge_side g \<and> \<bar>te_touch_time e - ge_touch_time g\<bar> \<le> seconds 2
      \<and> {e' \<in> set all_events. te_symbol e' = ge_symbol g \<and> te_side e' = ge_side g
           \<and> \<bar>te_touch_time e' - ge_touch_time g\<bar> < \<bar>te_touch_time e - ge_touch_time g\<bar>} = {}"
    if m: "match_entry all_events g = Some e" for g e
  proof -
    let ?P = "\<lambda>e. te_symbol e = ge_symbol g \<and> te_side e = ge_side g \<and> \<bar>te_touch_time e - ge_touch_time g\<bar> \<le> seconds 2"
    obtain c cs where c: "filter ?P all_events = c # cs" "e = nearest (ge_touch_time g) c cs"
      using m by (auto simp: match_entry_def split: list.splits)
    then have "set (c # cs) = {e \<in> set all_events. ?P e}" by (metis set_filter)
    then show ?thesis using nearest_spec [of "ge_touch_time g" c cs] c(2) by force
  qed
  have "set (List.map_filter (match_entry all_events) gate_entries) = {e. \<exists>g \<in> set gate_entries. match_entry all_events g = Some e}"
    by (force simp: map_filter_def)
  then show ?thesis using one distinct_ids set_drop_duplicates unfolding match_events_def by blast
qed

section \<open>Runs\<close>

text \<open>Without bars every event is skipped, and every combination scores zero.\<close>

definition no_cache :: bars_cache where
  "no_cache key = None"

lemma no_cache_run:
  "run_dynamic_timing ops exec p no_cache [demo_touch] = Inr [record_of demo_touch ''skip'' ''NoData'' [] (None, None, None)]"
  by (simp add: run_dynamic_timing_def time_event_def event_bars_def no_cache_def)

lemma no_cache_row:
  "grid_evaluate ops exec no_cache [demo_touch] p = Inr \<lparr>gr_params = p, gr_calendar_sum = Fin 0, gr_trade_count = 0, gr_skip_count = 1\<rparr>"
  by (simp add: grid_evaluate_def no_cache_run compute_calendar_sum_def silos_of_def record_of_def map_filter_simps)

lemma no_cache_search:
  obtains best1 rows1 best2 rows2 where "run_grid_search_layer1 ref_numpy None no_cache [demo_touch] = Inr (best1, rows1)"
    and "run_grid_search_layer2 ref_numpy None no_cache best1 [demo_touch] = Inr (best2, rows2)"
    and "\<forall>r \<in> set rows1. gr_calendar_sum r = Fin 0"
  by (simp add: run_grid_search_layer1_def run_grid_search_layer2_def no_cache_row res_map_total)

text \<open>
  With bars: the price has run away from the level, so that every combination of both layers waits for a pull-back
  at the first step, and gets it two seconds later.
\<close>

definition demo_trade_entry :: "exec_trade option res" where
  "demo_trade_entry = default_trade ref_numpy demo_exec (demo_seconds 980) demo_touch (seconds 12) True (Fin 1008)"

definition demo_waited :: "exec_trade option \<Rightarrow> timing_record" where
  "demo_waited trade =
     record_of demo_touch ''wait_pullback'' ''Over-Extended'' [(1, ''wait_pullback'', ''Over-Extended'')] (Some (seconds 12), Some (Fin 1008), trade)"

definition positive_sum :: "exec_trade option res \<Rightarrow> bool" where
  "positive_sum x = (case x of Inl e \<Rightarrow> False | Inr t \<Rightarrow> t \<noteq> None \<and> flt NInf (compute_calendar_sum [demo_waited t]))"

lemma demo_trade_counts: "positive_sum demo_trade_entry"
  by code_simp

definition waits :: "timing_params \<Rightarrow> bool" where
  "waits p \<longleftrightarrow> flow_off p \<and> 1 \<le> tp_max_steps p
     \<and> tp_extension_threshold p \<in> {fl (10 / 100), fl (15 / 100), fl (20 / 100), fl (30 / 100)}
     \<and> tp_pullback_target_atr p \<in> {fl (2 / 100), fl (5 / 100), fl (10 / 100)}
     \<and> tp_decision_window_seconds p \<in> {60, 120, 300}"

lemma demo_waits:
  assumes "waits p"
  shows "time_event ref_numpy demo_exec p (demo_cache 980) demo_touch
    = res_bind demo_trade_entry (\<lambda>trade. Inr (demo_waited trade))"
proof -
  have ext: "fle (tp_extension_threshold p) (Fin (3 / 2))"
  proof -
    have "fle (fl (10 / 100)) (Fin (3 / 2))" "fle (fl (15 / 100)) (Fin (3 / 2))" "fle (fl (20 / 100)) (Fin (3 / 2))"
      "fle (fl (30 / 100)) (Fin (3 / 2))" by code_simp+
    then show ?thesis using assms unfolding waits_def by (elim conjE insertE emptyE) (simp_all only:)
  qed
  have target: "fle (Fin 980) (fsub (Fin 1024) (fmul (tp_pullback_target_atr p) (Fin 16)))"
  proof -
    have "fle (Fin 980) (fsub (Fin 1024) (fmul (fl (2 / 100)) (Fin 16)))" "fle (Fin 980) (fsub (Fin 1024) (fmul (fl (5 / 100)) (Fin 16)))"
      "fle (Fin 980) (fsub (Fin 1024) (fmul (fl (10 / 100)) (Fin 16)))" by code_simp+
    then show ?thesis using assms unfolding waits_def by (elim conjE insertE emptyE) (simp_all only:)
  qed
  have small: "fle (Fin 0) (fl (2 / 100))" by code_simp
  have flow: "\<not> fle (tp_strong_flow_threshold p) (Fin (1 / 2))" "\<not> flt (Fin (1 / 2)) (tp_weak_flow_threshold p)"
  proof -
    have "flt (Fin (1 / 2)) (tp_strong_flow_threshold p)" "fle (tp_weak_flow_threshold p) (Fin (1 / 2))"
      using assms unfolding waits_def flow_off_def half_value by (simp_all only: simp_thms)
    then show "\<not> fle (tp_strong_flow_threshold p) (Fin (1 / 2))" "\<not> flt (Fin (1 / 2)) (tp_weak_flow_threshold p)"
      using flt_not_fle by blast+
  qed
  have decision: "classify (demo_features 1) p = decide (demo_features 1) WAIT_PULLBACK ''Over-Extended''"
    using ext small flow by (simp add: classify_def demo_features_def)
  have bars: "filter (\<lambda>b. seconds 10 < sb_time b \<and> sb_time b \<le> seconds 10 + seconds (tp_decision_window_seconds p)) (demo_seconds 980)
      = [demo_bar 12 980 1008]"
    using assms unfolding waits_def by (auto simp: demo_seconds_def demo_bar_def seconds_def)
  have fill: "pb_entry_time (wait_for_pullback ref_numpy (demo_seconds 980) (seconds 10) (Fin 1024) demo_touch p) = Some (seconds 12)
      \<and> pb_entry_price (wait_for_pullback ref_numpy (demo_seconds 980) (seconds 10) (Fin 1024) demo_touch p) = Some (Fin 1008)
      \<and> pb_triggered (wait_for_pullback ref_numpy (demo_seconds 980) (seconds 10) (Fin 1024) demo_touch p)"
    using target
    by (simp add: wait_for_pullback_def pullback_levels_def bars demo_touch_def)
       (simp add: at_target_def pullback_filled_def demo_bar_def Let_def)
  have steps: "[1..tp_max_steps p] = 1 # [2..tp_max_steps p]" using assms by (simp add: waits_def upto_rec1)
  have start: "te_touch_time demo_touch + seconds 5 = seconds 5" by (simp add: demo_touch_def)
  have entry: "entry_bar (demo_seconds 980) (seconds 5) = Inr (Some (seconds 10, Fin 1024))" by code_simp
  have enter: "enter_pullback ref_numpy demo_exec p (demo_seconds 980) demo_touch (seconds 5)
      = res_bind demo_trade_entry (\<lambda>trade. Inr (Some (seconds 12), Some (Fin 1008), trade))"
    using fill by (simp add: enter_pullback_def entry demo_trade_entry_def Let_def)
  have bars': "demo_seconds 980 \<noteq> []" by (simp add: demo_seconds_def)
  have chain: "res_bind (res_bind (res_bind m (\<lambda>x. Inr (f x))) (\<lambda>y. Inr (g y))) (\<lambda>z. Inr (h z)) = res_bind m (\<lambda>x. Inr (h (g (f x))))"
    for m :: "exec_trade option res" and f :: "exec_trade option \<Rightarrow> entry_result"
      and g :: "entry_result \<Rightarrow> string \<times> string \<times> (int \<times> string \<times> string) list \<times> entry_result" and h :: "_ \<Rightarrow> timing_record"
    by (cases m) simp_all
  have split_pair: "(\<lambda>(d, r, q, e). Inr (record_of demo_touch d r q e)) = (\<lambda>z. Inr (case z of (d, r, q, e) \<Rightarrow> record_of demo_touch d r q e))"
    by (auto simp: fun_eq_iff)
  show ?thesis
    unfolding time_event_def demo_bars steps Let_def
    by (simp add: bars' demo_steps(1) decision decide_def start enter split_pair chain) (simp add: demo_waited_def)
qed

lemma layer1_waits: "p \<in> set layer1_candidates \<Longrightarrow> waits p"
proof -
  assume "p \<in> set layer1_candidates"
  then have "flow_off p \<and> 1 \<le> tp_max_steps p
     \<and> tp_extension_threshold p \<in> {fl (10 / 100), fl (15 / 100), fl (20 / 100), fl (30 / 100)}
     \<and> tp_pullback_target_atr p = fl (5 / 100) \<and> tp_decision_window_seconds p = 60"
    using flow_off_defaults by (auto simp: layer1_candidates_def layer1_block_def default_timing_def [THEN arg_cong [of _ _ tp_pullback_target_atr]]
        default_timing_def [THEN arg_cong [of _ _ tp_decision_window_seconds]])
  then show ?thesis by (simp add: waits_def)
qed

lemma layer2_waits:
  assumes "waits start" and "p \<in> set (layer2_candidates start)"
  shows "waits p"
proof -
  obtain sf weak fad mss where b: "p \<in> set (layer2_block start sf weak fad mss)"
      "sf \<in> {fl (55 / 100), fl (58 / 100), fl (60 / 100), fl (65 / 100)}" "weak \<in> {fl (45 / 100), fl (48 / 100), fl (50 / 100)}"
    using assms(2) unfolding layer2_candidates_def by auto
  have "flow_off p" using layer2_flow(1,2) [OF b(1)] flow_thresholds b(2,3) unfolding flow_off_def by metis
  moreover have "tp_max_steps p = tp_max_steps start \<and> tp_extension_threshold p = tp_extension_threshold start
      \<and> tp_pullback_target_atr p \<in> {fl (2 / 100), fl (5 / 100), fl (10 / 100)} \<and> tp_decision_window_seconds p \<in> {60, 120, 300}"
    using b(1) by (auto simp: layer2_block_def)
  ultimately show ?thesis using assms(1) by (simp add: waits_def)
qed

lemma demo_search:
  obtains best1 rows1 best2 rows2 where
    "run_grid_search_layer1 ref_numpy (Some demo_exec) (demo_cache 980) [demo_touch] = Inr (best1, rows1)"
    "run_grid_search_layer2 ref_numpy (Some demo_exec) (demo_cache 980) best1 [demo_touch] = Inr (best2, rows2)"
    "\<exists>r \<in> set rows1. flt NInf (gr_calendar_sum r)" "\<exists>r \<in> set rows2. flt NInf (gr_calendar_sum r)"
    "\<forall>r \<in> set rows2. gr_trade_count r = 1"
proof -
  obtain t where t: "demo_trade_entry = Inr (Some t)" "flt NInf (compute_calendar_sum [demo_waited (Some t)])"
    using demo_trade_counts by (auto simp: positive_sum_def split: sum.splits)
  let ?row = "\<lambda>p. \<lparr>gr_params = p, gr_calendar_sum = compute_calendar_sum [demo_waited (Some t)], gr_trade_count = 1, gr_skip_count = 0\<rparr>"
  have row: "grid_evaluate ref_numpy (Some demo_exec) (demo_cache 980) [demo_touch] p = Inr (?row p)" if "waits p" for p
  proof -
    have "time_event ref_numpy (params_of (Some demo_exec)) p (demo_cache 980) demo_touch = Inr (demo_waited (Some t))"
      using demo_waits [OF that] by (simp only: t(1) res_bind_Inr params_of_def option.case)
    then have "run_dynamic_timing ref_numpy (Some demo_exec) p (demo_cache 980) [demo_touch] = Inr [demo_waited (Some t)]"
      by (simp add: run_dynamic_timing_def)
    moreover have "tm_trade (demo_waited (Some t)) = Some t" "tm_entry_decision (demo_waited (Some t)) \<noteq> ''skip''"
      by (simp_all add: demo_waited_def record_of_def)
    ultimately show ?thesis by (simp add: grid_evaluate_def)
  qed
  let ?best1 = "best_of NInf default_timing (scored (map ?row layer1_candidates))"
  have l1: "run_grid_search_layer1 ref_numpy (Some demo_exec) (demo_cache 980) [demo_touch] = Inr (?best1, map ?row layer1_candidates)"
    unfolding run_grid_search_layer1_def
    by (subst res_map_total [of layer1_candidates _ ?row]) (rule row, erule layer1_waits, simp only: res_bind_Inr)
  have ne: "\<exists>p. p \<in> set layer1_candidates" by (auto simp: layer1_candidates_def layer1_block_def)
  then have some1: "\<exists>r \<in> set (map ?row layer1_candidates). flt NInf (gr_calendar_sum r)" using t(2) by auto
  have "?best1 \<in> set layer1_candidates" using best_row [OF some1, of default_timing] by auto
  then have w: "waits ?best1" by (rule layer1_waits)
  let ?cs = "layer2_candidates ?best1"
  have l2: "run_grid_search_layer2 ref_numpy (Some demo_exec) (demo_cache 980) ?best1 [demo_touch]
      = Inr (best_of NInf ?best1 (scored (map ?row ?cs)), map ?row ?cs)"
    unfolding run_grid_search_layer2_def
    by (subst res_map_total [of ?cs _ ?row]) (rule row, erule layer2_waits [OF w], simp only: res_bind_Inr)
  have "\<exists>p. p \<in> set ?cs" by (auto simp: layer2_candidates_def layer2_block_def)
  then have some2: "\<exists>r \<in> set (map ?row ?cs). flt NInf (gr_calendar_sum r)" using t(2) by auto
  show thesis by (rule that [OF l1 l2 some1 some2]) simp
qed

theorem grid_search_blind_witness:
  "\<exists>best1 rows1 best2 rows2. run_grid_search_layer1 ref_numpy (Some demo_exec) (demo_cache 980) [demo_touch] = Inr (best1, rows1)
     \<and> run_grid_search_layer2 ref_numpy (Some demo_exec) (demo_cache 980) best1 [demo_touch] = Inr (best2, rows2)
     \<and> list_all (\<lambda>r. gr_trade_count r = 1) rows2
     \<and> tp_strong_momentum_threshold best2 = fl (10 / 100) \<and> tp_strong_flow_threshold best2 = fl (55 / 100)
     \<and> tp_min_steps_for_skip best2 = 2"
proof (rule demo_search)
  fix best1 rows1 best2 rows2
  assume r: "run_grid_search_layer1 ref_numpy (Some demo_exec) (demo_cache 980) [demo_touch] = Inr (best1, rows1)"
    "run_grid_search_layer2 ref_numpy (Some demo_exec) (demo_cache 980) best1 [demo_touch] = Inr (best2, rows2)"
    and some: "\<exists>r \<in> set rows1. flt NInf (gr_calendar_sum r)" "\<exists>r \<in> set rows2. flt NInf (gr_calendar_sum r)"
    and trades: "\<forall>r \<in> set rows2. gr_trade_count r = 1"
  have "tp_strong_momentum_threshold best2 = fl (10 / 100) \<and> tp_strong_flow_threshold best2 = fl (55 / 100)
     \<and> tp_min_steps_for_skip best2 = 2"
    using grid_search_blind [OF r] unfolding if_P [OF some(1)] if_P [OF some(2)] by simp
  then show ?thesis using r trades by (auto simp: list_all_iff)
qed

theorem grid_search_maximal_witness:
  "\<exists>best rows. run_grid_search_layer1 ref_numpy None no_cache [demo_touch] = Inr (best, rows) \<and> length rows = 128
     \<and> (\<exists>r \<in> set rows. gr_params r = best)"
proof -
  obtain best rows where r: "run_grid_search_layer1 ref_numpy None no_cache [demo_touch] = Inr (best, rows)"
      "\<forall>r \<in> set rows. gr_calendar_sum r = Fin 0"
    by (rule no_cache_search)
  have m: "length rows = 128" using grid_search_maximal [OF r(1)] by blast
  then have "hd rows \<in> set rows" by (cases rows) auto
  moreover have "flt NInf (Fin 0)" by (simp add: flt_def)
  ultimately have "\<exists>r \<in> set rows. flt NInf (gr_calendar_sum r)" using r(2) by metis
  then show ?thesis using grid_search_maximal [OF r(1)] r(1) m by auto
qed

theorem dead_axes_insensitive_witness:
  "\<exists>sensitivities high. run_sensitivity_analysis ref_numpy None no_cache default_timing [demo_touch] = Inr (sensitivities, high)
     \<and> ''fading_threshold'' \<in> set dead_axes \<and> ''fading_threshold'' \<notin> set high"
proof -
  obtain sensitivities high where r: "run_sensitivity_analysis ref_numpy None no_cache default_timing [demo_touch] = Inr (sensitivities, high)"
    by (simp add: run_sensitivity_analysis_def calendar_sum_of_def no_cache_run res_map_total split_def)
  have "''fading_threshold'' \<in> set dead_axes" by (simp add: dead_axes_def)
  then show ?thesis using r dead_axes_insensitive [OF r flow_off_defaults] by blast
qed

theorem split_respects_time_witness:
  "\<exists>train test. time_split_events (sort_key te_touch_time) (Fin (1 / 2)) [demo_touch\<lparr>te_touch_time := 5\<rparr>, demo_touch] = Inr (train, test)
     \<and> (\<forall>a \<in> set train. \<forall>b \<in> set test. te_touch_time a \<le> te_touch_time b)"
proof -
  have "split_index (Fin (1 / 2)) 2 = Inr 1" by code_simp
  then obtain train test where r: "time_split_events (sort_key te_touch_time) (Fin (1 / 2)) [demo_touch\<lparr>te_touch_time := 5\<rparr>, demo_touch] = Inr (train, test)"
    by (simp add: time_split_events_def Let_def numeral_2_eq_2 demo_touch_def)
  have "\<forall>a \<in> set train. \<forall>b \<in> set test. te_touch_time a \<le> te_touch_time b"
    using split_respects_time [OF r mset_sort sorted_sort_key] by (rule conjunct2)
  then show ?thesis using r by blast
qed

end
