(* ===== verification/DelaySim.thy ===== *)
theory DelaySim
  imports TimingSearch Substring
begin

text \<open>
  \<open>scripts/pre_breakout_timing/delay_simulator.py\<close>, \<open>pullback_strategy.py\<close>, the evaluation helpers of
  \<open>timing_classifier.py\<close>, and from \<open>scripts/path_c_unified/\<close> the run over all events and the resolution of predicted
  regimes. Each event is traded after several fixed delays and after a pull-back; the results are labelled,
  searched and summed up. A classifier of scikit-learn is a parameter: the label it predicts, from the
  features and labels it was trained on.
\<close>

section \<open>Delays\<close>

definition DELAY_VALUES :: "int list" where
  "DELAY_VALUES = [0, 5, 10, 15]"

definition delay_label_of :: "int \<Rightarrow> string" where
  "delay_label_of delay = ''D'' @ str_int delay"

record delay_result =
  dl_event_id :: string
  dl_delay_label :: string
  dl_delay_seconds :: int
  dl_entry_time :: "datetime option"
  dl_entry_price :: "pyfloat option"
  dl_pnl_pct :: "pyfloat option"
  dl_exit_reason :: "string option"
  dl_exit_time :: "datetime option"
  dl_hold_seconds :: "pyfloat option"
  dl_mfe_r :: "pyfloat option"
  dl_mae_r :: "pyfloat option"
  dl_traded :: bool

definition not_traded :: "string \<Rightarrow> string \<Rightarrow> int \<Rightarrow> datetime option \<Rightarrow> pyfloat option \<Rightarrow> string \<Rightarrow> delay_result" where
  "not_traded event_id label delay entry_time entry_price reason =
     \<lparr>dl_event_id = event_id, dl_delay_label = label, dl_delay_seconds = delay, dl_entry_time = entry_time, dl_entry_price = entry_price,
      dl_pnl_pct = None, dl_exit_reason = Some reason, dl_exit_time = None, dl_hold_seconds = None, dl_mfe_r = None, dl_mae_r = None,
      dl_traded = False\<rparr>"

definition was_traded :: "string \<Rightarrow> string \<Rightarrow> int \<Rightarrow> datetime \<Rightarrow> pyfloat \<Rightarrow> exec_trade \<Rightarrow> delay_result" where
  "was_traded event_id label delay entry_time entry_price trade =
     \<lparr>dl_event_id = event_id, dl_delay_label = label, dl_delay_seconds = delay, dl_entry_time = Some entry_time,
      dl_entry_price = Some entry_price, dl_pnl_pct = Some (xt_realistic_pnl_pct trade), dl_exit_reason = Some (xt_exit_reason trade),
      dl_exit_time = Some (xt_exit_time trade), dl_hold_seconds = Some (xt_hold_seconds trade), dl_mfe_r = Some (xt_mfe_r trade),
      dl_mae_r = Some (xt_mae_r trade), dl_traded = True\<rparr>"

definition event_id_of :: "touch_event \<Rightarrow> string" where
  "event_id_of event = (case te_event_id event of None \<Rightarrow> [] | Some i \<Rightarrow> i)"

definition traded_at ::
  "numpy_ops \<Rightarrow> second_bar list \<Rightarrow> touch_event \<Rightarrow> string \<Rightarrow> int \<Rightarrow> datetime \<Rightarrow> pyfloat \<Rightarrow> delay_result res" where
  "traded_at ops bars event label delay t price =
     res_bind (default_trade ops DEFAULT_EXEC_PARAMS bars event t False price) (\<lambda>trade. case trade of
         None \<Rightarrow> Inr (not_traded (event_id_of event) label delay (Some t) (Some price) ''MinStopFilter'')
       | Some tr \<Rightarrow> Inr (was_traded (event_id_of event) label delay t price tr))"

definition fixed_delay :: "numpy_ops \<Rightarrow> second_bar list \<Rightarrow> touch_event \<Rightarrow> int \<Rightarrow> delay_result res" where
  "fixed_delay ops bars event delay =
     res_bind (entry_bar bars (te_touch_time event + seconds delay)) (\<lambda>e. case e of
         None \<Rightarrow> Inr (not_traded (event_id_of event) (delay_label_of delay) delay None None ''NoData'')
       | Some (t, price) \<Rightarrow> traded_at ops bars event (delay_label_of delay) delay t price)"

definition target_reached :: "touch_event \<Rightarrow> pyfloat \<Rightarrow> second_bar \<Rightarrow> bool" where
  "target_reached event target_price bar =
     (if te_side event = ''long'' then fle (sb_low bar) target_price else fle target_price (sb_high bar))"

definition simulate_pullback_entry ::
  "touch_event \<Rightarrow> second_bar list \<Rightarrow> int \<Rightarrow> pyfloat \<Rightarrow> int \<Rightarrow> (datetime \<times> pyfloat \<times> bool) option" where
  "simulate_pullback_entry event second_bars start_offset_seconds pullback_target_atr pullback_window_seconds =
     (let monitor_start = te_touch_time event + seconds start_offset_seconds;
          monitor_end = monitor_start + seconds pullback_window_seconds;
          window_bars = bars_between monitor_start monitor_end second_bars
      in if window_bars = [] then None
         else let reference_price = sb_close (hd window_bars); pullback_amount = fmul pullback_target_atr (te_atr event);
                  target_price = (if te_side event = ''long'' then fsub reference_price pullback_amount else fadd reference_price pullback_amount)
              in case find (target_reached event target_price) window_bars of
                   Some bar \<Rightarrow> Some (sb_time bar, sb_close bar, True)
                 | None \<Rightarrow> Some (sb_time (last window_bars), sb_close (last window_bars), False))"

text \<open>\<open>int((a - b).total_seconds())\<close>\<close>

definition whole_seconds :: "int \<Rightarrow> int" where
  "whole_seconds us = (case total_seconds us of Fin x \<Rightarrow> if 0 \<le> x then \<lfloor>x\<rfloor> else \<lceil>x\<rceil> | _ \<Rightarrow> 0)"

record pullback_config =
  pc_pullback_target_atr :: pyfloat
  pc_pullback_window_seconds :: int
  pc_start_offset_seconds :: int

definition default_pullback :: pullback_config where
  "default_pullback = \<lparr>pc_pullback_target_atr = fl (5 / 100), pc_pullback_window_seconds = 60, pc_start_offset_seconds = 5\<rparr>"

definition pullback_delay :: "numpy_ops \<Rightarrow> second_bar list \<Rightarrow> touch_event \<Rightarrow> pullback_config \<Rightarrow> delay_result res" where
  "pullback_delay ops bars event c =
     (case simulate_pullback_entry event bars (pc_start_offset_seconds c) (pc_pullback_target_atr c) (pc_pullback_window_seconds c) of
        None \<Rightarrow> Inr (not_traded (event_id_of event) ''pullback'' 0 None None ''NoData'')
      | Some (t, price, triggered) \<Rightarrow> traded_at ops bars event ''pullback'' (whole_seconds (t - te_touch_time event)) t price)"

definition simulate_all_delays ::
  "numpy_ops \<Rightarrow> touch_event \<Rightarrow> second_bar list \<Rightarrow> pullback_config \<Rightarrow> delay_result list res" where
  "simulate_all_delays ops event second_bars c =
     res_bind (res_map (fixed_delay ops second_bars event) DELAY_VALUES) (\<lambda>fixed.
     res_bind (pullback_delay ops second_bars event c) (\<lambda>p. Inr (fixed @ [p])))"

section \<open>Labels\<close>

definition delay_order :: "string \<Rightarrow> nat" where
  "delay_order label =
     (if label = ''D0'' then 0 else if label = ''D5'' then 1 else if label = ''D10'' then 2 else if label = ''D15'' then 3
      else if label = ''pullback'' then 4 else 999)"

definition with_pnl :: "delay_result list \<Rightarrow> (delay_result \<times> pyfloat) list" where
  "with_pnl rs = List.map_filter (\<lambda>r. if dl_traded r then map_option (\<lambda>x. (r, x)) (dl_pnl_pct r) else None) rs"

definition optimal_label :: "pyfloat \<Rightarrow> delay_result list \<Rightarrow> string res" where
  "optimal_label tolerance_bps event_delays =
     (case with_pnl event_delays of
        [] \<Rightarrow> Inr ''skip''
      | (r, x) # rest \<Rightarrow>
          let best_pnl = foldl py_max x (map snd rest)
          in if flt best_pnl (Fin 0) then Inr ''skip''
             else case sort_key (\<lambda>(r, x). delay_order (dl_delay_label r))
                         (filter (\<lambda>(r, x). fle (fsub best_pnl (per_10000 tolerance_bps)) x) ((r, x) # rest)) of
                    [] \<Rightarrow> Inl IndexError
                  | (r, x) # _ \<Rightarrow> Inr (dl_delay_label r))"

definition compute_optimal_labels :: "delay_result list list \<Rightarrow> pyfloat \<Rightarrow> string list res" where
  "compute_optimal_labels delay_results tolerance_bps = res_map (optimal_label tolerance_bps) delay_results"

section \<open>Sums over months\<close>

definition infer_symbol_from_event_id :: "string \<Rightarrow> string" where
  "infer_symbol_from_event_id event_id =
     (let eid_upper = str_upper event_id
      in if contains ''BTC'' eid_upper then ''BTCUSDT'' else if contains ''ETH'' eid_upper then ''ETHUSDT'' else ''unknown'')"

text \<open>The entry time of a result with a trade; it is always set (\<open>traded_has_time\<close> below).\<close>

definition time_of :: "delay_result \<Rightarrow> datetime" where
  "time_of r = (case dl_entry_time r of Some t \<Rightarrow> t | None \<Rightarrow> 0)"

definition delay_calendar_sum :: "(string \<Rightarrow> string) \<Rightarrow> delay_result list \<Rightarrow> pyfloat" where
  "delay_calendar_sum symbol_of results =
     foldl (\<lambda>total (k, rs). fadd total (silo_return (\<lambda>_. fl (26 / 100)) snd (sort_key (\<lambda>(r, x). time_of r) rs))) (Fin 0)
       (silos_of (\<lambda>(r, x). symbol_of (dl_event_id r) @ ''_'' @ year_month_of (time_of r)) (with_pnl results))"

definition calendar_sum_from_delay_results :: "delay_result list \<Rightarrow> pyfloat" where
  "calendar_sum_from_delay_results results = delay_calendar_sum infer_symbol_from_event_id results"

definition event_symbol :: "touch_event list \<Rightarrow> string \<Rightarrow> string" where
  "event_symbol events event_id =
     (case map_of (rev (map (\<lambda>e. (event_id_of e, te_symbol e)) events)) event_id of None \<Rightarrow> ''unknown'' | Some s \<Rightarrow> s)"

definition calendar_sum_from_results :: "delay_result list \<Rightarrow> touch_event list \<Rightarrow> pyfloat" where
  "calendar_sum_from_results results events = delay_calendar_sum (event_symbol events) results"

section \<open>The search for pull-back parameters\<close>

definition pullback_event :: "numpy_ops \<Rightarrow> bars_cache \<Rightarrow> pullback_config \<Rightarrow> touch_event \<Rightarrow> delay_result res" where
  "pullback_event ops cache c event =
     (let second_bars = event_bars cache event
      in if second_bars = [] then Inr (not_traded (event_id_of event) ''pullback'' 0 None None ''NoData'')
         else pullback_delay ops second_bars event c)"

definition pullback_grid :: "pyfloat list \<Rightarrow> int list \<Rightarrow> pullback_config list" where
  "pullback_grid targets windows =
     [\<lparr>pc_pullback_target_atr = t, pc_pullback_window_seconds = w, pc_start_offset_seconds = 5\<rparr>. t \<leftarrow> targets, w \<leftarrow> windows]"

definition PULLBACK_GRID :: "pullback_config list" where
  "PULLBACK_GRID = pullback_grid [fl (3 / 100), fl (5 / 100), fl (8 / 100), fl (10 / 100)] [30, 60, 120]"

definition optimize_pullback_params ::
  "numpy_ops \<Rightarrow> bars_cache \<Rightarrow> pullback_config list \<Rightarrow> touch_event list \<Rightarrow> pullback_config res" where
  "optimize_pullback_params ops cache grid pullback_events =
     (if pullback_events = [] then Inr default_pullback
      else res_bind (res_map (\<lambda>c. res_bind (res_map (pullback_event ops cache c) pullback_events) (\<lambda>rs.
                       Inr (c, calendar_sum_from_delay_results rs))) grid) (\<lambda>scores.
             Inr (best_of NInf default_pullback scores)))"

section \<open>Predictions\<close>

text \<open>The inverse of \<open>LABEL_TO_REGIME\<close>\<close>

definition regime_to_delay_label :: "string \<Rightarrow> string option" where
  "regime_to_delay_label =
     map_of [(''immediate'', ''D0''), (''standard'', ''D5''), (''delayed'', ''D10''), (''extended'', ''D15''), (''pullback'', ''pullback'')]"

definition target_label_of :: "string \<Rightarrow> string" where
  "target_label_of predicted = (case regime_to_delay_label predicted of Some l \<Rightarrow> l | None \<Rightarrow> predicted)"

definition first_event_id :: "delay_result list \<Rightarrow> string" where
  "first_event_id rs = (case rs of [] \<Rightarrow> ''unknown'' | r # _ \<Rightarrow> dl_event_id r)"

definition find_delay_result :: "delay_result list \<Rightarrow> string \<Rightarrow> delay_result" where
  "find_delay_result event_delay_results predicted =
     (case find (\<lambda>r. dl_delay_label r = target_label_of predicted) event_delay_results of
        Some r \<Rightarrow> r
      | None \<Rightarrow> not_traded (first_event_id event_delay_results) (target_label_of predicted) 0 None None ''NoMatch'')"

text \<open>A list access of Python with an index that is not negative\<close>

definition at_index :: "'a list \<Rightarrow> nat \<Rightarrow> 'a res" where
  "at_index xs i = (if i < length xs then Inr (xs ! i) else Inl IndexError)"

definition collect_results_from_predictions :: "string list \<Rightarrow> delay_result list list \<Rightarrow> delay_result list res" where
  "collect_results_from_predictions predictions delay_results =
     res_map (\<lambda>(i, l). res_bind (at_index delay_results i) (\<lambda>rs. Inr (find_delay_result rs l))) (enumerate 0 predictions)"

section \<open>Leave-one-out validation\<close>

text \<open>The rows without row \<open>i\<close>; the mask has to have as many entries as there are rows.\<close>

definition leave_out :: "nat \<Rightarrow> nat \<Rightarrow> 'a list \<Rightarrow> 'a list res" where
  "leave_out n i xs = (if length xs = n then Inr (take i xs @ drop (Suc i) xs) else Inl IndexError)"

text \<open>The predictions; \<open>pick\<close> turns row and predicted label into a result.\<close>

definition loocv_results ::
  "('f list \<Rightarrow> string list \<Rightarrow> 'f \<Rightarrow> string res) \<Rightarrow> (nat \<Rightarrow> string \<Rightarrow> delay_result res) \<Rightarrow> 'f list \<Rightarrow> string list \<Rightarrow> delay_result list res" where
  "loocv_results fit_predict pick X y =
     res_map (\<lambda>i. res_bind (leave_out (length X) i X) (\<lambda>X_train.
                  res_bind (leave_out (length X) i y) (\<lambda>y_train.
                  res_bind (fit_predict X_train y_train (X ! i)) (pick i)))) [0..<length X]"

definition loocv_calendar_sum_inline ::
  "('f list \<Rightarrow> string list \<Rightarrow> 'f \<Rightarrow> string res) \<Rightarrow> 'f list \<Rightarrow> string list \<Rightarrow> delay_result list list \<Rightarrow> pyfloat res" where
  "loocv_calendar_sum_inline fit_predict X y delay_results =
     res_bind (loocv_results fit_predict (\<lambda>i l. res_bind (at_index delay_results i) (\<lambda>rs. Inr (find_delay_result rs l))) X y)
       (\<lambda>rs. Inr (calendar_sum_from_delay_results rs))"

definition loocv_match :: "touch_event list \<Rightarrow> delay_result list list \<Rightarrow> nat \<Rightarrow> string \<Rightarrow> delay_result res" where
  "loocv_match events delay_results i predicted =
     res_bind (at_index delay_results i) (\<lambda>rs.
       case find (\<lambda>r. dl_delay_label r = target_label_of predicted) rs of
         Some r \<Rightarrow> Inr r
       | None \<Rightarrow> res_bind (at_index events i) (\<lambda>e.
           Inr (not_traded (case te_event_id e of Some x \<Rightarrow> x | None \<Rightarrow> ''event_'' @ str_int (int i)) (target_label_of predicted) 0 None None ''NoMatch'')))"

definition loocv_calendar_sum ::
  "('f list \<Rightarrow> string list \<Rightarrow> 'f \<Rightarrow> string res) \<Rightarrow> 'f list \<Rightarrow> string list \<Rightarrow> delay_result list list \<Rightarrow> touch_event list \<Rightarrow> pyfloat res" where
  "loocv_calendar_sum fit_predict X y delay_results events =
     res_bind (loocv_results fit_predict (loocv_match events delay_results) X y) (\<lambda>rs. Inr (calendar_sum_from_results rs events))"

section \<open>Three regimes\<close>

definition FAST_DELAYS :: "string list" where
  "FAST_DELAYS = [''D0'', ''D5'']"

definition SLOW_DELAYS :: "string list" where
  "SLOW_DELAYS = [''D10'', ''D15'', ''pullback'']"

definition pnl_or_minus_inf :: "delay_result \<Rightarrow> pyfloat" where
  "pnl_or_minus_inf r = (if dl_traded r then (case dl_pnl_pct r of Some x \<Rightarrow> x | None \<Rightarrow> NInf) else NInf)"

definition best_of_group :: "string list \<Rightarrow> delay_result list \<Rightarrow> delay_result option" where
  "best_of_group targets event_delays =
     best_of NInf None (map (\<lambda>r. (Some r, pnl_or_minus_inf r)) (filter (\<lambda>r. dl_delay_label r \<in> set targets) event_delays))"

definition resolve_single_3regime_prediction :: "string \<Rightarrow> delay_result list \<Rightarrow> delay_result" where
  "resolve_single_3regime_prediction pred_label event_delays =
     (let no_match = not_traded (first_event_id event_delays) pred_label 0 None None ''NoMatch'';
          best = (\<lambda>targets. case best_of_group targets event_delays of Some r \<Rightarrow> r | None \<Rightarrow> no_match)
      in if pred_label = ''skip'' then not_traded (first_event_id event_delays) ''skip'' 0 None None ''Skip''
         else if pred_label = ''fast'' then best FAST_DELAYS
         else if pred_label = ''slow'' then best SLOW_DELAYS
         else case find (\<lambda>r. dl_delay_label r = pred_label) event_delays of Some r \<Rightarrow> r | None \<Rightarrow> no_match)"

definition resolve_3regime_predictions :: "string list \<Rightarrow> delay_result list list \<Rightarrow> delay_result list res" where
  "resolve_3regime_predictions predictions delay_results =
     res_map (\<lambda>(i, l). res_bind (at_index delay_results i) (\<lambda>rs. Inr (resolve_single_3regime_prediction l rs))) (enumerate 0 predictions)"

definition loocv_calendar_sum_3regime ::
  "('f list \<Rightarrow> string list \<Rightarrow> 'f \<Rightarrow> string res) \<Rightarrow> 'f list \<Rightarrow> string list \<Rightarrow> delay_result list list \<Rightarrow> pyfloat res" where
  "loocv_calendar_sum_3regime fit_predict X y delay_results =
     res_bind (loocv_results fit_predict (\<lambda>i l. res_bind (at_index delay_results i) (\<lambda>rs. Inr (resolve_single_3regime_prediction l rs))) X y)
       (\<lambda>rs. Inr (calendar_sum_from_delay_results rs))"

section \<open>All events\<close>

definition make_empty_delay_results :: "string \<Rightarrow> delay_result list" where
  "make_empty_delay_results event_id =
     map (\<lambda>d. not_traded event_id (delay_label_of d) d None None ''NoData'') DELAY_VALUES @ [not_traded event_id ''pullback'' 0 None None ''NoData'']"

text \<open>The results of an event and whether it was simulated; every exception of the simulation is caught.\<close>

definition simulate_event ::
  "numpy_ops \<Rightarrow> bars_cache \<Rightarrow> pullback_config \<Rightarrow> touch_event \<Rightarrow> delay_result list \<times> bool" where
  "simulate_event ops cache c event =
     (let second_bars = event_bars cache event; skipped = (make_empty_delay_results (event_id_of event), False)
      in if second_bars = [] then skipped
         else case simulate_all_delays ops event second_bars c of Inl e \<Rightarrow> skipped | Inr rs \<Rightarrow> (rs, True))"

text \<open>A row of the matrix: symbol, side and touch time of the event, and a result\<close>

type_synonym matrix_row = "string \<times> string \<times> datetime \<times> delay_result"

definition build_matrix :: "touch_event list \<Rightarrow> delay_result list list \<Rightarrow> matrix_row list" where
  "build_matrix events all_delay_results =
     concat (map (\<lambda>(e, rs). map (\<lambda>r. (te_symbol e, te_side e, te_touch_time e, r)) rs) (zip events all_delay_results))"

definition delay_labels :: "string list" where
  "delay_labels = [''D0'', ''D5'', ''D10'', ''D15'', ''pullback'']"

definition traded_rate :: "delay_result list list \<Rightarrow> string \<Rightarrow> pyfloat" where
  "traded_rate all_delay_results label =
     (let rows = filter (\<lambda>r. dl_delay_label r = label) (concat all_delay_results)
      in if rows = [] then Fin 0 else ratio (length (filter dl_traded rows)) (length rows))"

definition compute_per_delay_traded_rate :: "delay_result list list \<Rightarrow> (string \<times> pyfloat) list" where
  "compute_per_delay_traded_rate all_delay_results = map (\<lambda>l. (l, traded_rate all_delay_results l)) delay_labels"

record drift_check =
  dc_n_compared :: nat
  dc_max_pnl_diff :: pyfloat
  dc_mean_pnl_diff :: pyfloat
  dc_drift_warning :: bool

text \<open>
  The inner merge of the old and the new matrix, both reduced to the rows with a trade; the old one is
  what pandas reads from its file: event, label and profit of each row.
\<close>

definition merged_pnls :: "(string \<times> string \<times> pyfloat) list \<Rightarrow> delay_result list \<Rightarrow> (pyfloat \<times> pyfloat) list" where
  "merged_pnls orig_traded results =
     [(x, y). (i, l, x) \<leftarrow> orig_traded, (r, y) \<leftarrow> filter (\<lambda>(r, y). y \<noteq> NaN \<and> dl_event_id r = i \<and> dl_delay_label r = l) (with_pnl results)]"

definition run_drift_check :: "numpy_ops \<Rightarrow> (string \<times> string \<times> pyfloat) list \<Rightarrow> delay_result list \<Rightarrow> drift_check" where
  "run_drift_check ops orig_traded results =
     (let diffs = map (\<lambda>(x, y). fabs (fsub y x)) (merged_pnls orig_traded results)
      in if diffs = [] then \<lparr>dc_n_compared = 0, dc_max_pnl_diff = Fin 0, dc_mean_pnl_diff = Fin 0, dc_drift_warning = False\<rparr>
         else \<lparr>dc_n_compared = length diffs, dc_max_pnl_diff = col_max diffs, dc_mean_pnl_diff = pd_mean ops diffs,
               dc_drift_warning = flt (fl (1 / 10000)) (col_max diffs)\<rparr>)"

record simulation_stats =
  ss_total_events :: nat
  ss_simulated_events :: nat
  ss_skipped_events :: nat
  ss_per_delay_traded_rate :: "(string \<times> pyfloat) list"
  ss_drift_check :: "drift_check option"

definition run_multi_delay_simulation ::
  "numpy_ops \<Rightarrow> bars_cache \<Rightarrow> pullback_config option \<Rightarrow> (string \<times> string \<times> pyfloat) list option \<Rightarrow> touch_event list
     \<Rightarrow> matrix_row list \<times> simulation_stats \<times> delay_result list list" where
  "run_multi_delay_simulation ops cache pullback_params original events =
     (let c = (case pullback_params of None \<Rightarrow> default_pullback | Some c \<Rightarrow> c);
          outcomes = map (simulate_event ops cache c) events; all_delay_results = map fst outcomes
      in (build_matrix events all_delay_results,
          \<lparr>ss_total_events = length events, ss_simulated_events = length (filter snd outcomes),
           ss_skipped_events = length (filter (\<lambda>x. \<not> snd x) outcomes),
           ss_per_delay_traded_rate = compute_per_delay_traded_rate all_delay_results,
           ss_drift_check = map_option (\<lambda>m. run_drift_check ops m (concat all_delay_results)) original\<rparr>,
          all_delay_results))"

section \<open>Silos under maps\<close>

lemma add_to_silo_map:
  "add_to_silo k (f x) (map (\<lambda>(k, xs). (k, map f xs)) silos) = map (\<lambda>(k, xs). (k, map f xs)) (add_to_silo k x silos)"
  by (induction k x silos rule: add_to_silo.induct) auto

lemma silos_of_map: "silos_of key (map f xs) = map (\<lambda>(k, ys). (k, map f ys)) (silos_of (\<lambda>x. key (f x)) xs)"
proof -
  have "foldl (\<lambda>silos x. add_to_silo (key x) x silos) (map (\<lambda>(k, ys). (k, map f ys)) acc) (map f xs)
      = map (\<lambda>(k, ys). (k, map f ys)) (foldl (\<lambda>silos x. add_to_silo (key (f x)) x silos) acc xs)" for acc
    by (induction xs arbitrary: acc) (simp_all add: add_to_silo_map)
  from this [of "[]"] show ?thesis by (simp add: silos_of_def)
qed

lemma silo_members: "(k, ys) \<in> set (silos_of key xs) \<Longrightarrow> set ys \<subseteq> set xs"
proof -
  have add: "\<forall>(k, ys) \<in> set (add_to_silo k' x silos). set ys \<subseteq> insert x B" if "\<forall>(k, ys) \<in> set silos. set ys \<subseteq> B" for k' x silos B
    using that by (induction k' x silos rule: add_to_silo.induct) (auto simp: subset_iff)
  have "\<forall>(k, ys) \<in> set (foldl (\<lambda>silos x. add_to_silo (key x) x silos) acc xs). set ys \<subseteq> set xs \<union> B"
    if "\<forall>(k, ys) \<in> set acc. set ys \<subseteq> B" for acc B
    using that
  proof (induction xs arbitrary: acc B)
    case (Cons x xs)
    show ?case using Cons.IH [OF add [OF Cons.prems], of "key x" x] by simp
  qed simp
  from this [of "[]" "{}"] show "(k, ys) \<in> set (silos_of key xs) \<Longrightarrow> set ys \<subseteq> set xs" by (auto simp: silos_of_def)
qed

lemma insort_key_map: "insort_key key (f x) (map f xs) = map f (insort_key (\<lambda>x. key (f x)) x xs)"
  by (induction xs) simp_all

lemma sort_key_map: "sort_key key (map f xs) = map f (sort_key (\<lambda>x. key (f x)) xs)"
  by (induction xs) (simp_all add: insort_key_map)

lemma silo_return_cong:
  "(\<And>x. x \<in> set xs \<Longrightarrow> share (f x) = share' (g x) \<and> pnl (f x) = pnl' (g x)) \<Longrightarrow>
     silo_return share pnl (map f xs) = silo_return share' pnl' (map g xs)"
proof -
  assume same: "\<And>x. x \<in> set xs \<Longrightarrow> share (f x) = share' (g x) \<and> pnl (f x) = pnl' (g x)"
  then have "foldl (\<lambda>b t. fadd b (fmul (fmul b (share t)) (pnl t))) a (map f xs) = foldl (\<lambda>b t. fadd b (fmul (fmul b (share' t)) (pnl' t))) a (map g xs)" for a
    by (induction xs arbitrary: a) auto
  then show ?thesis by (simp add: silo_return_def)
qed

text \<open>Two tables whose rows have the same silos, times, shares and profits have the same sum.\<close>

definition silo_sum ::
  "('a \<Rightarrow> string) \<Rightarrow> ('a \<Rightarrow> datetime) \<Rightarrow> ('a \<Rightarrow> pyfloat) \<Rightarrow> ('a \<Rightarrow> pyfloat) \<Rightarrow> 'a list \<Rightarrow> pyfloat" where
  "silo_sum key time share pnl xs = foldl (\<lambda>total (k, ys). fadd total (silo_return share pnl (sort_key time ys))) (Fin 0) (silos_of key xs)"

lemma foldl_map_cong:
  "(\<And>a x. x \<in> set xs \<Longrightarrow> F a (f x) = G a (g x)) \<Longrightarrow> foldl F a (map f xs) = foldl G a (map g xs)"
  by (induction xs arbitrary: a) simp_all

lemma sort_key_cong_set: "(\<And>x. x \<in> set xs \<Longrightarrow> k x = k' x) \<Longrightarrow> sort_key k xs = sort_key k' xs"
proof (induction xs)
  case (Cons x xs)
  have "insort_key k y ys = insort_key k' y ys" if "\<forall>z \<in> insert y (set ys). k z = k' z" for y and ys :: "'a list"
    using that by (induction ys) auto
  then show ?case using Cons by simp
qed simp

lemma silo_sum_cong:
  assumes same: "\<And>x. x \<in> set xs \<Longrightarrow> key (f x) = key' (g x) \<and> time (f x) = time' (g x) \<and> share (f x) = share' (g x) \<and> pnl (f x) = pnl' (g x)"
  shows "silo_sum key time share pnl (map f xs) = silo_sum key' time' share' pnl' (map g xs)"
proof -
  have "foldl (\<lambda>silos x. add_to_silo (key (f x)) x silos) acc xs = foldl (\<lambda>silos x. add_to_silo (key' (g x)) x silos) acc xs" for acc
    using same by (induction xs arbitrary: acc) auto
  then have silos: "silos_of (\<lambda>x. key (f x)) xs = silos_of (\<lambda>x. key' (g x)) xs" by (simp add: silos_of_def)
  have "silo_return share pnl (sort_key time (map f ys)) = silo_return share' pnl' (sort_key time' (map g ys))"
    if "(k, ys) \<in> set (silos_of (\<lambda>x. key' (g x)) xs)" for k ys
  proof -
    have ys: "x \<in> set xs" if "x \<in> set ys" for x using silo_members \<open>(k, ys) \<in> _\<close> that by fastforce
    have "sort_key (\<lambda>x. time (f x)) ys = sort_key (\<lambda>x. time' (g x)) ys" using same ys by (intro sort_key_cong_set) blast
    moreover have "silo_return share pnl (map f (sort_key (\<lambda>x. time' (g x)) ys)) = silo_return share' pnl' (map g (sort_key (\<lambda>x. time' (g x)) ys))"
      using same ys by (intro silo_return_cong) simp
    ultimately show ?thesis unfolding sort_key_map by simp
  qed
  then show ?thesis unfolding silo_sum_def silos_of_map silos by (intro foldl_map_cong) auto
qed

lemma compute_calendar_sum_silos:
  "compute_calendar_sum rs =
     silo_sum (\<lambda>(r, t). tm_symbol r @ ''_'' @ year_month_of (xt_entry_time t)) (\<lambda>(r, t). xt_entry_time t)
       (\<lambda>(r, t). xt_notional_share t) (\<lambda>(r, t). xt_realistic_pnl_pct t) (List.map_filter (\<lambda>r. map_option (\<lambda>t. (r, t)) (tm_trade r)) rs)"
  by (simp add: compute_calendar_sum_def silo_sum_def Let_def)

lemma delay_calendar_sum_silos:
  "delay_calendar_sum symbol_of rs =
     silo_sum (\<lambda>(r, x). symbol_of (dl_event_id r) @ ''_'' @ year_month_of (time_of r)) (\<lambda>(r, x). time_of r) (\<lambda>_. fl (26 / 100)) snd (with_pnl rs)"
  by (simp add: delay_calendar_sum_def silo_sum_def)

section \<open>A fixed delay is the baseline\<close>

lemma executed_share:
  assumes "execute_trade ops params bars event t numpy price bal share = Inr (Some tr)"
  shows "xt_notional_share tr = share"
  using assms
proof (cases rule: execute_trade_cases)
  case (1 pos)
  then show ?thesis using make_exit_Inr [OF 1(3)] open_position_facts [OF 1(1)] by simp
next
  case (2 pos pos' bar)
  then show ?thesis
    using make_exit_Inr [OF 2(3)] hold_bars_held [OF 2(2)] open_position_facts [OF 2(1)] by (simp add: held_def same_deal_def)
next
  case (3 pos pos')
  then show ?thesis
    using make_exit_Inr [OF 3(4)] hold_bars_held [OF 3(3)] open_position_facts [OF 3(1)] by (simp add: held_def same_deal_def)
qed

lemma label_strings: "delay_label_of 0 = ''D0''" "delay_label_of 5 = ''D5''" "delay_label_of 10 = ''D10''" "delay_label_of 15 = ''D15''"
  by code_simp+

lemma traded_at_fields:
  "traded_at ops bars event label delay t price = Inr r \<Longrightarrow> dl_delay_label r = label \<and> dl_event_id r = event_id_of event"
  by (auto simp: traded_at_def not_traded_def was_traded_def res_simps split: option.splits)

lemma fixed_delay_fields:
  "fixed_delay ops bars event d = Inr r \<Longrightarrow> dl_delay_label r = delay_label_of d \<and> dl_event_id r = event_id_of event"
  by (auto simp: fixed_delay_def res_simps not_traded_def dest: traded_at_fields split: option.splits)

lemma pullback_delay_fields:
  "pullback_delay ops bars event c = Inr r \<Longrightarrow> dl_delay_label r = ''pullback'' \<and> dl_event_id r = event_id_of event"
  by (auto simp: pullback_delay_def not_traded_def dest: traded_at_fields split: option.splits)

lemma simulate_all_delays_parts:
  assumes "simulate_all_delays ops event bars c = Inr rs"
  obtains a b d e p where "rs = [a, b, d, e, p]" and "fixed_delay ops bars event 0 = Inr a" and "fixed_delay ops bars event 5 = Inr b"
    and "fixed_delay ops bars event 10 = Inr d" and "fixed_delay ops bars event 15 = Inr e" and "pullback_delay ops bars event c = Inr p"
  using assms by (auto simp: simulate_all_delays_def DELAY_VALUES_def res_simps)

lemma simulated_labels:
  assumes "simulate_all_delays ops event bars c = Inr rs"
  shows "map dl_delay_label rs = delay_labels \<and> (\<forall>r \<in> set rs. dl_event_id r = event_id_of event)"
  using assms
proof (rule simulate_all_delays_parts)
  fix a b d e p
  assume r: "rs = [a, b, d, e, p]" "fixed_delay ops bars event 0 = Inr a" "fixed_delay ops bars event 5 = Inr b"
    "fixed_delay ops bars event 10 = Inr d" "fixed_delay ops bars event 15 = Inr e" "pullback_delay ops bars event c = Inr p"
  show ?thesis
    using fixed_delay_fields [OF r(2)] fixed_delay_fields [OF r(3)] fixed_delay_fields [OF r(4)] fixed_delay_fields [OF r(5)]
      pullback_delay_fields [OF r(6)]
    by (simp add: r(1) label_strings delay_labels_def)
qed

lemma simulated_D5:
  assumes "simulate_all_delays ops event bars c = Inr rs"
  shows "fixed_delay ops bars event 5 = Inr (find_delay_result rs ''D5'')"
  using assms
proof (rule simulate_all_delays_parts)
  fix a b d e p
  assume r: "rs = [a, b, d, e, p]" "fixed_delay ops bars event 0 = Inr a" "fixed_delay ops bars event 5 = Inr b"
  show ?thesis
    using fixed_delay_fields [OF r(2)] fixed_delay_fields [OF r(3)] r(3)
    by (simp add: r(1) find_delay_result_def target_label_of_def regime_to_delay_label_def label_strings)
qed

text \<open>One event: the baseline trades exactly where the simulation with the same delay does.\<close>

lemma default_trade_facts:
  "default_trade ops xp bars event t numpy price = Inr (Some tr) \<Longrightarrow> xt_entry_time tr = t \<and> xt_notional_share tr = fl (26 / 100)"
  unfolding default_trade_def using executed_at executed_share by blast

lemma fixed_delay_trade:
  assumes "fixed_delay ops bars event d = Inr r"
  obtains t p tr where "enter_immediate ops DEFAULT_EXEC_PARAMS bars event (te_touch_time event + seconds d) = Inr (t, p, tr)"
    and "map_option (\<lambda>x. (r, x)) (if dl_traded r then dl_pnl_pct r else None) = map_option (\<lambda>x. (r, xt_realistic_pnl_pct x)) tr"
    and "\<And>x. tr = Some x \<Longrightarrow> time_of r = xt_entry_time x \<and> xt_notional_share x = fl (26 / 100)"
proof -
  obtain e where e: "entry_bar bars (te_touch_time event + seconds d) = Inr e" using assms by (auto simp: fixed_delay_def res_simps)
  show thesis
  proof (cases e)
    case None
    then have "enter_immediate ops DEFAULT_EXEC_PARAMS bars event (te_touch_time event + seconds d) = Inr (None, None, None)"
      by (simp add: enter_immediate_def e)
    moreover have "\<not> dl_traded r" using assms None e by (auto simp: fixed_delay_def not_traded_def)
    ultimately show thesis by (intro that) auto
  next
    case (Some tp)
    obtain t p where tp: "tp = (t, p)" by force
    then have r: "traded_at ops bars event (delay_label_of d) d t p = Inr r" using assms Some e by (simp add: fixed_delay_def)
    then obtain trade where trade: "default_trade ops DEFAULT_EXEC_PARAMS bars event t False p = Inr trade" by (auto simp: traded_at_def res_simps)
    have "enter_immediate ops DEFAULT_EXEC_PARAMS bars event (te_touch_time event + seconds d) = Inr (Some t, Some p, trade)"
      by (simp add: enter_immediate_def e Some tp trade)
    then show thesis
    proof (rule that)
      show "map_option (\<lambda>x. (r, x)) (if dl_traded r then dl_pnl_pct r else None) = map_option (\<lambda>x. (r, xt_realistic_pnl_pct x)) trade"
        using r trade by (cases trade) (auto simp: traded_at_def not_traded_def was_traded_def)
      show "time_of r = xt_entry_time x \<and> xt_notional_share x = fl (26 / 100)" if "trade = Some x" for x
        using r trade that default_trade_facts by (auto simp: traded_at_def was_traded_def time_of_def)
    qed
  qed
qed

definition baseline_of :: "numpy_ops \<Rightarrow> bars_cache \<Rightarrow> touch_event \<Rightarrow> timing_record" where
  "baseline_of ops cache e = projr (baseline_event ops DEFAULT_EXEC_PARAMS 5 cache e)"

definition simulated_of :: "numpy_ops \<Rightarrow> bars_cache \<Rightarrow> pullback_config \<Rightarrow> touch_event \<Rightarrow> delay_result" where
  "simulated_of ops cache c e = find_delay_result (fst (simulate_event ops cache c e)) ''D5''"

definition simulates :: "numpy_ops \<Rightarrow> bars_cache \<Rightarrow> pullback_config \<Rightarrow> touch_event \<Rightarrow> bool" where
  "simulates ops cache c e \<longleftrightarrow>
     event_bars cache e = [] \<or> (case simulate_all_delays ops e (event_bars cache e) c of Inl _ \<Rightarrow> False | Inr _ \<Rightarrow> True)"

lemma empty_D5: "find_delay_result (make_empty_delay_results i) ''D5'' = not_traded i ''D5'' 5 None None ''NoData''"
  by (simp add: find_delay_result_def make_empty_delay_results_def DELAY_VALUES_def label_strings target_label_of_def
      regime_to_delay_label_def not_traded_def)

lemma one_event:
  assumes "simulates ops cache c e"
  shows "baseline_event ops DEFAULT_EXEC_PARAMS 5 cache e = Inr (baseline_of ops cache e)"
    and "tm_symbol (baseline_of ops cache e) = te_symbol e" and "dl_event_id (simulated_of ops cache c e) = event_id_of e"
    and "map_option (\<lambda>x. (simulated_of ops cache c e, x)) (if dl_traded (simulated_of ops cache c e) then dl_pnl_pct (simulated_of ops cache c e) else None)
      = map_option (\<lambda>x. (simulated_of ops cache c e, xt_realistic_pnl_pct x)) (tm_trade (baseline_of ops cache e))"
    and "tm_trade (baseline_of ops cache e) = Some x \<Longrightarrow>
      time_of (simulated_of ops cache c e) = xt_entry_time x \<and> xt_notional_share x = fl (26 / 100)"
proof -
  let ?r = "simulated_of ops cache c e"
  let ?goal = "baseline_event ops DEFAULT_EXEC_PARAMS 5 cache e = Inr (baseline_of ops cache e)
      \<and> tm_symbol (baseline_of ops cache e) = te_symbol e \<and> dl_event_id ?r = event_id_of e
      \<and> map_option (\<lambda>x. (?r, x)) (if dl_traded ?r then dl_pnl_pct ?r else None)
          = map_option (\<lambda>x. (?r, xt_realistic_pnl_pct x)) (tm_trade (baseline_of ops cache e))
      \<and> (\<forall>x. tm_trade (baseline_of ops cache e) = Some x \<longrightarrow> time_of ?r = xt_entry_time x \<and> xt_notional_share x = fl (26 / 100))"
  have ?goal
  proof (cases "event_bars cache e = []")
    case True
    then show ?thesis by (simp add: baseline_of_def baseline_event_def simulated_of_def simulate_event_def empty_D5 record_of_def not_traded_def)
  next
    case False
    then obtain rs where rs: "simulate_all_delays ops e (event_bars cache e) c = Inr rs" using assms by (auto simp: simulates_def split: sum.splits)
    then have r: "fixed_delay ops (event_bars cache e) e 5 = Inr ?r"
      using simulated_D5 [OF rs] False by (simp add: simulated_of_def simulate_event_def)
    from fixed_delay_trade [OF r] obtain t p tr where
      enter: "enter_immediate ops DEFAULT_EXEC_PARAMS (event_bars cache e) e (te_touch_time e + seconds 5) = Inr (t, p, tr)"
      and pairs: "map_option (\<lambda>x. (?r, x)) (if dl_traded ?r then dl_pnl_pct ?r else None) = map_option (\<lambda>x. (?r, xt_realistic_pnl_pct x)) tr"
      and facts: "\<And>x. tr = Some x \<Longrightarrow> time_of ?r = xt_entry_time x \<and> xt_notional_share x = fl (26 / 100)"
      by blast
    have b: "baseline_event ops DEFAULT_EXEC_PARAMS 5 cache e = Inr (baseline_of ops cache e)" "tm_symbol (baseline_of ops cache e) = te_symbol e"
        "tm_trade (baseline_of ops cache e) = tr"
      using False enter by (simp_all add: baseline_of_def baseline_event_def record_of_def Let_def)
    show ?thesis using b pairs facts fixed_delay_fields [OF r] by simp
  qed
  then show "baseline_event ops DEFAULT_EXEC_PARAMS 5 cache e = Inr (baseline_of ops cache e)"
    and "tm_symbol (baseline_of ops cache e) = te_symbol e" and "dl_event_id ?r = event_id_of e"
    and "map_option (\<lambda>x. (?r, x)) (if dl_traded ?r then dl_pnl_pct ?r else None)
      = map_option (\<lambda>x. (?r, xt_realistic_pnl_pct x)) (tm_trade (baseline_of ops cache e))"
    and "tm_trade (baseline_of ops cache e) = Some x \<Longrightarrow> time_of ?r = xt_entry_time x \<and> xt_notional_share x = fl (26 / 100)"
    by blast+
qed

lemma known_symbol:
  assumes "distinct (map event_id_of events)" and "e \<in> set events"
  shows "event_symbol events (event_id_of e) = te_symbol e"
proof -
  have "(event_id_of e, te_symbol e) \<in> set (rev (map (\<lambda>e. (event_id_of e, te_symbol e)) events))" using assms(2) by auto
  moreover have "distinct (map fst (rev (map (\<lambda>e. (event_id_of e, te_symbol e)) events)))"
    using assms(1) by (simp add: rev_map comp_def flip: rev_map)
  ultimately have "map_of (rev (map (\<lambda>e. (event_id_of e, te_symbol e)) events)) (event_id_of e) = Some (te_symbol e)" by (rule map_of_is_SomeI [rotated])
  then show ?thesis by (simp add: event_symbol_def)
qed

lemma with_pnl_map:
  "with_pnl rs = List.map_filter (\<lambda>r. map_option (\<lambda>x. (r, x)) (if dl_traded r then dl_pnl_pct r else None)) rs"
  unfolding with_pnl_def by (rule arg_cong [of _ _ "\<lambda>f. List.map_filter f rs"]) auto

lemma map_filter_map:
  "(\<And>e. e \<in> set es \<Longrightarrow> h (f e) = map_option (g e) (k e)) \<Longrightarrow>
     List.map_filter h (map f es) = map (\<lambda>(e, x). g e x) (List.map_filter (\<lambda>e. map_option (\<lambda>x. (e, x)) (k e)) es)"
  by (induction es) (auto simp: map_filter_simps split: option.splits)

lemma sums_agree:
  assumes "distinct (map event_id_of events)" and "\<forall>e \<in> set events. simulates ops cache c e"
  shows "calendar_sum_from_results (map (simulated_of ops cache c) events) events = compute_calendar_sum (map (baseline_of ops cache) events)"
proof -
  let ?T = "List.map_filter (\<lambda>e. map_option (\<lambda>x. (e, x)) (tm_trade (baseline_of ops cache e))) events"
  have "List.map_filter (\<lambda>r. map_option (\<lambda>t. (r, t)) (tm_trade r)) (map (baseline_of ops cache) events) = map (\<lambda>(e, t). (baseline_of ops cache e, t)) ?T"
    by (rule map_filter_map) simp
  moreover have "with_pnl (map (simulated_of ops cache c) events) = map (\<lambda>(e, t). (simulated_of ops cache c e, xt_realistic_pnl_pct t)) ?T"
    unfolding with_pnl_map by (rule map_filter_map) (use one_event(4) assms(2) in blast)
  moreover have "te_symbol e = tm_symbol (baseline_of ops cache e) \<and> event_symbol events (dl_event_id (simulated_of ops cache c e)) = te_symbol e
      \<and> time_of (simulated_of ops cache c e) = xt_entry_time t \<and> fl (26 / 100) = xt_notional_share t"
    if "(e, t) \<in> set ?T" for e t
  proof -
    have e: "e \<in> set events" "tm_trade (baseline_of ops cache e) = Some t" using that by (auto simp: map_filter_def)
    then have "simulates ops cache c e" using assms(2) by blast
    then show ?thesis using one_event(2,3) one_event(5) [OF _ e(2)] known_symbol [OF assms(1) e(1)] by simp
  qed
  ultimately show ?thesis
    unfolding calendar_sum_from_results_def delay_calendar_sum_silos compute_calendar_sum_silos
    by (simp only:, intro silo_sum_cong) (auto simp del: fl_def)
qed

lemma standard_found:
  assumes "simulates ops cache c e" and "r = find_delay_result (fst (simulate_event ops cache c e)) ''D5''"
  shows "find (\<lambda>r. dl_delay_label r = ''D5'') (fst (simulate_event ops cache c e)) = Some r"
proof -
  have "''D5'' \<in> dl_delay_label ` set (fst (simulate_event ops cache c e))"
  proof (cases "event_bars cache e = []")
    case True
    then show ?thesis by (simp add: simulate_event_def make_empty_delay_results_def DELAY_VALUES_def label_strings not_traded_def)
  next
    case False
    then obtain rs where rs: "simulate_all_delays ops e (event_bars cache e) c = Inr rs"
      using assms(1) by (auto simp: simulates_def split: sum.splits)
    then show ?thesis using False conjunct1 [OF simulated_labels [OF rs]] by (simp add: simulate_event_def delay_labels_def flip: set_map)
  qed
  then have "find (\<lambda>r. dl_delay_label r = ''D5'') (fst (simulate_event ops cache c e)) \<noteq> None" by (auto simp: find_None_iff)
  then show ?thesis using assms(2) by (auto simp: find_delay_result_def target_label_of_def regime_to_delay_label_def)
qed

text \<open>
  C14. Leave-one-out validation scores a classifier that answers \<open>standard\<close> for every event with the calendar sum
  of the baseline that enters after five seconds: the two programs, written independently over two kinds of results, agree. Required is that
  event ids are distinct and that no simulation raises.
\<close>

theorem constant_classifier_is_baseline:
  assumes "distinct (map event_id_of events)" and "\<forall>e \<in> set events. simulates ops cache c e"
    and "length X = length events" and "length y = length events"
  shows "\<exists>rs. run_baseline ops None 5 cache events = Inr rs
    \<and> loocv_calendar_sum (\<lambda>X_train y_train x. Inr ''standard'') X y (snd (snd (run_multi_delay_simulation ops cache (Some c) original events))) events
      = Inr (compute_calendar_sum rs)"
proof -
  let ?all = "snd (snd (run_multi_delay_simulation ops cache (Some c) original events))"
  have all: "?all = map (\<lambda>e. fst (simulate_event ops cache c e)) events" by (simp add: run_multi_delay_simulation_def Let_def)
  have base: "run_baseline ops None 5 cache events = Inr (map (baseline_of ops cache) events)"
    unfolding run_baseline_def params_of_def option.case by (rule res_map_total) (use one_event(1) assms(2) in blast)
  have pick: "loocv_match events ?all i ''standard'' = Inr (simulated_of ops cache c (events ! i))" if i: "i < length events" for i
  proof -
    have "simulates ops cache c (events ! i)" using assms(2) i by simp
    from standard_found [OF this refl] show ?thesis
      using i by (simp add: loocv_match_def all at_index_def target_label_of_def regime_to_delay_label_def simulated_of_def)
  qed
  have "loocv_results (\<lambda>X_train y_train x. Inr ''standard'') (loocv_match events ?all) X y
      = Inr (map (\<lambda>i. simulated_of ops cache c (events ! i)) [0..<length events])"
    unfolding loocv_results_def assms(3) by (rule res_map_total) (use assms(3,4) pick in \<open>simp add: leave_out_def\<close>)
  also have "map (\<lambda>i. simulated_of ops cache c (events ! i)) [0..<length events] = map (simulated_of ops cache c) events"
    by (rule nth_equalityI) simp_all
  finally show ?thesis using base sums_agree [OF assms(1,2)] by (simp add: loocv_calendar_sum_def)
qed

section \<open>Labels\<close>

text \<open>Foldl of \<open>py_max\<close> over numbers is their maximum.\<close>

lemma foldl_max:
  assumes "x \<noteq> NaN" and "\<forall>u \<in> set xs. u \<noteq> NaN"
  shows "foldl py_max x xs \<in> set (x # xs) \<and> (\<forall>u \<in> set (x # xs). fle u (foldl py_max x xs))"
  using assms
proof (induction xs arbitrary: x)
  case Nil
  then show ?case by (simp add: fle_refl_iff)
next
  case (Cons u xs)
  have m: "py_max x u \<in> {x, u}" "fle x (py_max x u)" "fle u (py_max x u)"
    using Cons.prems fle_total [of x u] by (auto simp: py_max_def flt_def fle_refl_iff)
  then have "py_max x u \<noteq> NaN" using Cons.prems by auto
  then have ih: "foldl py_max (py_max x u) xs \<in> set (py_max x u # xs)" "\<forall>v \<in> set (py_max x u # xs). fle v (foldl py_max (py_max x u) xs)"
    using Cons.IH [of "py_max x u"] Cons.prems by auto
  have "fle x (foldl py_max (py_max x u) xs)" "fle u (foldl py_max (py_max x u) xs)"
    using ih(2) m(2,3) fle_trans by (metis list.set_intros(1))+
  then show ?case using ih m(1) by auto
qed

text \<open>
  C29. Suppose the profits of the traded delays are binary64 numbers, none of them nan, and the tolerance in profit units
  is at least zero and below infinity. The label of an event is then \<open>skip\<close> just when nothing was traded or every traded
  delay lost; otherwise it is the label of a traded delay whose profit reaches the best one less the tolerance, the
  boundary included, and no other traded delay that reaches it has a label earlier in the order D0, D5, D10, D15, pullback. The order
  is that of the labels: a pull-back comes last even where it entered before a D10 or a D15. The code never runs out of candidates.
\<close>

theorem optimal_label_spec:
  assumes "\<forall>(r, x) \<in> set (with_pnl rs). x \<noteq> NaN \<and> is_f64 x" and "fle (Fin 0) (per_10000 tol)" and "per_10000 tol \<noteq> PInf"
  shows "if \<forall>(r, x) \<in> set (with_pnl rs). flt x (Fin 0) then optimal_label tol rs = Inr ''skip''
    else \<exists>best \<in> snd ` set (with_pnl rs). \<exists>(r, x) \<in> set (with_pnl rs).
      (\<forall>u \<in> snd ` set (with_pnl rs). fle u best) \<and> optimal_label tol rs = Inr (dl_delay_label r) \<and> fle (fsub best (per_10000 tol)) x
      \<and> (\<forall>(r', u) \<in> set (with_pnl rs). fle (fsub best (per_10000 tol)) u \<longrightarrow> delay_order (dl_delay_label r) \<le> delay_order (dl_delay_label r'))"
proof (cases "with_pnl rs")
  case Nil
  then show ?thesis by (simp add: optimal_label_def)
next
  case (Cons p rest)
  obtain r0 x0 where p: "p = (r0, x0)" by force
  define best where "best = foldl py_max x0 (map snd rest)"
  have pnls: "snd ` set (with_pnl rs) = set (x0 # map snd rest)" by (auto simp: Cons p)
  have "\<forall>u \<in> snd ` set (with_pnl rs). u \<noteq> NaN \<and> is_f64 u" using assms(1) by auto
  then have best: "best \<in> snd ` set (with_pnl rs)" "\<forall>u \<in> snd ` set (with_pnl rs). fle u best" "best \<noteq> NaN" "is_f64 best"
    using foldl_max [of x0 "map snd rest"] unfolding pnls best_def by auto
  have neg: "(\<forall>(r, x) \<in> set (with_pnl rs). flt x (Fin 0)) \<longleftrightarrow> flt best (Fin 0)"
    using best(1,2) fle_flt_trans by force
  show ?thesis
  proof (cases "flt best (Fin 0)")
    case True
    then show ?thesis unfolding neg by (simp add: optimal_label_def Cons p best_def)
  next
    case False
    let ?within = "\<lambda>(r, x). fle (fsub best (per_10000 tol)) x"
    let ?sorted = "sort_key (\<lambda>(r, x). delay_order (dl_delay_label r)) (filter ?within (with_pnl rs))"
    have "fsub best (per_10000 tol) \<noteq> NaN" using best(3) assms(2,3) by (cases best; cases "per_10000 tol") (auto simp: fsub_def)
    then have "fle (fsub best (per_10000 tol)) best" using fsub_le_self [OF best(4) assms(2)] by blast
    then have "filter ?within (with_pnl rs) \<noteq> []" using best(1) by (force simp: filter_empty_conv)
    then obtain r x more where s: "?sorted = (r, x) # more" by (cases ?sorted) (auto simp flip: set_empty)
    have "sorted (map (\<lambda>(r, x). delay_order (dl_delay_label r)) ?sorted)" by (rule sorted_sort_key)
    then have first: "\<forall>(r', u) \<in> set ?sorted. delay_order (dl_delay_label r) \<le> delay_order (dl_delay_label r')" unfolding s by auto
    have "(r, x) \<in> set ?sorted" unfolding s by simp
    then have mem: "(r, x) \<in> set (with_pnl rs)" "fle (fsub best (per_10000 tol)) x" by auto
    have "optimal_label tol rs = Inr (dl_delay_label r)" using False s by (simp add: optimal_label_def Cons p best_def Let_def)
    moreover have "\<forall>(r', u) \<in> set (with_pnl rs). fle (fsub best (per_10000 tol)) u \<longrightarrow> delay_order (dl_delay_label r) \<le> delay_order (dl_delay_label r')"
      using first by auto
    ultimately have "\<exists>(r, x) \<in> set (with_pnl rs). (\<forall>u \<in> snd ` set (with_pnl rs). fle u best) \<and> optimal_label tol rs = Inr (dl_delay_label r)
        \<and> fle (fsub best (per_10000 tol)) x
        \<and> (\<forall>(r', u) \<in> set (with_pnl rs). fle (fsub best (per_10000 tol)) u \<longrightarrow> delay_order (dl_delay_label r) \<le> delay_order (dl_delay_label r'))"
      using best(2) mem by (intro bexI [of _ "(r, x)"]) simp_all
    then show ?thesis unfolding neg using False best(1) by (simp only: if_False) blast
  qed
qed

section \<open>Hindsight\<close>

text \<open>
  C33. What a prediction of \<open>fast\<close> or \<open>slow\<close> is settled with is the trade of its group that turned out best: no member of
  the group that traded has a higher profit. The choice reads the profits, which nobody knows when the prediction is made.
\<close>

theorem three_regimes_use_hindsight:
  assumes "pred_label = ''fast'' \<and> targets = FAST_DELAYS \<or> pred_label = ''slow'' \<and> targets = SLOW_DELAYS"
    and "r \<in> set event_delays" and "dl_delay_label r \<in> set targets" and "flt NInf (pnl_or_minus_inf r)"
  shows "resolve_single_3regime_prediction pred_label event_delays \<in> set event_delays
    \<and> dl_delay_label (resolve_single_3regime_prediction pred_label event_delays) \<in> set targets
    \<and> \<not> flt (pnl_or_minus_inf (resolve_single_3regime_prediction pred_label event_delays)) (pnl_or_minus_inf r)"
proof -
  let ?rs = "filter (\<lambda>r. dl_delay_label r \<in> set targets) event_delays"
  let ?xs = "map (\<lambda>r. (Some r, pnl_or_minus_inf r)) ?rs"
  have mem: "pnl_or_minus_inf r \<in> snd ` set ?xs" using assms(2,3) by force
  then have "\<exists>u \<in> snd ` set ?xs. flt NInf u" using assms(4) by blast
  from grid.picks_best [OF this, of None] obtain ys p s zs where b: "?xs = ys @ (p, s) # zs" "best_of NInf None ?xs = p"
      "\<forall>u \<in> snd ` set ys. \<not> fle s u" "\<forall>u \<in> snd ` set zs. \<not> flt s u"
    by blast
  have "(p, s) \<in> set ?xs" unfolding b(1) by simp
  then obtain d where d: "p = Some d" "s = pnl_or_minus_inf d" "d \<in> set ?rs" by auto
  have "resolve_single_3regime_prediction pred_label event_delays = d"
    using assms(1) b(2) d(1) by (auto simp: resolve_single_3regime_prediction_def best_of_group_def)
  moreover have "\<not> flt s (pnl_or_minus_inf r)"
    using mem b(3,4) unfolding b(1) by (auto simp: flt_def fle_refl_iff)
  ultimately show ?thesis using d(2,3) by simp
qed

section \<open>Every event is accounted for\<close>

lemma simulate_event_labels:
  "map dl_delay_label (fst (simulate_event ops cache c e)) = delay_labels
   \<and> map dl_event_id (fst (simulate_event ops cache c e)) = replicate 5 (event_id_of e)"
proof -
  have empty: "map dl_delay_label (make_empty_delay_results i) = delay_labels \<and> map dl_event_id (make_empty_delay_results i) = replicate 5 i" for i
    by (simp add: make_empty_delay_results_def DELAY_VALUES_def label_strings not_traded_def delay_labels_def numeral_eq_Suc)
  have full: "map dl_event_id rs = replicate 5 (event_id_of e)" if "simulate_all_delays ops e bars c = Inr rs" for bars rs
  proof -
    note l = simulated_labels [OF that]
    have "length rs = 5" using arg_cong [OF conjunct1 [OF l], of length] by (simp add: delay_labels_def)
    then show ?thesis using l by (intro replicate_eqI) auto
  qed
  show ?thesis using empty full simulated_labels by (auto simp: simulate_event_def Let_def split: sum.split)
qed

text \<open>
  The run over all events never fails: each event gets five results under its id, labelled D0, D5, D10, D15 and pullback in this
  order, the matrix has five rows per event, and simulated and skipped events add up to all.
\<close>

theorem multi_delay_complete:
  "map (map dl_delay_label) (snd (snd (run_multi_delay_simulation ops cache p original events))) = replicate (length events) delay_labels
   \<and> map (map dl_event_id) (snd (snd (run_multi_delay_simulation ops cache p original events))) = map (\<lambda>e. replicate 5 (event_id_of e)) events
   \<and> length (fst (run_multi_delay_simulation ops cache p original events)) = 5 * length events
   \<and> ss_simulated_events (fst (snd (run_multi_delay_simulation ops cache p original events)))
     + ss_skipped_events (fst (snd (run_multi_delay_simulation ops cache p original events))) = length events"
proof -
  define c where "c = (case p of None \<Rightarrow> default_pullback | Some c \<Rightarrow> c)"
  have five: "length (fst (simulate_event ops cache c e)) = 5" for e
    using arg_cong [OF conjunct1 [OF simulate_event_labels], of length ops cache c e] by (simp add: delay_labels_def)
  have rows: "length (build_matrix es (map (\<lambda>e. fst (simulate_event ops cache c e)) es)) = 5 * length es" for es
    by (induction es) (simp_all add: build_matrix_def five)
  have count: "length (filter P xs) + length (filter (\<lambda>x. \<not> P x) xs) = length xs" for P and xs :: "(delay_result list \<times> bool) list"
    by (induction xs) auto
  show ?thesis
    using rows [of events] count [of snd "map (simulate_event ops cache c) events"]
    by (simp add: run_multi_delay_simulation_def Let_def c_def [symmetric] simulate_event_labels map_replicate_const comp_def)
qed

section \<open>Runs\<close>

lemma make_exit_returns: "lp_entry_p pos \<noteq> Fin 0 \<Longrightarrow> \<exists>tr. make_exit ops p pos numpy price t reason = Inr tr"
proof -
  assume "lp_entry_p pos \<noteq> Fin 0"
  then have "\<exists>q. fdiv x (lp_entry_p pos) = Some q" for x by (cases x; cases "lp_entry_p pos") auto
  then have "\<exists>q. float_div ops f x (lp_entry_p pos) = Inr q" for f x by (metis float_div_def the_or_raise_simps(2))
  then show ?thesis unfolding make_exit_def Let_def by (metis res_bind_Inr)
qed

lemma trade_returns:
  assumes "te_side event = ''long''" and "slip_up DEFAULT_EXEC_PARAMS price \<noteq> Fin 0"
  shows "\<exists>trade. default_trade ops DEFAULT_EXEC_PARAMS bars event t numpy price = Inr trade"
proof (cases "ex_open_position DEFAULT_EXEC_PARAMS event numpy price t (Fin 100000) (fl (26 / 100))")
  case None
  then show ?thesis by (simp add: default_trade_def execute_trade_def)
next
  case (Some pos)
  then have p: "lp_entry_p pos \<noteq> Fin 0" using assms by (auto simp: ex_open_position_def Let_def split: prod.splits if_splits)
  have "\<exists>tr. simulate_position ops DEFAULT_EXEC_PARAMS pos bars = Inr tr"
  proof -
    have "lp_entry_p (fst (hold_bars DEFAULT_EXEC_PARAMS pos bs)) \<noteq> Fin 0" for bs
      using p hold_bars_held [of DEFAULT_EXEC_PARAMS pos bs] by (cases "hold_bars DEFAULT_EXEC_PARAMS pos bs") (auto simp: held_def same_deal_def)
    then show ?thesis
      using make_exit_returns p by (auto simp: simulate_position_def Let_def split: prod.split option.split) (metis fst_conv)+
  qed
  then show ?thesis using Some by (auto simp: default_trade_def execute_trade_def)
qed

lemma demo_side: "te_side demo_touch = ''long''" "te_touch_time demo_touch = 0"
  by (simp_all add: demo_touch_def)

lemma demo_prices: "slip_up DEFAULT_EXEC_PARAMS (Fin 1024) \<noteq> Fin 0" "slip_up DEFAULT_EXEC_PARAMS (Fin 1008) \<noteq> Fin 0"
  by code_simp+

lemma demo_entry_bars:
  "entry_bar (demo_seconds 980) (seconds 0) = Inr (Some (seconds 0, Fin 1024))"
  "entry_bar (demo_seconds 980) (seconds 5) = Inr (Some (seconds 10, Fin 1024))"
  "entry_bar (demo_seconds 980) (seconds 10) = Inr (Some (seconds 10, Fin 1024))"
  "entry_bar (demo_seconds 980) (seconds 15) = Inr None"
  by code_simp+

lemma demo_pullback_entry:
  "simulate_pullback_entry demo_touch (demo_seconds 980) 5 (fl (5 / 100)) 60 = Some (seconds 12, Fin 1008, True)"
  by code_simp

lemma demo_traded_at:
  "price = Fin 1024 \<or> price = Fin 1008 \<Longrightarrow> \<exists>r. traded_at ops bars demo_touch label d t price = Inr r"
proof -
  assume "price = Fin 1024 \<or> price = Fin 1008"
  then obtain trade where "default_trade ops DEFAULT_EXEC_PARAMS bars demo_touch t False price = Inr trade"
    using trade_returns [OF demo_side(1)] demo_prices by metis
  then show ?thesis by (auto simp: traded_at_def split: option.split)
qed

lemma demo_simulates: "simulates ref_numpy (demo_cache 980) default_pullback demo_touch"
proof -
  have fixed: "\<exists>r. fixed_delay ref_numpy (demo_seconds 980) demo_touch d = Inr r" if "d \<in> set DELAY_VALUES" for d
    using that demo_entry_bars demo_traded_at unfolding DELAY_VALUES_def fixed_delay_def demo_side by auto
  have pull: "\<exists>r. pullback_delay ref_numpy (demo_seconds 980) demo_touch default_pullback = Inr r"
    using demo_pullback_entry by (simp add: pullback_delay_def default_pullback_def demo_traded_at)
  obtain a b d e where "fixed_delay ref_numpy (demo_seconds 980) demo_touch 0 = Inr a" "fixed_delay ref_numpy (demo_seconds 980) demo_touch 5 = Inr b"
      "fixed_delay ref_numpy (demo_seconds 980) demo_touch 10 = Inr d" "fixed_delay ref_numpy (demo_seconds 980) demo_touch 15 = Inr e"
    using fixed [of 0] fixed [of 5] fixed [of 10] fixed [of 15] by (auto simp: DELAY_VALUES_def)
  then show ?thesis using pull by (auto simp: simulates_def demo_bars simulate_all_delays_def DELAY_VALUES_def)
qed

theorem constant_classifier_is_baseline_witness:
  "\<exists>rs. run_baseline ref_numpy None 5 (demo_cache 980) [demo_touch] = Inr rs
     \<and> loocv_calendar_sum (\<lambda>X_train y_train x. Inr ''standard'') [()] [''D5'']
         (snd (snd (run_multi_delay_simulation ref_numpy (demo_cache 980) (Some default_pullback) None [demo_touch]))) [demo_touch]
       = Inr (compute_calendar_sum rs)"
  by (rule constant_classifier_is_baseline) (simp_all add: demo_simulates)

definition demo_result :: "string \<Rightarrow> pyfloat \<Rightarrow> delay_result" where
  "demo_result label x = (not_traded ''BTC-1'' label 0 None None [])\<lparr>dl_pnl_pct := Some x, dl_traded := True\<rparr>"

definition demo_results :: "delay_result list" where
  "demo_results = [demo_result ''D0'' (Fin (1 / 128)), demo_result ''D5'' (Fin (1 / 64)), demo_result ''D10'' (Fin (129 / 8192))]"

lemma demo_with_pnl:
  "with_pnl demo_results = [(demo_result ''D0'' (Fin (1 / 128)), Fin (1 / 128)), (demo_result ''D5'' (Fin (1 / 64)), Fin (1 / 64)),
     (demo_result ''D10'' (Fin (129 / 8192)), Fin (129 / 8192))]"
  by (simp add: with_pnl_def demo_results_def demo_result_def map_filter_simps)

theorem optimal_label_spec_witness:
  "optimal_label (Fin 5) demo_results = Inr ''D5'' \<and> (\<exists>(r, x) \<in> set (with_pnl demo_results). optimal_label (Fin 5) demo_results = Inr (dl_delay_label r))"
proof -
  have floats: "\<forall>(r, x) \<in> set (with_pnl demo_results). x \<noteq> NaN \<and> is_f64 x"
  proof -
    have "is_f64 (Fin (1 / 128))" "is_f64 (Fin (1 / 64))" "is_f64 (Fin (129 / 8192))" by code_simp+
    then show ?thesis by (simp add: demo_with_pnl)
  qed
  have tol: "fle (Fin 0) (per_10000 (Fin 5))" "per_10000 (Fin 5) \<noteq> PInf" by code_simp+
  have gain: "\<not> (\<forall>(r, x) \<in> set (with_pnl demo_results). flt x (Fin 0))" by (simp add: demo_with_pnl flt_def)
  have "optimal_label (Fin 5) demo_results = Inr ''D5''" by code_simp
  then show ?thesis using optimal_label_spec [OF floats tol, unfolded if_not_P [OF gain]] by blast
qed

theorem three_regimes_use_hindsight_witness:
  "\<not> flt (pnl_or_minus_inf (resolve_single_3regime_prediction ''fast'' demo_results)) (Fin (1 / 64))"
proof -
  have "demo_result ''D5'' (Fin (1 / 64)) \<in> set demo_results" "pnl_or_minus_inf (demo_result ''D5'' (Fin (1 / 64))) = Fin (1 / 64)"
      "dl_delay_label (demo_result ''D5'' (Fin (1 / 64))) \<in> set FAST_DELAYS"
    by (simp_all add: demo_results_def demo_result_def pnl_or_minus_inf_def FAST_DELAYS_def not_traded_def)
  then show ?thesis
    using three_regimes_use_hindsight [of "''fast''" FAST_DELAYS "demo_result ''D5'' (Fin (1 / 64))" demo_results] by (simp add: flt_def)
qed

end
