(* ===== verification/Spec2Isabelle.thy ===== *)
theory Spec2Isabelle
  imports Assertions Driver TickEngine DailySignals ScopeCheck DelaySim
begin

text \<open>
  \<^bold>\<open>Verification of the entry redesign harness (src/research/entry_redesign) with its timing experiments, and of the backtest engines (src/research/backTest.py).\<close>

  \<^bold>\<open>The program.\<close> The harness evaluates an \<^emph>\<open>entry candidate\<close>, six parameters that say when and at what
  price a breakout is entered, on the events of eleven execution months. \<open>scheduler/pipeline.py\<close> runs one
  candidate: it validates the parameters, builds a snapshot of all inputs, checks the gate snapshot and
  the availability of history, and then, for every split of the walk-forward driver and every event of
  the execution month, asks in turn the trigger detector, the confirmation evaluator, the pre-touch
  gate, the post-touch gate and the price resolver, applies the cost model and writes one ledger row
  per gate mode. From the ledger it computes metrics, decision flags, the invariant report, the summary
  and the attribution table, and writes them as files. A run ends as rejected, aborted or completed.
  \<open>scheduler/run_default_subset.py\<close> runs the default candidates one after the other and reports them.
  The engines of \<open>backTest.py\<close> came before the harness and share nothing with it but the idea of a breakout: they
  replay minute bars or single trades against signal bars, open and close one position at a time, keep a
  balance and log every entry and exit. The experiments below \<open>scripts/\<close> ask \<^emph>\<open>when\<close> after a touch to enter: they simulate
  one trade at a time on bars of one second, search thresholds on a training set and compare with fixed delays.

  \<^bold>\<open>The theories\<close>, in the order of imports; the Python files are below \<open>src/research/entry_redesign\<close>.

  \<^item> \<open>PyFloat\<close>: Python's \<open>float\<close>, that is binary64 with rounding to nearest even, infinities and nan, on
    rational numbers. Lemmas: rounding is monotone, exact on floats, and the arithmetic facts that the
    cost model and the metrics need. Zero has no sign.
  \<^item> \<open>PyBase\<close>: the exceptions (\<open>py_error\<close>), results \<open>'a res = py_error + 'a\<close>, strings, \<open>int(s)\<close>, fixed-point
    formatting, dates and times (\<open>datetime\<close> is a number of microseconds).
  \<^item> \<open>Sha256\<close>, \<open>PyJson\<close>: \<open>hashlib.sha256\<close> on 32-bit words; JSON values, dictionaries in insertion order,
    \<open>json.dumps\<close> and the shortest \<open>repr\<close> of a float; paths.
  \<^item> \<open>EntrySpec\<close>: \<open>spec/entry_candidate_spec.py\<close>, \<open>spec/candidate_id.py\<close>, \<open>scheduler/default_subset.py\<close>.
    Ids are total, well-formed and injective; the default subset is a single-axis scan of 36 candidates.
  \<^item> \<open>Snapshot\<close>: \<open>snapshot/*.py\<close>. The parameter snapshot and its canonical JSON; the abort and rejection
    records.
  \<^item> \<open>Scan\<close>: the locale \<open>first_match\<close> for loops that return at the first hit (interpreted by the detector and
    the post-touch gate), sums, minima and sorting of floats.
  \<^item> \<open>Detector\<close>, \<open>Confirmation\<close>, \<open>Price\<close>: \<open>detector/\<close>, \<open>confirmation/\<close>, \<open>price/\<close>. Each loop refines a
    declarative specification: the earliest touch, a run of N bars, the first pull-back in the window.
  \<^item> \<open>Gates\<close>: \<open>pretouch/\<close>, \<open>posttouch/\<close>, \<open>gate/\<close>. The locale \<open>nested_gate\<close> states that stricter bands keep
    fewer events; both band families interpret it. The gate snapshot loader is a small protocol.
  \<^item> \<open>CostModel\<close>: \<open>cost/\<close>. The locale \<open>cost_ladder\<close> abstracts rounding; binary64 interprets it, which gives
    the ordering of the four profits without any tolerance.
  \<^item> \<open>WalkForward\<close>: \<open>walkforward/\<close>, \<open>oos/\<close>. Month arithmetic, the splits, the availability checks.
  \<^item> \<open>Reports\<close>: \<open>ledger/\<close>, \<open>attribution/\<close>, \<open>ranking/\<close>. The locale \<open>sorted_table\<close> is the contract of the
    two CSV writers: sort, format row by row, fail as a whole.
  \<^item> \<open>Metrics\<close>: \<open>metrics/\<close>, \<open>scheduler/baseline_recompute.py\<close>, \<open>scheduler/decision_flags.py\<close>. The reductions
    of numpy and pandas are the fields of the record \<open>numpy_ops\<close>; what the code relies on is the locale
    \<open>numpy_pandas\<close>, interpreted by the plain left-to-right operations. Nothing is assumed of how the two libraries round a mean.
  \<^item> \<open>Invariants\<close>: \<open>invariants/invariant_checker.py\<close>, \<open>invariants/violations_markdown_writer.py\<close>,
    \<open>summary/\<close>. What the checker finds in the figures of the aggregator: P12 always holds, P9 fails just where the means
    of numpy and pandas differ by more than its tolerance; report and verdict agree; what the summary writer accepts.
  \<^item> \<open>JsonLoads\<close>: \<open>json.loads\<close>, a lexer and a stack parser, and why it inverts \<open>json.dumps\<close>: 17 digits
    determine a float, \<open>repr\<close> is read back exactly, escapes and nesting are undone.
  \<^item> \<open>RoundTrip\<close>: the summary and snapshot files are read back as what was written, up to the order of
    keys and the rounding of floats to fixed-point notation.
  \<^item> \<open>Assertions\<close>: \<open>invariants/assertions.py\<close>. An assertion maps files to an outcome and files; the
    predicate \<open>asserts\<close> is their common contract. They agree with the checker, P6 is exact on windows of
    dates, P8 never complains about a summary of binary64 figures.
  \<^item> \<open>Driver\<close>: \<open>scheduler/run_default_subset.py\<close>. The command that runs the 36 candidates; what it returns and
    which files it leaves, for every input.
  \<^item> \<open>Backtest\<close>, \<open>Enhanced\<close>, \<open>TickStream\<close>, \<open>TickEngine\<close>, \<open>BacktestStats\<close>, \<open>DailySignals\<close>: the engines of
    \<open>src/research/backTest.py\<close>, which the candidates of the harness were first explored with. A frame is the
    list of its rows, the state of a loop a record, an exception a \<open>py_error\<close>. \<open>Backtest\<close> has the rules of the
    breakout strategy and the minute engine; its log pairs entries and exits. \<open>Enhanced\<close> adds trailing stop,
    profit tiers and drawdown breaker; the locale \<open>timed_invariant\<close> lifts what every bar keeps to a whole run,
    and its interpretation gives that the log explains the balance. \<open>TickStream\<close> condenses a file of trades
    into events, \<open>TickEngine\<close> replays them and is proved to be the enhanced engine on flat bars.
    \<open>BacktestStats\<close> has the figures of a log, \<open>DailySignals\<close> the daily signal bars, with the locale \<open>rolling\<close>
    for the rolling mean of pandas.
  \<^item> \<open>Substring\<close>, \<open>ScopeCheck\<close>: \<open>scope_check/\<close>. Regular expressions are a datatype with a match relation; the scanners are
    proved to report every occurrence, ripgrep (a parameter) and the Python fallback to agree on several
    files and to differ on a single one.
  \<^item> \<open>Stops\<close>: the order of stops seen from a position, and the locale \<open>first_best\<close> for a search that keeps the first
    best candidate; \<open>best_of\<close>, the loop of the grid searches, interprets it.
  \<^item> \<open>ExecSim\<close>: \<open>scripts/dynamic_timing/execution_sim.py\<close>. One position on bars of one second: its stop only tightens, a
    stopped trade does not depend on later bars, every trade ends in time.
  \<^item> \<open>DynTiming\<close>: \<open>feature_engine.py\<close>, \<open>regime_classifier.py\<close>, \<open>pullback_monitor.py\<close> and the decision loop of
    \<open>dynamic_entry_timing_runner.py\<close>. The pull-back scan interprets \<open>first_match\<close>. Decisions use no later bars; with the constant
    flow features five thresholds decide nothing.
  \<^item> \<open>TimingSearch\<close>: \<open>data_layer.py\<close> and the rest of the runner: calendar sum, grid search, sensitivity, evaluation. What the search
    can find rests on \<open>first_best\<close>.
  \<^item> \<open>DelaySim\<close>: \<open>scripts/pre_breakout_timing/\<close> and \<open>scripts/path_c_unified/\<close>: fixed delays, labels, validation. A classifier is a
    parameter, from training rows, training labels and a row to a label. A constant classifier scores as the baseline does.
  \<^item> \<open>Pipeline\<close>: \<open>scheduler/pipeline.py\<close>. Operations on files are functions of type \<open>'a io\<close> from files to
    a result and files; the files written before an exception stay. Lemmas: totality of every step,
    soundness of the rows, which files a run touches.
  \<^item> This theory: the properties of whole runs.

  \<^bold>\<open>State.\<close> The files are a map from paths to contents. The resolver's context (\<open>set_context\<close>) and the
  loader's loaded flag are fields of records that the operations return updated. Every \<open>raise\<close> is a value
  of \<open>py_error\<close>, and \<open>try\<close> blocks are case distinctions on it. The caller's \<open>EventsLoader\<close> is a record of
  functions, a parameter of the pipeline. A data frame of trades is the list of its rows; all columns
  are always present (\<open>_trades_to_dataframe\<close>).

  \<^bold>\<open>Termination.\<close> There is no fuel: every loop is structural or has a measure (months until the end of the
  window, remaining input), and the month loops stop with \<open>ValueError\<close> at the end of the calendar, as
  \<open>datetime.date\<close> does. The search for the shortest representation of a float is bounded by 17 digits,
  which always suffice for binary64.

  \<^bold>\<open>Not modelled.\<close> Failures of the operating system while writing (full disk, permissions); the sign of
  zero; overflow of \<open>timedelta\<close>; text outside ASCII in inputs (constant non-ASCII text is given by its
  UTF-8 bytes); the compensated summation that \<open>sum\<close> uses for floats from Python 3.12 on (the model adds
  from left to right, as 3.9 to 3.11 do); the rounding order inside numpy and pandas, which is a parameter.
  Of the experiments below \<open>scripts/\<close>, the bootstrap (random numbers of numpy), the training of scikit-learn models, the output files
  and report texts, and the experiments other than those named above. Of \<open>backTest.py\<close>, the functions that print tables and draw plots.
\<close>

section \<open>A small market for the witnesses\<close>

definition sample_config :: pipeline_config where
  "sample_config =
     \<lparr>pc_seed = 42, pc_git_commit_sha = ''abc'', pc_events_source_path = ''events.csv'',
      pc_events_source_sha256 = ''def'', pc_runner_version = ''entry_redesign_runner_v1.0.0'',
      pc_output_dir = ''research'', pc_project_root = ''.'',
      pc_tick_size_by_symbol = [(''BTCUSDT'', fl (1 / 10)), (''ETHUSDT'', fl (1 / 100))],
      pc_step_size_by_symbol = [(''BTCUSDT'', fl (1 / 1000)), (''ETHUSDT'', fl (1 / 1000))],
      pc_atr14_source_path = ''atr.csv'', pc_atr14_source_sha256 = ''0'',
      pc_gate_snapshot_expected_sha256 = None, pc_validation_metrics = None,
      pc_aborted_at_utc_ms = ''1970-01-01T00:00:00.000Z''\<rparr>"

text \<open>One event in June 2025 whose second bar touches the level.\<close>

definition sample_loader :: events_loader where
  "sample_loader =
     \<lparr>load_events = (\<lambda>a b. if a = (2025, 6, 1) then [sample_event] else []),
      get_onesec_window = (\<lambda>ev. [sample_bar 1 99 98, sample_bar 2 100 99, sample_bar 3 105 101]),
      get_trades_window = (\<lambda>ev. []),
      get_hourly_history = (\<lambda>ev. None),
      get_posttouch_onesec_window = (\<lambda>ev t. []),
      get_posttouch_trades_window = (\<lambda>ev t. []),
      get_exit_info = (\<lambda>ev p. \<lparr>ei_exit_ts = seconds 60, ei_exit_price = Fin 101,
                         ei_exit_reason = ''signal_exit'', ei_raw_pnl = Fin 50, ei_notional = Fin 10000\<rparr>)\<rparr>"

definition sample_trades :: "trade_record list res" where
  "sample_trades = execute_walkforward BASELINE sample_snapshot sample_config (Some sample_loader)"

lemma sample_candidate [simp]: "candidate sample_snapshot = BASELINE"
  by (simp add: sample_snapshot_def)

lemma sample_ticks [simp]: "tick_size_by_symbol (symbol_filters sample_snapshot) \<noteq> []"
  by (simp add: sample_snapshot_def)

lemma baseline_known [simp]: "known_ids BASELINE"
  by code_simp

lemma sample_exit_good: "good_exit (get_exit_info sample_loader ev p)"
proof -
  have "is_f64 (Fin 50)" by code_simp
  then show ?thesis by (simp add: sample_loader_def good_exit_def)
qed

text \<open>The two rows of the sample ledger.\<close>

lemma walk_splits_quiet:
  "\<forall>sp \<in> set ss. load_events (we_loader env) (execute_start sp) (execute_end sp) = []
   \<Longrightarrow> walk_splits env r ss = Inr []"
  by (induction ss) auto

definition sample_ledger_row :: "string \<Rightarrow> string \<Rightarrow> string \<Rightarrow> trade_record" where
  "sample_ledger_row cid mode reason =
     \<lparr>tr_entry_ts = 2000000, tr_exit_ts = 60000000, tr_symbol = ''ETHUSDT'', tr_side = ''long'',
      tr_entry_price = Fin 100, tr_exit_price = Fin 101, tr_notional = Fin 10000, tr_raw_pnl = Fin 50,
      tr_slip_pnl = Fin 46, tr_realistic_pnl = Fin 40, tr_realistic_taker_both_pnl = Fin 38,
      tr_exit_reason = reason, tr_entry_candidate_id = cid, tr_gate_mode = mode, tr_signal_bar_start_ts = 0,
      tr_trigger_ts = 2000000, tr_entry_delay_seconds = 0, tr_feature_horizon_seconds = 0,
      tr_trigger_confirmation_id = ''none'', tr_entry_price_mode_id = ''market_on_touch'',
      tr_pretouch_state_band_id = ''none'', tr_posttouch_quality_band_id = ''none''\<rparr>"

lemma sample_costs:
  "apply_cost \<lparr>rt_raw_pnl = Fin 50, rt_notional = Fin 10000, rt_entry_price = Fin 100, rt_exit_price = Fin 101,
      rt_symbol = ''ETHUSDT'', rt_side = ''long''\<rparr> BASELINE_COST_PARAMS =
   \<lparr>pt_raw_pnl = Fin 50, pt_notional = Fin 10000, pt_entry_price = Fin 100, pt_exit_price = Fin 101,
    pt_symbol = ''ETHUSDT'', pt_side = ''long'', pt_slip_pnl = Fin 46, pt_realistic_pnl = Fin 40,
    pt_realistic_taker_both_pnl = Fin 38\<rparr>"
  by code_simp

lemma sample_rows:
  obtains cid where "sample_trades =
    Inr [sample_ledger_row cid ''nogate'' ''signal_exit'', sample_ledger_row cid ''gate001'' ''gate_rejected'']"
proof -
  obtain cid where cid: "generate_candidate_id BASELINE = Inr cid"
    using baseline_known known_ids_iff by (auto simp: generate_candidate_id_eq)
  define env where "env = wf_env_of cid BASELINE sample_snapshot sample_config
    \<lparr>pg_band_id = ''none'', pg_tick_size = fl (1 / 100), pg_check_type = ''none'', pg_threshold = Fin 0\<rparr> sample_loader"
  have months: "list_all (\<lambda>i. month_of_index i \<noteq> (2025, 6, 1)) [24306..24315]" "month_of_index 24305 = (2025, 6, 1)"
    by code_simp+
  let ?fill = "fill (Fin 100) 2000000"
  let ?t = "\<lparr>td_trigger_ts = 2000000, td_side = ''long'', td_level = Fin 100\<rparr>"
  define t u where "t = sample_ledger_row cid ''nogate'' ''signal_exit''"
    and "u = sample_ledger_row cid ''gate001'' ''gate_rejected''"
  have rejected: "\<not> evaluate_gate001 GATE_001_THRESHOLDS default_validation_metrics" by code_simp
  have tu: "record_entry env sample_event ?t ?fill = Inr [t, u]"
    by (simp add: record_entry_eq Let_def make_trade_record_def t_def u_def sample_ledger_row_def env_def
        wf_env_of_def sample_loader_def sample_event_def sample_config_def BASELINE_def rejected sample_costs seconds_def)
  have step: "process_event env r sample_event = Inr ([t, u], set_context (Fin 4) ''ETHUSDT'' r)"
    if "pr_snapshot r = sample_snapshot" for r
    using tu that
    by (simp add: process_event_def env_def wf_env_of_def sample_loader_def sample_event_def sample_bar_def detect_def
        evaluate_confirmation_def evaluate_none_def pretouch_allow_def posttouch_allow_def resolve_def
        resolve_market_on_touch_def BASELINE_def seconds_def set_context_def Let_def)
  obtain splits where splits: "iter_splits = Inr (split_of_index 24305 # splits)"
    and quiet: "\<forall>sp \<in> set splits. execute_start sp \<noteq> (2025, 6, 1)"
  proof
    have "[24305..24315] = 24305 # [24306..24315 :: int]" by (simp add: upto_rec1)
    then show "iter_splits = Inr (split_of_index 24305 # map split_of_index [24306..24315])"
      by (simp only: iter_splits_eq list.map)
    show "\<forall>sp \<in> set (map split_of_index [24306..24315]). execute_start sp \<noteq> (2025, 6, 1)"
      using months(1) by (simp only: set_map ball_simps list_all_iff) (simp add: split_of_index_def)
  qed
  have "walk_splits env r splits = Inr []" for r
    using quiet by (intro walk_splits_quiet) (simp add: env_def sample_loader_def)
  moreover have "load_events (we_loader env) (execute_start (split_of_index 24305)) d = [sample_event]" for d
    using months(2) by (simp add: env_def sample_loader_def split_of_index_def)
  ultimately have "walk_splits env (new_resolver sample_snapshot) (split_of_index 24305 # splits) = Inr [t, u]"
    using step by (simp add: new_resolver_def)
  moreover have "get_primary_tick_size sample_config = Inr (fl (1 / 100))"
    by (simp add: get_primary_tick_size_def sample_config_def dict_has_def dict_item_def Let_def)
  moreover have "new_posttouch_gate (posttouch_quality_band_id BASELINE) (fl (1 / 100)) = Inr
      \<lparr>pg_band_id = ''none'', pg_tick_size = fl (1 / 100), pg_check_type = ''none'', pg_threshold = Fin 0\<rparr>"
    by (simp add: new_posttouch_gate_def BASELINE_def Let_def)
  ultimately have "sample_trades = Inr [t, u]"
    unfolding sample_trades_def execute_walkforward_def env_def wf_env_of_def splits cid
    by (simp only: res_bind_Inr option.case)
  then show thesis using that t_def u_def by blast
qed

section \<open>Files of a run\<close>

text \<open>
  C3. A run that returns has written the files of exactly one of three outcomes. A rejected
  candidate leaves its rejection record and nothing else, an aborted run its abort record and nothing
  else, and neither result names an artifact. A completed run has written its ledger, summary,
  attribution and snapshot, for a candidate with both bands also the two ablation ledgers; the result
  names exactly these files and no other file has changed.
\<close>

theorem run_artifacts:
  assumes "run_pipeline ops dir spec config loader bl fs = (Inr r, fs')"
  shows "res_status r = ''rejected'' \<and> result_paths r = []
           \<and> writes_exactly {rejected_path dir (res_candidate_id r)} fs fs'
       \<or> res_status r = ''aborted'' \<and> result_paths r = []
           \<and> writes_exactly {aborted_path dir (res_candidate_id r)} fs fs'
       \<or> res_status r = ''completed'' \<and> result_paths r = completed_paths dir spec (res_candidate_id r)
           \<and> writes_exactly (set (result_paths r)) fs fs'"
  using assms
proof (cases rule: run_pipeline_cases)
  case rejected
  then show ?thesis using handle_reject_files by blast
next
  case (aborted cid reason mm)
  then show ?thesis using handle_abort_files by metis
next
  case (completed cid snapshot ref)
  then show ?thesis using run_completed_files by metis
qed

text \<open>A candidate with a feature horizon beyond its delay is rejected.\<close>

lemma sample_rejected:
  obtains r fs' where
    "run_pipeline ref_numpy ''research'' (BASELINE\<lparr>feature_horizon_seconds := 5\<rparr>) sample_config None None Map.empty
       = (Inr r, fs')" "res_status r = ''rejected''"
proof -
  let ?s = "BASELINE\<lparr>feature_horizon_seconds := 5\<rparr>"
  have "known_ids ?s" by code_simp
  then obtain cid where cid: "generate_candidate_id ?s = Inr cid"
    using known_ids_iff by (auto simp: generate_candidate_id_eq)
  have v: "validate ?s = Inl (InvalidCandidateError ''H_gt_D'')" by code_simp
  show thesis
    by (rule that [where r = "rejected_result cid ''H_gt_D''"]) (simp_all add: run_pipeline_def try_validate_def v cid handle_reject_def io_bind_def io_res_def
        io_writer_def io_return_def write_rejected_def VALID_REJECT_REASONS_def Let_def rejected_result_def)
qed

theorem run_artifacts_witness:
  "\<exists>r fs'. run_pipeline ref_numpy ''research'' (BASELINE\<lparr>feature_horizon_seconds := 5\<rparr>) sample_config None None
       Map.empty = (Inr r, fs')
     \<and> writes_exactly {rejected_path ''research'' (res_candidate_id r)} Map.empty fs'"
proof -
  obtain r fs' where r: "run_pipeline ref_numpy ''research'' (BASELINE\<lparr>feature_horizon_seconds := 5\<rparr>) sample_config
      None None Map.empty = (Inr r, fs')" "res_status r = ''rejected''"
    by (rule sample_rejected)
  then show ?thesis using run_artifacts [OF r(1)] by auto
qed

text \<open>
  A run that returns has rejected its candidate exactly if the static validation of
  the candidate fails.
\<close>

theorem run_rejects_iff:
  assumes "run_pipeline ops dir spec config loader bl fs = (Inr r, fs')"
  shows "res_status r = ''rejected'' \<longleftrightarrow> validate spec \<noteq> Inr ()"
  using assms
proof (cases rule: run_pipeline_cases)
  case rejected
  then show ?thesis
    using handle_reject_files(1) generate_candidate_id_errors [of spec]
    by (auto simp: try_validate_def validate_def split: sum.splits py_error.splits if_splits)
next
  case (aborted cid reason mm)
  then show ?thesis
    using handle_abort_files(1) by (auto simp: try_validate_def validate_def split: if_splits)
next
  case (completed cid snapshot ref)
  then show ?thesis
    using run_completed_files by (auto simp: try_validate_def validate_def split: if_splits)
qed

theorem run_rejects_iff_witness:
  "\<exists>r fs'. run_pipeline ref_numpy ''research'' (BASELINE\<lparr>feature_horizon_seconds := 5\<rparr>) sample_config None None
       Map.empty = (Inr r, fs') \<and> validate (BASELINE\<lparr>feature_horizon_seconds := 5\<rparr>) \<noteq> Inr ()"
proof -
  obtain r fs' where r: "run_pipeline ref_numpy ''research'' (BASELINE\<lparr>feature_horizon_seconds := 5\<rparr>) sample_config
      None None Map.empty = (Inr r, fs')" "res_status r = ''rejected''"
    by (rule sample_rejected)
  then show ?thesis using run_rejects_iff [OF r(1)] by auto
qed

section \<open>The ledger of a run\<close>

text \<open>
  C5. The walk-forward loop raises nothing for a candidate whose six fields are in the
  token tables, provided the snapshot has a tick size: whatever events, bars and trades the loader
  supplies (empty windows, missing history, \<open>nan\<close> prices), every event is either skipped or priced,
  and the loop returns a ledger.
\<close>

theorem walkforward_total:
  assumes "known_ids spec" and "candidate snapshot = spec"
    and "tick_size_by_symbol (symbol_filters snapshot) \<noteq> []"
  shows "\<exists>trades. execute_walkforward spec snapshot config loader = Inr trades"
  using execute_walkforward_ok [OF assms] by (simp add: ok_iff)

theorem walkforward_total_witness:
  "\<exists>trades. execute_walkforward BASELINE sample_snapshot sample_config (Some sample_loader) = Inr trades"
  by (rule walkforward_total) simp_all

text \<open>
  C2. Every row of a ledger comes from an event that the loader returned for one of the
  execution months: the detector triggered on the event's bars, the confirmation and the pre-touch
  gate accepted it, the row carries the event's symbol, side and signal bar and the detector's
  trigger time, and its entry lies between the trigger and the trigger plus the delay.
\<close>

theorem walkforward_sound:
  assumes "execute_walkforward spec snapshot config (Some l) = Inr trades" and "t \<in> set trades"
    and "0 \<le> entry_delay_seconds (candidate snapshot)"
  shows "\<exists>splits sp ev. iter_splits = Inr splits \<and> sp \<in> set splits
    \<and> ev \<in> set (load_events l (execute_start sp) (execute_end sp))
    \<and> row_from_event spec snapshot l ev t"
proof -
  let ?Q = "\<lambda>ts. \<forall>t \<in> set ts. \<exists>splits sp ev. iter_splits = Inr splits \<and> sp \<in> set splits
    \<and> ev \<in> set (load_events l (execute_start sp) (execute_end sp)) \<and> row_from_event spec snapshot l ev t"
  have "?Q trades"
    using assms(1)
  proof (rule execute_walkforward_closed)
    fix l' candidate_id gate splits sp r ev ts r'
    assume l: "Some l = Some l'" and sp: "iter_splits = Inr splits" "sp \<in> set splits"
      "ev \<in> set (load_events l' (execute_start sp) (execute_end sp))" and r: "pr_snapshot r = snapshot"
      and p: "process_event (wf_env_of candidate_id spec snapshot config gate l') r ev = Inr (ts, r')"
    have "row_from_event spec snapshot l ev t" if "t \<in> set ts" for t
      using process_event_sound [OF p _ _ that] r assms(3) l by simp
    then show "?Q ts" using sp l by blast
  qed auto
  then show ?thesis using assms(2) by blast
qed

theorem walkforward_sound_witness:
  "\<exists>t trades. execute_walkforward BASELINE sample_snapshot sample_config (Some sample_loader) = Inr (t # trades)
     \<and> row_from_event BASELINE sample_snapshot sample_loader sample_event t"
proof -
  obtain t ts where t: "sample_trades = Inr (t # ts)" using sample_rows by blast
  have "\<exists>splits sp ev. iter_splits = Inr splits \<and> sp \<in> set splits
    \<and> ev \<in> set (load_events sample_loader (execute_start sp) (execute_end sp))
    \<and> row_from_event BASELINE sample_snapshot sample_loader ev t"
    by (rule walkforward_sound [OF t [unfolded sample_trades_def]]) (simp_all add: BASELINE_def)
  then show ?thesis using t by (auto simp: sample_loader_def sample_trades_def split: if_splits)
qed

text \<open>
  C8. The rows of a ledger come in pairs that agree in everything but gate
  mode and exit reason, and the aggregator reads neither: for every figure, the value under
  \<open>gate001\<close> is the value under \<open>nogate\<close>, whether or not the gate passed. So the gate has no effect on
  any reported figure.
\<close>

theorem gate_modes_indistinguishable:
  assumes "numpy_pandas ops" and "execute_walkforward spec snapshot config loader = Inr trades"
    and "aggregate ops trades total_silos = Inr m"
  shows "dict_get m (''gate001_'' @ k) = dict_get m (''nogate_'' @ k)"
  using numpy_pandas.gate_modes_same_metrics [OF assms(1) walkforward_pairs [OF assms(2)] assms(3)] by simp

text \<open>The stages of the sample run up to the verdict.\<close>

lemma sample_run:
  obtains trades metrics summary violations where
    "execute_walkforward BASELINE sample_snapshot sample_config (Some sample_loader) = Inr trades"
    "aggregate ref_numpy trades 22 = Inr metrics"
    "build_summary ref_numpy metrics [(''path'', ''p''), (''sha256'', ''unavailable'')] trades None = Inr summary"
    "check_invariants ref_numpy trades summary = Inr violations"
    "\<And>mode. \<not> mode_means_differ ref_numpy trades mode"
proof -
  let ?ref = "[(''path'', ''p''), (''sha256'', ''unavailable'')]"
  obtain cid where rows: "sample_trades =
      Inr [sample_ledger_row cid ''nogate'' ''signal_exit'', sample_ledger_row cid ''gate001'' ''gate_rejected'']"
    (is "_ = Inr ?ts") by (rule sample_rows)
  note run = rows [unfolded sample_trades_def]
  have "filter negative (returns ref_numpy tr_realistic_pnl ?ts) = []" "filter negative (map tr_realistic_pnl ?ts) = []"
    by code_simp+
  then have "filter negative (returns ref_numpy tr_realistic_pnl (filter P ?ts)) = []"
    "filter negative (map tr_realistic_pnl (filter P ?ts)) = []" for P
    unfolding filter_empty_conv returns_def set_map set_filter by blast+
  then have agg: "ok (aggregate ref_numpy (filter P ?ts) n)" for P n
    by (rule aggregate_ok) (simp add: ref_numpy_def py_sum_def)
  obtain m where m: "aggregate ref_numpy ?ts 22 = Inr m" using agg [of "\<lambda>_. True"] by (auto simp: ok_iff)
  have "ok (build_summary ref_numpy m ?ref ?ts None)"
    by (intro build_summary_ok aggregate_typed [OF m] aggregate_distinct [OF m])
       (unfold compute_symbol_metrics_def Let_def, intro ok_intros agg)
  then obtain s where s: "build_summary ref_numpy m ?ref ?ts None = Inr s" by (auto simp: ok_iff)
  have rows_ok: "list_all row_ok ?ts" by (rule walkforward_rows_ok [OF run]) (simp add: sample_exit_good)
  have agree: "\<not> mode_means_differ ref_numpy ?ts mode" for mode
    using rows_ok_returns [OF ref.numpy_pandas_axioms rows_ok] unfolding mode_means_differ_def
    by (intro ref_means_agree) (auto simp: returns_def)
  have "check_p9 ref_numpy ?ts s = Inr 0" "check_p12 s = Inr 0"
    using summary_figures_counted [OF m s rows_ok_checks(2) [OF rows_ok]] agree by simp_all
  then show thesis using that [OF run m s _ agree] by (simp add: check_invariants_def)
qed

theorem gate_modes_indistinguishable_witness:
  "\<exists>trades m. execute_walkforward BASELINE sample_snapshot sample_config (Some sample_loader) = Inr trades
     \<and> aggregate ref_numpy trades 22 = Inr m \<and> dict_get m ''gate001_win_rate'' = dict_get m ''nogate_win_rate''"
proof (rule sample_run)
  fix trades m s v
  assume t: "execute_walkforward BASELINE sample_snapshot sample_config (Some sample_loader) = Inr trades"
    and m: "aggregate ref_numpy trades 22 = Inr m"
  show ?thesis
    using gate_modes_indistinguishable [OF ref.numpy_pandas_axioms t m, of "''win_rate''"] t m by auto
qed

section \<open>The verdict on a run\<close>

text \<open>
  C1. If the loader supplies exits with a profit that is a float below plus infinity and a
  positive finite notional, and the ledger, the metrics, the summary and the check of a run are
  produced without an error, then the verdict is decided by two things alone: P3, the bound on the
  trades per signal bar, and whether for some gate mode the mean that numpy takes of the returns and
  the mean that pandas takes of the same returns differ by more than the checker's tolerance (P9).
  The cost ladder (P4), the silo count (P12), the absence of live output (P10) and the rest of P9 (the
  presence of the figures, the trade counts, the rows used and the zero notionals) hold by
  construction. Nothing is assumed of numpy and pandas.
\<close>

theorem run_verdict:
  assumes "execute_walkforward spec snapshot config loader = Inr trades"
    and "\<And>l ev p. loader = Some l \<Longrightarrow> good_exit (get_exit_info l ev p)"
    and "aggregate ops trades 22 = Inr metrics"
    and "build_summary ops metrics ref trades bl = Inr summary"
    and "check_invariants ops trades summary = Inr violations"
  shows "has_violations violations =
    Inr (0 < check_p3 trades \<or> mode_means_differ ops trades ''nogate'' \<or> mode_means_differ ops trades ''gate001'')"
proof -
  note checks = rows_ok_checks [OF walkforward_rows_ok [OF assms(1,2)]]
  show ?thesis
    using summary_figures_counted [OF assms(3,4) checks(2)] assms(5) checks(1)
      build_summary_get(3) [OF assms(4) aggregate_distinct [OF assms(3)]]
    by (auto simp: check_invariants_def violations_dict_simps of_bool_def)
qed

text \<open>
  C39. The summary that a run builds always has the shape its writer demands, so writing
  it never raises: the top-level fields are all present and the violations have the thirteen fields.
\<close>

theorem summary_accepted:
  assumes "aggregate ops trades 22 = Inr metrics" and "build_summary ops metrics ref trades bl = Inr summary"
    and "check_invariants ops trades summary = Inr violations"
  shows "\<exists>fs'. write_summary (dict_set summary ''invariant_violations'' (JDict violations)) path fs = Inr fs'"
  by (rule write_summary_ok [OF assms])

theorem run_verdict_witness:
  "\<exists>trades metrics summary violations.
     execute_walkforward BASELINE sample_snapshot sample_config (Some sample_loader) = Inr trades
     \<and> aggregate ref_numpy trades 22 = Inr metrics
     \<and> build_summary ref_numpy metrics [(''path'', ''p''), (''sha256'', ''unavailable'')] trades None = Inr summary
     \<and> check_invariants ref_numpy trades summary = Inr violations
     \<and> has_violations violations = Inr (0 < check_p3 trades)"
proof (rule sample_run)
  fix trades m s v
  assume agree: "\<And>mode. \<not> mode_means_differ ref_numpy trades mode"
  assume run: "execute_walkforward BASELINE sample_snapshot sample_config (Some sample_loader) = Inr trades"
    "aggregate ref_numpy trades 22 = Inr m"
    "build_summary ref_numpy m [(''path'', ''p''), (''sha256'', ''unavailable'')] trades None = Inr s"
    "check_invariants ref_numpy trades s = Inr v"
  have "has_violations v = Inr (0 < check_p3 trades)"
    using run_verdict [OF run(1) _ run(2-4)] sample_exit_good agree by simp
  then show ?thesis using run by blast
qed

theorem summary_accepted_witness:
  "\<exists>trades summary violations fs'.
     execute_walkforward BASELINE sample_snapshot sample_config (Some sample_loader) = Inr trades
     \<and> check_invariants ref_numpy trades summary = Inr violations
     \<and> write_summary (dict_set summary ''invariant_violations'' (JDict violations)) ''s.json'' Map.empty = Inr fs'"
  by (rule sample_run) (use summary_accepted in blast)

section \<open>What the reports do not show\<close>

lemma attribution_row_facts:
  assumes "attribution_row_of ops df m bl spec symbol ym = Inr r"
  shows "attribution_key r = (symbol, ym)"
    and "dict_get r ''baseline_delta_nogate_realistic_pnl_pct'' = dict_get r ''nogate_realistic_pnl_pct''"
    and "dict_get r ''baseline_delta_nogate_per_trade_quality_bps_over_notional''
       = dict_get r ''nogate_per_trade_quality_bps_over_notional''"
proof -
  have f64: "is_f64 (fst (snd (silo_figures ops rows)))" "is_f64 (snd (snd (silo_figures ops rows)))" for rows
    by (auto simp: silo_figures_def Let_def is_f64_Fin)
  obtain n p q where figs: "silo_figures ops (filter (\<lambda>t. tr_gate_mode t = ''nogate'') (filter (in_silo symbol ym) df))
      = (n, p, q)" by (cases "silo_figures ops (filter (\<lambda>t. tr_gate_mode t = ''nogate'') (filter (in_silo symbol ym) df))")
  have "is_f64 p" "is_f64 q" using f64 [of "filter (\<lambda>t. tr_gate_mode t = ''nogate'') (filter (in_silo symbol ym) df)"]
    by (simp_all only: figs fst_conv snd_conv)
  then show "attribution_key r = (symbol, ym)"
    and "dict_get r ''baseline_delta_nogate_realistic_pnl_pct'' = dict_get r ''nogate_realistic_pnl_pct''"
    and "dict_get r ''baseline_delta_nogate_per_trade_quality_bps_over_notional''
       = dict_get r ''nogate_per_trade_quality_bps_over_notional''"
    using assms unfolding attribution_row_of_def Let_def figs
    by (auto simp: res_bind_eq_Inr_iff attribution_key_def dict_get_def split: prod.splits)
qed

text \<open>
  The attribution table has one row for each of the 22 silos, in the
  order of symbols and months. Whatever baseline trades are given, the two columns that should hold the
  difference to the baseline repeat the candidate's own figures: the baseline's figures per silo are
  never computed.
\<close>

theorem attribution_ignores_baseline:
  assumes "build_attribution_rows ops df m bl spec = Inr rows"
  shows "map attribution_key rows = List.product silo_symbols silo_months \<and> length rows = 22
    \<and> list_all (\<lambda>r. dict_get r ''baseline_delta_nogate_realistic_pnl_pct'' = dict_get r ''nogate_realistic_pnl_pct''
        \<and> dict_get r ''baseline_delta_nogate_per_trade_quality_bps_over_notional''
          = dict_get r ''nogate_per_trade_quality_bps_over_notional'') rows"
proof -
  let ?silos = "List.product silo_symbols silo_months"
  have len: "length rows = length ?silos"
    using assms unfolding build_attribution_rows_def by (rule res_map_length)
  have row: "attribution_row_of ops df m bl spec (fst (?silos ! i)) (snd (?silos ! i)) = Inr (rows ! i)"
    if "i < length rows" for i
    using res_map_nth [OF assms [unfolded build_attribution_rows_def], of i] that len by (simp add: case_prod_beta)
  have "map attribution_key rows = ?silos"
    using attribution_row_facts(1) [OF row] len by (intro nth_equalityI) simp_all
  moreover have "length ?silos = 22" by code_simp
  ultimately show ?thesis
    using attribution_row_facts(2,3) [OF row] len by (auto simp: list_all_length)
qed

theorem attribution_ignores_baseline_witness:
  "\<exists>rows. build_attribution_rows ref_numpy [] [] (Some [sample_trade 1 ''nogate'']) BASELINE = Inr rows
     \<and> length rows = 22"
proof -
  have "ok (attribution_row_of ref_numpy [] [] bl BASELINE symbol ym)" for bl symbol ym
    by (simp add: attribution_row_of_def silo_figures_def determine_layer_dependency_def BASELINE_def dict_get_def ok_def
        Let_def)
  then have "\<exists>rows. build_attribution_rows ref_numpy [] [] (Some [sample_trade 1 ''nogate'']) BASELINE = Inr rows"
    unfolding build_attribution_rows_def by (intro res_map_ex) (auto simp: ok_iff)
  then obtain rows where
    rows: "build_attribution_rows ref_numpy [] [] (Some [sample_trade 1 ''nogate'']) BASELINE = Inr rows" by blast
  then show ?thesis using attribution_ignores_baseline [OF rows] by blast
qed

text \<open>
  A run without an events loader, which is how the driver of the default subset
  starts every run, never trades: if it completes, its ledger file holds the header and nothing else.
\<close>

theorem no_loader_no_trades:
  assumes "run_pipeline ops dir spec config None bl fs = (Inr r, fs')" and "res_status r = ''completed''"
  shows "fs' (get_ledger_path dir (res_candidate_id r)) = Some (str_join '','' LEDGER_HEADER @ nl)"
  using assms(1)
proof (cases rule: run_pipeline_cases)
  case rejected
  then show ?thesis using handle_reject_files(1) assms(2) by fastforce
next
  case (aborted cid reason mm)
  then show ?thesis using handle_abort_files(1) assms(2) by fastforce
next
  case (completed cid snapshot ref)
  have id: "res_candidate_id r = cid" using run_completed_files [OF completed(5)] by simp
  from completed(5) show ?thesis
  proof (cases rule: run_completed_stages)
    case (1 trades metrics summary violations rows fs1 fs2 fs3 fs4 u pq)
    have "trades = []" using 1(1) by (auto simp: execute_walkforward_def res_bind_eq_Inr_iff)
    then have "fs1 (get_ledger_path dir cid) = Some (str_join '','' LEDGER_HEADER @ nl)"
      using 1(2) by (auto simp: write_ledger_def ledger_content_def)
    moreover have "get_ledger_path dir cid \<notin> {get_summary_path dir cid} \<union> {get_attribution_path dir cid}
      \<union> {get_snapshot_path dir cid} \<union> set (drop 4 (completed_paths dir spec cid))"
      by (auto simp: get_ledger_path_def get_summary_path_def get_attribution_path_def get_snapshot_path_def
          artifact_path_def completed_paths_def ablation_pretouch_path_def ablation_posttouch_path_def)
    moreover have "writes_exactly ({get_summary_path dir cid} \<union> {get_attribution_path dir cid}
      \<union> {get_snapshot_path dir cid} \<union> set (drop 4 (completed_paths dir spec cid))) fs1 fs'"
      using write_summary_writes [OF 1(6)] write_attribution_writes [OF 1(8)]
        write_snapshot_writes [OF 1(9)] ablation_stage(2) [OF 1(10)] by (meson writes_exactly_trans)
    ultimately show ?thesis unfolding id writes_exactly_def by metis
  qed
qed

text \<open>A completed run: the event file covers March 2025 to March 2026 and no gate snapshot is expected.\<close>

definition sample_history :: string where
  "sample_history = str_join nl
     [''entry_ts'', ''2025-03-01'', ''2025-04-01'', ''2025-05-01'', ''2025-06-01'', ''2025-07-01'', ''2025-08-01'',
      ''2025-09-01'', ''2025-10-01'', ''2025-11-01'', ''2025-12-01'', ''2026-01-01'', ''2026-02-01'', ''2026-03-01'']"

lemma sample_completed:
  obtains r fs' where "run_pipeline ref_numpy ''research'' BASELINE sample_config None None
      [''events.csv'' \<mapsto> sample_history] = (Inr r, fs')" and "res_status r = ''completed''"
proof -
  let ?fs = "[''events.csv'' \<mapsto> sample_history]" and ?p = "path_join ''.'' DEFAULT_SNAPSHOT_PATH"
  let ?ref = "[(''path'', ?p), (''sha256'', ''unavailable'')]"
  obtain cid where cid: "generate_candidate_id BASELINE = Inr cid"
    using baseline_known known_ids_iff by (auto simp: generate_candidate_id_eq)
  have v: "validate BASELINE = Inr ()" by code_simp
  have "ok (build_snapshot BASELINE sample_config)" by code_simp
  then obtain snap where snap: "build_snapshot BASELINE sample_config = Inr snap" by (auto simp: ok_iff)
  have gate: "load_gate_snapshot ?fs sample_config = Inr (Some ?ref)"
    by (simp add: load_gate_snapshot_def load_snapshot_def new_loader_def sample_config_def Let_def path_join_def
        DEFAULT_SNAPSHOT_PATH_def)
  have hist: "history_missing ?fs sample_config = Inr False" by code_simp
  have "candidate snap = BASELINE" "tick_size_by_symbol (symbol_filters snap) \<noteq> []"
    using snap by (auto simp: build_snapshot_def post_init_def sample_config_def split: if_splits)
  then have wf: "execute_walkforward BASELINE snap sample_config None = Inr []"
    using execute_walkforward_ok [of BASELINE snap sample_config None]
    by (auto simp: ok_iff execute_walkforward_def res_bind_eq_Inr_iff)
  obtain c where c: "ledger_content [] = Inr c" by (simp add: ledger_content_def)
  have "ok (aggregate ref_numpy [] 22)"
    by (rule aggregate_ok) (simp_all add: returns_def ref_numpy_def py_sum_def)
  then obtain m where m: "aggregate ref_numpy [] 22 = Inr m" by (auto simp: ok_iff)
  have "ok (build_summary ref_numpy m ?ref [] None)"
    by (intro build_summary_ok aggregate_typed [OF m] aggregate_distinct [OF m])
       (simp add: compute_symbol_metrics_def ok_def)
  then obtain s where s: "build_summary ref_numpy m ?ref [] None = Inr s" by (auto simp: ok_iff)
  have "check_p9 ref_numpy [] s = Inr 0" "check_p12 s = Inr 0"
    using summary_figures_counted [OF m s] by simp_all
  then obtain viol where viol: "check_invariants ref_numpy [] s = Inr viol" and hv: "\<exists>b. has_violations viol = Inr b"
    by (simp add: check_invariants_def violations_dict_simps)
  have "ok (res_bind (aggregate ref_numpy [] 22)
      (\<lambda>m. res_bind (build_attribution_rows ref_numpy [] m None BASELINE) attribution_content))" by code_simp
  then obtain rows ac where rows: "build_attribution_rows ref_numpy [] m None BASELINE = Inr rows"
    and ac: "attribution_content rows = Inr ac" by (auto simp: ok_iff m res_bind_eq_Inr_iff)
  obtain w where w: "write_summary (dict_set s ''invariant_violations'' (JDict viol)) path fs = Inr (w path fs)"
    for path fs using write_summary_ok [OF m s viol] by metis
  have nc: "\<not> is_combined_pretouch_posttouch BASELINE" by code_simp
  obtain b where b: "has_violations viol = Inr b" using hv by blast
  have "run_completed ref_numpy ''research'' BASELINE sample_config None None cid snap ?ref ?fs
      = (Inr (completed_result ''research'' cid (None, None)), fs'')"
    if "fs'' = ((w (get_summary_path ''research'' cid) (?fs(get_ledger_path ''research'' cid \<mapsto> c)))
        (get_attribution_path ''research'' cid \<mapsto> ac))(get_snapshot_path ''research'' cid \<mapsto> snapshot_to_json snap)" for fs''
    unfolding run_completed_def that Let_def
    by (simp add: io_bind_def io_res_def io_writer_def io_return_def write_snapshot_def write_ledger_def
        write_attribution_def wf c m s viol b w rows ac nc)
  then show thesis
    using that [of "completed_result ''research'' cid (None, None)"]
    by (simp add: run_pipeline_def try_validate_def v cid snap gate hist io_bind_def io_res_def io_read_def
        completed_result_def)
qed

theorem no_loader_no_trades_witness:
  "\<exists>r fs'. run_pipeline ref_numpy ''research'' BASELINE sample_config None None
       [''events.csv'' \<mapsto> sample_history] = (Inr r, fs')
     \<and> fs' (get_ledger_path ''research'' (res_candidate_id r)) = Some (str_join '','' LEDGER_HEADER @ nl)"
proof (rule sample_completed)
  fix r fs'
  assume run: "run_pipeline ref_numpy ''research'' BASELINE sample_config None None
      [''events.csv'' \<mapsto> sample_history] = (Inr r, fs')" "res_status r = ''completed''"
  show ?thesis using no_loader_no_trades [OF run] run(1) by blast
qed

end
